(* ===== verification/Prelude.thy ===== *)
theory Prelude
  imports Main "HOL-Library.Word" "HOL-Library.Sublist"
begin

text \<open>
  Shared vocabulary of the development: the machine types of the C sources
  (u8, u16, u32 and u64 as words), the outcome type of operations that
  may leave an array or not return, byte-level access to memory (memcpy,
  memset, little-endian loads and stores) and the generic list and word lemmas
  that the component theories use through the simpset or the collections below.
\<close>

unbundle bit_operations_syntax

named_theorems mem_simps \<open>memcpy, memset and slices of byte lists\<close>
named_theorems res_simps \<open>the outcome monad\<close>

section \<open>Machine types\<close>

type_synonym u8 = "8 word"
type_synonym u16 = "16 word"
type_synonym u32 = "32 word"
type_synonym u64 = "64 word"
type_synonym bytes = "u8 list"

section \<open>Outcomes\<close>

text \<open>
  A C function that indexes outside an array has no defined result, and one
  whose recursion is not bounded may never return. Both are explicit values:
  Inl OutOfBounds, and Inl OutOfFuel for a run that needs
  more recursive calls than the fuel it was given. AssertFailed is a failed assert,
  NullPointer an access through a null pointer, DivByZero a division by zero and
  Halted a call of a function that stops the processor.
\<close>

datatype fault = OutOfBounds | OutOfFuel | AssertFailed | NullPointer | DivByZero | Halted

definition res_bind :: "fault + 'a \<Rightarrow> ('a \<Rightarrow> fault + 'b) \<Rightarrow> fault + 'b" where
  "res_bind m f = (case m of Inl e \<Rightarrow> Inl e | Inr x \<Rightarrow> f x)"

lemma res_bind_simps [simp, res_simps]:
  "res_bind (Inl e) f = Inl e"
  "res_bind (Inr x) f = f x"
  by (simp_all add: res_bind_def)

lemma res_bind_eq_Inr [res_simps]:
  "res_bind m f = Inr y \<longleftrightarrow> (\<exists>x. m = Inr x \<and> f x = Inr y)"
  by (cases m) simp_all

lemma res_bind_cong [fundef_cong]:
  assumes "m = m'" and "\<And>x. m' = Inr x \<Longrightarrow> f x = g x"
  shows "res_bind m f = res_bind m' g"
  using assms by (cases m') simp_all

section \<open>Memory\<close>

text \<open>
  memcpy dst off src is memcpy(dst + off, src, len) with
  src the bytes copied, memset dst off v n is
  memset(dst + off, v, n), and slice off n buf the bytes
  buf[off .. off + n).
\<close>

definition memcpy :: "'a list \<Rightarrow> nat \<Rightarrow> 'a list \<Rightarrow> 'a list" where
  "memcpy dst off src = take off dst @ src @ drop (off + length src) dst"

definition memset :: "'a list \<Rightarrow> nat \<Rightarrow> 'a \<Rightarrow> nat \<Rightarrow> 'a list" where
  "memset dst off v n = memcpy dst off (replicate n v)"

definition slice :: "nat \<Rightarrow> nat \<Rightarrow> 'a list \<Rightarrow> 'a list" where
  "slice off n buf = take n (drop off buf)"

lemma length_memcpy [simp, mem_simps]:
  "off + length src \<le> length dst \<Longrightarrow> length (memcpy dst off src) = length dst"
  by (simp add: memcpy_def)

lemma length_memset [simp, mem_simps]:
  "off + n \<le> length dst \<Longrightarrow> length (memset dst off v n) = length dst"
  by (simp add: memset_def)

lemma length_slice [simp, mem_simps]: "length (slice off n buf) = min n (length buf - off)"
  by (simp add: slice_def)

lemma nth_memcpy [mem_simps]:
  assumes "off + length src \<le> length dst" and "i < length dst"
  shows "memcpy dst off src ! i
       = (if off \<le> i \<and> i < off + length src then src ! (i - off) else dst ! i)"
  using assms by (auto simp: memcpy_def nth_append)

lemma nth_slice [mem_simps]: "off + i < length buf \<Longrightarrow> i < n \<Longrightarrow> slice off n buf ! i = buf ! (off + i)"
  by (simp add: slice_def)

lemma slice_memcpy_same [simp, mem_simps]:
  "off \<le> length dst \<Longrightarrow> slice off (length src) (memcpy dst off src) = src"
  by (simp add: slice_def memcpy_def)

lemma memcpy_0_full [simp, mem_simps]: "length src = length dst \<Longrightarrow> memcpy dst 0 src = src"
  by (simp add: memcpy_def)

lemma memcpy_memcpy:
  assumes "off + length x + length y \<le> length buf"
  shows "memcpy (memcpy buf off x) (off + length x) y = memcpy buf off (x @ y)"
  using assms by (simp add: memcpy_def add.commute add.left_commute)

lemma slice_append_right [simp, mem_simps]: "length xs = off \<Longrightarrow> slice off n (xs @ ys) = take n ys"
  by (simp add: slice_def)

lemma slice_0 [simp, mem_simps]: "slice 0 n xs = take n xs"
  by (simp add: slice_def)

lemma slice_slice_append [mem_simps]:
  "a \<le> n \<Longrightarrow> slice off a buf @ slice (off + a) (n - a) buf = slice off n buf"
  unfolding slice_def by (metis add.commute drop_drop le_add_diff_inverse take_add)

section \<open>Little-endian integers\<close>

definition le16 :: "u16 \<Rightarrow> bytes" where
  "le16 w = [ucast w, ucast (drop_bit 8 w)]"

definition rd16 :: "bytes \<Rightarrow> u16" where
  "rd16 b = ucast (b ! 0) OR push_bit 8 (ucast (b ! 1))"

definition le32 :: "u32 \<Rightarrow> bytes" where
  "le32 w = [ucast w, ucast (drop_bit 8 w), ucast (drop_bit 16 w), ucast (drop_bit 24 w)]"

definition rd32 :: "bytes \<Rightarrow> u32" where
  "rd32 b = ucast (b ! 0) OR push_bit 8 (ucast (b ! 1))
            OR push_bit 16 (ucast (b ! 2)) OR push_bit 24 (ucast (b ! 3))"

lemma length_le [simp]: "length (le16 w) = 2" "length (le32 v) = 4"
  by (simp_all add: le16_def le32_def)

lemma rd16_le16 [simp]: "rd16 (le16 w) = w"
  unfolding rd16_def le16_def
  by (rule bit_word_eqI) (auto simp: bit_simps)

lemma rd32_le32 [simp]: "rd32 (le32 w) = w"
proof (rule bit_word_eqI)
  fix n assume "n < LENGTH(32)"
  then consider "n < 8" | "8 \<le> n \<and> n < 16" | "16 \<le> n \<and> n < 24" | "24 \<le> n \<and> n < 32"
    by fastforce
  then show "bit (rd32 (le32 w)) n = bit w n"
    by cases (auto simp: rd32_def le32_def bit_simps)
qed

lemma rd16_le16_append [simp]: "rd16 (le16 w @ xs) = w"
  using rd16_le16[of w] by (simp add: rd16_def le16_def)

lemma rd32_le32_append [simp]: "rd32 (le32 w @ xs) = w"
  using rd32_le32[of w] by (simp add: rd32_def le32_def)

definition le64 :: "u64 \<Rightarrow> bytes" where
  "le64 w = le32 (ucast w) @ le32 (ucast (drop_bit 32 w))"

definition rd64 :: "bytes \<Rightarrow> u64" where
  "rd64 b = ucast (rd32 b) OR push_bit 32 (ucast (rd32 (drop 4 b)))"

definition rd_be32 :: "bytes \<Rightarrow> u32" where
  "rd_be32 b = rd32 [b ! 3, b ! 2, b ! 1, b ! 0]"

lemma length_le64 [simp]: "length (le64 w) = 8"
  by (simp add: le64_def)

lemma rd64_le64_append [simp]: "rd64 (le64 w @ xs) = w"
  unfolding rd64_def le64_def by (simp, rule bit_word_eqI) (auto simp: bit_simps)

text \<open>A memory access that is checked against the end of the buffer.\<close>

definition rd_at :: "(bytes \<Rightarrow> 'a) \<Rightarrow> nat \<Rightarrow> bytes \<Rightarrow> nat \<Rightarrow> fault + 'a" where
  "rd_at rd n mem off = (if off + n \<le> length mem then Inr (rd (slice off n mem)) else Inl OutOfBounds)"

section \<open>Searching tables\<close>

text \<open>
  The tables of the program are searched front to back; find_index
  is the position of the first hit.
\<close>

fun find_index :: "('a \<Rightarrow> bool) \<Rightarrow> 'a list \<Rightarrow> nat option" where
  "find_index P [] = None"
| "find_index P (x # xs) = (if P x then Some 0 else map_option Suc (find_index P xs))"

lemma find_index_None: "find_index P xs = None \<longleftrightarrow> (\<forall>x\<in>set xs. \<not> P x)"
  by (induction xs) auto

lemma find_index_Some:
  "find_index P xs = Some i \<longleftrightarrow> i < length xs \<and> P (xs ! i) \<and> (\<forall>j<i. \<not> P (xs ! j))"
  by (induction xs arbitrary: i) (auto simp: less_Suc_eq_0_disj nth_Cons split: nat.splits)

lemma find_index_lt: "find_index P xs = Some i \<Longrightarrow> i < length xs"
  by (simp add: find_index_Some)

lemma find_index_case_const:
  "(case find_index P xs of None \<Rightarrow> a | Some i \<Rightarrow> b) = (if \<exists>x\<in>set xs. P x then b else a)"
proof (cases "find_index P xs")
  case None
  with find_index_None[of P xs] show ?thesis by auto
next
  case (Some i)
  then have "\<exists>x\<in>set xs. P x" using find_index_Some[of P xs i] nth_mem by blast
  with Some show ?thesis by simp
qed

lemma find_indexE:
  assumes "find_index P xs = Some i"
  obtains "i < length xs" "xs ! i \<in> set xs" "P (xs ! i)"
  using assms by (auto simp: find_index_Some)

section \<open>Words\<close>

lemma unat_of_nat_small [simp]: "n < 2 ^ LENGTH('a) \<Longrightarrow> unat (of_nat n :: 'a::len word) = n"
  by (simp add: unat_of_nat take_bit_eq_mod)

lemma of_nat_unat_id: "of_nat (unat w) = (w :: 'a::len word)"
  by simp

lemma inj_on_unat [simp]: "inj_on unat (A :: 'a::len word set)"
  by (simp add: inj_on_def word_unat_eq_iff)

lemma unat_u16_lt [simp]: "unat (w :: u16) < 65536"
  using unsigned_less[of w] by simp

lemma unat_u8_lt [simp]: "unat (w :: u8) < 256"
  using unsigned_less[of w] by simp

lemma xor_cancel: "a XOR b = a XOR c \<Longrightarrow> b = (c :: 'a::len word)" "b XOR a = c XOR a \<Longrightarrow> b = (c :: 'a::len word)"
proof -
  show *: "b = c" if eq: "a XOR b = a XOR c" for b c :: "'a word"
  proof (rule bit_word_eqI)
    fix n
    have "bit (a XOR b) n = bit (a XOR c) n" unfolding eq ..
    then show "bit b n = bit c n" unfolding bit_xor_iff by blast
  qed
  show "b XOR a = c XOR a \<Longrightarrow> b = c" using *[of b c] by (simp add: xor.commute)
qed

lemma and_FF [simp]: "(0xFF :: u8) AND w = w" "w AND (0xFF :: u8) = w"
proof -
  have "(0xFF :: u8) = -1" by simp
  then show "(0xFF :: u8) AND w = w" "w AND (0xFF :: u8) = w" by (metis (no_types) and.left_neutral and.commute)+
qed

lemma round_up_bounds:
  assumes "0 < (p :: nat)" "k = (n + p - 1) div p" shows "k * p < n + p" "n \<le> k * p"
proof -
  have "k * p + (n + p - 1) mod p = n + p - 1" using assms(2) by (simp add: div_mult_mod_eq)
  moreover have "(n + p - 1) mod p < p" using assms(1) by simp
  ultimately show "k * p < n + p" "n \<le> k * p" using assms(1) by linarith+
qed

text \<open>A length rounded up to a multiple of p.\<close>

definition round_up :: "nat \<Rightarrow> nat \<Rightarrow> nat" where
  "round_up p n = (n + p - 1) div p * p"

lemma round_up_ge: "0 < p \<Longrightarrow> n \<le> round_up p n"
  using round_up_bounds(2)[of p _ n] by (simp add: round_up_def)

lemma round_up_mod [simp]: "round_up p n mod p = 0"
  by (simp add: round_up_def)

lemma round_up_multiple:
  assumes "0 < p" "n mod p = 0" shows "round_up p n = n"
proof -
  have n: "n div p * p = n" using assms(2) by (metis add.right_neutral div_mult_mod_eq)
  have "(n div p * p + (p - 1)) div p = n div p" using assms(1) by (metis add.right_neutral diff_less div_less div_mult_self3 less_numeral_extra(1) less_numeral_extra(3))
  then have "(n + (p - 1)) div p = n div p" unfolding n .
  then show ?thesis using assms(1) n by (simp add: round_up_def)
qed

section \<open>Retry loops\<close>

text \<open>
  Several writers of the program repeat an attempt until it succeeds or
  there is nothing left to try, by calling themselves. An attempt ends the
  loop with a result (Inl) or asks for another one from a new state (Inr). When
  every repetition keeps an invariant and decreases a measure, the loop returns
  within that many calls, and what it returns satisfies the postcondition.
\<close>

locale retry_loop =
  fixes attempt :: "'s \<Rightarrow> 'r + 's" and loop :: "nat \<Rightarrow> 's \<Rightarrow> fault + 'r"
    and inv :: "'s \<Rightarrow> bool" and left :: "'s \<Rightarrow> nat" and post :: "'s \<Rightarrow> 'r \<Rightarrow> bool"
  assumes loop_Suc: "loop (Suc n) s = (case attempt s of Inl r \<Rightarrow> Inr r | Inr s' \<Rightarrow> loop n s')"
    and attempt_done: "inv s \<Longrightarrow> attempt s = Inl r \<Longrightarrow> post s r"
    and attempt_again: "inv s \<Longrightarrow> attempt s = Inr s' \<Longrightarrow> inv s' \<and> left s' < left s"
    and post_again: "inv s \<Longrightarrow> attempt s = Inr s' \<Longrightarrow> post s' r \<Longrightarrow> post s r"
begin

lemma loop_returns:
  assumes "inv s" "left s < fuel"
  shows "\<exists>r. loop fuel s = Inr r \<and> post s r"
  using assms
proof (induction fuel arbitrary: s)
  case (Suc n)
  show ?case
  proof (cases "attempt s")
    case (Inl r)
    then show ?thesis using attempt_done[OF Suc.prems(1)] by (simp add: loop_Suc)
  next
    case (Inr s')
    then have "inv s'" "left s' < n" using attempt_again[OF Suc.prems(1) Inr] Suc.prems(2) by auto
    then obtain r where "loop n s' = Inr r" "post s' r" using Suc.IH by blast
    then show ?thesis using post_again[OF Suc.prems(1) Inr] Inr by (auto simp: loop_Suc)
  qed
qed simp

end

end
