(* ===== verification/Nand_Chip.thy ===== *)
theory Nand_Chip
  imports Prelude
begin

text \<open>
  The NAND flash as the bootloader sees it: the page and block primitives of
  drivers/mtd/chips/spi_nand_flash.c (spi\_nand\_read\_page with its one-page
  read cache, spi\_nand\_write\_page, spi\_nand\_erase\_block) and the five en7512\_nand
  entry points through which the bad-block manager reaches them.

  The chip itself is hardware. Its array is a pair of maps from page numbers
  to data and spare (OOB) bytes; programming clears bits (old AND new), erasing
  sets a block to 0xFF, and whether an operation fails is decided by the
  oracles of the configuration, which are arbitrary functions of a clock that
  ticks at every physical operation: faults may come and go, and a
  failing program or erase leaves arbitrary bytes behind. The controller runs
  in the DMA mode with automatic FDM and the one-time-programmable area is not
  selected. hw\_ecc\_decode says whether the controller's ECC engine decodes reads and
  ecc\_status\_ok what its status register then reports. Chips with the blank-page fix-up or
  with the ECC threshold check are not covered.
\<close>

section \<open>Return codes, configuration and device state\<close>

datatype SPI_NAND_FLASH_RTN_T =
    RTN_NO_ERROR | RTN_PROBE_ERROR | RTN_ALIGNED_CHECK_FAIL | RTN_DETECTED_BAD_BLOCK
  | RTN_ERASE_FAIL | RTN_PROGRAM_FAIL | RTN_NFI_FAIL | RTN_ECC_DECODE_FAIL | RTN_TIMEOUT

text \<open>
  Geometry and features of the probed chip (SPI\_NAND\_FLASH\_INFO\_T and the
  shifts of ra\_nand\_chip), and the fault oracles of the hardware.
\<close>

record nand_cfg =
  page_shift :: nat
  erase_shift :: nat
  chip_shift :: nat
  oob_shift :: nat
  oob_reserve_for_bmt :: bool
  read_status :: "nat \<Rightarrow> nat \<Rightarrow> SPI_NAND_FLASH_RTN_T"
  prog_fault :: "nat \<Rightarrow> nat \<Rightarrow> (bytes \<times> bytes) option"
  erase_fault :: "nat \<Rightarrow> nat \<Rightarrow> (nat \<Rightarrow> bytes \<times> bytes) option"
  hw_ecc_decode :: bool
  ecc_status_ok :: "nat \<Rightarrow> bool"
  test_write_fail_flag :: bool

definition page_size :: "nand_cfg \<Rightarrow> nat" where "page_size C = 2 ^ page_shift C"
definition erase_size :: "nand_cfg \<Rightarrow> nat" where "erase_size C = 2 ^ erase_shift C"
definition device_size :: "nand_cfg \<Rightarrow> nat" where "device_size C = 2 ^ chip_shift C"
definition oob_size :: "nand_cfg \<Rightarrow> nat" where "oob_size C = 2 ^ oob_shift C"
definition pages_per_block :: "nand_cfg \<Rightarrow> nat" where
  "pages_per_block C = erase_size C div page_size C"

record nand_dev =
  flash_data :: "nat \<Rightarrow> bytes"
  flash_oob :: "nat \<Rightarrow> bytes"
  clock :: nat
  current_page_num :: "nat option"
  cache_page_data :: bytes
  cache_page_oob_mapping :: bytes

section \<open>Page and block primitives\<close>

definition SPI_NAND_Flash_Clear_Read_Cache_Data :: "nand_dev \<Rightarrow> nand_dev" where
  "SPI_NAND_Flash_Clear_Read_Cache_Data d = d\<lparr>current_page_num := None\<rparr>"

text \<open>
  A page that is already in the cache is not read again, whatever the status
  of the read that put it there.
\<close>

definition spi_nand_read_page ::
  "nand_cfg \<Rightarrow> nat \<Rightarrow> nand_dev \<Rightarrow> SPI_NAND_FLASH_RTN_T \<times> nand_dev" where
  "spi_nand_read_page C page d =
    (if current_page_num d = Some page then (RTN_NO_ERROR, d)
     else (read_status C (clock d) page,
           d\<lparr>clock := Suc (clock d), current_page_num := Some page,
             cache_page_data := flash_data d page,
             cache_page_oob_mapping := flash_oob d page\<rparr>))"

definition program_bits :: "bytes \<Rightarrow> bytes \<Rightarrow> bytes" where
  "program_bits old new = map2 (\<lambda>a b. a AND b) old new"

text \<open>
  The page buffer keeps its old bytes before data\_offset, receives the data, and
  is then filled with 0xFF from index data\_len (sic, not data\_offset + data\_len).
\<close>

definition write_page_buffer :: "nand_cfg \<Rightarrow> bytes \<Rightarrow> nat \<Rightarrow> bytes \<Rightarrow> bytes" where
  "write_page_buffer C cache data_offset dat =
    (if dat \<noteq> [] then
       memset (memcpy cache data_offset dat) (length dat) 0xFF (page_size C - length dat)
     else cache)"

definition write_page_oob :: "nand_cfg \<Rightarrow> bytes \<Rightarrow> bytes \<Rightarrow> bytes" where
  "write_page_oob C cache oob =
    (if oob \<noteq> [] then memset (memcpy cache 0 oob) (length oob) 0xFF (oob_size C - length oob)
     else cache)"

definition spi_nand_write_page ::
  "nand_cfg \<Rightarrow> nat \<Rightarrow> nat \<Rightarrow> bytes \<Rightarrow> bytes \<Rightarrow> nand_dev \<Rightarrow> SPI_NAND_FLASH_RTN_T \<times> nand_dev" where
  "spi_nand_write_page C page data_offset dat oob d =
    (let cd = write_page_buffer C (cache_page_data d) data_offset dat;
         co = write_page_oob C (cache_page_oob_mapping d) oob;
         d' = d\<lparr>clock := Suc (clock d), current_page_num := None,
                cache_page_data := cd, cache_page_oob_mapping := co\<rparr>
     in case prog_fault C (clock d) page of
          None \<Rightarrow> (RTN_NO_ERROR,
                   d'\<lparr>flash_data := (flash_data d)(page := program_bits (flash_data d page) cd),
                      flash_oob := (flash_oob d)(page := program_bits (flash_oob d page) co)\<rparr>)
        | Some (jd, jo) \<Rightarrow> (RTN_PROGRAM_FAIL,
                   d'\<lparr>flash_data := (flash_data d)(page := jd),
                      flash_oob := (flash_oob d)(page := jo)\<rparr>))"

definition page_in_block :: "nand_cfg \<Rightarrow> nat \<Rightarrow> nat \<Rightarrow> bool" where
  "page_in_block C block page \<longleftrightarrow> page div pages_per_block C = block"

definition spi_nand_erase_block ::
  "nand_cfg \<Rightarrow> nat \<Rightarrow> nand_dev \<Rightarrow> SPI_NAND_FLASH_RTN_T \<times> nand_dev" where
  "spi_nand_erase_block C block d =
    (case erase_fault C (clock d) block of
       None \<Rightarrow> (RTN_NO_ERROR,
         d\<lparr>clock := Suc (clock d),
           flash_data := (\<lambda>p. if page_in_block C block p then replicate (page_size C) 0xFF
                              else flash_data d p),
           flash_oob := (\<lambda>p. if page_in_block C block p then replicate (oob_size C) 0xFF
                             else flash_oob d p)\<rparr>)
     | Some junk \<Rightarrow> (RTN_ERASE_FAIL,
         d\<lparr>clock := Suc (clock d),
           flash_data := (\<lambda>p. if page_in_block C block p then fst (junk p) else flash_data d p),
           flash_oob := (\<lambda>p. if page_in_block C block p then snd (junk p) else flash_oob d p)\<rparr>))"

section \<open>The en7512 entry points\<close>

definition en7512_nand_exec_read_page ::
  "nand_cfg \<Rightarrow> nat \<Rightarrow> bytes \<Rightarrow> bytes \<Rightarrow> nand_dev \<Rightarrow> int \<times> bytes \<times> bytes \<times> nand_dev" where
  "en7512_nand_exec_read_page C page dat oob d =
    (let (st, d') = spi_nand_read_page C page d
     in if st = RTN_NO_ERROR
        then (0, memcpy dat 0 (take (page_size C) (cache_page_data d')),
                 memcpy oob 0 (take (oob_size C) (cache_page_oob_mapping d')), d')
        else (-1, dat, oob, d'))"

text \<open>Addresses of the memory-mapped boot window are folded back to flash offsets.\<close>

definition fold_window :: "nat \<Rightarrow> nat" where
  "fold_window a =
    (if 0xbc000000 \<le> a \<and> a \<le> 0xbfffffff then
       (if a AND 0xbfc00000 = 0xbfc00000 then a AND 0x003fffff else a AND 0x03ffffff)
     else a)"

text \<open>
  BMT\_BAD\_BLOCK\_INDEX\_OFFSET is 1 and the first free byte of
  ooblayout\_feature7 is 8. With the OOB\_RESERVE\_FOR\_BMT feature the C code
  assigns 0 to the cached byte and takes the assigned value as the mark.
\<close>

definition BMT_BAD_BLOCK_INDEX_OFFSET :: nat where "BMT_BAD_BLOCK_INDEX_OFFSET = 1"
definition ooblayout_feature7_offset :: nat where "ooblayout_feature7_offset = 8"

definition en7512_nand_check_block_bad ::
  "nand_cfg \<Rightarrow> nat \<Rightarrow> bool \<Rightarrow> nand_dev \<Rightarrow> int \<times> nand_dev" where
  "en7512_nand_check_block_bad C offset bmt_block d =
    (let page_number = fold_window offset div page_size C;
         (st, d1) = spi_nand_read_page C page_number (SPI_NAND_Flash_Clear_Read_Cache_Data d)
     in if bmt_block then
          (if oob_reserve_for_bmt C then
             (1, d1\<lparr>cache_page_oob_mapping := (cache_page_oob_mapping d1)[ooblayout_feature7_offset := 0]\<rparr>)
           else if cache_page_oob_mapping d1 ! BMT_BAD_BLOCK_INDEX_OFFSET \<noteq> 0xFF then (1, d1)
           else (0, d1))
        else if cache_page_oob_mapping d1 ! 0 \<noteq> 0xFF then (1, d1)
        else (0, d1))"

definition en7512_nand_erase :: "nand_cfg \<Rightarrow> nat \<Rightarrow> nand_dev \<Rightarrow> int \<times> nand_dev" where
  "en7512_nand_erase C offset d =
    (let (st, d') = spi_nand_erase_block C (offset div erase_size C)
                      (SPI_NAND_Flash_Clear_Read_Cache_Data d)
     in (if st = RTN_NO_ERROR then 0 else -1, d'))"

text \<open>
  The mark is eight OOB bytes with one of them zero. With the feature of
  ooblayout\_feature7 the index is 8, one past the local buffer, so no byte of
  the buffer is cleared.
\<close>

definition mark_oob :: "nand_cfg \<Rightarrow> bool \<Rightarrow> bytes" where
  "mark_oob C bmt_block =
    (let buf = replicate 8 0xFF
     in if bmt_block then
          (if oob_reserve_for_bmt C then buf[ooblayout_feature7_offset := 0]
           else buf[BMT_BAD_BLOCK_INDEX_OFFSET := 0])
        else buf[0 := 0])"

definition en7512_nand_mark_badblock :: "nand_cfg \<Rightarrow> nat \<Rightarrow> bool \<Rightarrow> nand_dev \<Rightarrow> int \<times> nand_dev" where
  "en7512_nand_mark_badblock C offset bmt_block d =
    (let page_number = ((offset div erase_size C) * erase_size C) div page_size C;
         d1 = snd (spi_nand_erase_block C (offset div erase_size C) d);
         (st, d2) = spi_nand_write_page C page_number 0 [] (mark_oob C bmt_block) d1
     in (if st = RTN_NO_ERROR then 0 else -1, d2))"

definition en7512_nand_exec_write_page ::
  "nand_cfg \<Rightarrow> nat \<Rightarrow> bytes \<Rightarrow> bytes \<Rightarrow> nand_dev \<Rightarrow> int \<times> nand_dev" where
  "en7512_nand_exec_write_page C page dat oob d =
    (let (st, d') = spi_nand_write_page C page 0 (take (page_size C) dat) (take (oob_size C) oob) d
     in (if st = RTN_NO_ERROR then 0 else -1, d'))"

section \<open>Well-formed geometries and devices\<close>

definition wf_cfg :: "nand_cfg \<Rightarrow> bool" where
  "wf_cfg C \<longleftrightarrow> 10 \<le> page_shift C \<and> page_shift C \<le> 12 \<and> page_shift C \<le> erase_shift C
     \<and> erase_shift C \<le> chip_shift C \<and> chip_shift C \<le> 30 \<and> 3 \<le> oob_shift C \<and> oob_shift C \<le> 8
     \<and> \<not> oob_reserve_for_bmt C"

definition wf_faults :: "nand_cfg \<Rightarrow> bool" where
  "wf_faults C \<longleftrightarrow>
     (\<forall>t p jd jo. prog_fault C t p = Some (jd, jo) \<longrightarrow> length jd = page_size C \<and> length jo = oob_size C)
     \<and> (\<forall>t b j p. erase_fault C t b = Some j \<longrightarrow>
            length (fst (j p)) = page_size C \<and> length (snd (j p)) = oob_size C)"

definition wf_arr :: "nand_cfg \<Rightarrow> nand_dev \<Rightarrow> bool" where
  "wf_arr C d \<longleftrightarrow> wf_cfg C \<and> wf_faults C
     \<and> (\<forall>p. length (flash_data d p) = page_size C) \<and> (\<forall>p. length (flash_oob d p) = oob_size C)
     \<and> length (cache_page_data d) = page_size C \<and> length (cache_page_oob_mapping d) = oob_size C"

text \<open>The read cache holds what the array holds for the page it names.\<close>

definition cache_coherent :: "nand_dev \<Rightarrow> bool" where
  "cache_coherent d \<longleftrightarrow> (\<forall>p. current_page_num d = Some p \<longrightarrow>
     cache_page_data d = flash_data d p \<and> cache_page_oob_mapping d = flash_oob d p)"

definition wf_dev :: "nand_cfg \<Rightarrow> nand_dev \<Rightarrow> bool" where
  "wf_dev C d \<longleftrightarrow> wf_arr C d \<and> cache_coherent d"

lemmas wf_dev_defs = wf_dev_def wf_arr_def cache_coherent_def

lemma wf_dev_cfg: "wf_dev C d \<Longrightarrow> wf_cfg C" "wf_arr C d \<Longrightarrow> wf_cfg C"
  by (simp_all add: wf_dev_defs)

definition block_total :: "nand_cfg \<Rightarrow> nat" where
  "block_total C = device_size C div erase_size C"

lemma sizes_pos [simp]: "0 < page_size C" "0 < erase_size C" "0 < oob_size C" "0 < device_size C"
  by (simp_all add: page_size_def erase_size_def oob_size_def device_size_def)

lemma pages_per_block_eq:
  assumes "wf_cfg C" shows "erase_size C = pages_per_block C * page_size C" "0 < pages_per_block C"
proof -
  have "page_shift C \<le> erase_shift C" using assms by (simp add: wf_cfg_def)
  then have "page_size C dvd erase_size C"
    by (simp add: page_size_def erase_size_def le_imp_power_dvd)
  then show eq: "erase_size C = pages_per_block C * page_size C"
    by (simp add: pages_per_block_def)
  show "0 < pages_per_block C" using eq sizes_pos(2)[of C] by (cases "pages_per_block C") auto
qed

lemma block_total_eq:
  assumes "wf_cfg C" shows "block_total C * erase_size C = device_size C"
proof -
  have "erase_size C dvd device_size C"
    using assms by (simp add: wf_cfg_def erase_size_def device_size_def le_imp_power_dvd)
  then show ?thesis by (simp add: block_total_def)
qed

lemma device_size_le: "wf_cfg C \<Longrightarrow> device_size C \<le> 2 ^ 30"
  unfolding wf_cfg_def device_size_def by (meson one_le_numeral power_increasing)

lemma block_offset_lt:
  assumes "wf_cfg C" "b < block_total C" shows "b * erase_size C < 0xbc000000"
proof -
  have "b * erase_size C < device_size C"
    using block_total_eq[OF assms(1)] assms(2) mult_less_mono1[OF assms(2), of "erase_size C"] by simp
  also have "\<dots> \<le> 2 ^ 30" using device_size_le[OF assms(1)] .
  finally show ?thesis by simp
qed

lemma fold_window_id [simp]: "a < 0xbc000000 \<Longrightarrow> fold_window a = a"
  by (simp add: fold_window_def)

lemma offset_div_page:
  assumes "wf_cfg C" shows "b * erase_size C div page_size C = b * pages_per_block C"
  using pages_per_block_eq[OF assms] by (simp add: mult.assoc[symmetric])

lemma first_page_in_block [simp]:
  "wf_cfg C \<Longrightarrow> page_in_block C b (b * pages_per_block C)"
  "wf_cfg C \<Longrightarrow> i < pages_per_block C \<Longrightarrow> page_in_block C b (b * pages_per_block C + i)"
  using pages_per_block_eq(2)[of C] by (simp_all add: page_in_block_def)

section \<open>Marks and erased blocks\<close>

definition mark_byte :: "bool \<Rightarrow> nat" where "mark_byte k = (if k then BMT_BAD_BLOCK_INDEX_OFFSET else 0)"

definition block_marked :: "nand_cfg \<Rightarrow> nand_dev \<Rightarrow> nat \<Rightarrow> bool \<Rightarrow> bool" where
  "block_marked C d b k \<longleftrightarrow> flash_oob d (b * pages_per_block C) ! mark_byte k \<noteq> 0xFF"

definition block_erased :: "nand_cfg \<Rightarrow> nand_dev \<Rightarrow> nat \<Rightarrow> bool" where
  "block_erased C d b \<longleftrightarrow> (\<forall>p. page_in_block C b p \<longrightarrow>
     flash_data d p = replicate (page_size C) 0xFF \<and> flash_oob d p = replicate (oob_size C) 0xFF)"

text \<open>Two devices with the same array: they differ in cache and clock only.\<close>

definition same_array :: "nand_dev \<Rightarrow> nand_dev \<Rightarrow> bool" where
  "same_array d d' \<longleftrightarrow> flash_data d' = flash_data d \<and> flash_oob d' = flash_oob d"

text \<open>The array outside block b is untouched.\<close>

definition same_outside :: "nand_cfg \<Rightarrow> nat \<Rightarrow> nand_dev \<Rightarrow> nand_dev \<Rightarrow> bool" where
  "same_outside C b d d' \<longleftrightarrow> (\<forall>p. \<not> page_in_block C b p \<longrightarrow>
      flash_data d' p = flash_data d p \<and> flash_oob d' p = flash_oob d p)"

lemma oob_size_ge8: "wf_cfg C \<Longrightarrow> 8 \<le> oob_size C"
  using power_increasing[of 3 "oob_shift C" "2::nat"] by (simp add: wf_cfg_def oob_size_def)

lemma erased_not_marked:
  assumes "wf_cfg C" "block_erased C d b" shows "\<not> block_marked C d b k"
  using assms oob_size_ge8[OF assms(1)]
  by (auto simp: block_erased_def block_marked_def mark_byte_def BMT_BAD_BLOCK_INDEX_OFFSET_def)

lemma marked_same_array: "same_array d d' \<Longrightarrow> block_marked C d' b k = block_marked C d b k"
  by (simp add: same_array_def block_marked_def)

lemma marked_same_outside:
  "wf_cfg C \<Longrightarrow> same_outside C b d d' \<Longrightarrow> b' \<noteq> b \<Longrightarrow> block_marked C d' b' k = block_marked C d b' k"
  by (simp add: same_outside_def block_marked_def page_in_block_def pages_per_block_eq)

lemma erased_same_outside:
  "same_outside C b d d' \<Longrightarrow> b' \<noteq> b \<Longrightarrow> block_erased C d' b' = block_erased C d b'"
  by (auto simp: same_outside_def block_erased_def page_in_block_def)

lemma FF_minus_1: "(0xFF :: u8) = -1"
  by simp

lemma program_bits_FF [simp]:
  "length new = n \<Longrightarrow> program_bits (replicate n 0xFF) new = new"
proof -
  have *: "(0xFF :: u8) AND w = w" for w
    by (metis (no_types) FF_minus_1 and.left_neutral)
  show "length new = n \<Longrightarrow> ?thesis"
    by (induction new arbitrary: n) (auto simp: program_bits_def * zip_Cons1)
qed

lemma length_program_bits [simp]: "length (program_bits a b) = min (length a) (length b)"
  by (simp add: program_bits_def)

section \<open>Contracts of the primitives\<close>

lemma read_page_array: "same_array d (snd (spi_nand_read_page C p d))"
  by (simp add: spi_nand_read_page_def same_array_def)

lemma read_page_wf: "wf_dev C d \<Longrightarrow> wf_dev C (snd (spi_nand_read_page C p d))"
  by (auto simp: spi_nand_read_page_def wf_dev_defs)

lemma clear_cache_simps [simp]:
  "flash_data (SPI_NAND_Flash_Clear_Read_Cache_Data d) = flash_data d"
  "flash_oob (SPI_NAND_Flash_Clear_Read_Cache_Data d) = flash_oob d"
  "clock (SPI_NAND_Flash_Clear_Read_Cache_Data d) = clock d"
  "current_page_num (SPI_NAND_Flash_Clear_Read_Cache_Data d) = None"
  "wf_dev C (SPI_NAND_Flash_Clear_Read_Cache_Data d) = wf_arr C d"
  "wf_arr C (SPI_NAND_Flash_Clear_Read_Cache_Data d) = wf_arr C d"
  by (simp_all add: SPI_NAND_Flash_Clear_Read_Cache_Data_def wf_dev_defs)

lemma check_block_bad_spec:
  assumes "wf_dev C d" and "b < block_total C"
  shows "(fst (en7512_nand_check_block_bad C (b * erase_size C) k d) \<noteq> 0) = block_marked C d b k"
proof -
  have cfg: "wf_cfg C" "\<not> oob_reserve_for_bmt C" using assms by (auto simp: wf_dev_defs wf_cfg_def)
  have "fold_window (b * erase_size C) div page_size C = b * pages_per_block C"
    using fold_window_id[OF block_offset_lt[OF cfg(1) assms(2)]] offset_div_page[OF cfg(1)] by simp
  with cfg show ?thesis
    by (auto simp: en7512_nand_check_block_bad_def spi_nand_read_page_def block_marked_def
        mark_byte_def Let_def split: prod.splits)
qed

lemma check_block_bad_array:
  "same_array d (snd (en7512_nand_check_block_bad C off k d))"
  by (simp add: en7512_nand_check_block_bad_def spi_nand_read_page_def same_array_def Let_def)

lemma check_block_bad_wf:
  "wf_dev C d \<Longrightarrow> wf_dev C (snd (en7512_nand_check_block_bad C off k d))"
  by (simp add: en7512_nand_check_block_bad_def spi_nand_read_page_def wf_dev_defs wf_cfg_def Let_def)

lemma erase_block_outside: "same_outside C b d (snd (spi_nand_erase_block C b d))"
  by (auto simp: spi_nand_erase_block_def same_outside_def split: option.splits)

lemma erase_block_wf: "wf_arr C d \<Longrightarrow> wf_arr C (snd (spi_nand_erase_block C b d))"
  by (auto simp: spi_nand_erase_block_def wf_arr_def wf_faults_def split: option.splits)

lemma erase_block_clear_wf:
  "wf_arr C d \<Longrightarrow> wf_dev C (snd (spi_nand_erase_block C b (SPI_NAND_Flash_Clear_Read_Cache_Data d)))"
  using erase_block_wf[of C "SPI_NAND_Flash_Clear_Read_Cache_Data d" b]
  by (auto simp: spi_nand_erase_block_def wf_dev_def cache_coherent_def split: option.splits)

lemma erase_block_erases:
  "fst (spi_nand_erase_block C b d) = RTN_NO_ERROR \<Longrightarrow> block_erased C (snd (spi_nand_erase_block C b d)) b"
  by (auto simp: spi_nand_erase_block_def block_erased_def split: option.splits)

lemma write_page_outside:
  "page_in_block C b p \<Longrightarrow> same_outside C b d (snd (spi_nand_write_page C p off dat oob d))"
  by (auto simp: spi_nand_write_page_def same_outside_def Let_def split: option.splits)

lemma length_write_page_buffer:
  assumes "off + length dat \<le> page_size C" "length cache = page_size C"
  shows "length (write_page_buffer C cache off dat) = page_size C"
  using assms by (auto simp: write_page_buffer_def)

lemma length_write_page_oob:
  assumes "length oob \<le> oob_size C" "length cache = oob_size C"
  shows "length (write_page_oob C cache oob) = oob_size C"
  using assms by (auto simp: write_page_oob_def)

lemma write_page_wf:
  assumes "wf_arr C d" "off + length dat \<le> page_size C" "length oob \<le> oob_size C"
  shows "wf_dev C (snd (spi_nand_write_page C p off dat oob d))"
  using assms length_write_page_buffer[of off dat C "cache_page_data d"]
    length_write_page_oob[of oob C "cache_page_oob_mapping d"]
  by (auto simp: spi_nand_write_page_def wf_dev_defs wf_faults_def Let_def split: option.splits)

text \<open>Writing a whole page to an erased page stores exactly the data and spare bytes.\<close>

lemma write_page_stores:
  assumes "wf_dev C d" "length dat = page_size C" "length oob = oob_size C"
    and "flash_data d p = replicate (page_size C) 0xFF" "flash_oob d p = replicate (oob_size C) 0xFF"
    and "fst (spi_nand_write_page C p 0 dat oob d) = RTN_NO_ERROR"
  shows "flash_data (snd (spi_nand_write_page C p 0 dat oob d)) p = dat"
    and "flash_oob (snd (spi_nand_write_page C p 0 dat oob d)) p = oob"
    and "\<And>q. q \<noteq> p \<Longrightarrow> flash_data (snd (spi_nand_write_page C p 0 dat oob d)) q = flash_data d q
            \<and> flash_oob (snd (spi_nand_write_page C p 0 dat oob d)) q = flash_oob d q"
proof -
  have "dat \<noteq> []" "oob \<noteq> []" using assms(2,3) sizes_pos(1,3)[of C] by force+
  moreover have "length (cache_page_data d) = page_size C" "length (cache_page_oob_mapping d) = oob_size C"
    using assms(1) by (simp_all add: wf_dev_defs)
  ultimately show "flash_data (snd (spi_nand_write_page C p 0 dat oob d)) p = dat"
    "flash_oob (snd (spi_nand_write_page C p 0 dat oob d)) p = oob"
    "\<And>q. q \<noteq> p \<Longrightarrow> flash_data (snd (spi_nand_write_page C p 0 dat oob d)) q = flash_data d q
            \<and> flash_oob (snd (spi_nand_write_page C p 0 dat oob d)) q = flash_oob d q"
    using assms
    by (auto simp: spi_nand_write_page_def write_page_buffer_def write_page_oob_def memset_def
        memcpy_def Let_def split: option.splits)
qed

lemma mark_badblock_outside:
  assumes "wf_cfg C" shows "same_outside C b d (snd (en7512_nand_mark_badblock C (b * erase_size C) k d))"
proof -
  have p: "b * erase_size C div erase_size C * erase_size C div page_size C = b * pages_per_block C"
    using offset_div_page[OF assms] by simp
  show ?thesis
    using write_page_outside[OF first_page_in_block(1)[OF assms], of b]
      erase_block_outside[of C b d] offset_div_page[OF assms, of b]
    by (auto simp: en7512_nand_mark_badblock_def Let_def same_outside_def split: prod.splits)
      (metis (no_types) snd_conv)+
qed

lemma mark_badblock_wf:
  assumes "wf_arr C d" shows "wf_dev C (snd (en7512_nand_mark_badblock C off k d))"
proof -
  have "length (mark_oob C k) = 8" by (simp add: mark_oob_def Let_def)
  with assms oob_size_ge8[of C] have "length (mark_oob C k) \<le> oob_size C" by (simp add: wf_arr_def)
  then show ?thesis
    using write_page_wf[OF erase_block_wf[OF assms], of 0 "[]" "mark_oob C k"]
    by (auto simp: en7512_nand_mark_badblock_def Let_def split: prod.splits) (metis snd_conv)
qed


section \<open>The block-check interface\<close>

text \<open>
  What the bad-block manager relies on when it looks at marks: a check tells
  whether the block carries the mark and leaves everything but caches
  as it was. Two checks in a row then decide whether either mark is present.
\<close>

locale block_check =
  fixes ok :: "'d \<Rightarrow> bool" and valid :: "nat \<Rightarrow> bool"
    and marked :: "'d \<Rightarrow> nat \<Rightarrow> bool \<Rightarrow> bool"
    and sim :: "'d \<Rightarrow> 'd \<Rightarrow> bool"
    and check :: "nat \<Rightarrow> bool \<Rightarrow> 'd \<Rightarrow> int \<times> 'd"
  assumes check_sim: "ok d \<Longrightarrow> sim d (snd (check b k d))"
    and check_result: "ok d \<Longrightarrow> valid b \<Longrightarrow> (fst (check b k d) \<noteq> 0) = marked d b k"
    and sim_trans: "sim d d' \<Longrightarrow> sim d' d'' \<Longrightarrow> sim d d''"
    and sim_ok: "sim d d' \<Longrightarrow> ok d \<Longrightarrow> ok d'"
    and sim_marked: "sim d d' \<Longrightarrow> marked d' b k = marked d b k"
begin

definition either :: "nat \<Rightarrow> 'd \<Rightarrow> bool \<times> 'd" where
  "either b d =
    (let (r1, d1) = check b False d
     in if r1 \<noteq> 0 then (True, d1)
        else let (r2, d2) = check b True d1 in (r2 \<noteq> 0, d2))"

lemma either_sim: "ok d \<Longrightarrow> sim d (snd (either b d))"
  using check_sim[of d b False] check_sim[of "snd (check b False d)" b True]
    sim_ok[of d "snd (check b False d)"] sim_trans
  by (auto simp: either_def split: prod.splits)

lemma either_result:
  assumes "ok d" "valid b"
  shows "fst (either b d) = (marked d b False \<or> marked d b True)"
proof -
  have s: "sim d (snd (check b False d))" using check_sim[OF assms(1)] .
  have "ok (snd (check b False d))" using sim_ok[OF s assms(1)] .
  with assms show ?thesis
    using check_result[of d b False] check_result[of "snd (check b False d)" b True] sim_marked[OF s]
    by (auto simp: either_def split: prod.splits)
qed

end

end
