(* ===== verification/Bmt_Tables.thy ===== *)
theory Bmt_Tables
  imports Prelude
begin

text \<open>
  The tables of the bad-block manager (drivers/misc/ecnt/flash/bmt.c): the
  in-memory bad-block mapping table (bmt\_struct) and raw bad-block table
  (init\_bbt\_struct), their on-flash images with signature and checksum, the
  validity checks made when an image is loaded, the searches, and the
  logical-to-physical table pBbt built from the raw bad-block table.

  The lemmas show that an image written by the fill functions is accepted by
  the load checks and decodes to the table it was made from, and that pBbt
  enumerates exactly the good system blocks in increasing order.
\<close>

section \<open>Structures\<close>

record bmt_entry =
  bad_index :: u16
  mapped_index :: u16

definition MAX_BMT_SIZE :: nat where "MAX_BMT_SIZE = 250"
definition MAX_RAW_BAD_BLOCK_SIZE :: nat where "MAX_RAW_BAD_BLOCK_SIZE = 250"
definition BMT_VERSION :: u8 where "BMT_VERSION = 1"
definition BBT_VERSION :: u8 where "BBT_VERSION = 1"

record bmt_struct =
  bmt_table :: "bmt_entry list"
  bmt_version :: u8
  mapped_count :: u8
  bad_count :: u8

record init_bbt_struct =
  badblock_table :: "u16 list"
  bbt_version :: u8
  badblock_count :: u8

text \<open>On-flash images: a 20-byte header and 250 four-byte entries, a 12-byte header and 250 u16.\<close>

record phys_bmt_struct =
  ph_signature :: bytes
  ph_version :: u8
  ph_bad_count :: u8
  ph_mapped_count :: u8
  ph_checksum :: u8
  ph_reserved :: bytes
  ph_table :: "bmt_entry list"

record init_table_struct =
  it_signature :: bytes
  it_checksum :: u32
  it_version :: u8
  it_badblock_count :: u8
  it_reserved :: bytes
  it_table :: "u16 list"

definition MAIN_SIGNATURE :: bytes where "MAIN_SIGNATURE = [0x42, 0x4D, 0x54]"
definition BBT_SIGNATURE :: bytes where "BBT_SIGNATURE = [0x52, 0x41, 0x57, 0x42]"

section \<open>Bytes of the images\<close>

definition entry_bytes :: "bmt_entry \<Rightarrow> bytes" where
  "entry_bytes e = le16 (bad_index e) @ le16 (mapped_index e)"

definition entry_of_bytes :: "bytes \<Rightarrow> bmt_entry" where
  "entry_of_bytes b = \<lparr>bad_index = rd16 b, mapped_index = rd16 (drop 2 b)\<rparr>"

fun entries_of_bytes :: "nat \<Rightarrow> bytes \<Rightarrow> bmt_entry list" where
  "entries_of_bytes 0 b = []"
| "entries_of_bytes (Suc n) b = entry_of_bytes b # entries_of_bytes n (drop 4 b)"

fun u16s_of_bytes :: "nat \<Rightarrow> bytes \<Rightarrow> u16 list" where
  "u16s_of_bytes 0 b = []"
| "u16s_of_bytes (Suc n) b = rd16 b # u16s_of_bytes n (drop 2 b)"

definition phys_bmt_bytes :: "phys_bmt_struct \<Rightarrow> bytes" where
  "phys_bmt_bytes p = ph_signature p @ [ph_version p, ph_bad_count p, ph_mapped_count p, ph_checksum p]
     @ ph_reserved p @ concat (map entry_bytes (ph_table p))"

definition phys_bmt_of_bytes :: "bytes \<Rightarrow> phys_bmt_struct" where
  "phys_bmt_of_bytes b = \<lparr>ph_signature = take 3 b, ph_version = b ! 3, ph_bad_count = b ! 4,
     ph_mapped_count = b ! 5, ph_checksum = b ! 6, ph_reserved = slice 7 13 b,
     ph_table = entries_of_bytes MAX_BMT_SIZE (drop 20 b)\<rparr>"

definition init_table_bytes :: "init_table_struct \<Rightarrow> bytes" where
  "init_table_bytes t = it_signature t @ le32 (it_checksum t) @ [it_version t, it_badblock_count t]
     @ it_reserved t @ concat (map le16 (it_table t))"

definition init_table_of_bytes :: "bytes \<Rightarrow> init_table_struct" where
  "init_table_of_bytes b = \<lparr>it_signature = take 4 b, it_checksum = rd32 (drop 4 b),
     it_version = b ! 8, it_badblock_count = b ! 9, it_reserved = slice 10 2 b,
     it_table = u16s_of_bytes MAX_RAW_BAD_BLOCK_SIZE (drop 12 b)\<rparr>"

section \<open>Signatures, checksums and validity\<close>

definition match_bmt_signature :: "bytes \<Rightarrow> bool" where
  "match_bmt_signature dat \<longleftrightarrow> take 3 dat = MAIN_SIGNATURE"

definition match_bbt_signature :: "bytes \<Rightarrow> bool" where
  "match_bbt_signature dat \<longleftrightarrow> take 4 dat = BBT_SIGNATURE"

definition cal_bmt_checksum :: "phys_bmt_struct \<Rightarrow> nat \<Rightarrow> u8" where
  "cal_bmt_checksum p bmt_size = ph_version p + ph_mapped_count p
     + sum_list (take (bmt_size * 4) (concat (map entry_bytes (ph_table p))))"

definition cal_bbt_checksum :: "init_table_struct \<Rightarrow> u16" where
  "cal_bbt_checksum t = ucast (it_version t) + ucast (it_badblock_count t)
     + sum_list (map ucast (concat (map le16 (it_table t))))"

text \<open>
  The header's mapped count is a byte and is not compared with the size of
  the table, so the check itself may index past the table: None.
\<close>

definition valid_bmt_data :: "nat \<Rightarrow> nat \<Rightarrow> nat \<Rightarrow> phys_bmt_struct \<Rightarrow> bool option" where
  "valid_bmt_data total_blocks system_blocks bmt_blocks p =
    (if ph_checksum p \<noteq> cal_bmt_checksum p bmt_blocks then Some False
     else
       let ok = (\<lambda>e. \<not> (unat (bad_index e) \<ge> total_blocks \<or>
                         unat (mapped_index e) \<ge> total_blocks \<or>
                         unat (mapped_index e) < system_blocks))
       in case find_index (\<lambda>e. \<not> ok e) (take (unat (ph_mapped_count p)) (ph_table p)) of
            Some _ \<Rightarrow> Some False
          | None \<Rightarrow> if unat (ph_mapped_count p) \<le> length (ph_table p) then Some True else None)"

definition valid_bbt_data :: "nat \<Rightarrow> init_table_struct \<Rightarrow> bool option" where
  "valid_bbt_data system_blocks t =
    (if it_checksum t \<noteq> ucast (cal_bbt_checksum t) then Some False
     else case find_index (\<lambda>b. unat b \<ge> system_blocks)
                 (take (unat (it_badblock_count t)) (it_table t)) of
            Some _ \<Rightarrow> Some False
          | None \<Rightarrow> if unat (it_badblock_count t) \<le> length (it_table t) then Some True else None)"

section \<open>Filling page buffers\<close>

definition phys_of_bmt :: "nat \<Rightarrow> bmt_struct \<Rightarrow> phys_bmt_struct" where
  "phys_of_bmt bmt_blocks b =
    (let p = \<lparr>ph_signature = MAIN_SIGNATURE, ph_version = BMT_VERSION, ph_bad_count = 0xFF,
              ph_mapped_count = mapped_count b, ph_checksum = 0xFF, ph_reserved = replicate 13 0xFF,
              ph_table = take bmt_blocks (bmt_table b)
                @ replicate (MAX_BMT_SIZE - bmt_blocks) \<lparr>bad_index = 0xFFFF, mapped_index = 0xFFFF\<rparr>\<rparr>
     in p\<lparr>ph_checksum := cal_bmt_checksum p bmt_blocks\<rparr>)"

definition fill_nand_bmt_buffer :: "nat \<Rightarrow> bmt_struct \<Rightarrow> bytes \<Rightarrow> bytes" where
  "fill_nand_bmt_buffer bmt_blocks b dat = memcpy dat 0 (phys_bmt_bytes (phys_of_bmt bmt_blocks b))"

definition table_of_bbt :: "init_bbt_struct \<Rightarrow> init_table_struct" where
  "table_of_bbt b =
    (let t = \<lparr>it_signature = BBT_SIGNATURE, it_checksum = 0xFFFFFFFF, it_version = BBT_VERSION,
              it_badblock_count = badblock_count b, it_reserved = replicate 2 0xFF,
              it_table = badblock_table b\<rparr>
     in t\<lparr>it_checksum := ucast (cal_bbt_checksum t)\<rparr>)"

definition fill_nand_bbt_buffer :: "init_bbt_struct \<Rightarrow> bytes \<Rightarrow> bytes" where
  "fill_nand_bbt_buffer b dat = memcpy dat 0 (init_table_bytes (table_of_bbt b))"

section \<open>Searches\<close>

definition live_entries :: "bmt_struct \<Rightarrow> bmt_entry list" where
  "live_entries b = take (unat (mapped_count b)) (bmt_table b)"

definition is_block_mapped :: "bmt_struct \<Rightarrow> nat \<Rightarrow> int" where
  "is_block_mapped b index =
    (case find_index (\<lambda>e. unat (mapped_index e) = index) (live_entries b) of
       Some i \<Rightarrow> int i | None \<Rightarrow> -1)"

definition is_badblock_raw :: "bmt_struct \<Rightarrow> u16 \<Rightarrow> bool" where
  "is_badblock_raw b index =
    (case find_index (\<lambda>e. bad_index e = index) (live_entries b) of Some _ \<Rightarrow> False | None \<Rightarrow> True)"

definition get_mapping_block_index_by_bmt :: "nat \<Rightarrow> bmt_struct \<Rightarrow> nat \<Rightarrow> nat" where
  "get_mapping_block_index_by_bmt system_blocks b index =
    (if index \<ge> system_blocks then index
     else case find_index (\<lambda>e. unat (bad_index e) = index) (live_entries b) of
            Some i \<Rightarrow> unat (mapped_index (live_entries b ! i))
          | None \<Rightarrow> index)"

definition get_mapping_block_index_by_bbt :: "nat \<Rightarrow> init_bbt_struct \<Rightarrow> u16 list \<Rightarrow> nat \<Rightarrow> nat" where
  "get_mapping_block_index_by_bbt system_blocks bbt pBbt index =
    (if index \<ge> unat (of_nat system_blocks - ucast (badblock_count bbt) :: u32) then index
     else unat (pBbt ! index))"

definition get_mapping_block_index ::
  "nat \<Rightarrow> bmt_struct \<Rightarrow> init_bbt_struct \<Rightarrow> u16 list \<Rightarrow> nat \<Rightarrow> nat \<times> u16" where
  "get_mapping_block_index system_blocks b bbt pBbt index =
    (let block = get_mapping_block_index_by_bbt system_blocks bbt pBbt index
     in (get_mapping_block_index_by_bmt system_blocks b block, of_nat block))"

definition block_is_in_bmt_region :: "nat \<Rightarrow> nat \<Rightarrow> bool" where
  "block_is_in_bmt_region system_blocks index \<longleftrightarrow> index \<ge> system_blocks"

section \<open>The logical-to-physical table\<close>

text \<open>
  One pass of the outer loop of create\_badblock\_table\_by\_bbt: j moves to the
  first entry at or after it that equals the bad block, and, when there is
  one, k is set to it; then every entry from k on is incremented. The inner
  increment loop leaves k at the table size, which is where the next
  pass starts when its search fails.
\<close>

definition bump_from :: "nat \<Rightarrow> u16 list \<Rightarrow> u16 list" where
  "bump_from k t = take k t @ map (\<lambda>x. x + 1) (drop k t)"

definition search_from :: "nat \<Rightarrow> u16 \<Rightarrow> u16 list \<Rightarrow> nat option" where
  "search_from j b t = map_option ((+) j) (find_index (\<lambda>x. x = b) (drop j t))"

fun bbt_passes :: "u16 list \<Rightarrow> nat \<Rightarrow> nat \<Rightarrow> u16 list \<Rightarrow> u16 list" where
  "bbt_passes [] j k t = t"
| "bbt_passes (b # bs) j k t =
    (case search_from j b t of
       Some j' \<Rightarrow> bbt_passes bs j' (length t) (bump_from j' t)
     | None \<Rightarrow> bbt_passes bs (length t) (length t) (bump_from k t))"

definition create_badblock_table_by_bbt :: "nat \<Rightarrow> init_bbt_struct \<Rightarrow> u16 list" where
  "create_badblock_table_by_bbt system_blocks bbt =
     bbt_passes (take (unat (badblock_count bbt)) (badblock_table bbt)) 0 0
       (map of_nat [0..<system_blocks])"

section \<open>Images round trip\<close>

lemma length_entry_bytes [simp]: "length (entry_bytes e) = 4"
  by (simp add: entry_bytes_def)

lemma entry_of_bytes_entry_bytes [simp]: "entry_of_bytes (entry_bytes e @ xs) = e"
  by (simp add: entry_of_bytes_def entry_bytes_def)

lemma entries_of_bytes_concat [simp]:
  "entries_of_bytes (length es) (concat (map entry_bytes es) @ xs) = es"
  by (induction es) simp_all

lemma u16s_of_bytes_concat [simp]:
  "u16s_of_bytes (length ws) (concat (map le16 ws) @ xs) = ws"
  by (induction ws) simp_all

lemma length_entries_bytes [simp]: "length (concat (map entry_bytes es)) = 4 * length es"
  by (induction es) simp_all

lemma length_u16s_bytes [simp]: "length (concat (map le16 ws)) = 2 * length ws"
  by (induction ws) simp_all

definition wf_phys :: "phys_bmt_struct \<Rightarrow> bool" where
  "wf_phys p \<longleftrightarrow> length (ph_signature p) = 3 \<and> length (ph_reserved p) = 13
     \<and> length (ph_table p) = MAX_BMT_SIZE"

definition wf_init_table :: "init_table_struct \<Rightarrow> bool" where
  "wf_init_table t \<longleftrightarrow> length (it_signature t) = 4 \<and> length (it_reserved t) = 2
     \<and> length (it_table t) = MAX_RAW_BAD_BLOCK_SIZE"

lemma length_phys_bmt_bytes: "wf_phys p \<Longrightarrow> length (phys_bmt_bytes p) = 1020"
  by (simp add: wf_phys_def phys_bmt_bytes_def MAX_BMT_SIZE_def)

lemma length_init_table_bytes: "wf_init_table t \<Longrightarrow> length (init_table_bytes t) = 512"
  by (simp add: wf_init_table_def init_table_bytes_def MAX_RAW_BAD_BLOCK_SIZE_def)

lemma phys_bmt_of_bytes_bytes:
  assumes "wf_phys p"
  shows "phys_bmt_of_bytes (phys_bmt_bytes p @ xs) = p"
proof -
  from assms have len: "length (ph_signature p) = 3" "length (ph_reserved p) = 13"
      "length (ph_table p) = MAX_BMT_SIZE" by (simp_all add: wf_phys_def)
  then have "entries_of_bytes MAX_BMT_SIZE (concat (map entry_bytes (ph_table p)) @ xs) = ph_table p"
    by (metis entries_of_bytes_concat)
  with len show ?thesis
    by (simp add: phys_bmt_of_bytes_def phys_bmt_bytes_def nth_append slice_def)
qed

lemma init_table_of_bytes_bytes:
  assumes "wf_init_table t"
  shows "init_table_of_bytes (init_table_bytes t @ xs) = t"
proof -
  from assms have len: "length (it_signature t) = 4" "length (it_reserved t) = 2"
      "length (it_table t) = MAX_RAW_BAD_BLOCK_SIZE" by (simp_all add: wf_init_table_def)
  then have "u16s_of_bytes MAX_RAW_BAD_BLOCK_SIZE (concat (map le16 (it_table t)) @ xs) = it_table t"
    by (metis u16s_of_bytes_concat)
  with len show ?thesis
    by (simp add: init_table_of_bytes_def init_table_bytes_def nth_append slice_def)
qed

lemma cal_bmt_checksum_upd [simp]:
  "cal_bmt_checksum (p\<lparr>ph_checksum := c\<rparr>) n = cal_bmt_checksum p n"
  by (simp add: cal_bmt_checksum_def)

lemma cal_bbt_checksum_upd [simp]: "cal_bbt_checksum (t\<lparr>it_checksum := c\<rparr>) = cal_bbt_checksum t"
  by (simp add: cal_bbt_checksum_def)

lemma checksum_phys_of_bmt [simp]:
  "ph_checksum (phys_of_bmt n b) = cal_bmt_checksum (phys_of_bmt n b) n"
  by (simp add: phys_of_bmt_def Let_def cal_bmt_checksum_def)

lemma checksum_table_of_bbt [simp]:
  "it_checksum (table_of_bbt b) = ucast (cal_bbt_checksum (table_of_bbt b))"
  by (simp add: table_of_bbt_def Let_def cal_bbt_checksum_def)

definition wf_bmt :: "nat \<Rightarrow> bmt_struct \<Rightarrow> bool" where
  "wf_bmt bmt_blocks b \<longleftrightarrow> length (bmt_table b) = MAX_BMT_SIZE \<and> bmt_blocks \<le> MAX_BMT_SIZE
     \<and> unat (mapped_count b) \<le> bmt_blocks"

definition wf_bbt :: "init_bbt_struct \<Rightarrow> bool" where
  "wf_bbt b \<longleftrightarrow> length (badblock_table b) = MAX_RAW_BAD_BLOCK_SIZE
     \<and> unat (badblock_count b) \<le> MAX_RAW_BAD_BLOCK_SIZE"

definition raw_bad_blocks :: "init_bbt_struct \<Rightarrow> u16 list" where
  "raw_bad_blocks b = take (unat (badblock_count b)) (badblock_table b)"

lemma wf_phys_of_bmt: "wf_bmt n b \<Longrightarrow> wf_phys (phys_of_bmt n b)"
  by (simp add: wf_bmt_def wf_phys_def phys_of_bmt_def Let_def MAIN_SIGNATURE_def)

lemma wf_table_of_bbt: "wf_bbt b \<Longrightarrow> wf_init_table (table_of_bbt b)"
  by (simp add: wf_bbt_def wf_init_table_def table_of_bbt_def Let_def BBT_SIGNATURE_def)

lemma decode_fill_bmt:
  assumes "wf_bmt n b" and "1020 \<le> length dat"
  shows "phys_bmt_of_bytes (fill_nand_bmt_buffer n b dat) = phys_of_bmt n b"
  using phys_bmt_of_bytes_bytes[OF wf_phys_of_bmt[OF assms(1)]]
  by (simp add: fill_nand_bmt_buffer_def memcpy_def)

lemma decode_fill_bbt:
  assumes "wf_bbt b" and "512 \<le> length dat"
  shows "init_table_of_bytes (fill_nand_bbt_buffer b dat) = table_of_bbt b"
  using init_table_of_bytes_bytes[OF wf_table_of_bbt[OF assms(1)]]
  by (simp add: fill_nand_bbt_buffer_def memcpy_def)

lemma live_of_phys:
  assumes "wf_bmt n b"
  shows "take (unat (ph_mapped_count (phys_of_bmt n b))) (ph_table (phys_of_bmt n b)) = live_entries b"
  using assms by (simp add: wf_bmt_def phys_of_bmt_def Let_def live_entries_def min_def)

lemma valid_phys_of_bmt:
  assumes "wf_bmt n b"
  shows "valid_bmt_data tot sys n (phys_of_bmt n b) = Some
    (\<forall>e\<in>set (live_entries b). unat (bad_index e) < tot \<and> unat (mapped_index e) < tot
        \<and> sys \<le> unat (mapped_index e))"
proof -
  have le: "unat (ph_mapped_count (phys_of_bmt n b)) \<le> length (ph_table (phys_of_bmt n b))"
    using assms by (simp add: wf_bmt_def phys_of_bmt_def Let_def)
  show ?thesis
    using le unfolding valid_bmt_data_def Let_def live_of_phys[OF assms] checksum_phys_of_bmt
    by (auto simp: find_index_case_const not_le not_less)
qed

lemma valid_table_of_bbt:
  assumes "wf_bbt b"
  shows "valid_bbt_data sys (table_of_bbt b) = Some (\<forall>w\<in>set (raw_bad_blocks b). unat w < sys)"
proof -
  have f: "it_badblock_count (table_of_bbt b) = badblock_count b" "it_table (table_of_bbt b) = badblock_table b"
    by (simp_all add: table_of_bbt_def Let_def)
  show ?thesis
    using assms unfolding valid_bbt_data_def checksum_table_of_bbt f find_index_case_const
    by (auto simp: wf_bbt_def raw_bad_blocks_def not_le not_less)
qed

lemma match_fill_bmt: "match_bmt_signature (fill_nand_bmt_buffer n b dat)"
  by (simp add: match_bmt_signature_def fill_nand_bmt_buffer_def memcpy_def phys_bmt_bytes_def
      phys_of_bmt_def Let_def MAIN_SIGNATURE_def)

lemma match_fill_bbt: "match_bbt_signature (fill_nand_bbt_buffer b dat)"
  by (simp add: match_bbt_signature_def fill_nand_bbt_buffer_def memcpy_def init_table_bytes_def
      table_of_bbt_def Let_def BBT_SIGNATURE_def)

section \<open>The logical-to-physical table enumerates the good blocks\<close>

lemma find_index_in_range:
  assumes "b < 65536" and "lo \<le> b" and "b < hi" and "hi \<le> 65536"
  shows "find_index (\<lambda>x. x = (of_nat b :: u16)) (map of_nat [lo..<hi]) = Some (b - lo)"
proof -
  have "(of_nat (lo + j) :: u16) \<noteq> of_nat b" if "j < b - lo" for j
  proof
    assume "(of_nat (lo + j) :: u16) = of_nat b"
    then have "unat (of_nat (lo + j) :: u16) = unat (of_nat b :: u16)" by (rule arg_cong)
    with that assms show False by (simp del: of_nat_add)
  qed
  with assms show ?thesis by (simp add: find_index_Some del: of_nat_add)
qed

lemma bump_from_split:
  assumes "length A = j" and "j + m \<le> b" and "b < n + m"
  shows "bump_from (b - m) (A @ map of_nat [j + m..<n + m])
       = (A @ map of_nat [j + m..<b]) @ map of_nat [Suc b..<Suc (n + m)]"
proof -
  have s: "[j + m..<n + m] = [j + m..<b] @ [b..<n + m]"
    using assms by (metis le_add_diff_inverse less_imp_le_nat upt_add_eq_append)
  have l: "length (A @ map of_nat [j + m..<b]) = b - m" using assms by simp
  have m: "map (\<lambda>x. x + 1) (map of_nat [b..<n + m] :: u16 list) = map of_nat [Suc b..<Suc (n + m)]"
    by (simp add: map_Suc_upt[symmetric] add.commute del: upt_Suc)
  show ?thesis
    unfolding bump_from_def s map_append append_assoc[symmetric] using l m by simp
qed

text \<open>
  After m passes the table is a finished prefix A of length j followed by the
  consecutive numbers from j + m; a pass over a bad block b that is still
  ahead finishes the numbers below b and skips b.
\<close>

lemma bbt_passes_enumerates:
  assumes "length A = j" and "sorted_wrt (<) bs"
    and "\<forall>w\<in>set bs. j + m \<le> unat w \<and> unat w < n" and "n + m + length bs \<le> 65536"
  shows "bbt_passes bs j k (A @ map of_nat [j + m..<n + m])
       = A @ map of_nat (filter (\<lambda>x. x \<notin> unat ` set bs) [j + m..<n + m + length bs])"
  using assms
proof (induction bs arbitrary: A j m k)
  case (Cons w bs)
  define b where "b = unat w"
  have b: "j + m \<le> b" "b < n" and w: "w = of_nat b" using Cons.prems by (auto simp: b_def)
  have later: "\<forall>v\<in>set bs. b < unat v" using Cons.prems(2) by (auto simp: b_def word_less_nat_alt)
  have lenA: "length A = j" using Cons.prems(1) .
  have "find_index (\<lambda>x. x = w) (map of_nat [j + m..<n + m]) = Some (b - (j + m))"
    unfolding w using b Cons.prems(4) by (intro find_index_in_range) auto
  then have srch: "search_from j w (A @ map of_nat [j + m..<n + m]) = Some (b - m)"
    using b lenA by (simp add: search_from_def)
  let ?A = "A @ map of_nat [j + m..<b]"
  have "bbt_passes (w # bs) j k (A @ map of_nat [j + m..<n + m])
      = bbt_passes bs (b - m) (length (A @ map of_nat [j + m..<n + m] :: u16 list))
          (?A @ map of_nat [(b - m) + Suc m..<n + Suc m])"
    using srch bump_from_split[OF lenA b(1), of n] b by simp
  also have "\<dots> = ?A @ map of_nat (filter (\<lambda>x. x \<notin> unat ` set bs) [(b - m) + Suc m..<n + Suc m + length bs])"
    using Cons.prems b later lenA by (intro Cons.IH) auto
  also have "\<dots> = A @ map of_nat (filter (\<lambda>x. x \<notin> unat ` set (w # bs)) [j + m..<n + m + length (w # bs)])"
  proof -
    have s: "[j + m..<n + m + length (w # bs)] = [j + m..<b] @ b # [Suc b..<n + Suc m + length bs]"
      using b by (metis (no_types, lifting) add_Suc_right add_Suc_shift le_add_diff_inverse
          length_Cons trans_less_add1 upt_add_eq_append upt_conv_Cons less_imp_le_nat add.assoc)
    have f1: "filter (\<lambda>x. x \<notin> unat ` set (w # bs)) [j + m..<b] = [j + m..<b]"
      using later by (auto simp: filter_id_conv b_def)
    have f2: "filter (\<lambda>x. x \<notin> unat ` set (w # bs)) [Suc b..<n + Suc m + length bs]
            = filter (\<lambda>x. x \<notin> unat ` set bs) [Suc b..<n + Suc m + length bs]"
      by (rule filter_cong) (auto simp: b_def)
    have e: "(b - m) + Suc m = Suc b" using b by simp
    show ?thesis unfolding s filter_append map_append f1 e using f2 by (simp add: b_def)
  qed
  finally show ?case .
qed simp

text \<open>The good blocks of the system area, in order.\<close>

definition good_blocks :: "nat \<Rightarrow> init_bbt_struct \<Rightarrow> nat list" where
  "good_blocks sys bbt = filter (\<lambda>x. x \<notin> unat ` set (raw_bad_blocks bbt)) [0..<sys]"

definition ascending_bbt :: "nat \<Rightarrow> init_bbt_struct \<Rightarrow> bool" where
  "ascending_bbt sys bbt \<longleftrightarrow> wf_bbt bbt \<and> sorted_wrt (<) (raw_bad_blocks bbt)
     \<and> (\<forall>w\<in>set (raw_bad_blocks bbt). unat w < sys)"

lemma length_good_blocks:
  assumes "ascending_bbt sys bbt"
  shows "length (good_blocks sys bbt) = sys - unat (badblock_count bbt)"
    and "unat (badblock_count bbt) \<le> sys"
proof -
  let ?B = "unat ` set (raw_bad_blocks bbt)"
  have len: "length (raw_bad_blocks bbt) = unat (badblock_count bbt)"
    using assms by (simp add: ascending_bbt_def wf_bbt_def raw_bad_blocks_def)
  have dist: "distinct (raw_bad_blocks bbt)"
    using assms by (auto simp: ascending_bbt_def strict_sorted_iff)
  have inj: "inj_on unat (set (raw_bad_blocks bbt))" by simp
  have card: "card ?B = unat (badblock_count bbt)"
    using len dist by (simp add: card_image[OF inj] distinct_card)
  have sub: "?B \<subseteq> {0..<sys}" using assms by (auto simp: ascending_bbt_def)
  have "set (good_blocks sys bbt) = {0..<sys} - ?B" by (auto simp: good_blocks_def)
  moreover have "length (good_blocks sys bbt) = card (set (good_blocks sys bbt))"
    by (rule distinct_card[symmetric]) (simp add: good_blocks_def)
  ultimately show "length (good_blocks sys bbt) = sys - unat (badblock_count bbt)"
    using card sub by (simp add: card_Diff_subset)
  show "unat (badblock_count bbt) \<le> sys"
    using card sub by (metis card_atLeastLessThan card_mono diff_zero finite_atLeastLessThan)
qed

lemma create_badblock_table_spec:
  assumes "ascending_bbt sys bbt" and "sys + 255 \<le> 65536"
  shows "take (sys - unat (badblock_count bbt)) (create_badblock_table_by_bbt sys bbt)
       = map of_nat (good_blocks sys bbt)"
proof -
  let ?bs = "raw_bad_blocks bbt"
  have len: "length ?bs \<le> 255"
    using unat_u8_lt[of "badblock_count bbt"] unfolding raw_bad_blocks_def length_take by linarith
  have "create_badblock_table_by_bbt sys bbt
      = map of_nat (filter (\<lambda>x. x \<notin> unat ` set ?bs) [0..<sys + length ?bs])"
    using bbt_passes_enumerates[of "[]" 0 ?bs 0 sys 0] assms len
    by (simp add: create_badblock_table_by_bbt_def ascending_bbt_def raw_bad_blocks_def)
  also have "[0..<sys + length ?bs] = [0..<sys] @ [sys..<sys + length ?bs]"
    by (metis le_add1 le_add_diff_inverse upt_add_eq_append zero_le)
  finally show ?thesis
    using length_good_blocks(1)[OF assms(1)] by (simp add: good_blocks_def)
qed

lemma good_blocks_nth:
  assumes "i < length (good_blocks sys bbt)"
  shows "good_blocks sys bbt ! i < sys" "good_blocks sys bbt ! i \<notin> unat ` set (raw_bad_blocks bbt)"
  using nth_mem[OF assms] by (auto simp: good_blocks_def)

lemma good_blocks_strict: "sorted_wrt (<) (good_blocks sys bbt)"
  unfolding good_blocks_def by (rule sorted_wrt_filter) simp

lemma mapping_by_bbt_good:
  assumes "ascending_bbt sys bbt" and "sys + 255 \<le> 65536"
    and "i < sys - unat (badblock_count bbt)"
  shows "get_mapping_block_index_by_bbt sys bbt (create_badblock_table_by_bbt sys bbt) i
       = good_blocks sys bbt ! i"
proof -
  have le: "unat (badblock_count bbt) \<le> sys" using length_good_blocks(2)[OF assms(1)] .
  have d: "(of_nat sys - ucast (badblock_count bbt) :: u32) = of_nat (sys - unat (badblock_count bbt))"
    using le by (simp add: of_nat_diff)
  have u: "unat (of_nat (sys - unat (badblock_count bbt)) :: u32) = sys - unat (badblock_count bbt)"
    using assms(2) by (intro unat_of_nat_small) simp
  have g: "i < length (good_blocks sys bbt)" using assms length_good_blocks(1) by simp
  have "create_badblock_table_by_bbt sys bbt ! i = of_nat (good_blocks sys bbt ! i)"
    using create_badblock_table_spec[OF assms(1,2)] assms(3) g
    by (metis (no_types, lifting) nth_map nth_take)
  moreover have "good_blocks sys bbt ! i < 65536"
    using good_blocks_nth(1)[OF g] assms(2) by simp
  ultimately show ?thesis
    using assms(3) unfolding get_mapping_block_index_by_bbt_def d u by simp
qed

section \<open>Redirection through the mapping table\<close>

definition bmt_inv :: "nat \<Rightarrow> nat \<Rightarrow> bmt_struct \<Rightarrow> bool" where
  "bmt_inv sys tot b \<longleftrightarrow> distinct (map bad_index (live_entries b))
     \<and> distinct (map mapped_index (live_entries b))
     \<and> (\<forall>e\<in>set (live_entries b). sys \<le> unat (mapped_index e) \<and> unat (mapped_index e) < tot)"

text \<open>A system block goes to the pool block of its entry, or stays where it is.\<close>

lemma mapping_by_bmt_cases:
  obtains (mapped) e where "e \<in> set (live_entries b)" "unat (bad_index e) = x"
      "get_mapping_block_index_by_bmt sys b x = unat (mapped_index e)" "x < sys"
    | (same) "get_mapping_block_index_by_bmt sys b x = x"
        "x < sys \<Longrightarrow> \<forall>e\<in>set (live_entries b). unat (bad_index e) \<noteq> x"
proof (cases "find_index (\<lambda>e. unat (bad_index e) = x) (live_entries b)")
  case None
  then have "\<forall>e\<in>set (live_entries b). unat (bad_index e) \<noteq> x" by (simp add: find_index_None)
  then show ?thesis
    by (intro same) (simp_all add: get_mapping_block_index_by_bmt_def None)
next
  case (Some i)
  then have i: "live_entries b ! i \<in> set (live_entries b)" "unat (bad_index (live_entries b ! i)) = x"
    by (auto elim: find_indexE)
  show ?thesis
  proof (cases "x < sys")
    case True
    then show ?thesis by (intro mapped[OF i]) (simp_all add: get_mapping_block_index_by_bmt_def Some)
  qed (auto intro!: same simp: get_mapping_block_index_by_bmt_def)
qed

lemma mapping_by_bmt_inj:
  assumes inv: "bmt_inv sys tot b" and x: "x < sys" and y: "y < sys"
    and eq: "get_mapping_block_index_by_bmt sys b x = get_mapping_block_index_by_bmt sys b y"
  shows "x = y"
proof -
  have pool: "sys \<le> unat (mapped_index e)" if "e \<in> set (live_entries b)" for e
    using inv that by (simp add: bmt_inv_def)
  have uniq: "e = e'" if "e \<in> set (live_entries b)" "e' \<in> set (live_entries b)"
      "unat (mapped_index e) = unat (mapped_index e')" for e e'
    using inv that by (auto simp: bmt_inv_def distinct_map inj_on_def word_unat_eq_iff)
  show ?thesis
  proof (cases rule: mapping_by_bmt_cases[of b x sys])
    case (mapped e)
    then show ?thesis
      using eq y pool uniq by (cases rule: mapping_by_bmt_cases[of b y sys]) (force simp: not_le)+
  next
    case same
    then show ?thesis
      using eq x pool by (cases rule: mapping_by_bmt_cases[of b y sys]) (auto dest: pool)
  qed
qed

section \<open>Both tables together\<close>

lemma mapping_good:
  assumes "ascending_bbt sys bbt" and "sys \<le> 65281" and "i < sys - unat (badblock_count bbt)"
  shows "fst (get_mapping_block_index sys b bbt (create_badblock_table_by_bbt sys bbt) i)
       = get_mapping_block_index_by_bmt sys b (good_blocks sys bbt ! i)"
    and "good_blocks sys bbt ! i < sys" "good_blocks sys bbt ! i \<notin> unat ` set (raw_bad_blocks bbt)"
    and "i < length (good_blocks sys bbt)"
  using mapping_by_bbt_good[OF assms(1) _ assms(3)] assms(2) good_blocks_nth[of i sys bbt]
    length_good_blocks(1)[OF assms(1)] assms(3)
  by (auto simp: get_mapping_block_index_def Let_def)

lemma mapping_inj:
  assumes asc: "ascending_bbt sys bbt" and sys: "sys \<le> 65281" and inv: "bmt_inv sys tot b"
  shows "inj_on (\<lambda>i. fst (get_mapping_block_index sys b bbt (create_badblock_table_by_bbt sys bbt) i))
           {..<sys - unat (badblock_count bbt)}"
proof (rule inj_onI)
  fix i j assume ij: "i \<in> {..<sys - unat (badblock_count bbt)}" "j \<in> {..<sys - unat (badblock_count bbt)}"
    "fst (get_mapping_block_index sys b bbt (create_badblock_table_by_bbt sys bbt) i)
       = fst (get_mapping_block_index sys b bbt (create_badblock_table_by_bbt sys bbt) j)"
  note g = mapping_good[OF asc sys]
  have "good_blocks sys bbt ! i = good_blocks sys bbt ! j"
    using mapping_by_bmt_inj[OF inv] g(2) ij g(1)[of _ b] by simp
  moreover have "distinct (good_blocks sys bbt)" by (simp add: good_blocks_def)
  ultimately show "i = j" using g(4) ij(1,2) nth_eq_iff_index_eq by blast
qed

lemma mapping_range:
  assumes asc: "ascending_bbt sys bbt" and sys: "sys \<le> 65281" and inv: "bmt_inv sys tot b" and "sys \<le> tot"
    and i: "i < sys - unat (badblock_count bbt)"
  shows "fst (get_mapping_block_index sys b bbt (create_badblock_table_by_bbt sys bbt) i) < tot"
    and "fst (get_mapping_block_index sys b bbt (create_badblock_table_by_bbt sys bbt) i)
           \<notin> unat ` set (raw_bad_blocks bbt)"
proof -
  note g = mapping_good[OF asc sys i]
  have "get_mapping_block_index_by_bmt sys b (good_blocks sys bbt ! i) < tot
      \<and> get_mapping_block_index_by_bmt sys b (good_blocks sys bbt ! i) \<notin> unat ` set (raw_bad_blocks bbt)"
  proof (cases rule: mapping_by_bmt_cases[of b "good_blocks sys bbt ! i" sys])
    case (mapped e)
    then have "sys \<le> unat (mapped_index e)" "unat (mapped_index e) < tot" using inv by (auto simp: bmt_inv_def)
    moreover have "\<forall>w\<in>set (raw_bad_blocks bbt). unat w < sys" using asc by (simp add: ascending_bbt_def)
    ultimately show ?thesis using mapped by force
  qed (use g assms(4) in auto)
  then show "fst (get_mapping_block_index sys b bbt (create_badblock_table_by_bbt sys bbt) i) < tot"
    "fst (get_mapping_block_index sys b bbt (create_badblock_table_by_bbt sys bbt) i) \<notin> unat ` set (raw_bad_blocks bbt)"
    using g(1) by simp_all
qed

section \<open>Checksums over bytes\<close>

lemma le16_rd16: "length b = 2 \<Longrightarrow> le16 (rd16 b) = b"
proof -
  assume "length b = 2"
  then obtain x y where b: "b = [x, y]" by (metis (no_types) One_nat_def Suc_1 length_0_conv length_Suc_conv)
  have "ucast (ucast x OR push_bit 8 (ucast y) :: u16) = x"
    by (rule bit_word_eqI) (auto simp: bit_simps)
  moreover have "ucast (drop_bit 8 (ucast x OR push_bit 8 (ucast y) :: u16)) = y"
    by (rule bit_word_eqI) (auto simp: bit_simps dest: bit_imp_le_length)
  ultimately show ?thesis by (simp add: b le16_def rd16_def)
qed

lemma rd16_take: "rd16 (take 2 b) = rd16 b"
  by (simp add: rd16_def)

lemma entry_bytes_of_bytes:
  assumes "4 \<le> length b" shows "entry_bytes (entry_of_bytes b) = take 4 b"
proof -
  have "le16 (rd16 b) = take 2 b" using le16_rd16[of "take 2 b"] assms by (simp add: rd16_take)
  moreover have "le16 (rd16 (drop 2 b)) = take 2 (drop 2 b)"
    using le16_rd16[of "take 2 (drop 2 b)"] assms by (simp add: rd16_take)
  ultimately show ?thesis
    using take_add[of 2 2 b] by (simp add: entry_bytes_def entry_of_bytes_def)
qed

lemma concat_entries_of_bytes:
  "4 * k \<le> length b \<Longrightarrow> concat (map entry_bytes (entries_of_bytes k b)) = take (4 * k) b"
proof (induction k arbitrary: b)
  case (Suc k)
  then have "concat (map entry_bytes (entries_of_bytes (Suc k) b)) = take 4 b @ take (4 * k) (drop 4 b)"
    by (simp add: entry_bytes_of_bytes)
  then show ?case using take_add[of 4 "4 * k" b] by simp
qed simp

lemma cal_bmt_checksum_bytes:
  assumes "1020 \<le> length b" "n \<le> 250"
  shows "cal_bmt_checksum (phys_bmt_of_bytes b) n = b ! 3 + b ! 5 + sum_list (slice 20 (4 * n) b)"
  using concat_entries_of_bytes[of 250 "drop 20 b"] assms
  by (simp add: cal_bmt_checksum_def phys_bmt_of_bytes_def MAX_BMT_SIZE_def slice_def mult.commute min_def)

lemma sum_list_update_ab:
  "i < length xs \<Longrightarrow> sum_list (xs[i := v]) = sum_list xs + (v - xs ! i :: 'a::ab_group_add)"
  by (induction xs arbitrary: i) (auto split: nat.splits simp: algebra_simps)

lemma sum_list_slice_update:
  assumes "off \<le> i" "i < off + n" "i < length xs" "v \<noteq> xs ! i"
  shows "sum_list (slice off n (xs[i := v])) \<noteq> sum_list (slice off n xs :: 'a::ab_group_add list)"
proof -
  have "slice off n (xs[i := v]) = (slice off n xs)[i - off := v]"
    using assms(1,2) by (simp add: slice_def drop_update_swap take_update_swap)
  moreover have "slice off n xs ! (i - off) = xs ! i" using assms by (simp add: slice_def)
  moreover have "i - off < length (slice off n xs)" using assms unfolding length_slice by linarith
  ultimately show ?thesis using sum_list_update_ab[of "i - off" "slice off n xs" v] assms by simp
qed

end
