(* ===== verification/Bmt.thy ===== *)
theory Bmt
  imports Nand_Chip Bmt_Tables
begin

text \<open>
  The bad-block manager itself (drivers/misc/ecnt/flash/bmt.c): its global
  variables as one record, the adaptors to the chip, loading and
  reconstructing the tables, finding and erasing replacement blocks,
  migrating a block, writing the tables back, updating and recovering the
  mapping.

  Loops over blocks are recursions over the list of block numbers visited.
  The recursive writers (migrate\_from\_bad, write\_bmt\_to\_flash,
  write\_bbt\_to\_flash) call themselves after marking a block bad; they take fuel
  and report OutOfFuel. Accesses outside a table are OutOfBounds. Block numbers
  and offsets are natural numbers; the geometry hypothesis of the lemmas keeps
  every byte offset below 2\^31, where C int and unsigned arithmetic agree with them.
\<close>

section \<open>Global state\<close>

record bmt_globals =
  need_write_bmt_to_nand :: bool
  need_write_bbt_to_nand :: bool
  total_block_count :: nat
  system_block_count :: nat
  bmt_block_count :: nat
  nand_logic_size :: nat
  page_per_block :: nat
  bmt_block_index :: nat
  bmt :: bmt_struct
  bbt_block_index :: nat
  init_bbt :: init_bbt_struct
  pBbt :: "u16 list"
  dat_buf :: bytes
  oob_buf :: bytes
  pool_erased :: bool
  isUpdateBmt :: bool
  dev :: nand_dev

definition MAX_DAT_SIZE :: nat where "MAX_DAT_SIZE = 0x1000"
definition MAX_OOB_SIZE :: nat where "MAX_OOB_SIZE = 0x100"
definition MAX_RAW_BBT_SIZE :: nat where "MAX_RAW_BBT_SIZE = 4096"
definition OOB_INDEX_OFFSET :: nat where "OOB_INDEX_OFFSET = 2"

definition OFFSET :: "nand_cfg \<Rightarrow> nat \<Rightarrow> nat" where
  "OFFSET C block = block * erase_size C"

definition PAGE_ADDR :: "nand_cfg \<Rightarrow> nat \<Rightarrow> nat" where
  "PAGE_ADDR C block = block * erase_size C div page_size C"

abbreviation (input) BAD_BLOCK_RAW :: bool where "BAD_BLOCK_RAW \<equiv> False"
abbreviation (input) BMT_BADBLOCK_GENERATE_LATER :: bool where "BMT_BADBLOCK_GENERATE_LATER \<equiv> True"

section \<open>Adaptors to the chip\<close>

definition nand_read_page_bmt :: "nand_cfg \<Rightarrow> nat \<Rightarrow> bmt_globals \<Rightarrow> int \<times> bmt_globals" where
  "nand_read_page_bmt C page s =
    (let (r, dat, oob, d) = en7512_nand_exec_read_page C page (dat_buf s) (oob_buf s) (dev s)
     in (r, s\<lparr>dat_buf := dat, oob_buf := oob, dev := d\<rparr>))"

definition nand_block_bad_bmt :: "nand_cfg \<Rightarrow> nat \<Rightarrow> bool \<Rightarrow> bmt_globals \<Rightarrow> int \<times> bmt_globals" where
  "nand_block_bad_bmt C offset k s =
    (let (r, d) = en7512_nand_check_block_bad C offset k (dev s) in (r, s\<lparr>dev := d\<rparr>))"

definition nand_erase_bmt :: "nand_cfg \<Rightarrow> nat \<Rightarrow> bmt_globals \<Rightarrow> int \<times> bmt_globals" where
  "nand_erase_bmt C offset s =
    (let (r, d) = en7512_nand_erase C offset (dev s) in (r, s\<lparr>dev := d\<rparr>))"

definition mark_block_bad_bmt :: "nand_cfg \<Rightarrow> nat \<Rightarrow> bool \<Rightarrow> bmt_globals \<Rightarrow> int \<times> bmt_globals" where
  "mark_block_bad_bmt C offset k s =
    (let (r, d) = en7512_nand_mark_badblock C offset k (dev s) in (r, s\<lparr>dev := d\<rparr>))"

definition nand_write_page_bmt ::
  "nand_cfg \<Rightarrow> nat \<Rightarrow> bytes \<Rightarrow> bytes \<Rightarrow> bmt_globals \<Rightarrow> int \<times> bmt_globals" where
  "nand_write_page_bmt C page dat oob s =
    (let (r, d) = en7512_nand_exec_write_page C page dat oob (dev s) in (r, s\<lparr>dev := d\<rparr>))"

text \<open>
  The condition that guards every block of the pool: the raw mark, and only
  when it is absent the later mark.
\<close>

definition block_bad_either :: "nand_cfg \<Rightarrow> nat \<Rightarrow> bmt_globals \<Rightarrow> bool \<times> bmt_globals" where
  "block_bad_either C block s =
    (let (r1, s1) = nand_block_bad_bmt C (OFFSET C block) BAD_BLOCK_RAW s
     in if r1 \<noteq> 0 then (True, s1)
        else let (r2, s2) = nand_block_bad_bmt C (OFFSET C block) BMT_BADBLOCK_GENERATE_LATER s1
             in (r2 \<noteq> 0, s2))"

section \<open>Loading the tables\<close>

fun remark_entries :: "nand_cfg \<Rightarrow> bmt_entry list \<Rightarrow> bmt_globals \<Rightarrow> bmt_globals" where
  "remark_entries C [] s = s"
| "remark_entries C (e # es) s =
    (let off = OFFSET C (unat (bad_index e));
         (r, s1) = nand_block_bad_bmt C off BAD_BLOCK_RAW s
     in remark_entries C es (if r = 0 then snd (mark_block_bad_bmt C off BAD_BLOCK_RAW s1) else s1))"

text \<open>Result: the block whose image was accepted, 0 when there is none.\<close>

fun load_bmt_loop :: "nand_cfg \<Rightarrow> nat list \<Rightarrow> bmt_globals \<Rightarrow> fault + nat \<times> bmt_globals" where
  "load_bmt_loop C [] s = Inr (0, s)"
| "load_bmt_loop C (b # bs) s =
    (let (bad, s1) = block_bad_either C b s
     in if bad then load_bmt_loop C bs s1
        else let (r, s2) = nand_read_page_bmt C (PAGE_ADDR C b) s1
             in if r \<noteq> 0 then load_bmt_loop C bs s2
                else if \<not> match_bmt_signature (dat_buf s2) then load_bmt_loop C bs s2
                else let p = phys_bmt_of_bytes (dat_buf s2)
                     in case valid_bmt_data (total_block_count s2) (system_block_count s2)
                               (bmt_block_count s2) p of
                          None \<Rightarrow> Inl OutOfBounds
                        | Some False \<Rightarrow> load_bmt_loop C bs s2
                        | Some True \<Rightarrow>
                            let n = unat (ph_mapped_count p);
                                t = (bmt s2)\<lparr>mapped_count := ph_mapped_count p, bmt_version := ph_version p,
                                      bmt_table := memcpy (bmt_table (bmt s2)) 0 (take n (ph_table p))\<rparr>;
                                s3 = s2\<lparr>bmt := t\<rparr>
                            in Inr (b, remark_entries C (live_entries t) s3))"

definition load_bmt_data :: "nand_cfg \<Rightarrow> nat \<Rightarrow> nat \<Rightarrow> bmt_globals \<Rightarrow> fault + nat \<times> bmt_globals" where
  "load_bmt_data C start pool_size s = load_bmt_loop C (rev [start..<start + pool_size]) s"

fun load_bbt_loop :: "nand_cfg \<Rightarrow> nat list \<Rightarrow> bmt_globals \<Rightarrow> fault + nat \<times> bmt_globals" where
  "load_bbt_loop C [] s = Inr (0, s)"
| "load_bbt_loop C (b # bs) s =
    (let (bad, s1) = block_bad_either C b s
     in if bad then load_bbt_loop C bs s1
        else let (r, s2) = nand_read_page_bmt C (PAGE_ADDR C b) s1
             in if r \<noteq> 0 then load_bbt_loop C bs s2
                else if \<not> match_bbt_signature (dat_buf s2) then load_bbt_loop C bs s2
                else let t = init_table_of_bytes (dat_buf s2)
                     in case valid_bbt_data (system_block_count s2) t of
                          None \<Rightarrow> Inl OutOfBounds
                        | Some False \<Rightarrow> load_bbt_loop C bs s2
                        | Some True \<Rightarrow>
                            Inr (b, s2\<lparr>init_bbt := (init_bbt s2)\<lparr>badblock_count := it_badblock_count t,
                                  bbt_version := it_version t,
                                  badblock_table := memcpy (badblock_table (init_bbt s2)) 0
                                    (take (unat (it_badblock_count t)) (it_table t))\<rparr>\<rparr>))"

definition load_bbt_data :: "nand_cfg \<Rightarrow> nat \<Rightarrow> nat \<Rightarrow> bmt_globals \<Rightarrow> fault + nat \<times> bmt_globals" where
  "load_bbt_data C start pool_size s = load_bbt_loop C [start..<start + pool_size] s"

section \<open>Finding a replacement block\<close>

text \<open>
  pool\_skip is the chain of guards shared by both loops of
  find\_available\_block.
\<close>

definition pool_skip :: "nand_cfg \<Rightarrow> nat \<Rightarrow> bmt_globals \<Rightarrow> bool \<times> bmt_globals" where
  "pool_skip C b s =
    (if b = bmt_block_index s then (True, s)
     else if b = bbt_block_index s then (True, s)
     else let (bad, s1) = block_bad_either C b s
          in if bad then (True, s1)
             else if is_block_mapped (bmt s1) b \<ge> 0 then (True, s1)
             else (False, s1))"

fun erase_pool :: "nand_cfg \<Rightarrow> nat list \<Rightarrow> bmt_globals \<Rightarrow> bmt_globals" where
  "erase_pool C [] s = s"
| "erase_pool C (b # bs) s =
    (let (skip, s1) = pool_skip C b s
     in if skip then erase_pool C bs s1
        else let (r, s2) = nand_erase_bmt C (OFFSET C b) s1
             in erase_pool C bs
                  (if r \<noteq> 0 then snd (mark_block_bad_bmt C (OFFSET C b) BMT_BADBLOCK_GENERATE_LATER s2)
                   else s2))"

fun search_pool :: "nand_cfg \<Rightarrow> nat list \<Rightarrow> bmt_globals \<Rightarrow> nat \<times> bmt_globals" where
  "search_pool C [] s = (0, s)"
| "search_pool C (b # bs) s =
    (let (skip, s1) = pool_skip C b s in if skip then search_pool C bs s1 else (b, s1))"

text \<open>
  Upwards the search visits system\_block\_count and the following
  bmt\_block\_count - 1 blocks, downwards it starts at total\_block\_count - 1.
\<close>

definition pool_up :: "bmt_globals \<Rightarrow> nat list" where
  "pool_up s = map (\<lambda>i. system_block_count s + i) [0..<bmt_block_count s]"

definition pool_down :: "bmt_globals \<Rightarrow> nat list" where
  "pool_down s = map (\<lambda>i. total_block_count s - 1 - i) [0..<bmt_block_count s]"

definition find_available_block :: "nand_cfg \<Rightarrow> bool \<Rightarrow> bmt_globals \<Rightarrow> nat \<times> bmt_globals" where
  "find_available_block C start_from_end s =
    (let s1 = (if pool_erased s then s else (erase_pool C (pool_up s) s)\<lparr>pool_erased := True\<rparr>)
     in search_pool C (if start_from_end then pool_down s1 else pool_up s1) s1)"

section \<open>Migrating a block\<close>

definition get_bad_index_from_oob :: "bytes \<Rightarrow> u16" where
  "get_bad_index_from_oob oob = rd16 (drop OOB_INDEX_OFFSET oob)"

definition set_bad_index_to_oob :: "bytes \<Rightarrow> u16 \<Rightarrow> bytes" where
  "set_bad_index_to_oob oob index = memcpy oob OOB_INDEX_OFFSET (le16 index)"

datatype update_reason_t =
  UPDATE_ERASE_FAIL | UPDATE_WRITE_FAIL | UPDATE_UNMAPPED_BLOCK | UPDATE_READ_CHECK_FAIL

text \<open>
  Copies the pages listed from the failing block to the replacement; False
  when a write failed, in which case the replacement has been marked.
\<close>

fun copy_pages :: "nand_cfg \<Rightarrow> nat \<Rightarrow> nat \<Rightarrow> nat \<Rightarrow> nat list \<Rightarrow> bmt_globals \<Rightarrow> bool \<times> bmt_globals" where
  "copy_pages C error_block error_page to_index [] s = (True, s)"
| "copy_pages C error_block error_page to_index (page # pages) s =
    (if page = error_page then copy_pages C error_block error_page to_index pages s
     else let (_, s1) = nand_read_page_bmt C (PAGE_ADDR C error_block + page) s;
              s2 = (if error_block < system_block_count s1
                    then s1\<lparr>oob_buf := set_bad_index_to_oob (oob_buf s1) (of_nat error_block)\<rparr> else s1);
              (r, s3) = nand_write_page_bmt C (PAGE_ADDR C to_index + page) (dat_buf s2) (oob_buf s2) s2
          in if r \<noteq> 0
             then (False, snd (mark_block_bad_bmt C (OFFSET C to_index) BMT_BADBLOCK_GENERATE_LATER s3))
             else copy_pages C error_block error_page to_index pages s3)"

fun migrate_from_bad ::
  "nat \<Rightarrow> nand_cfg \<Rightarrow> nat \<Rightarrow> update_reason_t \<Rightarrow> bytes \<Rightarrow> bytes \<Rightarrow> bmt_globals \<Rightarrow> fault + nat \<times> bmt_globals" where
  "migrate_from_bad 0 C offset reason write_dat write_oob s = Inl OutOfFuel"
| "migrate_from_bad (Suc fuel) C offset reason write_dat write_oob s =
    (let error_block = offset div erase_size C;
         error_page = (offset div page_size C) mod page_per_block s;
         migrate_amount = (if reason = UPDATE_WRITE_FAIL then error_page else page_per_block s);
         (to_index, s1) = find_available_block C False s
     in if to_index = 0 then Inr (0, s1)
        else let (ok, s2) = copy_pages C error_block error_page to_index [0..<migrate_amount] s1
             in if \<not> ok then migrate_from_bad fuel C offset reason write_dat write_oob s2
                else let oob0 = memcpy (replicate MAX_OOB_SIZE 0xFF) 0 (take (oob_size C) write_oob);
                         oob1 = (if error_block < system_block_count s2
                                 then set_bad_index_to_oob oob0 (of_nat error_block) else oob0);
                         s3 = s2\<lparr>oob_buf := oob1\<rparr>;
                         (r, s4) = nand_write_page_bmt C (PAGE_ADDR C to_index + error_page) write_dat oob1 s3
                     in if r \<noteq> 0
                        then migrate_from_bad fuel C offset reason write_dat write_oob
                               (snd (mark_block_bad_bmt C (OFFSET C to_index) BMT_BADBLOCK_GENERATE_LATER s4))
                        else Inr (to_index, s4))"

section \<open>Writing the tables back\<close>

text \<open>
  The part of write\_bmt\_to\_flash after a block has been chosen: False when the
  block failed, was marked and bmt\_block\_index was reset, so that
  the function calls itself.
\<close>

definition write_bmt_try ::
  "nand_cfg \<Rightarrow> bool \<Rightarrow> bytes \<Rightarrow> bytes \<Rightarrow> bmt_globals \<Rightarrow> bool \<times> bmt_globals" where
  "write_bmt_try C need_erase dat oob s =
    (let b = bmt_block_index s;
         (re, s1) = (if need_erase then nand_erase_bmt C (OFFSET C b) s else (0, s))
     in if re \<noteq> 0
        then (False, (snd (mark_block_bad_bmt C (OFFSET C b) BMT_BADBLOCK_GENERATE_LATER s1))
                       \<lparr>bmt_block_index := 0\<rparr>)
        else let (rw, s2) = nand_write_page_bmt C (PAGE_ADDR C b) dat oob s1
             in if rw \<noteq> 0
                then (False, (snd (mark_block_bad_bmt C (OFFSET C b) BMT_BADBLOCK_GENERATE_LATER s2))
                               \<lparr>bmt_block_index := 0\<rparr>)
                else (True, s2))"

fun write_bmt_to_flash ::
  "nat \<Rightarrow> nand_cfg \<Rightarrow> bytes \<Rightarrow> bytes \<Rightarrow> bmt_globals \<Rightarrow> fault + bool \<times> bmt_globals" where
  "write_bmt_to_flash 0 C dat oob s = Inl OutOfFuel"
| "write_bmt_to_flash (Suc fuel) C dat oob s =
    (let need_erase = (bmt_block_index s \<noteq> 0);
         s1 = (if need_erase then s
               else let (b, s') = find_available_block C True s in s'\<lparr>bmt_block_index := b\<rparr>)
     in if bmt_block_index s1 = 0 then Inr (False, s1)
        else let (ok, s2) = write_bmt_try C need_erase dat oob s1
             in if ok then Inr (True, s2) else write_bmt_to_flash fuel C dat oob s2)"

fun write_bbt_to_flash ::
  "nat \<Rightarrow> nand_cfg \<Rightarrow> bytes \<Rightarrow> bytes \<Rightarrow> bmt_globals \<Rightarrow> fault + bool \<times> bmt_globals" where
  "write_bbt_to_flash 0 C dat oob s = Inl OutOfFuel"
| "write_bbt_to_flash (Suc fuel) C dat oob s =
    (let (b, s0) = find_available_block C False s;
         s1 = s0\<lparr>bbt_block_index := b\<rparr>
     in if b = 0 then Inr (False, s1)
        else let (r, s2) = nand_write_page_bmt C (PAGE_ADDR C b) dat oob s1
             in if r \<noteq> 0
                then write_bbt_to_flash fuel C dat oob
                       ((snd (mark_block_bad_bmt C (OFFSET C b) BMT_BADBLOCK_GENERATE_LATER s2))
                          \<lparr>bbt_block_index := 0\<rparr>)
                else Inr (True, s2))"

section \<open>Reconstructing the tables by scanning the flash\<close>

text \<open>Result: the count reached and the table; None is the return value -1.\<close>

fun scan_loop :: "nand_cfg \<Rightarrow> nat list \<Rightarrow> nat \<Rightarrow> bmt_globals \<Rightarrow> nat option \<times> bmt_globals" where
  "scan_loop C [] count s = (Some count, s)"
| "scan_loop C (b # bs) count s =
    (let (r, s1) = nand_block_bad_bmt C (OFFSET C b) BAD_BLOCK_RAW s
     in if r \<noteq> 0 \<and> is_badblock_raw (bmt s1) (of_nat b)
        then if count \<ge> MAX_RAW_BAD_BLOCK_SIZE then (None, s1)
             else scan_loop C bs (Suc count)
                    (s1\<lparr>init_bbt := (init_bbt s1)\<lparr>badblock_table :=
                        (badblock_table (init_bbt s1))[count := of_nat b]\<rparr>\<rparr>)
        else scan_loop C bs count s1)"

definition scan_badblock_raw :: "nand_cfg \<Rightarrow> bmt_globals \<Rightarrow> int \<times> bmt_globals" where
  "scan_badblock_raw C s =
    (case scan_loop C [1..<system_block_count s] 0 s of
       (None, s') \<Rightarrow> (-1, s')
     | (Some count, s') \<Rightarrow> (0, s'\<lparr>init_bbt := (init_bbt s')\<lparr>badblock_count := of_nat count\<rparr>\<rparr>))"

fun reconstruct_loop :: "nand_cfg \<Rightarrow> nat list \<Rightarrow> bmt_globals \<Rightarrow> bmt_globals" where
  "reconstruct_loop C [] s = s"
| "reconstruct_loop C (index # is) s =
    (let (bad, s1) = block_bad_either C index s
     in if bad then reconstruct_loop C is s1
        else let (_, s2) = nand_read_page_bmt C (PAGE_ADDR C index) s1;
                 bad_idx = get_bad_index_from_oob (oob_buf s2)
             in if unat bad_idx \<ge> system_block_count s2 then reconstruct_loop C is s2
                else let (r, s3) = nand_block_bad_bmt C (OFFSET C (unat bad_idx)) BAD_BLOCK_RAW s2;
                         s4 = (if r = 0
                               then snd (mark_block_bad_bmt C (OFFSET C (unat bad_idx)) BAD_BLOCK_RAW s3)
                               else s3);
                         t = bmt s4
                     in reconstruct_loop C is
                          (s4\<lparr>bmt := t\<lparr>bmt_table := (bmt_table t)[unat (mapped_count t) :=
                                \<lparr>bad_index = bad_idx, mapped_index = of_nat index\<rparr>],
                              mapped_count := mapped_count t + 1\<rparr>\<rparr>))"

definition reconstruct_bmt :: "nand_cfg \<Rightarrow> bmt_globals \<Rightarrow> bmt_globals" where
  "reconstruct_bmt C s =
    (let t = \<lparr>bmt_table = memset (bmt_table (bmt s)) 0 \<lparr>bad_index = 0, mapped_index = 0\<rparr> (bmt_block_count s),
              bmt_version = BMT_VERSION, mapped_count = 0, bad_count = 0\<rparr>
     in reconstruct_loop C (pool_up s) (s\<lparr>bmt := t\<rparr>))"

definition reconstruct_bbt :: "nand_cfg \<Rightarrow> bmt_globals \<Rightarrow> bool \<times> bmt_globals" where
  "reconstruct_bbt C s =
    (let (r, s') = scan_badblock_raw C
           (s\<lparr>init_bbt := \<lparr>badblock_table = replicate MAX_RAW_BAD_BLOCK_SIZE 0,
                           bbt_version = BBT_VERSION, badblock_count = 0\<rparr>\<rparr>)
     in (r = 0, s'))"

section \<open>Initialisation\<close>

text \<open>The Boolean is the non-NULL result.\<close>

definition init_bmt :: "nand_cfg \<Rightarrow> int \<Rightarrow> bmt_globals \<Rightarrow> fault + bool \<times> bmt_globals" where
  "init_bmt C pool_size s =
    (if \<not> (pool_size > 0 \<and> pool_size \<le> int MAX_BMT_SIZE) then Inr (False, s)
     else let n = nat pool_size;
              tot = device_size C div erase_size C;
              s1 = s\<lparr>bmt_block_count := n, total_block_count := tot,
                     system_block_count := unat (of_nat tot - of_nat n :: u32),
                     page_per_block := erase_size C div page_size C,
                     pool_erased := False,
                     bmt := (bmt s)\<lparr>bmt_table :=
                       memset (bmt_table (bmt s)) 0 \<lparr>bad_index = 0, mapped_index = 0\<rparr> n\<rparr>\<rparr>
          in res_bind (load_bmt_data C (system_block_count s1) n s1) (\<lambda>(b, s2).
               let s3 = s2\<lparr>bmt_block_index := b\<rparr>
               in if b \<noteq> 0 then Inr (True, s3)
                  else Inr (True, (reconstruct_bmt C s3)\<lparr>need_write_bmt_to_nand := True\<rparr>)))"

definition start_init_bbt :: "nand_cfg \<Rightarrow> bmt_globals \<Rightarrow> fault + bool \<times> bmt_globals" where
  "start_init_bbt C s =
    res_bind (load_bbt_data C (system_block_count s) (bmt_block_count s) s) (\<lambda>(b, s1).
      let s2 = s1\<lparr>bbt_block_index := b\<rparr>
      in if b \<noteq> 0 then Inr (True, s2)
         else let (ok, s3) = reconstruct_bbt C s2
              in Inr (ok, if ok then s3\<lparr>need_write_bbt_to_nand := True\<rparr> else s3))"

definition prepare_bmt_buffers :: "bmt_globals \<Rightarrow> bmt_globals" where
  "prepare_bmt_buffers s = s\<lparr>dat_buf := fill_nand_bmt_buffer (bmt_block_count s) (bmt s)
      (replicate MAX_DAT_SIZE 0xFF), oob_buf := replicate MAX_OOB_SIZE 0xFF\<rparr>"

definition prepare_bbt_buffers :: "bmt_globals \<Rightarrow> bmt_globals" where
  "prepare_bbt_buffers s = s\<lparr>dat_buf := fill_nand_bbt_buffer (init_bbt s)
      (replicate MAX_DAT_SIZE 0xFF), oob_buf := replicate MAX_OOB_SIZE 0xFF\<rparr>"

definition write_bbt_or_bmt_to_flash :: "nat \<Rightarrow> nand_cfg \<Rightarrow> bmt_globals \<Rightarrow> fault + int \<times> bmt_globals" where
  "write_bbt_or_bmt_to_flash fuel C s =
    res_bind
      (if need_write_bmt_to_nand s
       then let s1 = prepare_bmt_buffers s
            in write_bmt_to_flash fuel C (dat_buf s1) (oob_buf s1) s1
       else Inr (True, s))
      (\<lambda>(ok, s2). if \<not> ok then Inr (-1, s2)
        else if need_write_bbt_to_nand s2
        then let s3 = prepare_bbt_buffers s2
             in res_bind (write_bbt_to_flash fuel C (dat_buf s3) (oob_buf s3) s3)
                  (\<lambda>(ok', s4). Inr (if ok' then 0 else -1, s4))
        else Inr (0, s2))"

text \<open>
  pBbt is a static array of MAX\_RAW\_BBT\_SIZE entries; a larger system area
  would be written past its end.
\<close>

definition create_badblock_table :: "nand_cfg \<Rightarrow> bmt_globals \<Rightarrow> fault + bmt_globals" where
  "create_badblock_table C s =
    (if system_block_count s > MAX_RAW_BBT_SIZE then Inl OutOfBounds
     else Inr (s\<lparr>pBbt := create_badblock_table_by_bbt (system_block_count s) (init_bbt s),
                 nand_logic_size := unat ((of_nat (system_block_count s)
                    - ucast (badblock_count (init_bbt s)) :: u32) * of_nat (erase_size C))\<rparr>))"

section \<open>Updating and recovering\<close>

definition is_beyond_total_block_count :: "nand_cfg \<Rightarrow> nat \<Rightarrow> bmt_globals \<Rightarrow> bool" where
  "is_beyond_total_block_count C offset s \<longleftrightarrow> total_block_count s \<le> offset div erase_size C"

text \<open>
  The table update of update\_bmt. A pool block that has become bad is searched
  in the first bmt\_block\_count entries; when it is not there the index is
  bmt\_block\_count itself.
\<close>

definition update_bmt_table :: "nat \<Rightarrow> nat \<Rightarrow> nat \<Rightarrow> nat \<Rightarrow> bmt_struct \<Rightarrow> fault + bmt_struct" where
  "update_bmt_table system_blocks bmt_blocks bad map_index t =
    (if bad \<ge> system_blocks then
       let i = (case find_index (\<lambda>e. unat (mapped_index e) = bad) (take bmt_blocks (bmt_table t)) of
                  Some j \<Rightarrow> j | None \<Rightarrow> bmt_blocks)
       in if i < MAX_BMT_SIZE
          then Inr (t\<lparr>bmt_table := (bmt_table t)[i := (bmt_table t ! i)\<lparr>mapped_index := of_nat map_index\<rparr>]\<rparr>)
          else Inl OutOfBounds
     else let i = unat (mapped_count t)
          in if i < MAX_BMT_SIZE
             then Inr (t\<lparr>bmt_table := (bmt_table t)[i := \<lparr>bad_index = of_nat bad, mapped_index = of_nat map_index\<rparr>],
                         mapped_count := mapped_count t + 1\<rparr>)
             else Inl OutOfBounds)"

definition update_bmt ::
  "nat \<Rightarrow> nand_cfg \<Rightarrow> nat \<Rightarrow> update_reason_t \<Rightarrow> bytes \<Rightarrow> bytes \<Rightarrow> bmt_globals \<Rightarrow> fault + bool \<times> bmt_globals" where
  "update_bmt fuel C offset reason dat oob s =
    (let bad = offset div erase_size C
     in if bad < system_block_count s
           \<and> bad \<noteq> get_mapping_block_index_by_bmt (system_block_count s) (bmt s) bad
        then Inr (True, s)
        else if isUpdateBmt s then Inr (True, s)
        else let s1 = s\<lparr>isUpdateBmt := True\<rparr>
             in res_bind
                  (if reason = UPDATE_WRITE_FAIL \<or> reason = UPDATE_READ_CHECK_FAIL
                   then migrate_from_bad fuel C offset reason dat oob s1
                   else Inr (find_available_block C False s1))
                  (\<lambda>(map_index, s2).
                     if map_index = 0 then Inr (False, s2\<lparr>isUpdateBmt := False\<rparr>)
                     else res_bind (update_bmt_table (system_block_count s2) (bmt_block_count s2)
                                      bad map_index (bmt s2))
                            (\<lambda>t. let s3 = prepare_bmt_buffers (s2\<lparr>bmt := t\<rparr>)
                                  in res_bind (write_bmt_to_flash fuel C (dat_buf s3) (oob_buf s3) s3)
                                       (\<lambda>(ok, s4).
                                          if \<not> ok then Inr (False, s4\<lparr>isUpdateBmt := False\<rparr>)
                                          else let s5 = snd (mark_block_bad_bmt C offset
                                                  (bad \<ge> system_block_count s4) s4)
                                               in Inr (True, s5\<lparr>isUpdateBmt := False\<rparr>)))))"

fun recover_copy :: "nand_cfg \<Rightarrow> nat \<Rightarrow> nat \<Rightarrow> nat list \<Rightarrow> bmt_globals \<Rightarrow> bool \<times> bmt_globals" where
  "recover_copy C mapped_block recovered_block [] s = (True, s)"
| "recover_copy C mapped_block recovered_block (page # pages) s =
    (let (_, s1) = nand_read_page_bmt C (PAGE_ADDR C mapped_block + page) s;
         (r, s2) = nand_write_page_bmt C (PAGE_ADDR C recovered_block + page) (dat_buf s1) (oob_buf s1) s1
     in if r \<noteq> 0 then (False, s2) else recover_copy C mapped_block recovered_block pages s2)"

definition erase_block_s :: "nand_cfg \<Rightarrow> nat \<Rightarrow> bmt_globals \<Rightarrow> SPI_NAND_FLASH_RTN_T \<times> bmt_globals" where
  "erase_block_s C block s = (let (st, d) = spi_nand_erase_block C block (dev s) in (st, s\<lparr>dev := d\<rparr>))"

definition recover_data_from_bmt :: "nand_cfg \<Rightarrow> nat \<Rightarrow> nat \<Rightarrow> bmt_globals \<Rightarrow> int \<times> bmt_globals" where
  "recover_data_from_bmt C recovered_offset mapped_offset s =
    (let mapped_block = mapped_offset div erase_size C;
         recovered_block = recovered_offset div erase_size C;
         (st, s1) = erase_block_s C recovered_block s
     in if st \<noteq> RTN_NO_ERROR then (3, s1)
        else let (ok, s2) = recover_copy C mapped_block recovered_block [0..<page_per_block s1] s1
             in if \<not> ok then (1, s2)
                else let (st2, s3) = erase_block_s C mapped_block s2
                     in (if st2 = RTN_NO_ERROR then 0 else 2, s3))"

text \<open>
  The last matching entry is the one deleted; the entries after it move
  down by one and the entry at index mapped\_count (one past the live
  ones) is cleared.
\<close>

definition last_index :: "('a \<Rightarrow> bool) \<Rightarrow> 'a list \<Rightarrow> nat option" where
  "last_index P xs = map_option (\<lambda>i. length xs - 1 - i) (find_index P (rev xs))"

definition delete_entry :: "nat \<Rightarrow> bmt_struct \<Rightarrow> fault + bmt_struct" where
  "delete_entry i t =
    (let n = unat (mapped_count t)
     in if n \<ge> MAX_BMT_SIZE then Inl OutOfBounds
        else Inr (t\<lparr>bmt_table := (take i (bmt_table t) @ slice (Suc i) (n - Suc i) (bmt_table t)
                       @ drop (n - 1) (bmt_table t))[n := \<lparr>bad_index = 0, mapped_index = 0\<rparr>],
                    mapped_count := mapped_count t - 1\<rparr>))"

definition recover_bmt :: "nat \<Rightarrow> nand_cfg \<Rightarrow> nat \<Rightarrow> bmt_globals \<Rightarrow> fault + bool \<times> bmt_globals" where
  "recover_bmt fuel C bad_offset s =
    (let bad_block = bad_offset div erase_size C
     in case last_index (\<lambda>e. unat (bad_index e) = bad_block) (live_entries (bmt s)) of
          Some i \<Rightarrow>
            (let mapped_offset = unat (mapped_index (bmt_table (bmt s) ! i)) * erase_size C;
                 (r, s1) = recover_data_from_bmt C bad_offset mapped_offset s
             in if r \<noteq> 0 then Inr (False, s1)
                else res_bind (delete_entry i (bmt s1))
                       (\<lambda>t. let s2 = prepare_bmt_buffers (s1\<lparr>bmt := t\<rparr>)
                             in write_bmt_to_flash fuel C (dat_buf s2) (oob_buf s2) s2))
        | None \<Rightarrow>
            (let (bad, s1) = block_bad_either C bad_block s
             in if bad \<and> system_block_count s1 < bad_block
                then let (st, s2) = erase_block_s C bad_block s1 in Inr (st = RTN_NO_ERROR, s2)
                else Inr (True, s1)))"

end
