(* ===== verification/Bmt_Pool.thy ===== *)
theory Bmt_Pool
  imports Bmt
begin

text \<open>
  The replacement pool: which of its blocks are available, and what scanning
  and erasing it does. The chip's marks are shown to meet the block-check
  interface, whose lemmas decide the guards of find\_available\_block; the frame
  relation dev\_only says which blocks an operation may have touched.
  Under the hypothesis that programming a mark takes (marks\_stick),
  find\_available\_block returns the first available block and that block is erased.
\<close>

section \<open>State changes confined to a set of blocks\<close>

definition dev_only :: "nand_cfg \<Rightarrow> nat set \<Rightarrow> bmt_globals \<Rightarrow> bmt_globals \<Rightarrow> bool" where
  "dev_only C B s s' \<longleftrightarrow> s' = s\<lparr>dev := dev s'\<rparr> \<and> (wf_dev C (dev s) \<longrightarrow> wf_dev C (dev s'))
     \<and> (\<forall>p. p div pages_per_block C \<notin> B \<longrightarrow>
          flash_data (dev s') p = flash_data (dev s) p \<and> flash_oob (dev s') p = flash_oob (dev s) p)"

lemma dev_onlyI:
  assumes "wf_dev C (dev s) \<Longrightarrow> wf_dev C d"
    and "\<And>p. p div pages_per_block C \<notin> B \<Longrightarrow>
          flash_data d p = flash_data (dev s) p \<and> flash_oob d p = flash_oob (dev s) p"
  shows "dev_only C B s (s\<lparr>dev := d\<rparr>)"
  using assms by (simp add: dev_only_def)

lemma dev_only_refl [simp]: "dev_only C B s s"
  by (simp add: dev_only_def)

lemma dev_only_trans: "dev_only C A s s' \<Longrightarrow> dev_only C B s' s'' \<Longrightarrow> dev_only C (A \<union> B) s s''"
  unfolding dev_only_def by (metis (mono_tags, lifting) Un_iff bmt_globals.surjective
      bmt_globals.update_convs(17))

lemma dev_only_mono: "dev_only C A s s' \<Longrightarrow> A \<subseteq> B \<Longrightarrow> dev_only C B s s'"
  by (auto simp: dev_only_def)

lemma dev_only_wf: "dev_only C B s s' \<Longrightarrow> wf_dev C (dev s) \<Longrightarrow> wf_dev C (dev s')"
  by (simp add: dev_only_def)

lemma dev_only_fields:
  assumes "dev_only C B s s'"
  shows "bmt s' = bmt s" "bmt_block_index s' = bmt_block_index s" "bbt_block_index s' = bbt_block_index s"
    "total_block_count s' = total_block_count s" "system_block_count s' = system_block_count s"
    "bmt_block_count s' = bmt_block_count s" "page_per_block s' = page_per_block s"
    "init_bbt s' = init_bbt s" "dat_buf s' = dat_buf s" "oob_buf s' = oob_buf s"
    "pool_erased s' = pool_erased s" "isUpdateBmt s' = isUpdateBmt s" "pBbt s' = pBbt s"
    "need_write_bmt_to_nand s' = need_write_bmt_to_nand s"
    "need_write_bbt_to_nand s' = need_write_bbt_to_nand s" "nand_logic_size s' = nand_logic_size s"
  using assms unfolding dev_only_def by (metis bmt_globals.select_convs bmt_globals.surjective
      bmt_globals.update_convs(17))+

lemma dev_only_marked:
  assumes "dev_only C B s s'" "wf_dev C (dev s)" "b \<notin> B"
  shows "block_marked C (dev s') b k = block_marked C (dev s) b k"
  using assms pages_per_block_eq(2)[of C] by (simp add: dev_only_def block_marked_def wf_dev_cfg)

lemma dev_only_erased:
  assumes "dev_only C B s s'" "b \<notin> B"
  shows "block_erased C (dev s') b = block_erased C (dev s) b"
  using assms by (auto simp: dev_only_def block_erased_def page_in_block_def)

lemma same_outside_dev_only:
  assumes "same_outside C b (dev s) d" "wf_dev C (dev s) \<Longrightarrow> wf_dev C d"
  shows "dev_only C {b} s (s\<lparr>dev := d\<rparr>)"
  using assms by (intro dev_onlyI) (auto simp: same_outside_def page_in_block_def)

lemma block_bad_dev_only: "dev_only C {} s (snd (nand_block_bad_bmt C off k s))"
  using check_block_bad_wf[of C "dev s" off k] check_block_bad_array[of "dev s" C off k]
  by (auto simp: nand_block_bad_bmt_def same_array_def split: prod.splits intro!: dev_onlyI)

lemma erase_bmt_dev_only: "dev_only C {b} s (snd (nand_erase_bmt C (OFFSET C b) s))"
  using erase_block_outside[of C b "SPI_NAND_Flash_Clear_Read_Cache_Data (dev s)"]
    erase_block_clear_wf[of C "dev s" b]
  by (auto simp: nand_erase_bmt_def en7512_nand_erase_def OFFSET_def same_outside_def wf_dev_def
      split: prod.splits intro!: same_outside_dev_only)

lemma erase_bmt_erases:
  "fst (nand_erase_bmt C (OFFSET C b) s) = 0 \<Longrightarrow> block_erased C (dev (snd (nand_erase_bmt C (OFFSET C b) s))) b"
  using erase_block_erases[of C b "SPI_NAND_Flash_Clear_Read_Cache_Data (dev s)"]
  by (auto simp: nand_erase_bmt_def en7512_nand_erase_def OFFSET_def split: prod.splits if_splits)

lemma mark_bad_dev_only:
  assumes "wf_cfg C" shows "dev_only C {b} s (snd (mark_block_bad_bmt C (OFFSET C b) k s))"
  using mark_badblock_outside[OF assms, of b "dev s" k] mark_badblock_wf[of C "dev s" "OFFSET C b" k]
  by (auto simp: mark_block_bad_bmt_def OFFSET_def wf_dev_def split: prod.splits intro!: same_outside_dev_only)

lemma write_page_bmt_dev_only:
  assumes "page_in_block C b p" shows "dev_only C {b} s (snd (nand_write_page_bmt C p dat oob s))"
  using write_page_outside[OF assms, of "dev s" 0 "take (page_size C) dat" "take (oob_size C) oob"]
    write_page_wf[of C "dev s" 0 "take (page_size C) dat" "take (oob_size C) oob" p]
  by (auto simp: nand_write_page_bmt_def en7512_nand_exec_write_page_def wf_dev_def
      split: prod.splits intro!: same_outside_dev_only)

text \<open>The marks of the code's model meet the block-check contract.\<close>

interpretation bc: block_check "\<lambda>s. wf_dev C (dev s)" "\<lambda>b. b < block_total C"
    "\<lambda>s. block_marked C (dev s)" "\<lambda>s s'. dev_only C {} s s' \<and> wf_dev C (dev s)"
    "\<lambda>b. nand_block_bad_bmt C (OFFSET C b)" for C
proof (unfold_locales, goal_cases)
  case (2 d b k)
  then show ?case
    using check_block_bad_spec[of C "dev d" b k] by (auto simp: nand_block_bad_bmt_def OFFSET_def split: prod.splits)
next
  case (3 d d' d'')
  then show ?case using dev_only_trans[of C "{}" d d' "{}" d''] by simp
next
  case (5 d d' b k)
  then show ?case using dev_only_marked by blast
qed (auto simp: block_bad_dev_only dev_only_wf)

lemma block_bad_either_eq: "block_bad_either C b s = bc.either C b s"
  by (simp add: block_bad_either_def bc.either_def)


section \<open>Availability of pool blocks\<close>

definition mapped_blocks :: "bmt_globals \<Rightarrow> nat set" where
  "mapped_blocks s = (\<lambda>e. unat (mapped_index e)) ` set (live_entries (bmt s))"

definition available :: "nand_cfg \<Rightarrow> bmt_globals \<Rightarrow> nat \<Rightarrow> bool" where
  "available C s b \<longleftrightarrow> b \<noteq> bmt_block_index s \<and> b \<noteq> bbt_block_index s
     \<and> \<not> block_marked C (dev s) b False \<and> \<not> block_marked C (dev s) b True \<and> b \<notin> mapped_blocks s"

definition pool :: "bmt_globals \<Rightarrow> nat set" where
  "pool s = {system_block_count s..<system_block_count s + bmt_block_count s}"

definition wf_pool :: "nand_cfg \<Rightarrow> bmt_globals \<Rightarrow> bool" where
  "wf_pool C s \<longleftrightarrow> wf_dev C (dev s) \<and> total_block_count s = block_total C
     \<and> system_block_count s + bmt_block_count s = total_block_count s
     \<and> 0 < system_block_count s \<and> bmt_block_count s \<le> MAX_BMT_SIZE \<and> total_block_count s \<le> 65535
     \<and> page_per_block s = pages_per_block C \<and> length (bmt_table (bmt s)) = MAX_BMT_SIZE
     \<and> length (dat_buf s) = MAX_DAT_SIZE \<and> length (oob_buf s) = MAX_OOB_SIZE"

text \<open>Programming a bad-block mark takes: afterwards the mark is read back.\<close>

definition marks_stick :: "nand_cfg \<Rightarrow> bool" where
  "marks_stick C \<longleftrightarrow> (\<forall>d b k. wf_dev C d \<longrightarrow> b < block_total C \<longrightarrow>
     block_marked C (snd (en7512_nand_mark_badblock C (b * erase_size C) k d)) b k)"

definition pool_clean :: "nand_cfg \<Rightarrow> bmt_globals \<Rightarrow> bool" where
  "pool_clean C s \<longleftrightarrow> (\<forall>b\<in>pool s. available C s b \<longrightarrow> block_erased C (dev s) b)"

lemma pool_lt: "wf_pool C s \<Longrightarrow> b \<in> pool s \<Longrightarrow> b < block_total C \<and> 0 < b"
  by (auto simp: wf_pool_def pool_def)

lemma set_pool_up [simp]: "set (pool_up s) = pool s"
  by (auto simp: pool_up_def pool_def image_iff intro!: bexI[of _ "_ - system_block_count s"])

lemma distinct_pool_up [simp]: "distinct (pool_up s)"
  by (simp add: pool_up_def distinct_map)

lemma set_pool_down:
  assumes "wf_pool C s" shows "set (pool_down s) = pool s"
proof -
  have "system_block_count s + bmt_block_count s = total_block_count s" using assms by (simp add: wf_pool_def)
  then have "\<exists>i\<in>{0..<bmt_block_count s}. x = total_block_count s - 1 - i" if "x \<in> pool s" for x
    using that by (intro bexI[of _ "total_block_count s - 1 - x"]) (auto simp: pool_def)
  moreover have "set (pool_down s) \<subseteq> pool s"
    using \<open>_ = total_block_count s\<close> by (auto simp: pool_down_def pool_def)
  ultimately show ?thesis unfolding pool_down_def set_map set_upt by blast
qed

lemma wf_pool_dev_only: "dev_only C B s s' \<Longrightarrow> wf_pool C s \<Longrightarrow> wf_pool C s'"
  using dev_only_fields[of C B s s'] dev_only_wf[of C B s s'] by (simp add: wf_pool_def)

lemma pool_dev_only: "dev_only C B s s' \<Longrightarrow> pool s' = pool s"
  using dev_only_fields[of C B s s'] by (simp add: pool_def)

lemma available_dev_only:
  assumes "dev_only C B s s'" "wf_dev C (dev s)" "b \<notin> B"
  shows "available C s' b = available C s b"
  using assms dev_only_marked[OF assms] dev_only_fields[OF assms(1)]
  by (simp add: available_def mapped_blocks_def)

lemma is_block_mapped_iff: "is_block_mapped t b \<ge> 0 \<longleftrightarrow> b \<in> (\<lambda>e. unat (mapped_index e)) ` set (live_entries t)"
proof (cases "find_index (\<lambda>e. unat (mapped_index e) = b) (live_entries t)")
  case None
  with find_index_None[THEN iffD1, OF None] show ?thesis by (auto simp: is_block_mapped_def)
next
  case (Some i)
  then show ?thesis by (force simp: is_block_mapped_def elim: find_indexE)
qed

lemma pool_skip_spec:
  assumes "wf_dev C (dev s)" "b < block_total C"
  shows "fst (pool_skip C b s) = (\<not> available C s b)" "dev_only C {} s (snd (pool_skip C b s))"
proof -
  have e: "fst (block_bad_either C b s) = (block_marked C (dev s) b False \<or> block_marked C (dev s) b True)"
    and d: "dev_only C {} s (snd (block_bad_either C b s))"
    using bc.either_result[OF assms] bc.either_sim[of C s b] assms by (simp_all add: block_bad_either_eq)
  show "fst (pool_skip C b s) = (\<not> available C s b)"
    using e dev_only_fields(1)[OF d] is_block_mapped_iff[of "bmt s" b]
    by (auto simp: pool_skip_def available_def mapped_blocks_def split: prod.splits)
  show "dev_only C {} s (snd (pool_skip C b s))"
    using d by (auto simp: pool_skip_def split: prod.splits)
qed

lemma search_pool_spec:
  assumes "wf_dev C (dev s)" "\<forall>b\<in>set bs. b < block_total C"
  shows "fst (search_pool C bs s) = (case find (available C s) bs of None \<Rightarrow> 0 | Some b \<Rightarrow> b)
       \<and> dev_only C {} s (snd (search_pool C bs s))"
  using assms
proof (induction bs arbitrary: s)
  case (Cons b bs)
  obtain skip s1 where ps: "pool_skip C b s = (skip, s1)" by force
  have sk: "skip = (\<not> available C s b)" and d: "dev_only C {} s s1"
    using pool_skip_spec[of C s b] Cons.prems ps by auto
  have av: "available C s1 = available C s" using available_dev_only[OF d Cons.prems(1)] by auto
  have wf: "wf_dev C (dev s1)" using dev_only_wf[OF d Cons.prems(1)] .
  show ?case using Cons.IH[OF wf] Cons.prems dev_only_trans[OF d] d by (simp add: ps sk av)
qed simp

lemma erase_pool_spec:
  assumes "wf_dev C (dev s)" "marks_stick C" "distinct bs" "\<forall>b\<in>set bs. b < block_total C"
  shows "dev_only C {b\<in>set bs. available C s b} s (erase_pool C bs s)"
    and "\<forall>b\<in>set bs. available C s b \<longrightarrow> block_erased C (dev (erase_pool C bs s)) b
            \<or> block_marked C (dev (erase_pool C bs s)) b True"
proof -
  have "dev_only C {b\<in>set bs. available C s b} s (erase_pool C bs s)
      \<and> (\<forall>b\<in>set bs. available C s b \<longrightarrow> block_erased C (dev (erase_pool C bs s)) b
            \<or> block_marked C (dev (erase_pool C bs s)) b True)"
    using assms
  proof (induction bs arbitrary: s)
    case (Cons b bs)
    have cfg: "wf_cfg C" using Cons.prems(1) by (simp add: wf_dev_cfg)
    obtain skip s1 where ps: "pool_skip C b s = (skip, s1)" by force
    have sk: "skip = (\<not> available C s b)" and d1: "dev_only C {} s s1"
      using pool_skip_spec[of C s b] Cons.prems ps by auto
    define s2 where "s2 = (if skip then s1 else
       (if fst (nand_erase_bmt C (OFFSET C b) s1) \<noteq> 0
        then snd (mark_block_bad_bmt C (OFFSET C b) True (snd (nand_erase_bmt C (OFFSET C b) s1)))
        else snd (nand_erase_bmt C (OFFSET C b) s1)))"
    have run: "erase_pool C (b # bs) s = erase_pool C bs s2"
      by (auto simp: s2_def ps split: prod.splits)
    have d2: "dev_only C (if available C s b then {b} else {}) s s2"
      using d1 erase_bmt_dev_only[of C b s1] mark_bad_dev_only[OF cfg, of b _ True] dev_only_trans[OF d1]
        dev_only_trans[OF erase_bmt_dev_only[of C b s1] mark_bad_dev_only[OF cfg, of b _ True]]
      by (simp add: s2_def sk)
    have wf2: "wf_dev C (dev s2)" using dev_only_wf[OF d2 Cons.prems(1)] .
    have hd: "block_erased C (dev s2) b \<or> block_marked C (dev s2) b True" if "available C s b"
      using that erase_bmt_erases[of C b s1] Cons.prems(2,4)
        dev_only_wf[OF erase_bmt_dev_only dev_only_wf[OF d1 Cons.prems(1)], of b]
      by (auto simp: s2_def sk marks_stick_def mark_block_bad_bmt_def OFFSET_def split: prod.splits)
         (metis snd_conv)
    have av: "available C s2 x = available C s x" if "x \<in> set bs" for x
    proof (rule available_dev_only[OF d2 Cons.prems(1)])
      show "x \<notin> (if available C s b then {b} else {})" using that Cons.prems(3) by auto
    qed
    note IH = Cons.IH[OF wf2 Cons.prems(2)]
    have d3: "dev_only C {x\<in>set bs. available C s x} s2 (erase_pool C bs s2)"
      using IH Cons.prems av by (auto intro: dev_only_mono)
    have "dev_only C {x\<in>set (b # bs). available C s x} s (erase_pool C (b # bs) s)"
      unfolding run by (rule dev_only_mono[OF dev_only_trans[OF d2 d3]]) auto
    moreover have "block_erased C (dev (erase_pool C bs s2)) b = block_erased C (dev s2) b"
      "block_marked C (dev (erase_pool C bs s2)) b True = block_marked C (dev s2) b True"
      using dev_only_erased[OF d3] dev_only_marked[OF d3 wf2] Cons.prems(3) by auto
    ultimately show ?case using hd IH Cons.prems av unfolding run by auto
  qed simp
  then show "dev_only C {b\<in>set bs. available C s b} s (erase_pool C bs s)"
    "\<forall>b\<in>set bs. available C s b \<longrightarrow> block_erased C (dev (erase_pool C bs s)) b
            \<or> block_marked C (dev (erase_pool C bs s)) b True" by simp_all
qed

section \<open>Finding a block\<close>

definition avail :: "nand_cfg \<Rightarrow> bmt_globals \<Rightarrow> nat set" where
  "avail C s = {b \<in> pool s. available C s b}"

definition pool_inv :: "nand_cfg \<Rightarrow> bmt_globals \<Rightarrow> bool" where
  "pool_inv C s \<longleftrightarrow> wf_pool C s \<and> (pool_erased s \<longrightarrow> pool_clean C s)"

lemma finite_avail [simp]: "finite (avail C s)"
  by (simp add: avail_def pool_def)

lemma avail_le: "card (avail C s) \<le> bmt_block_count s"
proof -
  have "card (avail C s) \<le> card (pool s)" by (intro card_mono) (auto simp: avail_def pool_def)
  then show ?thesis by (simp add: pool_def)
qed

lemma pool_inv_wf: "pool_inv C s \<Longrightarrow> wf_dev C (dev s)" "pool_inv C s \<Longrightarrow> wf_cfg C"
  by (auto simp: pool_inv_def wf_pool_def wf_dev_cfg)

lemma pool_erased_upd [simp]:
  "available C (s\<lparr>pool_erased := v\<rparr>) = available C s" "pool (s\<lparr>pool_erased := v\<rparr>) = pool s"
  "wf_pool C (s\<lparr>pool_erased := v\<rparr>) = wf_pool C s"
  by (simp_all add: available_def mapped_blocks_def pool_def wf_pool_def fun_eq_iff)

lemma dev_only_eq: "dev_only C B s s' \<Longrightarrow> \<exists>d. s' = s\<lparr>dev := d\<rparr>"
  unfolding dev_only_def by blast

lemma dev_only_pool_erased:
  assumes "dev_only C B s s'" shows "dev_only C B (s\<lparr>pool_erased := v\<rparr>) (s'\<lparr>pool_erased := v\<rparr>)"
proof -
  obtain d where "s' = s\<lparr>dev := d\<rparr>" using dev_only_eq[OF assms] by blast
  with assms show ?thesis by (simp add: dev_only_def)
qed

lemma find_prepare:
  assumes "pool_inv C s" "marks_stick C"
  shows "let s1 = (if pool_erased s then s else (erase_pool C (pool_up s) s)\<lparr>pool_erased := True\<rparr>)
     in dev_only C (avail C s) (s\<lparr>pool_erased := True\<rparr>) s1 \<and> pool_clean C s1 \<and> avail C s1 \<subseteq> avail C s"
proof (cases "pool_erased s")
  case True
  then have e: "s\<lparr>pool_erased := True\<rparr> = s" by simp
  show ?thesis unfolding Let_def e using True assms by (simp add: pool_inv_def)
next
  case False
  have wf: "wf_pool C s" "wf_dev C (dev s)" "wf_cfg C" using assms by (auto simp: pool_inv_def wf_pool_def wf_dev_cfg)
  let ?s' = "erase_pool C (pool_up s) s"
  have lt: "\<forall>b\<in>set (pool_up s). b < block_total C" using pool_lt[OF wf(1)] by simp
  have d: "dev_only C (avail C s) s ?s'"
    and e: "\<forall>b\<in>avail C s. block_erased C (dev ?s') b \<or> block_marked C (dev ?s') b True"
    using erase_pool_spec[OF wf(2) assms(2) distinct_pool_up lt] by (simp_all add: avail_def)
  have p: "pool ?s' = pool s" using pool_dev_only[OF d] .
  have sub: "available C s b" if "available C ?s' b" "b \<in> pool s" for b
    using available_dev_only[OF d wf(2), of b] that by (auto simp: avail_def)
  have "pool_clean C (?s'\<lparr>pool_erased := True\<rparr>)"
    using e sub p by (auto simp: pool_clean_def avail_def available_def)
  moreover have "dev_only C (avail C s) (s\<lparr>pool_erased := True\<rparr>) (?s'\<lparr>pool_erased := True\<rparr>)"
    by (rule dev_only_pool_erased[OF d])
  ultimately show ?thesis using False sub p by (auto simp: avail_def)
qed

lemma find_available_spec:
  assumes "pool_inv C s" "marks_stick C" and run: "find_available_block C from_end s = (b, s')"
  shows "dev_only C (avail C s) (s\<lparr>pool_erased := True\<rparr>) s'" "pool_inv C s'" "avail C s' \<subseteq> avail C s"
    "b = 0 \<Longrightarrow> avail C s' = {}" "b \<noteq> 0 \<Longrightarrow> b \<in> avail C s' \<and> block_erased C (dev s') b"
    "b = (case find (available C s') (if from_end then pool_down s else pool_up s) of None \<Rightarrow> 0 | Some x \<Rightarrow> x)"
proof -
  define s1 where "s1 = (if pool_erased s then s else (erase_pool C (pool_up s) s)\<lparr>pool_erased := True\<rparr>)"
  have 1: "dev_only C (avail C s) (s\<lparr>pool_erased := True\<rparr>) s1" "pool_clean C s1" "avail C s1 \<subseteq> avail C s"
    using find_prepare[OF assms(1,2)] by (simp_all add: s1_def Let_def)
  have wf: "wf_pool C s1" "wf_dev C (dev s1)"
    using wf_pool_dev_only[OF 1(1)] assms(1) by (simp_all add: pool_inv_def wf_pool_def)
  define bs where "bs = (if from_end then pool_down s1 else pool_up s1)"
  have set_bs: "set bs = pool s1" using set_pool_down[OF wf(1)] by (simp add: bs_def)
  then have lt: "\<forall>b\<in>set bs. b < block_total C" using pool_lt[OF wf(1)] by simp
  have bs': "bs = (if from_end then pool_down s else pool_up s)"
    using dev_only_fields[OF 1(1)] by (simp add: bs_def pool_up_def pool_down_def)
  have r: "search_pool C bs s1 = (b, s')"
    using run unfolding find_available_block_def s1_def[symmetric] bs_def by (simp add: Let_def)
  have b: "b = (case find (available C s1) bs of None \<Rightarrow> 0 | Some x \<Rightarrow> x)" and d: "dev_only C {} s1 s'"
    using search_pool_spec[OF wf(2) lt] r by auto
  have av: "available C s' = available C s1" using available_dev_only[OF d wf(2)] by auto
  have pl: "pool s' = pool s1" using pool_dev_only[OF d] .
  have er: "block_erased C (dev s') = block_erased C (dev s1)" using dev_only_erased[OF d] by auto
  have avs: "avail C s' = avail C s1" by (simp add: avail_def av pl)
  show "dev_only C (avail C s) (s\<lparr>pool_erased := True\<rparr>) s'"
    using dev_only_trans[OF 1(1) d] by simp
  show "pool_inv C s'"
    using wf_pool_dev_only[OF d wf(1)] 1(2) by (simp add: pool_inv_def pool_clean_def av pl er)
  show "avail C s' \<subseteq> avail C s" using 1(3) avs by simp
  show "avail C s' = {}" if "b = 0"
  proof (cases "find (available C s1) bs")
    case None
    then show ?thesis using set_bs unfolding avs by (auto simp: find_None_iff avail_def)
  next
    case (Some x)
    then have "x \<in> set bs" by (auto simp: find_Some_iff)
    with that b Some set_bs pool_lt[OF wf(1), of 0] show ?thesis by auto
  qed
  show "b \<in> avail C s' \<and> block_erased C (dev s') b" if "b \<noteq> 0"
  proof -
    from that b have "find (available C s1) bs = Some b" by (auto split: option.splits)
    then have "available C s1 b" "b \<in> set bs" by (auto simp: find_Some_iff)
    then show ?thesis using set_bs 1(2) unfolding avs by (simp add: avail_def er pool_clean_def)
  qed
  show "b = (case find (available C s') (if from_end then pool_down s else pool_up s) of None \<Rightarrow> 0 | Some x \<Rightarrow> x)"
    using b bs' av by simp
qed

section \<open>Pages of the replacement blocks\<close>

definition page_holds :: "nand_cfg \<Rightarrow> nand_dev \<Rightarrow> nat \<Rightarrow> bytes \<Rightarrow> bytes \<Rightarrow> bool" where
  "page_holds C d p dat oob \<longleftrightarrow> flash_data d p = take (page_size C) dat \<and> flash_oob d p = take (oob_size C) oob"

definition page_blank :: "nand_cfg \<Rightarrow> nand_dev \<Rightarrow> nat \<Rightarrow> bool" where
  "page_blank C d p \<longleftrightarrow> flash_data d p = replicate (page_size C) 0xFF \<and> flash_oob d p = replicate (oob_size C) 0xFF"

lemma write_page_bmt_stores:
  assumes "wf_dev C (dev s)" "page_blank C (dev s) p" "page_size C \<le> length dat" "oob_size C \<le> length oob"
    and "fst (nand_write_page_bmt C p dat oob s) = 0"
  shows "page_holds C (dev (snd (nand_write_page_bmt C p dat oob s))) p dat oob"
    and "q \<noteq> p \<Longrightarrow> flash_data (dev (snd (nand_write_page_bmt C p dat oob s))) q = flash_data (dev s) q
           \<and> flash_oob (dev (snd (nand_write_page_bmt C p dat oob s))) q = flash_oob (dev s) q"
  using write_page_stores[of C "dev s" "take (page_size C) dat" "take (oob_size C) oob" p] assms
  by (auto simp: nand_write_page_bmt_def en7512_nand_exec_write_page_def page_holds_def page_blank_def
      split: prod.splits if_splits)

lemma mark_bad_marks:
  assumes "marks_stick C" "wf_dev C (dev s)" "b < block_total C"
  shows "block_marked C (dev (snd (mark_block_bad_bmt C (OFFSET C b) k s))) b k"
  using assms unfolding marks_stick_def mark_block_bad_bmt_def OFFSET_def
  by (auto split: prod.splits) (metis snd_conv)

lemma PAGE_ADDR_eq: "wf_cfg C \<Longrightarrow> PAGE_ADDR C b = b * pages_per_block C"
  by (simp add: PAGE_ADDR_def offset_div_page)

lemma erased_blank: "block_erased C d b \<Longrightarrow> page_in_block C b p \<Longrightarrow> page_blank C d p"
  by (simp add: block_erased_def page_blank_def)

section \<open>Using up blocks\<close>

text \<open>
  A block leaves the available set when it is marked or put to use; as long
  as nothing else changes, the pool stays clean.
\<close>

lemma pool_inv_take:
  assumes inv: "pool_inv C s" and wf: "wf_pool C s'" and p: "pool s' = pool s"
    and er: "pool_erased s' = pool_erased s" and nb: "\<not> available C s' b"
    and av: "\<And>x. x \<in> pool s \<Longrightarrow> x \<noteq> b \<Longrightarrow> available C s' x = available C s x
               \<and> block_erased C (dev s') x = block_erased C (dev s) x"
  shows "pool_inv C s'" "avail C s' = avail C s - {b}"
proof -
  show "avail C s' = avail C s - {b}"
  proof (rule set_eqI)
    fix x show "(x \<in> avail C s') = (x \<in> avail C s - {b})"
      using av[of x] nb p by (cases "x = b") (auto simp: avail_def)
  qed
  have "pool_clean C s'" if "pool_clean C s"
    unfolding pool_clean_def
  proof (intro ballI impI)
    fix x assume x: "x \<in> pool s'" "available C s' x"
    with nb have "x \<noteq> b" by auto
    then show "block_erased C (dev s') x" using that av[of x] x p by (simp add: pool_clean_def)
  qed
  then show "pool_inv C s'" using inv wf er by (simp add: pool_inv_def)
qed

lemma pool_inv_touch:
  assumes inv: "pool_inv C s" and d: "dev_only C {b} s s'" and nb: "\<not> available C s' b"
  shows "pool_inv C s'" "avail C s' = avail C s - {b}"
  using pool_inv_take[OF inv wf_pool_dev_only[OF d] pool_dev_only[OF d] dev_only_fields(11)[OF d] nb]
    available_dev_only[OF d pool_inv_wf(1)[OF inv]] dev_only_erased[OF d] inv
  by (auto simp: pool_inv_def)

text \<open>One attempt to store a table page in a fresh block: it is stored, or the block is marked.\<close>

lemma fresh_block_write:
  assumes inv: "pool_inv C s" and stick: "marks_stick C" and b: "b \<in> pool s" "block_erased C (dev s) b"
    and len: "page_size C \<le> length dat" "oob_size C \<le> length oob"
    and w: "nand_write_page_bmt C (PAGE_ADDR C b) dat oob s = (r, s2)"
  shows "dev_only C {b} s s2" "r = 0 \<Longrightarrow> page_holds C (dev s2) (PAGE_ADDR C b) dat oob"
    "dev_only C {b} s (snd (mark_block_bad_bmt C (OFFSET C b) True s2))"
    "block_marked C (dev (snd (mark_block_bad_bmt C (OFFSET C b) True s2))) b True"
proof -
  note wf = pool_inv_wf[OF inv]
  have p: "page_in_block C b (PAGE_ADDR C b)" using wf(2) by (simp add: PAGE_ADDR_eq)
  show d: "dev_only C {b} s s2" using write_page_bmt_dev_only[OF p, of s dat oob] w by simp
  show "r = 0 \<Longrightarrow> page_holds C (dev s2) (PAGE_ADDR C b) dat oob"
    using write_page_bmt_stores(1)[OF wf(1) erased_blank[OF b(2) p] len] w by simp
  show "dev_only C {b} s (snd (mark_block_bad_bmt C (OFFSET C b) True s2))"
    using dev_only_trans[OF d mark_bad_dev_only[OF wf(2), of b s2 True]] by simp
  show "block_marked C (dev (snd (mark_block_bad_bmt C (OFFSET C b) True s2))) b True"
    using mark_bad_marks[OF stick dev_only_wf[OF d wf(1)]] pool_lt[of C s b] b inv by (simp add: pool_inv_def)
qed

end
