(* ===== verification/Bmt_Writers.thy ===== *)
theory Bmt_Writers
  imports Bmt_Pool
begin

text \<open>
  The recursive writers write\_bbt\_to\_flash and write\_bmt\_to\_flash are retry
  loops: an attempt either ends them or marks one more block bad and starts
  over. Interpreting the retry-loop interface on them shows that, as long as
  marks take, they return after at most one call per available block (plus
  one for the current table block), that on success the page is stored in a pool
  block that was free, and that they fail only when no block is left.
\<close>

section \<open>State kept by the writers\<close>

text \<open>The writers change the device, the buffers, pool\_erased and the two table positions only.\<close>

definition kept :: "bmt_globals \<Rightarrow> bmt_globals \<Rightarrow> bool" where
  "kept s s' \<longleftrightarrow> total_block_count s' = total_block_count s \<and> system_block_count s' = system_block_count s
     \<and> bmt_block_count s' = bmt_block_count s \<and> page_per_block s' = page_per_block s
     \<and> bmt s' = bmt s \<and> init_bbt s' = init_bbt s \<and> pBbt s' = pBbt s \<and> nand_logic_size s' = nand_logic_size s
     \<and> isUpdateBmt s' = isUpdateBmt s \<and> need_write_bmt_to_nand s' = need_write_bmt_to_nand s
     \<and> need_write_bbt_to_nand s' = need_write_bbt_to_nand s"

lemma kept_refl [simp]: "kept s s"
  by (simp add: kept_def)

lemma kept_trans: "kept s s' \<Longrightarrow> kept s' s'' \<Longrightarrow> kept s s''"
  by (simp add: kept_def)

lemma dev_only_kept: "dev_only C B s s' \<Longrightarrow> kept s s'"
  using dev_only_fields[of C B s s'] by (simp add: kept_def)

lemma kept_upd [simp]:
  "kept s (s'\<lparr>pool_erased := v\<rparr>) = kept s s'" "kept s (s'\<lparr>bbt_block_index := i\<rparr>) = kept s s'"
  "kept s (s'\<lparr>bmt_block_index := i\<rparr>) = kept s s'" "kept (s\<lparr>pool_erased := v\<rparr>) s' = kept s s'"
  "kept s (s'\<lparr>dat_buf := x\<rparr>) = kept s s'" "kept s (s'\<lparr>oob_buf := x\<rparr>) = kept s s'"
  "kept (s\<lparr>dat_buf := x\<rparr>) s' = kept s s'" "kept (s\<lparr>oob_buf := x\<rparr>) s' = kept s s'"
  "kept (s\<lparr>bbt_block_index := i\<rparr>) s' = kept s s'" "kept (s\<lparr>bmt_block_index := i\<rparr>) s' = kept s s'"
  by (simp_all add: kept_def)

text \<open>The array outside a set of blocks is untouched.\<close>

definition dev_same_outside :: "nand_cfg \<Rightarrow> nat set \<Rightarrow> nand_dev \<Rightarrow> nand_dev \<Rightarrow> bool" where
  "dev_same_outside C B d d' \<longleftrightarrow> (\<forall>p. p div pages_per_block C \<notin> B \<longrightarrow>
     flash_data d' p = flash_data d p \<and> flash_oob d' p = flash_oob d p)"

lemma dev_only_outside: "dev_only C B s s' \<Longrightarrow> dev_same_outside C B (dev s) (dev s')"
  by (simp add: dev_only_def dev_same_outside_def)

lemma dev_same_outside_trans:
  "dev_same_outside C A d d' \<Longrightarrow> dev_same_outside C B d' d'' \<Longrightarrow> A \<subseteq> D \<Longrightarrow> B \<subseteq> D \<Longrightarrow> dev_same_outside C D d d''"
  unfolding dev_same_outside_def by (metis subsetD)

lemma dev_only_trans_same: "dev_only C B s s' \<Longrightarrow> dev_only C B s' s'' \<Longrightarrow> dev_only C B s s''"
  using dev_only_trans[of C B s s' B s''] by simp

section \<open>The raw bad-block table\<close>

definition write_bbt_attempt ::
  "nand_cfg \<Rightarrow> bytes \<Rightarrow> bytes \<Rightarrow> bmt_globals \<Rightarrow> (bool \<times> bmt_globals) + bmt_globals" where
  "write_bbt_attempt C dat oob s =
    (let (b, s0) = find_available_block C False s
     in if b = 0 then Inl (False, s0\<lparr>bbt_block_index := 0\<rparr>)
        else let (r, s2) = nand_write_page_bmt C (PAGE_ADDR C b) dat oob (s0\<lparr>bbt_block_index := b\<rparr>)
             in if r \<noteq> 0
                then Inr ((snd (mark_block_bad_bmt C (OFFSET C b) True s2))\<lparr>bbt_block_index := 0\<rparr>)
                else Inl (True, s2))"

definition write_bbt_inv :: "nand_cfg \<Rightarrow> bytes \<Rightarrow> bytes \<Rightarrow> bmt_globals \<Rightarrow> bool" where
  "write_bbt_inv C dat oob s \<longleftrightarrow> pool_inv C s \<and> marks_stick C \<and> bbt_block_index s = 0
     \<and> page_size C \<le> length dat \<and> oob_size C \<le> length oob"

definition write_bbt_post ::
  "nand_cfg \<Rightarrow> bytes \<Rightarrow> bytes \<Rightarrow> bmt_globals \<Rightarrow> bool \<times> bmt_globals \<Rightarrow> bool" where
  "write_bbt_post C dat oob s = (\<lambda>(ok, s').
     pool_inv C s' \<and> kept s s' \<and> bmt_block_index s' = bmt_block_index s
     \<and> (if ok then bbt_block_index s' \<in> avail C s
              \<and> page_holds C (dev s') (PAGE_ADDR C (bbt_block_index s')) dat oob
        else bbt_block_index s' = 0 \<and> avail C s' = {}))"

text \<open>The two outcomes of an attempt, described on the state found by the search.\<close>

lemma write_bbt_attempt_cases:
  assumes inv: "write_bbt_inv C dat oob s"
  obtains (none) s0 where "write_bbt_attempt C dat oob s = Inl (False, s0)"
      "kept s s0" "bmt_block_index s0 = bmt_block_index s" "bbt_block_index s0 = 0" "pool_inv C s0" "avail C s0 = {}"
  | (stored) b s2 where "write_bbt_attempt C dat oob s = Inl (True, s2)" "b \<in> avail C s" "pool_inv C s2"
      "kept s s2" "bmt_block_index s2 = bmt_block_index s" "bbt_block_index s2 = b"
      "page_holds C (dev s2) (PAGE_ADDR C b) dat oob"
  | (again) b s4 where "write_bbt_attempt C dat oob s = Inr s4" "b \<in> avail C s" "pool_inv C s4"
      "kept s s4" "bmt_block_index s4 = bmt_block_index s" "bbt_block_index s4 = 0" "avail C s4 \<subseteq> avail C s - {b}"
proof -
  note h = inv[unfolded write_bbt_inv_def]
  obtain b s0 where f: "find_available_block C False s = (b, s0)" by force
  note spec = find_available_spec[OF conjunct1[OF h] _ f]
  have inv0: "pool_inv C s0" and sub: "avail C s0 \<subseteq> avail C s" using spec h by auto
  have st0: "kept s s0" "bmt_block_index s0 = bmt_block_index s" and z: "bbt_block_index s0 = 0"
    using dev_only_kept[OF spec(1)] dev_only_fields[OF spec(1)] h by simp_all
  show ?thesis
  proof (cases "b = 0")
    case True
    have "s0\<lparr>bbt_block_index := 0\<rparr> = s0" using z by simp
    then have "write_bbt_attempt C dat oob s = Inl (False, s0)" by (simp add: write_bbt_attempt_def f True)
    moreover have "avail C s0 = {}" using spec(4) True h by simp
    ultimately show ?thesis using none inv0 st0 z by blast
  next
    case False
    have b: "b \<in> pool s0" "available C s0 b" "block_erased C (dev s0) b" "b \<in> avail C s"
      using spec(5) False h sub by (auto simp: avail_def)
    obtain r s2' where w': "nand_write_page_bmt C (PAGE_ADDR C b) dat oob s0 = (r, s2')" by force
    define s2 where "s2 = s2'\<lparr>bbt_block_index := b\<rparr>"
    have w: "nand_write_page_bmt C (PAGE_ADDR C b) dat oob (s0\<lparr>bbt_block_index := b\<rparr>) = (r, s2)"
      using w' by (auto simp: nand_write_page_bmt_def s2_def split: prod.splits)
    have stick: "marks_stick C" and len: "page_size C \<le> length dat" "oob_size C \<le> length oob" using h by auto
    note fw = fresh_block_write[OF inv0 stick b(1,3) len w']
    show ?thesis
    proof (cases "r = 0")
      case True
      have "pool_inv C s2"
      proof (rule pool_inv_take(1)[OF inv0])
        show "wf_pool C s2" using wf_pool_dev_only[OF fw(1)] inv0 by (simp add: s2_def pool_inv_def wf_pool_def)
        show "\<not> available C s2 b" by (simp add: s2_def available_def)
        show "available C s2 x = available C s0 x \<and> block_erased C (dev s2) x = block_erased C (dev s0) x"
          if "x \<in> pool s0" "x \<noteq> b" for x
          using available_dev_only[OF fw(1) pool_inv_wf(1)[OF inv0], of x] dev_only_erased[OF fw(1), of x]
            that dev_only_fields(3)[OF fw(1)] z pool_lt[of C s0 x] inv0
          by (auto simp: s2_def available_def mapped_blocks_def pool_inv_def)
      qed (use dev_only_fields[OF fw(1)] in \<open>simp_all add: s2_def pool_def\<close>)
      moreover have "write_bbt_attempt C dat oob s = Inl (True, s2)"
        using False True by (simp add: write_bbt_attempt_def f w)
      ultimately show ?thesis
        using fw(2)[OF True] b(4) kept_trans[OF st0(1) dev_only_kept[OF fw(1)]] dev_only_fields(2)[OF fw(1)] st0(2)
        by (intro stored[of s2 b]) (simp_all add: s2_def)
    next
      case r: False
      define s4 where "s4 = snd (mark_block_bad_bmt C (OFFSET C b) True s2')"
      have s4: "(snd (mark_block_bad_bmt C (OFFSET C b) True s2))\<lparr>bbt_block_index := 0\<rparr> = s4"
        using dev_only_fields(3)[OF fw(3)] z
        by (auto simp: s4_def s2_def mark_block_bad_bmt_def split: prod.splits)
      have nb: "\<not> available C s4 b" using fw(4) by (simp add: available_def s4_def)
      have d4: "dev_only C {b} s0 s4" using fw(3) by (simp add: s4_def)
      have "write_bbt_attempt C dat oob s = Inr s4"
        using False r by (simp add: write_bbt_attempt_def f w s4)
      moreover have "avail C s4 \<subseteq> avail C s - {b}" using pool_inv_touch(2)[OF inv0 d4 nb] sub by auto
      ultimately show ?thesis 
        using pool_inv_touch(1)[OF inv0 d4 nb] b(4) kept_trans[OF st0(1) dev_only_kept[OF d4]]
          dev_only_fields(2,3)[OF d4] st0(2) z
        by (intro again[of s4 b]) simp_all
    qed
  qed
qed

interpretation bbt: retry_loop "write_bbt_attempt C dat oob" "\<lambda>n. write_bbt_to_flash n C dat oob"
    "write_bbt_inv C dat oob" "\<lambda>s. card (avail C s)" "write_bbt_post C dat oob" for C dat oob
proof (unfold_locales, goal_cases)
  case (1 n s)
  then show ?case
    by (auto simp: write_bbt_attempt_def Let_def split: prod.splits)
next
  case (2 s r)
  from 2(1) show ?case
    by (cases rule: write_bbt_attempt_cases) (use 2 in \<open>auto simp: write_bbt_post_def\<close>)
next
  case (3 s s')
  from 3(1) show ?case
  proof (cases rule: write_bbt_attempt_cases)
    case (again b s4)
    then have "avail C s4 \<subset> avail C s" by auto
    with again 3 show ?thesis by (auto simp: write_bbt_inv_def intro!: psubset_card_mono)
  qed (use 3 in auto)
next
  case (4 s s' r)
  from 4(1) show ?case
  proof (cases rule: write_bbt_attempt_cases)
    case (again b s4)
    with 4 show ?thesis by (auto simp: write_bbt_post_def split: if_splits intro: kept_trans)
  qed (use 4 in auto)
qed

section \<open>The mapping table\<close>

definition write_bmt_attempt ::
  "nand_cfg \<Rightarrow> bytes \<Rightarrow> bytes \<Rightarrow> bmt_globals \<Rightarrow> (bool \<times> bmt_globals) + bmt_globals" where
  "write_bmt_attempt C dat oob s =
    (let need_erase = (bmt_block_index s \<noteq> 0);
         s1 = (if need_erase then s
               else let (b, s') = find_available_block C True s in s'\<lparr>bmt_block_index := b\<rparr>)
     in if bmt_block_index s1 = 0 then Inl (False, s1)
        else let (ok, s2) = write_bmt_try C need_erase dat oob s1
             in if ok then Inl (True, s2) else Inr s2)"

definition write_bmt_inv :: "nand_cfg \<Rightarrow> bytes \<Rightarrow> bytes \<Rightarrow> bmt_globals \<Rightarrow> bool" where
  "write_bmt_inv C dat oob s \<longleftrightarrow> pool_inv C s \<and> marks_stick C
     \<and> (bmt_block_index s = 0 \<or> bmt_block_index s \<in> pool s)
     \<and> page_size C \<le> length dat \<and> oob_size C \<le> length oob"

definition write_bmt_post ::
  "nand_cfg \<Rightarrow> bytes \<Rightarrow> bytes \<Rightarrow> bmt_globals \<Rightarrow> bool \<times> bmt_globals \<Rightarrow> bool" where
  "write_bmt_post C dat oob s = (\<lambda>(ok, s').
     pool_inv C s' \<and> kept s s' \<and> bbt_block_index s' = bbt_block_index s
     \<and> dev_same_outside C (avail C s \<union> ({bmt_block_index s} - {0})) (dev s) (dev s')
     \<and> (if ok then (bmt_block_index s' \<in> avail C s \<or> bmt_block_index s' = bmt_block_index s \<and> bmt_block_index s \<noteq> 0)
              \<and> page_holds C (dev s') (PAGE_ADDR C (bmt_block_index s')) dat oob
        else bmt_block_index s' = 0 \<and> avail C s' = {}))"

lemma write_bmt_try_spec:
  assumes inv: "pool_inv C s" and stick: "marks_stick C" and b: "b = bmt_block_index s" "b \<in> pool s"
    and er: "\<not> need_erase \<Longrightarrow> block_erased C (dev s) b"
    and len: "page_size C \<le> length dat" "oob_size C \<le> length oob"
    and run: "write_bmt_try C need_erase dat oob s = (ok, s2)"
  shows "dev_only C {b} (s\<lparr>bmt_block_index := if ok then b else 0\<rparr>) s2"
    "ok \<Longrightarrow> page_holds C (dev s2) (PAGE_ADDR C b) dat oob" "\<not> ok \<Longrightarrow> block_marked C (dev s2) b True"
proof -
  note wf = pool_inv_wf[OF inv]
  obtain re s1 where e: "(if need_erase then nand_erase_bmt C (OFFSET C b) s else (0, s)) = (re, s1)" by force
  have d1: "dev_only C {b} s s1" using e erase_bmt_dev_only[of C b s] by (auto split: if_splits)
  have er1: "re = 0 \<Longrightarrow> block_erased C (dev s1) b"
    using e er erase_bmt_erases[of C b s] by (auto split: if_splits)
  have na: "\<not> available C s1 b" using b dev_only_fields(2)[OF d1] by (simp add: available_def)
  have inv1: "pool_inv C s1" using pool_inv_touch(1)[OF inv d1 na] .
  have b1: "b \<in> pool s1" using b pool_dev_only[OF d1] by simp
  let ?m1 = "snd (mark_block_bad_bmt C (OFFSET C b) True s1)"
  have m1: "dev_only C {b} s ?m1" "block_marked C (dev ?m1) b True"
    using dev_only_trans[OF d1 mark_bad_dev_only[OF wf(2), of b s1 True]]
      mark_bad_marks[OF stick pool_inv_wf(1)[OF inv1]] pool_lt[of C s1 b] b1 inv1 by (simp_all add: pool_inv_def)
  obtain rw s2' where w: "nand_write_page_bmt C (PAGE_ADDR C b) dat oob s1 = (rw, s2')" by force
  let ?m2 = "snd (mark_block_bad_bmt C (OFFSET C b) True s2')"
  have fw: "dev_only C {b} s s2'" "dev_only C {b} s ?m2" "block_marked C (dev ?m2) b True"
    "rw = 0 \<Longrightarrow> page_holds C (dev s2') (PAGE_ADDR C b) dat oob" if "re = 0"
    using fresh_block_write[OF inv1 stick b1 er1[OF that] len w] dev_only_trans_same[OF d1] by auto
  have cases: "ok = (re = 0 \<and> rw = 0) \<and> s2 = (if re \<noteq> 0 then ?m1\<lparr>bmt_block_index := 0\<rparr>
      else if rw \<noteq> 0 then ?m2\<lparr>bmt_block_index := 0\<rparr> else s2')"
    using run unfolding write_bmt_try_def b(1)[symmetric] Let_def e by (auto simp: w split: if_splits)
  have upd: "dev_only C {b} (s\<lparr>bmt_block_index := i\<rparr>) (x\<lparr>bmt_block_index := i\<rparr>)" if "dev_only C {b} s x" for x i
    using that dev_only_eq[OF that] by (auto simp: dev_only_def)
  have same: "s\<lparr>bmt_block_index := b\<rparr> = s" using b by simp
  show "dev_only C {b} (s\<lparr>bmt_block_index := if ok then b else 0\<rparr>) s2"
    using cases m1 fw upd same by (auto split: if_splits)
  show "ok \<Longrightarrow> page_holds C (dev s2) (PAGE_ADDR C b) dat oob" using cases fw by auto
  show "\<not> ok \<Longrightarrow> block_marked C (dev s2) b True" using cases m1 fw by (auto split: if_splits)
qed

text \<open>The state from which an attempt writes: a block has been chosen, and is ready.\<close>

lemma write_bmt_chosen:
  assumes inv: "write_bmt_inv C dat oob s"
    and s1: "s1 = (if bmt_block_index s \<noteq> 0 then s
               else let (b, s') = find_available_block C True s in s'\<lparr>bmt_block_index := b\<rparr>)"
  shows "kept s s1" "bbt_block_index s1 = bbt_block_index s" "pool_inv C s1"
    "dev_same_outside C (avail C s) (dev s) (dev s1)"
    "bmt_block_index s1 = 0 \<Longrightarrow> avail C s1 = {}" "bmt_block_index s1 \<noteq> 0 \<Longrightarrow> bmt_block_index s1 \<in> pool s1"
    "bmt_block_index s = 0 \<Longrightarrow> bmt_block_index s1 \<noteq> 0 \<Longrightarrow>
       block_erased C (dev s1) (bmt_block_index s1) \<and> bmt_block_index s1 \<in> avail C s"
    "avail C s1 \<subseteq> avail C s - {bmt_block_index s1}"
proof -
  have "kept s s1 \<and> bbt_block_index s1 = bbt_block_index s \<and> pool_inv C s1
    \<and> dev_same_outside C (avail C s) (dev s) (dev s1)
    \<and> (bmt_block_index s1 = 0 \<longrightarrow> avail C s1 = {}) \<and> (bmt_block_index s1 \<noteq> 0 \<longrightarrow> bmt_block_index s1 \<in> pool s1)
    \<and> (bmt_block_index s = 0 \<longrightarrow> bmt_block_index s1 \<noteq> 0 \<longrightarrow>
       block_erased C (dev s1) (bmt_block_index s1) \<and> bmt_block_index s1 \<in> avail C s)
    \<and> avail C s1 \<subseteq> avail C s - {bmt_block_index s1}"
  proof (cases "bmt_block_index s = 0")
    case False
    then show ?thesis using inv s1 by (auto simp: write_bmt_inv_def dev_same_outside_def avail_def available_def)
  next
    case True
    note h = inv[unfolded write_bmt_inv_def]
    obtain b s0 where f: "find_available_block C True s = (b, s0)" by force
    note spec = find_available_spec[OF conjunct1[OF h] _ f]
    have inv0: "pool_inv C s0" and sub: "avail C s0 \<subseteq> avail C s" using spec h by auto
    have eq: "s1 = s0\<lparr>bmt_block_index := b\<rparr>" using s1 True f by simp
    have st: "kept s s0" "bbt_block_index s0 = bbt_block_index s" "bmt_block_index s0 = 0"
      using dev_only_kept[OF spec(1)] dev_only_fields[OF spec(1)] h True by simp_all
    have av: "available C s1 x = available C s0 x" if "x \<in> pool s0" "x \<noteq> b" for x
      using that st(3) pool_lt[of C s0 x] inv0 by (auto simp: eq available_def mapped_blocks_def pool_inv_def)
    have nb: "\<not> available C s1 b" by (simp add: eq available_def)
    have wf: "wf_pool C s1" using inv0 by (simp add: eq pool_inv_def wf_pool_def)
    have take: "pool_inv C s1" "avail C s1 = avail C s0 - {b}"
      using pool_inv_take[OF inv0 wf _ _ nb] av by (simp_all add: eq pool_def)
    have out: "dev_same_outside C (avail C s) (dev s) (dev s1)"
      using dev_only_outside[OF spec(1)] h by (simp add: eq)
    have bn: "b \<noteq> 0 \<longrightarrow> b \<in> avail C s0 \<and> block_erased C (dev s0) b" and b0: "b = 0 \<longrightarrow> avail C s0 = {}"
      using spec(4,5) h by auto
    have "b \<noteq> 0 \<longrightarrow> b \<in> pool s1" using bn by (auto simp: avail_def eq pool_def)
    then show ?thesis using take out st sub bn b0 by (auto simp: eq)
  qed
  then show "kept s s1" "bbt_block_index s1 = bbt_block_index s" "pool_inv C s1"
    "dev_same_outside C (avail C s) (dev s) (dev s1)"
    "bmt_block_index s1 = 0 \<Longrightarrow> avail C s1 = {}" "bmt_block_index s1 \<noteq> 0 \<Longrightarrow> bmt_block_index s1 \<in> pool s1"
    "bmt_block_index s = 0 \<Longrightarrow> bmt_block_index s1 \<noteq> 0 \<Longrightarrow>
       block_erased C (dev s1) (bmt_block_index s1) \<and> bmt_block_index s1 \<in> avail C s"
    "avail C s1 \<subseteq> avail C s - {bmt_block_index s1}" by blast+
qed

lemma write_bmt_attempt_cases:
  assumes inv: "write_bmt_inv C dat oob s"
  obtains (none) s1 where "write_bmt_attempt C dat oob s = Inl (False, s1)" "write_bmt_post C dat oob s (False, s1)"
  | (stored) s2 where "write_bmt_attempt C dat oob s = Inl (True, s2)" "write_bmt_post C dat oob s (True, s2)"
  | (again) s2 where "write_bmt_attempt C dat oob s = Inr s2" "pool_inv C s2" "kept s s2"
      "bbt_block_index s2 = bbt_block_index s" "bmt_block_index s2 = 0"
      "avail C s2 \<subseteq> avail C s" "bmt_block_index s = 0 \<Longrightarrow> avail C s2 \<subset> avail C s"
      "dev_same_outside C (avail C s \<union> ({bmt_block_index s} - {0})) (dev s) (dev s2)"
proof -
  define s1 where "s1 = (if bmt_block_index s \<noteq> 0 then s
       else let (b, s') = find_available_block C True s in s'\<lparr>bmt_block_index := b\<rparr>)"
  note ch = write_bmt_chosen[OF inv s1_def]
  define b where "b = bmt_block_index s1"
  have run0: "write_bmt_attempt C dat oob s = (if b = 0 then Inl (False, s1)
      else case write_bmt_try C (bmt_block_index s \<noteq> 0) dat oob s1 of
             (ok, s2) \<Rightarrow> if ok then Inl (True, s2) else Inr s2)"
    unfolding write_bmt_attempt_def Let_def s1_def b_def ..
  note h = inv[unfolded write_bmt_inv_def]
  show ?thesis
  proof (cases "b = 0")
    case True
    then show ?thesis
      using none[of s1] ch(1,2,3,5) run0 dev_same_outside_trans[OF ch(4), of "{}" "dev s1"]
      by (auto simp: b_def write_bmt_post_def dev_same_outside_def)
  next
    case False
    obtain ok s2 where t: "write_bmt_try C (bmt_block_index s \<noteq> 0) dat oob s1 = (ok, s2)" by force
    have er: "\<not> bmt_block_index s \<noteq> 0 \<Longrightarrow> block_erased C (dev s1) b" using ch(7) False by (simp add: b_def)
    have bp: "b \<in> pool s1" using ch(6) False by (simp add: b_def)
    note sp = write_bmt_try_spec[OF ch(3) _ b_def bp er _ _ t]
    have d: "dev_only C {b} (s1\<lparr>bmt_block_index := if ok then b else 0\<rparr>) s2" using sp(1) h by simp
    have fs: "kept s s2" "bbt_block_index s2 = bbt_block_index s" "bmt_block_index s2 = (if ok then b else 0)"
      using kept_trans[OF ch(1)] dev_only_kept[OF d] dev_only_fields[OF d] ch(2) by simp_all
    have nb: "\<not> available C s2 b" using sp(3) fs(3) h by (cases ok) (auto simp: available_def)
    let ?s1 = "s1\<lparr>bmt_block_index := if ok then b else 0\<rparr>"
    have wf1: "wf_dev C (dev ?s1)" using pool_inv_wf(1)[OF ch(3)] by simp
    have av: "available C s2 x = available C s1 x \<and> block_erased C (dev s2) x = block_erased C (dev s1) x"
      if "x \<in> pool s1" "x \<noteq> b" for x
      using that available_dev_only[OF d wf1, of x] dev_only_erased[OF d, of x] pool_lt[of C s1 x] ch(3) b_def
      by (auto simp: available_def mapped_blocks_def pool_inv_def)
    have "wf_pool C ?s1" using ch(3) by (simp add: pool_inv_def wf_pool_def)
    then have wf2: "wf_pool C s2" using wf_pool_dev_only[OF d] by simp
    have p2: "pool s2 = pool s1" "pool_erased s2 = pool_erased s1"
      using dev_only_fields[OF d] by (simp_all add: pool_def)
    have tk: "pool_inv C s2" "avail C s2 = avail C s1 - {b}"
      using pool_inv_take[OF ch(3) wf2 p2 nb av] by simp_all
    have bs: "b \<in> avail C s \<or> b = bmt_block_index s"
      using ch(7) False by (auto simp: b_def s1_def)
    have out: "dev_same_outside C (avail C s \<union> ({bmt_block_index s} - {0})) (dev s) (dev s2)"
      using dev_same_outside_trans[OF ch(4), of "{b}" "dev s2" "avail C s \<union> ({bmt_block_index s} - {0})"]
        dev_only_outside[OF d] bs False by auto
    show ?thesis
    proof (cases ok)
      case True
      then show ?thesis

      proof (intro stored[of s2])
        show "write_bmt_attempt C dat oob s = Inl (True, s2)" using run0 False t True by simp
        show "write_bmt_post C dat oob s (True, s2)"
          using fs tk(1) bs out sp(2) h True False by (auto simp: write_bmt_post_def)
      qed
    next
      case nok: False
      have run: "write_bmt_attempt C dat oob s = Inr s2"
        using run0 False t nok by simp
      have "avail C s2 \<subset> avail C s" if "bmt_block_index s = 0"
        using ch(7,8) that False tk(2) by (auto simp: b_def)
      then show ?thesis
        using again[OF run tk(1) fs(1,2)] fs(3) nok ch(8) tk(2) out by auto
    qed
  qed
qed

interpretation bmtw: retry_loop "write_bmt_attempt C dat oob" "\<lambda>n. write_bmt_to_flash n C dat oob"
    "write_bmt_inv C dat oob" "\<lambda>s. card (avail C s) + (if bmt_block_index s = 0 then 0 else 1)"
    "write_bmt_post C dat oob" for C dat oob
proof (unfold_locales, goal_cases)
  case (1 n s)
  then show ?case
    by (auto simp: write_bmt_attempt_def Let_def split: prod.splits)
next
  case (2 s r)
  from 2(1) show ?case by (cases rule: write_bmt_attempt_cases) (use 2 in auto)
next
  case (3 s s')
  from 3(1) show ?case
  proof (cases rule: write_bmt_attempt_cases)
    case (again s2)
    have "card (avail C s2) \<le> card (avail C s)" using again(6) by (intro card_mono) simp_all
    moreover have "card (avail C s2) < card (avail C s)" if "bmt_block_index s = 0"
      using again(7) that by (intro psubset_card_mono) simp_all
    ultimately show ?thesis using again 3 by (auto simp: write_bmt_inv_def)
  qed (use 3 in auto)
next
  case (4 s s' r)
  from 4(1) show ?case
  proof (cases rule: write_bmt_attempt_cases)
    case (again s2)
    obtain ok s'' where r: "r = (ok, s'')" by force
    have "dev_same_outside C (avail C s \<union> ({bmt_block_index s} - {0})) (dev s) (dev s'')"
    proof (rule dev_same_outside_trans[OF again(8)])
      show "dev_same_outside C (avail C s2) (dev s2) (dev s'')"
        using again(1,5) 4 r by (simp add: write_bmt_post_def)
    qed (use again(6) in auto)
    then show ?thesis using again 4 r
      by (auto simp: write_bmt_post_def split: if_splits intro: kept_trans)
  qed (use 4 in auto)
qed

end
