(* ===== verification/Bmt_Migrate.thy ===== *)
theory Bmt_Migrate
  imports Bmt_Writers
begin

text \<open>
  migrate\_from\_bad: copying the pages of a failing block to a fresh
  replacement is again a retry loop. It returns after at most one call per
  available block; on success the replacement, which was free and erased,
  holds the copied pages (when the reads succeed) and the caller's page, each
  tagged with the number of the system block it stands for.
\<close>

section \<open>Reading through the adaptor\<close>

definition reads_ok :: "nand_cfg \<Rightarrow> bool" where
  "reads_ok C \<longleftrightarrow> (\<forall>t p. read_status C t p = RTN_NO_ERROR)"

text \<open>Changes of the device within B and of the contents of the two buffers.\<close>

definition dev_buf :: "nand_cfg \<Rightarrow> nat set \<Rightarrow> bmt_globals \<Rightarrow> bmt_globals \<Rightarrow> bool" where
  "dev_buf C B s s' \<longleftrightarrow> kept s s' \<and> bmt_block_index s' = bmt_block_index s
     \<and> bbt_block_index s' = bbt_block_index s \<and> pool_erased s' = pool_erased s
     \<and> length (dat_buf s') = length (dat_buf s) \<and> length (oob_buf s') = length (oob_buf s)
     \<and> (wf_dev C (dev s) \<longrightarrow> wf_dev C (dev s')) \<and> dev_same_outside C B (dev s) (dev s')"

lemma dev_buf_refl [simp]: "dev_buf C B s s"
  by (simp add: dev_buf_def dev_same_outside_def)

lemma dev_buf_trans: "dev_buf C B s s' \<Longrightarrow> dev_buf C B s' s'' \<Longrightarrow> dev_buf C B s s''"
  by (auto simp: dev_buf_def intro: kept_trans dev_same_outside_trans)

lemma dev_buf_mono: "dev_buf C A s s' \<Longrightarrow> A \<subseteq> B \<Longrightarrow> dev_buf C B s s'"
  by (auto simp: dev_buf_def dev_same_outside_def)

lemma dev_only_dev_buf: "dev_only C B s s' \<Longrightarrow> dev_buf C B s s'"
  using dev_only_fields[of C B s s'] dev_only_kept[of C B s s'] dev_only_outside[of C B s s'] dev_only_wf[of C B s s']
  by (simp add: dev_buf_def)

lemma dev_buf_buffers:
  "length x = length (dat_buf s) \<Longrightarrow> length y = length (oob_buf s) \<Longrightarrow> dev_buf C B s (s\<lparr>dat_buf := x, oob_buf := y\<rparr>)"
  "length y = length (oob_buf s) \<Longrightarrow> dev_buf C B s (s\<lparr>oob_buf := y\<rparr>)"
  by (simp_all add: dev_buf_def dev_same_outside_def)

lemma dev_buf_pool: "dev_buf C B s s' \<Longrightarrow> pool s' = pool s" "dev_buf C B s s' \<Longrightarrow> wf_pool C s \<Longrightarrow> wf_pool C s'"
  by (simp_all add: dev_buf_def kept_def pool_def wf_pool_def)

lemma dev_buf_outside:
  assumes "dev_buf C B s s'" "wf_cfg C" "b \<notin> B"
  shows "available C s' b = available C s b" "block_erased C (dev s') b = block_erased C (dev s) b"
  using assms pages_per_block_eq(2)[OF assms(2)]
  by (auto simp: dev_buf_def kept_def dev_same_outside_def available_def mapped_blocks_def block_marked_def
      block_erased_def page_in_block_def)

lemma dev_buf_touch:
  assumes inv: "pool_inv C s" and d: "dev_buf C {b} s s'" and nb: "\<not> available C s' b"
  shows "pool_inv C s'" "avail C s' = avail C s - {b}"
proof -
  have "pool_erased s' = pool_erased s" using d by (simp add: dev_buf_def)
  note take = pool_inv_take[OF inv _ dev_buf_pool(1)[OF d] this nb]
  show "pool_inv C s'" "avail C s' = avail C s - {b}"
    using take dev_buf_outside[OF d pool_inv_wf(2)[OF inv]] dev_buf_pool(2)[OF d] inv by (auto simp: pool_inv_def)
qed

lemma read_page_bmt_spec:
  assumes wf: "wf_dev C (dev s)" and len: "length (dat_buf s) = MAX_DAT_SIZE" "length (oob_buf s) = MAX_OOB_SIZE"
  shows "dev_buf C {} s (snd (nand_read_page_bmt C p s))"
    and "reads_ok C \<Longrightarrow> take (page_size C) (dat_buf (snd (nand_read_page_bmt C p s))) = flash_data (dev s) p
       \<and> take (oob_size C) (oob_buf (snd (nand_read_page_bmt C p s))) = flash_oob (dev s) p"
proof -
  have cfg: "wf_cfg C" using wf by (simp add: wf_dev_cfg)
  have sz: "page_size C \<le> MAX_DAT_SIZE" "oob_size C \<le> MAX_OOB_SIZE"
    using cfg power_increasing[of "page_shift C" 12 "2::nat"] power_increasing[of "oob_shift C" 8 "2::nat"]
    by (simp_all add: wf_cfg_def page_size_def oob_size_def MAX_DAT_SIZE_def MAX_OOB_SIZE_def)
  obtain st d where r: "spi_nand_read_page C p (dev s) = (st, d)" by force
  have d: "same_array (dev s) d" "wf_dev C d" using read_page_array[of "dev s" C p] read_page_wf[OF wf, of p] r by auto
  have c: "cache_page_data d = flash_data (dev s) p" "cache_page_oob_mapping d = flash_oob (dev s) p"
    using r wf by (auto simp: spi_nand_read_page_def wf_dev_defs split: if_splits)
  have l: "length (flash_data (dev s) p) = page_size C" "length (flash_oob (dev s) p) = oob_size C"
    using wf by (simp_all add: wf_dev_defs)
  have rd: "snd (nand_read_page_bmt C p s) = (if st = RTN_NO_ERROR
      then s\<lparr>dat_buf := memcpy (dat_buf s) 0 (flash_data (dev s) p),
             oob_buf := memcpy (oob_buf s) 0 (flash_oob (dev s) p), dev := d\<rparr> else s\<lparr>dev := d\<rparr>)"
    using r c l by (simp add: nand_read_page_bmt_def en7512_nand_exec_read_page_def)
  show "dev_buf C {} s (snd (nand_read_page_bmt C p s))"
    unfolding rd dev_buf_def using d wf l sz len by (auto simp: same_array_def kept_def dev_same_outside_def)
  show "reads_ok C \<Longrightarrow> take (page_size C) (dat_buf (snd (nand_read_page_bmt C p s))) = flash_data (dev s) p
       \<and> take (oob_size C) (oob_buf (snd (nand_read_page_bmt C p s))) = flash_oob (dev s) p"
    using r l unfolding rd by (auto simp: spi_nand_read_page_def reads_ok_def memcpy_def split: if_splits)
qed

section \<open>Copying the pages of a block\<close>

text \<open>The spare bytes of a page that replaces a page of a system block carry its number.\<close>

definition tag_oob :: "bmt_globals \<Rightarrow> nat \<Rightarrow> bytes \<Rightarrow> bytes" where
  "tag_oob s block oob = (if block < system_block_count s then set_bad_index_to_oob oob (of_nat block) else oob)"

lemma length_tag_oob [simp]: "8 \<le> length oob \<Longrightarrow> length (tag_oob s b oob) = length oob"
  by (simp add: tag_oob_def set_bad_index_to_oob_def OOB_INDEX_OFFSET_def)

lemma take_tag_oob:
  "8 \<le> n \<Longrightarrow> n \<le> length oob \<Longrightarrow> take n (tag_oob s b oob) = tag_oob s b (take n oob)"
  by (auto simp: tag_oob_def set_bad_index_to_oob_def OOB_INDEX_OFFSET_def memcpy_def min_def drop_take
      le16_def numeral_eq_Suc take_Cons')

definition copied :: "nand_cfg \<Rightarrow> bmt_globals \<Rightarrow> nat \<Rightarrow> nat \<Rightarrow> nat \<Rightarrow> bmt_globals \<Rightarrow> bool" where
  "copied C s eb to p s' \<longleftrightarrow>
     flash_data (dev s') (PAGE_ADDR C to + p) = flash_data (dev s) (PAGE_ADDR C eb + p)
     \<and> flash_oob (dev s') (PAGE_ADDR C to + p) = tag_oob s eb (flash_oob (dev s) (PAGE_ADDR C eb + p))"

lemma page_in_block_addr [simp]:
  "wf_cfg C \<Longrightarrow> p < pages_per_block C \<Longrightarrow> page_in_block C b (PAGE_ADDR C b + p)"
  by (simp add: PAGE_ADDR_eq)

lemma page_addr_other:
  assumes "wf_cfg C" "dev_same_outside C {b} d d'" "b' \<noteq> b" "p < pages_per_block C"
  shows "flash_data d' (PAGE_ADDR C b' + p) = flash_data d (PAGE_ADDR C b' + p)"
    "flash_oob d' (PAGE_ADDR C b' + p) = flash_oob d (PAGE_ADDR C b' + p)"
  using assms page_in_block_addr[OF assms(1,4), of b'] by (simp_all add: dev_same_outside_def page_in_block_def)

text \<open>One page of the copy: read, tag and write.\<close>

lemma copy_page_step:
  assumes wf: "wf_pool C s" and to: "to < block_total C" "eb \<noteq> to" "p < pages_per_block C"
    and blank: "page_blank C (dev s) (PAGE_ADDR C to + p)"
    and s2: "s2 = (let s1 = snd (nand_read_page_bmt C (PAGE_ADDR C eb + p) s) in
        if eb < system_block_count s1 then s1\<lparr>oob_buf := set_bad_index_to_oob (oob_buf s1) (of_nat eb)\<rparr> else s1)"
    and run: "nand_write_page_bmt C (PAGE_ADDR C to + p) (dat_buf s2) (oob_buf s2) s2 = (r, s3)"
  shows "dev_buf C {to} s s3" "r = 0 \<Longrightarrow> reads_ok C \<Longrightarrow> copied C s eb to p s3"
    "r = 0 \<Longrightarrow> q \<noteq> PAGE_ADDR C to + p \<Longrightarrow> flash_data (dev s3) q = flash_data (dev s) q \<and> flash_oob (dev s3) q = flash_oob (dev s) q"
proof -
  have wfd: "wf_dev C (dev s)" and cfg: "wf_cfg C" and len: "length (dat_buf s) = MAX_DAT_SIZE" "length (oob_buf s) = MAX_OOB_SIZE"
    using wf wf_dev_cfg by (auto simp: wf_pool_def)
  define s1 where "s1 = snd (nand_read_page_bmt C (PAGE_ADDR C eb + p) s)"
  note rd = read_page_bmt_spec[OF wfd len, of "PAGE_ADDR C eb + p", folded s1_def]
  have d1: "dev_buf C {} s s1" using rd(1) .
  have k1: "system_block_count s1 = system_block_count s" "length (oob_buf s1) = MAX_OOB_SIZE" "length (dat_buf s1) = MAX_DAT_SIZE"
    using d1 len by (simp_all add: dev_buf_def kept_def)
  have e2: "s2 = s1\<lparr>oob_buf := tag_oob s eb (oob_buf s1)\<rparr>"
    using s2 k1 by (simp add: s1_def[symmetric] tag_oob_def Let_def)
  have l2: "length (tag_oob s eb (oob_buf s1)) = MAX_OOB_SIZE" using k1 by (simp add: MAX_OOB_SIZE_def)
  have d2: "dev_buf C {} s s2"
    using dev_buf_trans[OF d1 dev_buf_buffers(2)] l2 k1 by (simp add: e2)
  have sz: "page_size C \<le> length (dat_buf s2)" "oob_size C \<le> length (oob_buf s2)" "8 \<le> oob_size C"
    using cfg power_increasing[of "page_shift C" 12 "2::nat"] power_increasing[of "oob_shift C" 8 "2::nat"] k1 l2 oob_size_ge8[OF cfg]
    by (simp_all add: e2 wf_cfg_def page_size_def oob_size_def MAX_DAT_SIZE_def MAX_OOB_SIZE_def)
  have same: "flash_data (dev s2) = flash_data (dev s)" "flash_oob (dev s2) = flash_oob (dev s)"
    using d2 by (simp_all add: dev_buf_def dev_same_outside_def fun_eq_iff)
  have wf2: "wf_dev C (dev s2)" using d2 wfd by (simp add: dev_buf_def)
  have bl2: "page_blank C (dev s2) (PAGE_ADDR C to + p)" using blank same by (simp add: page_blank_def)
  have d3: "dev_only C {to} s2 s3"
    using write_page_bmt_dev_only[OF page_in_block_addr[OF cfg to(3)], of to s2] run by (metis snd_conv)
  show "dev_buf C {to} s s3"
    using dev_buf_trans[OF dev_buf_mono[OF d2] dev_only_dev_buf[OF d3]] by simp
  show "flash_data (dev s3) q = flash_data (dev s) q \<and> flash_oob (dev s3) q = flash_oob (dev s) q"
    if "r = 0" "q \<noteq> PAGE_ADDR C to + p"
    using write_page_bmt_stores(2)[OF wf2 bl2 sz(1,2), of q] run that same by simp
  have "oob_size C \<le> length (oob_buf s1)" using sz(2) k1 l2 by (simp add: e2)
  note tk = take_tag_oob[OF sz(3) this, of s eb]
  show "copied C s eb to p s3" if "r = 0" "reads_ok C"
    using write_page_bmt_stores(1)[OF wf2 bl2 sz(1,2)] run that rd(2)[OF that(2)] tk
    by (simp add: copied_def page_holds_def e2)
qed

lemma copy_pages_spec:
  assumes "wf_pool C s" "marks_stick C" "to < block_total C" "eb \<noteq> to" "distinct pages"
    and "\<forall>p\<in>set pages. p < pages_per_block C"
    and "\<forall>p\<in>set pages - {ep}. page_blank C (dev s) (PAGE_ADDR C to + p)"
    and "copy_pages C eb ep to pages s = (ok, s')"
  shows "dev_buf C {to} s s' \<and> (\<not> ok \<longrightarrow> block_marked C (dev s') to True)
     \<and> (ok \<and> reads_ok C \<longrightarrow> (\<forall>p\<in>set pages - {ep}. copied C s eb to p s'))
     \<and> (ok \<longrightarrow> (\<forall>q. q \<notin> (\<lambda>p. PAGE_ADDR C to + p) ` (set pages - {ep}) \<longrightarrow>
            flash_data (dev s') q = flash_data (dev s) q \<and> flash_oob (dev s') q = flash_oob (dev s) q))"
  using assms
proof (induction pages arbitrary: s)
  case (Cons p pages)
  have cfg: "wf_cfg C" using Cons.prems(1) by (auto simp: wf_pool_def wf_dev_cfg)
  show ?case
  proof (cases "p = ep")
    case True
    then have "copy_pages C eb ep to pages s = (ok, s')" "set (p # pages) - {ep} = set pages - {ep}"
      using Cons.prems(8) by auto
    with Cons.IH[OF Cons.prems(1-4)] Cons.prems(5,6,7) show ?thesis by simp
  next
    case False
    define s2 where "s2 = (let s1 = snd (nand_read_page_bmt C (PAGE_ADDR C eb + p) s) in
        if eb < system_block_count s1 then s1\<lparr>oob_buf := set_bad_index_to_oob (oob_buf s1) (of_nat eb)\<rparr> else s1)"
    obtain r s3 where w: "nand_write_page_bmt C (PAGE_ADDR C to + p) (dat_buf s2) (oob_buf s2) s2 = (r, s3)" by force
    have run: "(if r \<noteq> 0 then (False, snd (mark_block_bad_bmt C (OFFSET C to) True s3))
        else copy_pages C eb ep to pages s3) = (ok, s')"
    proof -
      obtain r1 s1 where rd: "nand_read_page_bmt C (PAGE_ADDR C eb + p) s = (r1, s1)" by force
      have s2e: "(if eb < system_block_count s1 then s1\<lparr>oob_buf := set_bad_index_to_oob (oob_buf s1) (of_nat eb)\<rparr> else s1) = s2"
        by (simp add: s2_def rd)
      show ?thesis using Cons.prems(8) False unfolding copy_pages.simps Let_def rd prod.case s2e w by simp
    qed
    have pl: "p < pages_per_block C" and bl: "page_blank C (dev s) (PAGE_ADDR C to + p)"
      using Cons.prems(6,7) False by auto
    note st = copy_page_step[OF Cons.prems(1,3,4) pl bl s2_def w]
    have wf3: "wf_pool C s3" using dev_buf_pool(2)[OF st(1) Cons.prems(1)] .
    have wd3: "wf_dev C (dev s3)" using wf3 by (simp add: wf_pool_def)
    show ?thesis
    proof (cases "r = 0")
      case rn: False
      then have s': "ok = False" "s' = snd (mark_block_bad_bmt C (OFFSET C to) True s3)" using run by auto
      then show ?thesis
        using dev_buf_trans[OF st(1) dev_only_dev_buf[OF mark_bad_dev_only[OF cfg]]]
          mark_bad_marks[OF Cons.prems(2) wd3 Cons.prems(3)] by simp
    next
      case r0: True
      have bl3: "\<forall>p\<in>set pages - {ep}. page_blank C (dev s3) (PAGE_ADDR C to + p)"
      proof
        fix q assume "q \<in> set pages - {ep}"
        then have "q \<noteq> p" "page_blank C (dev s) (PAGE_ADDR C to + q)" using Cons.prems(5,7) by auto
        then show "page_blank C (dev s3) (PAGE_ADDR C to + q)"
          using st(3)[OF r0, of "PAGE_ADDR C to + q"] by (simp add: page_blank_def)
      qed
      have IH: "dev_buf C {to} s3 s' \<and> (\<not> ok \<longrightarrow> block_marked C (dev s') to True)
         \<and> (ok \<and> reads_ok C \<longrightarrow> (\<forall>p\<in>set pages - {ep}. copied C s3 eb to p s'))
         \<and> (ok \<longrightarrow> (\<forall>q. q \<notin> (\<lambda>p. PAGE_ADDR C to + p) ` (set pages - {ep}) \<longrightarrow>
                flash_data (dev s') q = flash_data (dev s3) q \<and> flash_oob (dev s') q = flash_oob (dev s3) q))"
        using Cons.IH[OF wf3 Cons.prems(2-4)] Cons.prems(5,6) bl3 run r0 by simp
      have src: "copied C s eb to q s'" if "copied C s3 eb to q s'" "q < pages_per_block C" for q
        using that page_addr_other[OF cfg _ Cons.prems(4) that(2), of "dev s" "dev s3"] st(1)
        by (simp add: copied_def tag_oob_def dev_buf_def kept_def)
      have hd: "copied C s eb to p s'" if "ok" "reads_ok C"
      proof -
        have "PAGE_ADDR C to + p \<notin> (\<lambda>q. PAGE_ADDR C to + q) ` (set pages - {ep})" using Cons.prems(5) by auto
        then show ?thesis using st(2)[OF r0 that(2)] IH that(1) by (simp add: copied_def)
      qed
      have all: "\<forall>q\<in>set (p # pages) - {ep}. copied C s eb to q s'" if "ok" "reads_ok C"
        using hd[OF that] IH src Cons.prems(6) that by fastforce
      have "flash_data (dev s') q = flash_data (dev s) q \<and> flash_oob (dev s') q = flash_oob (dev s) q"
        if "ok" "q \<notin> (\<lambda>x. PAGE_ADDR C to + x) ` (set (p # pages) - {ep})" for q
      proof -
        have "q \<noteq> PAGE_ADDR C to + p" "q \<notin> (\<lambda>x. PAGE_ADDR C to + x) ` (set pages - {ep})"
          using that(2) False by auto
        then show ?thesis using that(1) IH st(3)[OF r0, of q] by simp
      qed
      with all IH dev_buf_trans[OF st(1)] show ?thesis by blast
    qed
  qed
qed simp

section \<open>Migration always ends and moves the data\<close>

definition migrate_amount :: "nand_cfg \<Rightarrow> nat \<Rightarrow> update_reason_t \<Rightarrow> nat" where
  "migrate_amount C offset reason =
    (if reason = UPDATE_WRITE_FAIL then (offset div page_size C) mod pages_per_block C else pages_per_block C)"

definition migrate_attempt ::
  "nand_cfg \<Rightarrow> nat \<Rightarrow> update_reason_t \<Rightarrow> bytes \<Rightarrow> bytes \<Rightarrow> bmt_globals \<Rightarrow> (nat \<times> bmt_globals) + bmt_globals" where
  "migrate_attempt C offset reason write_dat write_oob s =
    (let error_block = offset div erase_size C;
         error_page = (offset div page_size C) mod page_per_block s;
         amount = (if reason = UPDATE_WRITE_FAIL then error_page else page_per_block s);
         (to_index, s1) = find_available_block C False s
     in if to_index = 0 then Inl (0, s1)
        else let (ok, s2) = copy_pages C error_block error_page to_index [0..<amount] s1
             in if \<not> ok then Inr s2
                else let oob0 = memcpy (replicate MAX_OOB_SIZE 0xFF) 0 (take (oob_size C) write_oob);
                         oob1 = (if error_block < system_block_count s2
                                 then set_bad_index_to_oob oob0 (of_nat error_block) else oob0);
                         (r, s4) = nand_write_page_bmt C (PAGE_ADDR C to_index + error_page) write_dat oob1
                                     (s2\<lparr>oob_buf := oob1\<rparr>)
                     in if r \<noteq> 0
                        then Inr (snd (mark_block_bad_bmt C (OFFSET C to_index) True s4))
                        else Inl (to_index, s4))"

definition migrate_inv :: "nand_cfg \<Rightarrow> nat \<Rightarrow> bytes \<Rightarrow> bytes \<Rightarrow> bmt_globals \<Rightarrow> bool" where
  "migrate_inv C offset write_dat write_oob s \<longleftrightarrow> pool_inv C s \<and> marks_stick C
     \<and> offset div erase_size C \<notin> avail C s
     \<and> page_size C \<le> length write_dat \<and> oob_size C \<le> length write_oob"

text \<open>
  The replacement holds the migrated pages, and the page that failed with the
  data of the caller; every page of a system block is tagged with its number.
\<close>

definition migrated ::
  "nand_cfg \<Rightarrow> nat \<Rightarrow> update_reason_t \<Rightarrow> bytes \<Rightarrow> bytes \<Rightarrow> bmt_globals \<Rightarrow> nat \<Rightarrow> bmt_globals \<Rightarrow> bool" where
  "migrated C offset reason write_dat write_oob s to s' \<longleftrightarrow>
    (let eb = offset div erase_size C; ep = (offset div page_size C) mod pages_per_block C
     in page_holds C (dev s') (PAGE_ADDR C to + ep) write_dat (tag_oob s eb (take (oob_size C) write_oob))
        \<and> (reads_ok C \<longrightarrow> (\<forall>p<migrate_amount C offset reason. p \<noteq> ep \<longrightarrow> copied C s eb to p s')))"

definition migrate_post ::
  "nand_cfg \<Rightarrow> nat \<Rightarrow> update_reason_t \<Rightarrow> bytes \<Rightarrow> bytes \<Rightarrow> bmt_globals \<Rightarrow> nat \<times> bmt_globals \<Rightarrow> bool" where
  "migrate_post C offset reason write_dat write_oob s = (\<lambda>(to, s').
     kept s s' \<and> bmt_block_index s' = bmt_block_index s \<and> bbt_block_index s' = bbt_block_index s
     \<and> wf_pool C s' \<and> pool_erased s' \<and> dev_same_outside C (avail C s) (dev s) (dev s')
     \<and> (if to = 0 then avail C s' = {}
        else to \<in> avail C s \<and> migrated C offset reason write_dat write_oob s to s'
           \<and> avail C s' - {to} \<subseteq> avail C s \<and> (\<forall>x\<in>avail C s' - {to}. block_erased C (dev s') x)))"

lemma migrate_attempt_cases:
  assumes inv: "migrate_inv C offset write_dat write_oob s"
  obtains (finished) to s' where "migrate_attempt C offset reason write_dat write_oob s = Inl (to, s')"
      "migrate_post C offset reason write_dat write_oob s (to, s')"
  | (again) s' where "migrate_attempt C offset reason write_dat write_oob s = Inr s'" "pool_inv C s'" "kept s s'"
      "bmt_block_index s' = bmt_block_index s" "bbt_block_index s' = bbt_block_index s"
      "avail C s' \<subset> avail C s" "dev_same_outside C (avail C s) (dev s) (dev s')"
proof -
  note h = inv[unfolded migrate_inv_def]
  define eb where "eb = offset div erase_size C"
  define ep where "ep = (offset div page_size C) mod pages_per_block C"
  have ppb: "page_per_block s = pages_per_block C" using h by (simp add: pool_inv_def wf_pool_def)
  obtain to s1 where f: "find_available_block C False s = (to, s1)" by force
  note spec = find_available_spec[OF conjunct1[OF h] conjunct1[OF conjunct2[OF h]] f]
  note inv1 = spec(2) and sub = spec(3)
  have cfg: "wf_cfg C" and wf1: "wf_pool C s1" using inv1 pool_inv_wf by (auto simp: pool_inv_def)
  have epl: "ep < pages_per_block C" using pages_per_block_eq(2)[OF cfg] by (simp add: ep_def)
  have k1: "kept s s1" "bmt_block_index s1 = bmt_block_index s" "bbt_block_index s1 = bbt_block_index s" "pool_erased s1"
    using dev_only_kept[OF spec(1)] dev_only_fields[OF spec(1)] by simp_all
  have out1: "dev_same_outside C (avail C s) (dev s) (dev s1)" using dev_only_outside[OF spec(1)] by simp
  show ?thesis
  proof (cases "to = 0")
    case True
    then show ?thesis
      using finished[of 0 s1] spec(4) k1 out1 wf1
      by (simp add: migrate_attempt_def f Let_def migrate_post_def)
  next
    case False
    have to: "to \<in> avail C s1" "block_erased C (dev s1) to" "to \<in> avail C s" "to < block_total C"
      using spec(5)[OF False] sub pool_lt[OF wf1, of to] by (auto simp: avail_def)
    have eb: "eb \<noteq> to" using h to(3) by (auto simp: eb_def)
    define ps where "ps = [0..<migrate_amount C offset reason]"
    have psl: "\<forall>p\<in>set ps. p < pages_per_block C"
      using epl by (auto simp: ps_def migrate_amount_def ep_def[symmetric] split: if_splits)
    have blank: "\<forall>p\<in>set ps - {ep}. page_blank C (dev s1) (PAGE_ADDR C to + p)"
      using erased_blank[OF to(2)] psl cfg by auto
    obtain ok s2 where cp: "copy_pages C eb ep to ps s1 = (ok, s2)" by force
    note cs = copy_pages_spec[OF wf1 conjunct1[OF conjunct2[OF h]] to(4) eb _ psl blank cp]
    have d2: "dev_buf C {to} s1 s2" using cs by (simp add: ps_def)
    define oob1 where "oob1 = tag_oob s eb (memcpy (replicate MAX_OOB_SIZE 0xFF) 0 (take (oob_size C) write_oob))"
    obtain r s4 where w: "nand_write_page_bmt C (PAGE_ADDR C to + ep) write_dat oob1 (s2\<lparr>oob_buf := oob1\<rparr>) = (r, s4)" by force
    have sys: "system_block_count s2 = system_block_count s" using d2 k1(1) by (simp add: dev_buf_def kept_def)
    have run: "migrate_attempt C offset reason write_dat write_oob s =
       (if \<not> ok then Inr s2 else if r \<noteq> 0 then Inr (snd (mark_block_bad_bmt C (OFFSET C to) True s4)) else Inl (to, s4))"
    proof -
      have am: "[0..<if reason = UPDATE_WRITE_FAIL then ep else pages_per_block C] = ps"
        by (simp add: ps_def migrate_amount_def ep_def)
      have ob: "(if eb < system_block_count s2
          then set_bad_index_to_oob (memcpy (replicate MAX_OOB_SIZE 0xFF) 0 (take (oob_size C) write_oob)) (of_nat eb)
          else memcpy (replicate MAX_OOB_SIZE 0xFF) 0 (take (oob_size C) write_oob)) = oob1"
        by (simp add: oob1_def tag_oob_def sys)
      show ?thesis
        unfolding migrate_attempt_def Let_def ppb eb_def[symmetric] ep_def[symmetric] f prod.case am cp ob w
        using False by simp
    qed
    have again': thesis if m: "migrate_attempt C offset reason write_dat write_oob s = Inr s'"
      "dev_buf C {to} s1 s'" "block_marked C (dev s') to True" for s'
    proof -
      have "\<not> available C s' to" using m(3) by (simp add: available_def)
      note t = dev_buf_touch[OF inv1 m(2) this]
      have "avail C s' \<subset> avail C s" using t(2) sub to(3) by auto
      moreover have "dev_same_outside C (avail C s) (dev s) (dev s')"
        using dev_same_outside_trans[OF out1, of "{to}" "dev s'" "avail C s"] m(2) to(3) by (simp add: dev_buf_def)
      ultimately show thesis using again[OF m(1) t(1)] kept_trans[OF k1(1)] m(2) k1 by (simp add: dev_buf_def)
    qed
    show ?thesis
    proof (cases ok)
      case nok: False
      then show ?thesis using again'[of s2] run d2 cs by (simp add: ps_def)
    next
      case ok: True
      have l8: "8 \<le> oob_size C" "oob_size C \<le> MAX_OOB_SIZE"
        using oob_size_ge8[OF cfg] cfg power_increasing[of "oob_shift C" 8 "2::nat"]
        by (simp_all add: wf_cfg_def oob_size_def MAX_OOB_SIZE_def)
      have lo: "length oob1 = MAX_OOB_SIZE" using l8 h by (simp add: oob1_def MAX_OOB_SIZE_def)
      have ob: "take (oob_size C) oob1 = tag_oob s eb (take (oob_size C) write_oob)"
        using l8 h by (simp add: oob1_def take_tag_oob memcpy_def min_def)
      have ls1: "length (oob_buf s1) = MAX_OOB_SIZE" using wf1 by (simp add: wf_pool_def)
      have d3: "dev_buf C {to} s1 (s2\<lparr>oob_buf := oob1\<rparr>)"
        using dev_buf_trans[OF d2 dev_buf_buffers(2)] lo ls1 d2 by (simp add: dev_buf_def)
      have d4: "dev_only C {to} (s2\<lparr>oob_buf := oob1\<rparr>) s4"
        using write_page_bmt_dev_only[OF page_in_block_addr[OF cfg epl], of to "s2\<lparr>oob_buf := oob1\<rparr>"] w by (metis snd_conv)
      have d14: "dev_buf C {to} s1 s4" using dev_buf_trans[OF d3 dev_only_dev_buf[OF d4]] .
      have wf4: "wf_dev C (dev s4)" using d14 wf1 by (simp add: dev_buf_def wf_pool_def)
      show ?thesis
      proof (cases "r = 0")
        case rn: False
        then show ?thesis
          using again'[of "snd (mark_block_bad_bmt C (OFFSET C to) True s4)"] run ok
            dev_buf_trans[OF d14 dev_only_dev_buf[OF mark_bad_dev_only[OF cfg]]]
            mark_bad_marks[OF conjunct1[OF conjunct2[OF h]] wf4 to(4)] by simp
      next
        case r0: True
        have wf2: "wf_dev C (dev (s2\<lparr>oob_buf := oob1\<rparr>))" using d2 wf1 by (simp add: dev_buf_def wf_pool_def)
        have ne: "PAGE_ADDR C to + ep \<notin> (\<lambda>p. PAGE_ADDR C to + p) ` (set ps - {ep})" by auto
        have bl: "page_blank C (dev (s2\<lparr>oob_buf := oob1\<rparr>)) (PAGE_ADDR C to + ep)"
          using cs ok ne erased_blank[OF to(2) page_in_block_addr[OF cfg epl]] by (simp add: ps_def page_blank_def)
        have len: "page_size C \<le> length write_dat" "oob_size C \<le> length oob1" using h l8 lo by simp_all
        note st = write_page_bmt_stores[OF wf2 bl len]
        have "page_holds C (dev s4) (PAGE_ADDR C to + ep) write_dat (tag_oob s eb (take (oob_size C) write_oob))"
          using st(1) w r0 ob h l8 by (simp add: page_holds_def take_tag_oob)
        moreover have "copied C s eb to p s4" if "reads_ok C" "p < migrate_amount C offset reason" "p \<noteq> ep" for p
        proof -
          have pl: "p < pages_per_block C" using that psl by (simp add: ps_def)
          have "copied C s1 eb to p s2" using cs ok that by (simp add: ps_def)
          moreover have "p div pages_per_block C = 0" using pl by simp
          moreover have "eb * pages_per_block C + p div pages_per_block C = eb * pages_per_block C" using pl by simp
          moreover have "flash_data (dev s1) (PAGE_ADDR C eb + p) = flash_data (dev s) (PAGE_ADDR C eb + p)
             \<and> flash_oob (dev s1) (PAGE_ADDR C eb + p) = flash_oob (dev s) (PAGE_ADDR C eb + p)"
            using out1 h page_in_block_addr[OF cfg pl, of eb] by (simp add: dev_same_outside_def page_in_block_def eb_def)
          ultimately show ?thesis
            using st(2)[of "PAGE_ADDR C to + p"] w r0 that(3) k1(1) by (simp add: copied_def tag_oob_def kept_def)
        qed
        ultimately have mig: "migrated C offset reason write_dat write_oob s to s4"
          by (simp add: migrated_def Let_def eb_def ep_def)
        have av: "available C s4 x = available C s1 x" "block_erased C (dev s4) x = block_erased C (dev s1) x" if "x \<noteq> to" for x
          using dev_buf_outside[OF d14 cfg, of x] that by simp_all
        have "\<forall>x\<in>avail C s4 - {to}. x \<in> avail C s \<and> block_erased C (dev s4) x"
          using av sub inv1 dev_buf_pool(1)[OF d14] k1(4) by (auto simp: avail_def pool_inv_def pool_clean_def)
        moreover have "dev_same_outside C (avail C s) (dev s) (dev s4)"
          using dev_same_outside_trans[OF out1, of "{to}" "dev s4" "avail C s"] d14 to(3) by (simp add: dev_buf_def)
        ultimately have "migrate_post C offset reason write_dat write_oob s (to, s4)"
          using mig to(3) False k1 kept_trans[OF k1(1)] d14 dev_buf_pool(2)[OF d14 wf1]
          by (auto simp: migrate_post_def dev_buf_def)
        then show ?thesis using finished[of to s4] run ok r0 by simp
      qed
    qed
  qed
qed

interpretation mig: retry_loop "migrate_attempt C offset reason wd wo"
    "\<lambda>n. migrate_from_bad n C offset reason wd wo" "migrate_inv C offset wd wo" "\<lambda>s. card (avail C s)"
    "migrate_post C offset reason wd wo" for C offset reason wd wo
proof (unfold_locales, goal_cases)
  case (1 n s)
  then show ?case
    by (simp add: migrate_attempt_def Let_def case_prod_unfold)
next
  case (2 s r)
  from 2(1) show ?case by (cases rule: migrate_attempt_cases[where reason = reason]) (use 2 in auto)
next
  case (3 s s')
  from 3(1) show ?case
  proof (cases rule: migrate_attempt_cases[where reason = reason])
    case (again s2)
    then have "card (avail C s2) < card (avail C s)" by (intro psubset_card_mono) simp_all
    with again 3 show ?thesis by (auto simp: migrate_inv_def)
  qed (use 3 in auto)
next
  case (4 s s' r)
  from 4(1) show ?case
  proof (cases rule: migrate_attempt_cases[where reason = reason])
    case (again s2)
    obtain to s3 where r: "r = (to, s3)" by force
    have cfg: "wf_cfg C" using pool_inv_wf(2)[OF again(2)] .
    have o: "dev_same_outside C (avail C s) (dev s) (dev s3)"
      using dev_same_outside_trans[OF again(7)] again(1,6) 4 r by (auto simp: migrate_post_def)
    have k: "kept s s3" using kept_trans[OF again(3)] again(1) 4 r by (simp add: migrate_post_def)
    have "copied C s eb to p s3" if "copied C s2 eb to p s3" "eb \<notin> avail C s" "p < pages_per_block C" for eb p
      using that again(3,7) page_in_block_addr[OF cfg that(3), of eb]
      by (simp add: copied_def tag_oob_def kept_def dev_same_outside_def page_in_block_def)
    moreover have "migrate_amount C offset reason \<le> pages_per_block C"
      using mod_less_divisor[OF pages_per_block_eq(2)[OF cfg]] by (simp add: migrate_amount_def less_imp_le)
    ultimately have "migrated C offset reason wd wo s to s3" if "migrated C offset reason wd wo s2 to s3"
      using that 4(1) again(3) by (auto simp: migrated_def Let_def migrate_inv_def tag_oob_def kept_def)
    moreover have "s' = s2" using again(1) 4(2) by simp
    ultimately show ?thesis using o k again(4-6) 4(3) r by (auto simp: migrate_post_def) blast
  qed (use 4 in auto)
qed

end
