(* ===== verification/Bmt_Update.thy ===== *)
theory Bmt_Update
  imports Bmt_Migrate
begin

text \<open>
  update\_bmt on a system block: a replacement is chosen (and filled when
  data has to move), the mapping table gets one more entry, its image is
  written to flash, and the bad block is marked. The invariant bmt\_ready of the
  running manager is kept, the block is redirected and no other block is.
\<close>

section \<open>The table update\<close>

lemma live_entries_append:
  assumes "length (bmt_table t) = MAX_BMT_SIZE" "unat (mapped_count t) < MAX_BMT_SIZE"
  shows "live_entries (t\<lparr>bmt_table := (bmt_table t)[unat (mapped_count t) := e], mapped_count := mapped_count t + 1\<rparr>)
       = live_entries t @ [e]"
proof -
  have "unat (mapped_count t + 1) = Suc (unat (mapped_count t))"
    using assms(2) by (simp add: unat_word_ariths MAX_BMT_SIZE_def)
  then show ?thesis
    using assms by (simp add: live_entries_def take_Suc_conv_app_nth)
qed

lemma find_index_append:
  "find_index P (xs @ ys) = (case find_index P xs of Some i \<Rightarrow> Some i | None \<Rightarrow> map_option ((+) (length xs)) (find_index P ys))"
  by (induction xs) (cases "find_index P ys"; auto split: option.splits)+

text \<open>Appending an entry redirects its block and no other.\<close>

lemma mapping_append:
  assumes "live_entries t' = live_entries t @ [\<lparr>bad_index = of_nat bad, mapped_index = of_nat to\<rparr>]"
    and "\<forall>e\<in>set (live_entries t). unat (bad_index e) \<noteq> bad" "bad < sys" "sys \<le> 65536" "to < 65536"
  shows "get_mapping_block_index_by_bmt sys t' x
       = (if x = bad then to else get_mapping_block_index_by_bmt sys t x)"
proof -
  have u: "unat (of_nat bad :: u16) = bad" "unat (of_nat to :: u16) = to" using assms(3-5) by simp_all
  show ?thesis
  proof (cases "find_index (\<lambda>e. unat (bad_index e) = x) (live_entries t)")
    case None
    then show ?thesis
      using assms(3) by (auto simp: get_mapping_block_index_by_bmt_def assms(1) find_index_append u)
  next
    case (Some i)
    then have "x \<noteq> bad" "i < length (live_entries t)" using assms(2) by (auto elim: find_indexE)
    then show ?thesis using Some by (simp add: get_mapping_block_index_by_bmt_def assms(1) find_index_append nth_append)
  qed
qed

lemma bmt_inv_append:
  assumes "bmt_inv sys tot t" "live_entries t' = live_entries t @ [\<lparr>bad_index = of_nat bad, mapped_index = of_nat to\<rparr>]"
    and "\<forall>e\<in>set (live_entries t). unat (bad_index e) \<noteq> bad" "\<forall>e\<in>set (live_entries t). unat (mapped_index e) \<noteq> to"
    and "sys \<le> to" "to < tot" "tot \<le> 65536" "bad < 65536"
  shows "bmt_inv sys tot t'"
proof -
  have u: "unat (of_nat bad :: u16) = bad" "unat (of_nat to :: u16) = to" using assms(5-8) by simp_all
  have "of_nat bad \<notin> bad_index ` set (live_entries t)" using assms(3) u by auto
  moreover have "of_nat to \<notin> mapped_index ` set (live_entries t)" using assms(4) u by auto
  ultimately show ?thesis using assms(1,5,6) u by (auto simp: bmt_inv_def assms(2))
qed

section \<open>The invariant of the running manager\<close>

text \<open>
  Between operations: the pool is as the search expects it, the mapping table
  is a partial injection from blocks into the pool that avoids the table block,
  and no update is in progress.
\<close>

definition bmt_ready :: "nand_cfg \<Rightarrow> bmt_globals \<Rightarrow> bool" where
  "bmt_ready C s \<longleftrightarrow> pool_inv C s \<and> bmt_inv (system_block_count s) (total_block_count s) (bmt s)
     \<and> wf_bmt (bmt_block_count s) (bmt s)
     \<and> (bmt_block_index s = 0 \<or> bmt_block_index s \<in> pool s) \<and> bmt_block_index s \<notin> mapped_blocks s
     \<and> \<not> isUpdateBmt s"

lemma mapped_blocks_pool:
  "bmt_ready C s \<Longrightarrow> mapped_blocks s \<subseteq> pool s"
  by (auto simp: bmt_ready_def bmt_inv_def mapped_blocks_def pool_def pool_inv_def wf_pool_def)

lemma mapped_count_lt:
  assumes "bmt_ready C s" "to \<in> pool s" "to \<notin> mapped_blocks s"
  shows "unat (mapped_count (bmt s)) < bmt_block_count s"
proof -
  have len: "length (live_entries (bmt s)) = unat (mapped_count (bmt s))"
    using assms(1) by (simp add: bmt_ready_def wf_bmt_def live_entries_def)
  have "distinct (map (\<lambda>e. unat (mapped_index e)) (live_entries (bmt s)))"
    using assms(1) by (auto simp: bmt_ready_def bmt_inv_def distinct_map inj_on_def word_unat_eq_iff)
  then have "card (mapped_blocks s) = unat (mapped_count (bmt s))"
    using len unfolding mapped_blocks_def by (metis distinct_card length_map set_map)
  moreover have "mapped_blocks s \<subset> pool s" using mapped_blocks_pool[OF assms(1)] assms(2,3) by auto
  then have "card (mapped_blocks s) < card (pool s)" by (intro psubset_card_mono) (simp_all add: pool_def)
  ultimately show ?thesis by (simp add: pool_def)
qed

section \<open>Choosing a replacement\<close>

definition choose_block ::
  "nat \<Rightarrow> nand_cfg \<Rightarrow> nat \<Rightarrow> update_reason_t \<Rightarrow> bytes \<Rightarrow> bytes \<Rightarrow> bmt_globals \<Rightarrow> fault + nat \<times> bmt_globals" where
  "choose_block fuel C offset reason dat oob s =
    (if reason = UPDATE_WRITE_FAIL \<or> reason = UPDATE_READ_CHECK_FAIL
     then migrate_from_bad fuel C offset reason dat oob s
     else Inr (find_available_block C False s))"

definition migrates :: "update_reason_t \<Rightarrow> bool" where
  "migrates reason \<longleftrightarrow> reason = UPDATE_WRITE_FAIL \<or> reason = UPDATE_READ_CHECK_FAIL"

definition chosen :: "nand_cfg \<Rightarrow> bmt_globals \<Rightarrow> nat \<Rightarrow> bmt_globals \<Rightarrow> bool" where
  "chosen C s to s' \<longleftrightarrow>
     kept s s' \<and> bmt_block_index s' = bmt_block_index s \<and> bbt_block_index s' = bbt_block_index s
     \<and> wf_pool C s' \<and> pool_erased s' \<and> dev_same_outside C (avail C s) (dev s) (dev s')
     \<and> (if to = 0 then avail C s' = {}
        else to \<in> avail C s \<and> avail C s' - {to} \<subseteq> avail C s \<and> (\<forall>x\<in>avail C s' - {to}. block_erased C (dev s') x))"

lemma choose_block_returns:
  assumes inv: "pool_inv C s" and stick: "marks_stick C" and nb: "offset div erase_size C \<notin> avail C s"
    and len: "migrates reason \<Longrightarrow> page_size C \<le> length dat \<and> oob_size C \<le> length oob"
    and fuel: "bmt_block_count s < fuel"
  shows "\<exists>to s'. choose_block fuel C offset reason dat oob s = Inr (to, s') \<and> chosen C s to s'
     \<and> (to \<noteq> 0 \<longrightarrow> migrates reason \<longrightarrow> migrated C offset reason dat oob s to s')"
proof (cases "migrates reason")
  case True
  have "migrate_inv C offset dat oob s" using assms True by (simp add: migrate_inv_def)
  moreover have "card (avail C s) < fuel" using avail_le[of C s] fuel by linarith
  ultimately obtain r where r: "migrate_from_bad fuel C offset reason dat oob s = Inr r" "migrate_post C offset reason dat oob s r"
    using mig.loop_returns by blast
  obtain to s' where "r = (to, s')" by force
  with r True show ?thesis
    by (auto simp: choose_block_def migrates_def chosen_def migrate_post_def intro!: exI[of _ to] exI[of _ s'])
next
  case False
  obtain to s' where f: "find_available_block C False s = (to, s')" by force
  note spec = find_available_spec[OF inv stick f]
  have k: "kept s s'" using dev_only_kept[OF spec(1)] by simp
  have o: "dev_same_outside C (avail C s) (dev s) (dev s')" using dev_only_outside[OF spec(1)] by simp
  have "chosen C s to s'"
    using spec(2-5) k o dev_only_fields[OF spec(1)]
    by (auto simp: chosen_def pool_inv_def pool_clean_def avail_def)
  with False f show ?thesis by (auto simp: choose_block_def migrates_def)
qed

section \<open>Committing the new table\<close>

lemma isUpdate_upd [simp]:
  "avail C (s\<lparr>isUpdateBmt := v\<rparr>) = avail C s" "pool (s\<lparr>isUpdateBmt := v\<rparr>) = pool s"
  "pool_inv C (s\<lparr>isUpdateBmt := v\<rparr>) = pool_inv C s" "mapped_blocks (s\<lparr>isUpdateBmt := v\<rparr>) = mapped_blocks s"
  by (simp_all add: avail_def pool_def available_def mapped_blocks_def pool_inv_def wf_pool_def pool_clean_def)

definition appended :: "bmt_struct \<Rightarrow> nat \<Rightarrow> nat \<Rightarrow> bmt_struct \<Rightarrow> bool" where
  "appended t bad to t' \<longleftrightarrow> length (bmt_table t') = MAX_BMT_SIZE
     \<and> unat (mapped_count t') = Suc (unat (mapped_count t))
     \<and> live_entries t' = live_entries t @ [\<lparr>bad_index = of_nat bad, mapped_index = of_nat to\<rparr>]"

lemma update_bmt_table_appends:
  assumes "length (bmt_table t) = MAX_BMT_SIZE" "unat (mapped_count t) < n" "n \<le> MAX_BMT_SIZE" "bad < sys"
  shows "\<exists>t'. update_bmt_table sys n bad to t = Inr t' \<and> appended t bad to t'"
proof -
  have "unat (mapped_count t) < MAX_BMT_SIZE" using assms by simp
  moreover have "unat (mapped_count t + 1) = Suc (unat (mapped_count t))"
    using assms by (simp add: unat_word_ariths MAX_BMT_SIZE_def)
  ultimately show ?thesis
    using live_entries_append[OF assms(1)] assms by (simp add: update_bmt_table_def appended_def)
qed

text \<open>With the replacement entered in the table, the pool is clean again.\<close>

lemma pool_inv_commit:
  assumes ch: "chosen C s to s2" and to: "to \<noteq> 0" and app: "appended (bmt s) bad to t" and wf: "wf_bmt (bmt_block_count s) t"
    and n: "to < 65536"
  shows "pool_inv C (prepare_bmt_buffers (s2\<lparr>bmt := t\<rparr>))"
    "mapped_blocks (prepare_bmt_buffers (s2\<lparr>bmt := t\<rparr>)) = insert to (mapped_blocks s)"
    "avail C (prepare_bmt_buffers (s2\<lparr>bmt := t\<rparr>)) = avail C s2 - {to}"
proof -
  let ?s3 = "prepare_bmt_buffers (s2\<lparr>bmt := t\<rparr>)"
  have u: "unat (of_nat to :: u16) = to" using n by simp
  have k: "bmt s2 = bmt s" "bmt_block_count s2 = bmt_block_count s" using ch by (simp_all add: chosen_def kept_def)
  show m: "mapped_blocks ?s3 = insert to (mapped_blocks s)"
    using app u by (simp add: mapped_blocks_def prepare_bmt_buffers_def appended_def)
  have m2: "mapped_blocks s2 = mapped_blocks s" using k by (simp add: mapped_blocks_def)
  have av: "available C ?s3 x = (x \<noteq> to \<and> available C s2 x)" for x
    using m m2 by (auto simp: available_def prepare_bmt_buffers_def)
  have p: "pool ?s3 = pool s2" by (simp add: pool_def prepare_bmt_buffers_def)
  show "avail C ?s3 = avail C s2 - {to}" using av p by (auto simp: avail_def)
  have "length (dat_buf ?s3) = MAX_DAT_SIZE"
    using wf wf_phys_of_bmt[OF wf] k
    by (simp add: prepare_bmt_buffers_def fill_nand_bmt_buffer_def length_phys_bmt_bytes MAX_DAT_SIZE_def)
  then have "wf_pool C ?s3"
    using ch app by (simp add: chosen_def wf_pool_def prepare_bmt_buffers_def appended_def)
  moreover have "block_erased C (dev ?s3) x" if "x \<in> pool ?s3" "available C ?s3 x" for x
    using ch to that av p by (auto simp: chosen_def avail_def prepare_bmt_buffers_def)
  ultimately show "pool_inv C ?s3" by (simp add: pool_inv_def pool_clean_def)
qed

section \<open>Updating a system block\<close>

lemma mark_offset_block:
  "mark_block_bad_bmt C offset k s = mark_block_bad_bmt C (OFFSET C (offset div erase_size C)) k s"
  by (simp add: mark_block_bad_bmt_def en7512_nand_mark_badblock_def OFFSET_def Let_def)

lemma bmt_ready_no_entry:
  assumes "bmt_ready C s" "bad < system_block_count s"
    "get_mapping_block_index_by_bmt (system_block_count s) (bmt s) bad = bad"
  shows "\<forall>e\<in>set (live_entries (bmt s)). unat (bad_index e) \<noteq> bad"
proof (cases rule: mapping_by_bmt_cases[of "bmt s" bad "system_block_count s"])
  case (mapped e)
  then have "system_block_count s \<le> bad" using assms by (simp add: bmt_ready_def bmt_inv_def)
  with assms show ?thesis by simp
next
  case same
  then show ?thesis using assms by blast
qed

text \<open>The image of the table that the flash holds after an update.\<close>

definition table_stored :: "nand_cfg \<Rightarrow> bmt_globals \<Rightarrow> bool" where
  "table_stored C s \<longleftrightarrow> bmt_block_index s \<in> pool s \<and>
     page_holds C (dev s) (PAGE_ADDR C (bmt_block_index s))
       (fill_nand_bmt_buffer (bmt_block_count s) (bmt s) (replicate MAX_DAT_SIZE 0xFF))
       (replicate MAX_OOB_SIZE 0xFF)"

text \<open>A block outside the pool may be marked without disturbing pool, table or table block.\<close>

lemma mark_system_block:
  assumes inv: "pool_inv C s" and b: "b < system_block_count s" and stick: "marks_stick C"
    and s': "s' = snd (mark_block_bad_bmt C (OFFSET C b) False s)"
  shows "pool_inv C s'" "avail C s' = avail C s" "kept s s'" "bmt_block_index s' = bmt_block_index s"
    "block_marked C (dev s') b False" "dev_same_outside C {b} (dev s) (dev s')"
    "table_stored C s \<Longrightarrow> table_stored C s'"
proof -
  note wf = pool_inv_wf[OF inv]
  have np: "b \<notin> pool s" using b by (simp add: pool_def)
  have bt: "b < block_total C" using inv b by (simp add: pool_inv_def wf_pool_def)
  have d: "dev_only C {b} s s'" using mark_bad_dev_only[OF wf(2)] by (simp add: s')
  have av: "x \<in> pool s \<Longrightarrow> available C s' x = available C s x \<and> block_erased C (dev s') x = block_erased C (dev s) x" for x
    using available_dev_only[OF d wf(1), of x] dev_only_erased[OF d, of x] np by auto
  show "avail C s' = avail C s" using av pool_dev_only[OF d] by (auto simp: avail_def)
  show "pool_inv C s'"
    using inv av wf_pool_dev_only[OF d] pool_dev_only[OF d] dev_only_fields(11)[OF d]
    by (auto simp: pool_inv_def pool_clean_def)
  show k: "kept s s'" using dev_only_kept[OF d] .
  show i: "bmt_block_index s' = bmt_block_index s" using dev_only_fields[OF d] by simp
  show "block_marked C (dev s') b False" using mark_bad_marks[OF stick wf(1) bt] by (simp add: s')
  show o: "dev_same_outside C {b} (dev s) (dev s')" using dev_only_outside[OF d] .
  show "table_stored C s'" if "table_stored C s"
  proof -
    have "bmt_block_index s \<noteq> b" using that np by (auto simp: table_stored_def)
    then show ?thesis
      using that page_addr_other[OF wf(2) o, of "bmt_block_index s" 0] pages_per_block_eq(2)[OF wf(2)] k i
      by (simp add: table_stored_def page_holds_def kept_def pool_def)
  qed
qed

lemma migrated_outside:
  assumes m: "migrated C offset reason dat oob s to s2" and o: "dev_same_outside C B (dev s2) (dev s')"
    and to: "to \<notin> B" and cfg: "wf_cfg C"
  shows "migrated C offset reason dat oob s to s'"
proof -
  have "migrate_amount C offset reason \<le> pages_per_block C" and ep: "(offset div page_size C) mod pages_per_block C < pages_per_block C"
    using mod_less_divisor[OF pages_per_block_eq(2)[OF cfg]] by (simp_all add: migrate_amount_def less_imp_le)
  moreover have "flash_data (dev s') (PAGE_ADDR C to + p) = flash_data (dev s2) (PAGE_ADDR C to + p)
      \<and> flash_oob (dev s') (PAGE_ADDR C to + p) = flash_oob (dev s2) (PAGE_ADDR C to + p)" if "p < pages_per_block C" for p
    using o to page_in_block_addr[OF cfg that, of to] by (simp add: dev_same_outside_def page_in_block_def)
  ultimately show ?thesis using m by (simp add: migrated_def Let_def page_holds_def copied_def)
qed

text \<open>What a successful update of block bad establishes.\<close>

definition updated ::
  "nand_cfg \<Rightarrow> nat \<Rightarrow> update_reason_t \<Rightarrow> bytes \<Rightarrow> bytes \<Rightarrow> bmt_globals \<Rightarrow> bmt_globals \<Rightarrow> bool" where
  "updated C offset reason dat oob s s' \<longleftrightarrow>
    (let bad = offset div erase_size C; sys = system_block_count s
     in \<exists>to\<in>avail C s.
          (\<forall>x. get_mapping_block_index_by_bmt sys (bmt s') x
             = (if x = bad then to else get_mapping_block_index_by_bmt sys (bmt s) x))
          \<and> (migrates reason \<longrightarrow> migrated C offset reason dat oob s to s')
          \<and> bmt_ready C s' \<and> table_stored C s' \<and> block_marked C (dev s') bad False)"

text \<open>
  The state after a replacement to has been chosen for system block b and
  entered in the table, ready for the table to be written.
\<close>

definition committed :: "nand_cfg \<Rightarrow> bmt_globals \<Rightarrow> nat \<Rightarrow> nat \<Rightarrow> bmt_globals \<Rightarrow> bool" where
  "committed C s b to s3 \<longleftrightarrow> pool_inv C s3 \<and> to \<in> avail C s \<and> appended (bmt s) b to (bmt s3)
     \<and> wf_bmt (bmt_block_count s) (bmt s3)
     \<and> total_block_count s3 = total_block_count s \<and> system_block_count s3 = system_block_count s
     \<and> bmt_block_count s3 = bmt_block_count s \<and> bmt_block_index s3 = bmt_block_index s
     \<and> dat_buf s3 = fill_nand_bmt_buffer (bmt_block_count s) (bmt s3) (replicate MAX_DAT_SIZE 0xFF)
     \<and> oob_buf s3 = replicate MAX_OOB_SIZE 0xFF \<and> to \<notin> avail C s3 \<and> isUpdateBmt s3"

lemma update_bmt_commits:
  assumes ready: "bmt_ready C s" and b: "b < system_block_count s"
    and ch: "chosen C (s\<lparr>isUpdateBmt := True\<rparr>) to s2" and to: "to \<noteq> 0"
  shows "\<exists>t. update_bmt_table (system_block_count s2) (bmt_block_count s2) b to (bmt s2) = Inr t
      \<and> committed C s b to (prepare_bmt_buffers (s2\<lparr>bmt := t\<rparr>))"
proof -
  have inv: "pool_inv C s" using ready by (simp add: bmt_ready_def)
  have k2: "kept s (s2\<lparr>isUpdateBmt := isUpdateBmt s\<rparr>)" "isUpdateBmt s2" "bmt_block_index s2 = bmt_block_index s"
    using ch by (simp_all add: chosen_def kept_def)
  have tos: "to \<in> avail C s" "to \<in> pool s" "to \<notin> mapped_blocks s" "to < 65536"
    using ch to inv by (auto simp: chosen_def avail_def available_def pool_def pool_inv_def wf_pool_def)
  have n: "unat (mapped_count (bmt s)) < bmt_block_count s" "bmt_block_count s \<le> MAX_BMT_SIZE"
      "length (bmt_table (bmt s)) = MAX_BMT_SIZE"
    using mapped_count_lt[OF ready tos(2,3)] inv by (simp_all add: pool_inv_def wf_pool_def)
  obtain t where t: "update_bmt_table (system_block_count s2) (bmt_block_count s2) b to (bmt s2) = Inr t"
      "appended (bmt s) b to t"
    using update_bmt_table_appends[OF n(3,1,2) b, of to] k2(1) by (auto simp: kept_def)
  have wft: "wf_bmt (bmt_block_count s) t" using t(2) n by (simp add: appended_def wf_bmt_def)
  have "pool_inv C (prepare_bmt_buffers (s2\<lparr>bmt := t\<rparr>))" "to \<notin> avail C (prepare_bmt_buffers (s2\<lparr>bmt := t\<rparr>))"
    using pool_inv_commit[OF ch to, of b t] t(2) wft tos(4) by simp_all
  then show ?thesis
    using t wft tos(1) k2 by (auto simp: committed_def prepare_bmt_buffers_def kept_def)
qed

lemma committed_writable:
  assumes "bmt_ready C s" "marks_stick C" "committed C s b to s3"
  shows "write_bmt_inv C (dat_buf s3) (oob_buf s3) s3"
proof -
  have inv: "pool_inv C s3" using assms(3) by (simp add: committed_def)
  have "page_size C \<le> length (dat_buf s3)" "oob_size C \<le> length (oob_buf s3)"
    using inv pool_inv_wf(2)[OF inv] power_increasing[of "page_shift C" 12 "2::nat"]
      power_increasing[of "oob_shift C" 8 "2::nat"]
    by (simp_all add: pool_inv_def wf_pool_def wf_cfg_def page_size_def oob_size_def MAX_DAT_SIZE_def MAX_OOB_SIZE_def)
  then show ?thesis
    using assms inv by (auto simp: write_bmt_inv_def committed_def bmt_ready_def pool_def)
qed

text \<open>After the table has been written: where the table block may be, and what the table says.\<close>

lemma committed_table:
  assumes ready: "bmt_ready C s" and c: "committed C s b to s3" and b: "b < system_block_count s"
    and noe: "\<forall>e\<in>set (live_entries (bmt s)). unat (bad_index e) \<noteq> b"
  shows "get_mapping_block_index_by_bmt (system_block_count s) (bmt s3) x
       = (if x = b then to else get_mapping_block_index_by_bmt (system_block_count s) (bmt s) x)"
    "bmt_inv (system_block_count s) (total_block_count s) (bmt s3)"
    "mapped_blocks s3 = insert to (mapped_blocks s)" "to \<in> pool s" "to \<noteq> bmt_block_index s"
proof -
  have inv: "pool_inv C s" "bmt_inv (system_block_count s) (total_block_count s) (bmt s)" using ready by (simp_all add: bmt_ready_def)
  have live: "live_entries (bmt s3) = live_entries (bmt s) @ [\<lparr>bad_index = of_nat b, mapped_index = of_nat to\<rparr>]"
    using c by (simp add: committed_def appended_def)
  show to: "to \<in> pool s" "to \<noteq> bmt_block_index s" using c by (auto simp: committed_def avail_def available_def)
  have r: "system_block_count s \<le> to" "to < total_block_count s" "total_block_count s \<le> 65535" "to < 65536"
    using to(1) inv(1) by (auto simp: pool_def pool_inv_def wf_pool_def)
  have nm: "\<forall>e\<in>set (live_entries (bmt s)). unat (mapped_index e) \<noteq> to"
    using c by (auto simp: committed_def avail_def available_def mapped_blocks_def)
  show "get_mapping_block_index_by_bmt (system_block_count s) (bmt s3) x
       = (if x = b then to else get_mapping_block_index_by_bmt (system_block_count s) (bmt s) x)"
    using mapping_append[OF live noe b] r by simp
  show "bmt_inv (system_block_count s) (total_block_count s) (bmt s3)"
    using bmt_inv_append[OF inv(2) live noe nm r(1,2)] r b by simp
  show "mapped_blocks s3 = insert to (mapped_blocks s)" using live r by (simp add: mapped_blocks_def)
qed

lemma update_bmt_finish:
  assumes ready: "bmt_ready C s" and stick: "marks_stick C" and b: "b < system_block_count s"
    and noe: "\<forall>e\<in>set (live_entries (bmt s)). unat (bad_index e) \<noteq> b"
    and c: "committed C s b to s3" and w: "write_bmt_post C (dat_buf s3) (oob_buf s3) s3 (True, s4)"
    and s5: "s5 = (snd (mark_block_bad_bmt C (OFFSET C b) False s4))\<lparr>isUpdateBmt := False\<rparr>"
  shows "bmt_ready C s5" "table_stored C s5" "block_marked C (dev s5) b False" "bmt s5 = bmt s3"
    "\<exists>B. dev_same_outside C B (dev s3) (dev s5) \<and> to \<notin> B"
proof -
  note ct = committed_table[OF ready c b noe]
  define s5' where "s5' = snd (mark_block_bad_bmt C (OFFSET C b) False s4)"
  have k4: "kept s3 s4" and inv4: "pool_inv C s4" using w by (simp_all add: write_bmt_post_def)
  have b4: "b < system_block_count s4" using b k4 c by (simp add: kept_def committed_def)
  note ms = mark_system_block[OF inv4 b4 stick s5'_def]
  have f: "bmt s4 = bmt s3" "pool s4 = pool s" "bmt_block_count s4 = bmt_block_count s"
      "system_block_count s4 = system_block_count s" "total_block_count s4 = total_block_count s"
    using k4 c by (simp_all add: kept_def committed_def pool_def)
  have bi: "bmt_block_index s4 \<in> avail C s3 \<or> bmt_block_index s4 = bmt_block_index s \<and> bmt_block_index s \<noteq> 0"
    using w c by (simp add: write_bmt_post_def committed_def)
  have p3: "pool s3 = pool s" using c by (simp add: committed_def pool_def)
  have bip: "bmt_block_index s4 \<in> pool s" "bmt_block_index s4 \<notin> mapped_blocks s3"
    using bi ready p3 ct(3,5) by (auto simp: bmt_ready_def avail_def available_def)
  have "table_stored C s4"
    using w c f bip(1) by (simp add: table_stored_def write_bmt_post_def committed_def)
  with ms(7) show "table_stored C s5" by (simp add: s5 s5'_def[symmetric] table_stored_def pool_def)
  have f5: "bmt s5' = bmt s3" "mapped_blocks s5' = mapped_blocks s3" "pool s5' = pool s"
    using ms(3) f by (simp_all add: kept_def mapped_blocks_def pool_def)
  show "bmt s5 = bmt s3" using f5 by (simp add: s5 s5'_def[symmetric])
  show "bmt_ready C s5"
    using ms(1,3,4) ct(2) c bip f f5 unfolding bmt_ready_def s5 s5'_def[symmetric]
    by (simp add: committed_def kept_def)
  show "block_marked C (dev s5) b False" using ms(5) by (simp add: s5 s5'_def[symmetric])
  have nb: "to \<noteq> b" using ct(4) b by (auto simp: pool_def)
  have "dev_same_outside C (avail C s3 \<union> ({bmt_block_index s} - {0}) \<union> {b}) (dev s3) (dev s5)"
  proof -
    have "dev_same_outside C (avail C s3 \<union> ({bmt_block_index s} - {0})) (dev s3) (dev s4)"
      using w c by (simp add: write_bmt_post_def committed_def)
    then show ?thesis unfolding s5 s5'_def[symmetric]
      by (auto intro: dev_same_outside_trans[OF _ ms(6)])
  qed
  then show "\<exists>B. dev_same_outside C B (dev s3) (dev s5) \<and> to \<notin> B"
    using nb ct(5) c by (intro exI[of _ "avail C s3 \<union> ({bmt_block_index s} - {0}) \<union> {b}"]) (auto simp: committed_def)
qed

lemma update_bmt_returns:
  assumes ready: "bmt_ready C s" and stick: "marks_stick C"
    and bad: "offset div erase_size C < system_block_count s"
    and unmapped: "get_mapping_block_index_by_bmt (system_block_count s) (bmt s) (offset div erase_size C) = offset div erase_size C"
    and len: "migrates reason \<Longrightarrow> page_size C \<le> length dat \<and> oob_size C \<le> length oob"
    and fuel: "Suc (bmt_block_count s) < fuel"
  shows "\<exists>ok s'. update_bmt fuel C offset reason dat oob s = Inr (ok, s') \<and> \<not> isUpdateBmt s'
     \<and> (if ok then updated C offset reason dat oob s s' else avail C s' = {})"
proof -
  define b where "b = offset div erase_size C"
  define s1 where "s1 = s\<lparr>isUpdateBmt := True\<rparr>"
  have inv: "pool_inv C s" and nu: "\<not> isUpdateBmt s" using ready by (simp_all add: bmt_ready_def)
  have nav: "offset div erase_size C \<notin> avail C s1" using bad by (simp add: s1_def avail_def pool_def)
  have "pool_inv C s1" "bmt_block_count s1 < fuel" using inv fuel by (simp_all add: s1_def)
  then obtain to s2 where ch: "choose_block fuel C offset reason dat oob s1 = Inr (to, s2)" "chosen C s1 to s2"
      "to \<noteq> 0 \<longrightarrow> migrates reason \<longrightarrow> migrated C offset reason dat oob s1 to s2"
    using choose_block_returns[OF _ stick nav len] by blast
  have run1: "update_bmt fuel C offset reason dat oob s = res_bind (Inr (to, s2)) (\<lambda>(map_index, s2).
      if map_index = 0 then Inr (False, s2\<lparr>isUpdateBmt := False\<rparr>)
      else res_bind (update_bmt_table (system_block_count s2) (bmt_block_count s2) b map_index (bmt s2))
            (\<lambda>t. let s3 = prepare_bmt_buffers (s2\<lparr>bmt := t\<rparr>)
                  in res_bind (write_bmt_to_flash fuel C (dat_buf s3) (oob_buf s3) s3)
                       (\<lambda>(ok, s4). if \<not> ok then Inr (False, s4\<lparr>isUpdateBmt := False\<rparr>)
                          else let s5 = snd (mark_block_bad_bmt C offset (b \<ge> system_block_count s4) s4)
                               in Inr (True, s5\<lparr>isUpdateBmt := False\<rparr>))))"
    unfolding update_bmt_def Let_def ch(1)[symmetric] choose_block_def s1_def b_def using nu unmapped by simp
  show ?thesis
  proof (cases "to = 0")
    case True
    then show ?thesis using run1 ch(2) by (auto simp: chosen_def)
  next
    case False
    have b: "b < system_block_count s" using bad by (simp add: b_def)
    obtain t where t: "update_bmt_table (system_block_count s2) (bmt_block_count s2) b to (bmt s2) = Inr t"
        "committed C s b to (prepare_bmt_buffers (s2\<lparr>bmt := t\<rparr>))"
      using update_bmt_commits[OF ready b _ False] ch(2) by (auto simp: s1_def)
    define s3 where "s3 = prepare_bmt_buffers (s2\<lparr>bmt := t\<rparr>)"
    note c = t(2)[folded s3_def]
    have left: "card (avail C s3) + (if bmt_block_index s3 = 0 then 0 else 1) < fuel"
      using avail_le[of C s3] c fuel by (auto simp: committed_def)
    obtain ok s4 where w: "write_bmt_to_flash fuel C (dat_buf s3) (oob_buf s3) s3 = Inr (ok, s4)"
        "write_bmt_post C (dat_buf s3) (oob_buf s3) s3 (ok, s4)"
      using bmtw.loop_returns[OF committed_writable[OF ready stick c] left] by auto
    show ?thesis
    proof (cases ok)
      case nok: False
      then show ?thesis using run1 False t(1) w by (auto simp: s3_def[symmetric] write_bmt_post_def)
    next
      case okT: True
      define s5 where "s5 = (snd (mark_block_bad_bmt C (OFFSET C b) False s4))\<lparr>isUpdateBmt := False\<rparr>"
      have b4: "\<not> system_block_count s4 \<le> b" using w(2) c b by (simp add: write_bmt_post_def kept_def committed_def)
      have mk: "mark_block_bad_bmt C offset False s4 = mark_block_bad_bmt C (OFFSET C b) False s4"
        using mark_offset_block[of C offset False s4] by (simp add: b_def)
      have run: "update_bmt fuel C offset reason dat oob s = Inr (True, s5)"
        using run1 False t(1) w(1) okT b4 mk by (simp add: s3_def[symmetric] s5_def)
      have noe: "\<forall>e\<in>set (live_entries (bmt s)). unat (bad_index e) \<noteq> b"
        using bmt_ready_no_entry[OF ready] bad unmapped by (simp add: b_def)
      have w': "write_bmt_post C (dat_buf s3) (oob_buf s3) s3 (True, s4)" using w(2) okT by simp
      note fin = update_bmt_finish[OF ready stick b noe c w' s5_def] and ct = committed_table[OF ready c b noe]
      have "migrated C offset reason dat oob s to s5" if "migrates reason"
      proof -
        have "migrated C offset reason dat oob s to s3"
          using ch(3) False that by (simp add: migrated_def copied_def tag_oob_def s1_def s3_def prepare_bmt_buffers_def)
        then show ?thesis using fin(5) migrated_outside pool_inv_wf(2)[OF inv] by (auto simp: dev_same_outside_def)
      qed
      then have "updated C offset reason dat oob s s5"
        unfolding updated_def Let_def using fin(1-4) ct(1) c
        by (intro bexI[of _ to]) (simp_all add: b_def[symmetric] committed_def)
      moreover have "\<not> isUpdateBmt s5" by (simp add: s5_def)
      ultimately show ?thesis using run by auto
    qed
  qed
qed

section \<open>A chip without faults\<close>

lemma marks_stick_no_fault:
  assumes "wf_cfg C" "\<And>t p. prog_fault C t p = None"
  shows "marks_stick C"
  unfolding marks_stick_def
proof (intro allI impI)
  fix d b k assume wf: "wf_dev C d" and b: "b < block_total C"
  define d1 where "d1 = snd (spi_nand_erase_block C b d)"
  have wf1: "wf_arr C d1" using erase_block_wf wf by (simp add: d1_def wf_dev_def)
  have l8: "8 \<le> oob_size C" using oob_size_ge8[OF assms(1)] .
  have nr: "\<not> oob_reserve_for_bmt C" using assms(1) by (simp add: wf_cfg_def)
  have mk: "mark_oob C k = (replicate 8 0xFF)[mark_byte k := 0]"
    using nr by (simp add: mark_oob_def mark_byte_def Let_def)
  have mb: "mark_byte k < 8" by (simp add: mark_byte_def BMT_BAD_BLOCK_INDEX_OFFSET_def)
  let ?p = "b * pages_per_block C"
  have len: "length (flash_oob d1 ?p) = oob_size C" "length (cache_page_oob_mapping d1) = oob_size C"
    using wf1 by (simp_all add: wf_arr_def)
  let ?co = "write_page_oob C (cache_page_oob_mapping d1) (mark_oob C k)"
  have co: "?co ! mark_byte k = 0"
    using mb mk len l8 by (simp add: write_page_oob_def memset_def memcpy_def nth_append)
  have lco: "length ?co = oob_size C" using length_write_page_oob[of "mark_oob C k" C] mk len l8 by simp
  have "flash_oob (snd (en7512_nand_mark_badblock C (b * erase_size C) k d)) ?p = program_bits (flash_oob d1 ?p) ?co"
    using offset_div_page[OF assms(1), of b]
    by (simp add: en7512_nand_mark_badblock_def Let_def d1_def[symmetric] spi_nand_write_page_def assms(2))
  moreover have "program_bits (flash_oob d1 ?p) ?co ! mark_byte k = 0"
    using co lco len mb l8 by (simp add: program_bits_def)
  ultimately show "block_marked C (snd (en7512_nand_mark_badblock C (b * erase_size C) k d)) b k"
    by (simp add: block_marked_def)
qed

text \<open>A small chip: four blocks of two 1 KiB pages, two of the blocks being the pool.\<close>

definition demo_cfg :: nand_cfg where
  "demo_cfg = \<lparr>page_shift = 10, erase_shift = 11, chip_shift = 13, oob_shift = 6, oob_reserve_for_bmt = False,
     read_status = (\<lambda>_ _. RTN_NO_ERROR), prog_fault = (\<lambda>_ _. None), erase_fault = (\<lambda>_ _. None),
     hw_ecc_decode = True, ecc_status_ok = (\<lambda>_. True), test_write_fail_flag = False\<rparr>"

definition demo_dev :: nand_dev where
  "demo_dev = \<lparr>flash_data = (\<lambda>_. replicate 1024 0xFF), flash_oob = (\<lambda>_. replicate 64 0xFF), clock = 0,
     current_page_num = None, cache_page_data = replicate 1024 0xFF, cache_page_oob_mapping = replicate 64 0xFF\<rparr>"

definition demo_globals :: bmt_globals where
  "demo_globals = \<lparr>need_write_bmt_to_nand = False, need_write_bbt_to_nand = False, total_block_count = 4,
     system_block_count = 2, bmt_block_count = 2, nand_logic_size = 4096, page_per_block = 2,
     bmt_block_index = 3,
     bmt = \<lparr>bmt_table = replicate MAX_BMT_SIZE \<lparr>bad_index = 0, mapped_index = 0\<rparr>, bmt_version = 1,
            mapped_count = 0, bad_count = 0\<rparr>,
     bbt_block_index = 0,
     init_bbt = \<lparr>badblock_table = replicate MAX_RAW_BAD_BLOCK_SIZE 0, bbt_version = 1, badblock_count = 0\<rparr>,
     pBbt = [0, 1], dat_buf = replicate MAX_DAT_SIZE 0, oob_buf = replicate MAX_OOB_SIZE 0,
     pool_erased = True, isUpdateBmt = False, dev = demo_dev\<rparr>"

lemma demo_cfg_wf: "wf_cfg demo_cfg" "marks_stick demo_cfg" "reads_ok demo_cfg"
proof -
  show wf: "wf_cfg demo_cfg" by (simp add: wf_cfg_def demo_cfg_def)
  show "marks_stick demo_cfg" by (rule marks_stick_no_fault[OF wf]) (simp add: demo_cfg_def)
  show "reads_ok demo_cfg" by (simp add: reads_ok_def demo_cfg_def)
qed

lemma demo_sizes [simp]:
  "page_size demo_cfg = 1024" "erase_size demo_cfg = 2048" "oob_size demo_cfg = 64" "pages_per_block demo_cfg = 2"
  "block_total demo_cfg = 4" "device_size demo_cfg = 8192"
  by (simp_all add: page_size_def erase_size_def oob_size_def pages_per_block_def block_total_def device_size_def demo_cfg_def)

lemma demo_dev_wf: "wf_dev demo_cfg demo_dev"
  using demo_cfg_wf(1) by (simp add: wf_dev_defs wf_faults_def demo_dev_def) (simp add: demo_cfg_def)

lemma demo_wf_pool: "wf_pool demo_cfg demo_globals"
  using demo_dev_wf by (simp add: wf_pool_def demo_globals_def MAX_BMT_SIZE_def)

lemma demo_ready: "bmt_ready demo_cfg demo_globals"
proof -
  have "block_erased demo_cfg demo_dev x" for x
    by (simp add: block_erased_def demo_dev_def)
  then have "pool_inv demo_cfg demo_globals"
    using demo_wf_pool by (simp add: pool_inv_def pool_clean_def) (simp add: demo_globals_def)
  then show ?thesis
    by (simp add: bmt_ready_def bmt_inv_def wf_bmt_def live_entries_def mapped_blocks_def pool_def demo_globals_def MAX_BMT_SIZE_def)
qed

end
