(* ===== verification/Bmt_Load.thy ===== *)
theory Bmt_Load
  imports Bmt_Update
begin

text \<open>
  Starting up: what load\_bmt\_data finds of a table image that was stored
  earlier, and what scanning the system area for raw bad blocks produces. A block
  is always checked for marks before it is read, which leaves its first page in
  the read cache; the read that follows therefore never reports an error.
\<close>

section \<open>Checking a block hides its read errors\<close>

lemma check_caches:
  assumes "wf_dev C (dev s)" "b < block_total C"
  shows "current_page_num (dev (snd (nand_block_bad_bmt C (OFFSET C b) k s))) = Some (PAGE_ADDR C b)"
proof -
  have cfg: "wf_cfg C" using assms(1) by (simp add: wf_dev_cfg)
  have "fold_window (b * erase_size C) div page_size C = PAGE_ADDR C b"
    using fold_window_id[OF block_offset_lt[OF cfg assms(2)]] by (simp add: PAGE_ADDR_def)
  then show ?thesis
    by (simp add: nand_block_bad_bmt_def en7512_nand_check_block_bad_def spi_nand_read_page_def OFFSET_def Let_def
        split: prod.splits if_splits)
qed

lemma either_caches:
  assumes "wf_dev C (dev s)" "b < block_total C"
  shows "current_page_num (dev (snd (block_bad_either C b s))) = Some (PAGE_ADDR C b)"
  using check_caches[OF assms, of False] check_caches[of C "snd (nand_block_bad_bmt C (OFFSET C b) False s)" b True]
    dev_only_wf[OF block_bad_dev_only assms(1), of "OFFSET C b" False] assms
  by (auto simp: block_bad_either_def split: prod.splits)

lemma read_cached:
  "current_page_num (dev s) = Some p \<Longrightarrow> fst (nand_read_page_bmt C p s) = 0"
  by (simp add: nand_read_page_bmt_def en7512_nand_exec_read_page_def spi_nand_read_page_def)

text \<open>
  What the loaders see of a pool block: its bytes, whatever the status of
  reading them.
\<close>

lemma check_then_read:
  assumes wf: "wf_pool C s" and b: "b < block_total C"
    and e: "block_bad_either C b s = (bad, s1)" and r: "nand_read_page_bmt C (PAGE_ADDR C b) s1 = (r, s2)"
  shows "r = 0" "take (page_size C) (dat_buf s2) = flash_data (dev s) (PAGE_ADDR C b)"
    "take (oob_size C) (oob_buf s2) = flash_oob (dev s) (PAGE_ADDR C b)"
    "dev_buf C {} s s2" "bad = (block_marked C (dev s) b False \<or> block_marked C (dev s) b True)"
    "dev_only C {} s s1"
proof -
  have wd: "wf_dev C (dev s)" and len: "length (dat_buf s) = MAX_DAT_SIZE" "length (oob_buf s) = MAX_OOB_SIZE"
    using wf by (simp_all add: wf_pool_def)
  show d1: "dev_only C {} s s1" using bc.either_sim[of C s b] wd e by (simp add: block_bad_either_eq)
  show "bad = (block_marked C (dev s) b False \<or> block_marked C (dev s) b True)"
    using bc.either_result[of C s b] wd b e by (simp add: block_bad_either_eq)
  have wd1: "wf_dev C (dev s1)" using dev_only_wf[OF d1 wd] .
  have len1: "length (dat_buf s1) = MAX_DAT_SIZE" "length (oob_buf s1) = MAX_OOB_SIZE" using len dev_only_fields[OF d1] by simp_all
  have c: "current_page_num (dev s1) = Some (PAGE_ADDR C b)" using either_caches[OF wd b] e by simp
  show r0: "r = 0" using read_cached[OF c, of C] r by simp
  have d2: "dev_buf C {} s1 s2" using read_page_bmt_spec(1)[OF wd1 len1, of "PAGE_ADDR C b"] r by simp
  show "dev_buf C {} s s2" using dev_buf_trans[OF dev_only_dev_buf[OF d1] d2] .
  have sa: "flash_data (dev s1) = flash_data (dev s)" "flash_oob (dev s1) = flash_oob (dev s)"
    using d1 by (simp_all add: dev_only_def fun_eq_iff)
  have l: "length (flash_data (dev s1) (PAGE_ADDR C b)) = page_size C" "length (flash_oob (dev s1) (PAGE_ADDR C b)) = oob_size C"
    and co: "cache_page_data (dev s1) = flash_data (dev s1) (PAGE_ADDR C b)" "cache_page_oob_mapping (dev s1) = flash_oob (dev s1) (PAGE_ADDR C b)"
    using wd1 c by (simp_all add: wf_dev_defs)
  show "take (page_size C) (dat_buf s2) = flash_data (dev s) (PAGE_ADDR C b)"
    "take (oob_size C) (oob_buf s2) = flash_oob (dev s) (PAGE_ADDR C b)"
    using r c l co sa by (auto simp: nand_read_page_bmt_def en7512_nand_exec_read_page_def spi_nand_read_page_def memcpy_def)
qed

section \<open>Loading the mapping table back\<close>

text \<open>A block that the search passes over: it is marked, or its first page is no table image.\<close>

definition no_bmt_image :: "nand_cfg \<Rightarrow> nand_dev \<Rightarrow> nat \<Rightarrow> bool" where
  "no_bmt_image C d b \<longleftrightarrow> block_marked C d b False \<or> block_marked C d b True
     \<or> \<not> match_bmt_signature (flash_data d (PAGE_ADDR C b))"

lemma match_take: "3 \<le> n \<Longrightarrow> match_bmt_signature (take n xs) = match_bmt_signature xs"
  by (simp add: match_bmt_signature_def min_def)

lemma page_size_ge: "wf_cfg C \<Longrightarrow> 1024 \<le> page_size C"
  using power_increasing[of 10 "page_shift C" "2::nat"] by (simp add: wf_cfg_def page_size_def)

lemma load_bmt_skips:
  assumes "wf_pool C s" "\<forall>x\<in>set bs. x < block_total C \<and> no_bmt_image C (dev s) x"
  shows "\<exists>s'. load_bmt_loop C (bs @ rest) s = load_bmt_loop C rest s' \<and> dev_buf C {} s s'"
  using assms
proof (induction bs arbitrary: s)
  case (Cons b bs)
  obtain bad s1 where e: "block_bad_either C b s = (bad, s1)" by force
  obtain r s2 where r: "nand_read_page_bmt C (PAGE_ADDR C b) s1 = (r, s2)" by force
  have b: "b < block_total C" using Cons.prems by simp
  note cr = check_then_read[OF Cons.prems(1) b e r]
  have cfg: "wf_cfg C" using Cons.prems(1) by (auto simp: wf_pool_def wf_dev_cfg)
  define s' where "s' = (if bad then s1 else s2)"
  have d: "dev_buf C {} s s'" using cr(4) dev_only_dev_buf[OF cr(6)] by (simp add: s'_def)
  have sa: "flash_data (dev s') = flash_data (dev s)" "flash_oob (dev s') = flash_oob (dev s)"
    using d by (simp_all add: dev_buf_def dev_same_outside_def fun_eq_iff)
  have nm: "\<not> bad \<Longrightarrow> \<not> match_bmt_signature (dat_buf s2)"
    using cr(2,5) Cons.prems(2) match_take[of "page_size C" "dat_buf s2"] page_size_ge[OF cfg]
    by (auto simp: no_bmt_image_def)
  have run: "load_bmt_loop C ((b # bs) @ rest) s = load_bmt_loop C (bs @ rest) s'"
    using cr(1) nm by (simp add: e r s'_def)
  have nx: "\<forall>x\<in>set bs. x < block_total C \<and> no_bmt_image C (dev s') x"
    using Cons.prems(2) sa by (auto simp: no_bmt_image_def block_marked_def)
  obtain s'' where "load_bmt_loop C (bs @ rest) s' = load_bmt_loop C rest s''" "dev_buf C {} s' s''"
    using Cons.IH[OF dev_buf_pool(2)[OF d Cons.prems(1)] nx] by blast
  then show ?case using run dev_buf_trans[OF d] by auto
qed auto

lemma remark_dev_only:
  assumes "wf_cfg C" shows "dev_only C ((\<lambda>e. unat (bad_index e)) ` set es) s (remark_entries C es s)"
proof (induction es arbitrary: s)
  case (Cons e es)
  obtain r s1 where r: "nand_block_bad_bmt C (OFFSET C (unat (bad_index e))) False s = (r, s1)" by force
  have d1: "dev_only C {} s s1" using block_bad_dev_only[of C s "OFFSET C (unat (bad_index e))" False] r by simp
  define s2 where "s2 = (if r = 0 then snd (mark_block_bad_bmt C (OFFSET C (unat (bad_index e))) False s1) else s1)"
  have d2: "dev_only C {unat (bad_index e)} s1 s2"
    using mark_bad_dev_only[OF assms, of "unat (bad_index e)" s1 False] by (simp add: s2_def)
  have "dev_only C ({} \<union> {unat (bad_index e)} \<union> (\<lambda>e. unat (bad_index e)) ` set es) s (remark_entries C es s2)"
    using dev_only_trans[OF dev_only_trans[OF d1 d2] Cons.IH] .
  then show ?case by (simp add: r s2_def)
qed simp

definition holds_bmt_image :: "nand_cfg \<Rightarrow> nand_dev \<Rightarrow> nat \<Rightarrow> nat \<Rightarrow> bmt_struct \<Rightarrow> bool" where
  "holds_bmt_image C d b n t \<longleftrightarrow> \<not> block_marked C d b False \<and> \<not> block_marked C d b True
     \<and> flash_data d (PAGE_ADDR C b) = take (page_size C) (fill_nand_bmt_buffer n t (replicate MAX_DAT_SIZE 0xFF))"

lemma image_prefix:
  assumes "wf_bmt n t" "1020 \<le> k" "take k xs = take k (fill_nand_bmt_buffer n t dat)"
  shows "\<exists>ys. xs = phys_bmt_bytes (phys_of_bmt n t) @ ys"
proof -
  have l: "length (phys_bmt_bytes (phys_of_bmt n t)) = 1020"
    using length_phys_bmt_bytes[OF wf_phys_of_bmt[OF assms(1)]] .
  have "take 1020 xs = take 1020 (take k xs)" using assms(2) by (simp add: min_def)
  also have "\<dots> = phys_bmt_bytes (phys_of_bmt n t)"
    using assms(2) l unfolding assms(3) by (simp add: fill_nand_bmt_buffer_def memcpy_def min_def)
  finally show ?thesis by (metis append_take_drop_id)
qed

lemma load_bmt_accepts:
  assumes wf: "wf_pool C s" and b: "b < block_total C" and im: "holds_bmt_image C (dev s) b (bmt_block_count s) t"
    and t: "wf_bmt (bmt_block_count s) t"
    and rng: "\<forall>e\<in>set (live_entries t). unat (bad_index e) < total_block_count s
        \<and> unat (mapped_index e) < total_block_count s \<and> system_block_count s \<le> unat (mapped_index e)"
  shows "\<exists>s'. load_bmt_loop C (b # bs) s = Inr (b, s') \<and> live_entries (bmt s') = live_entries t
      \<and> mapped_count (bmt s') = mapped_count t"
proof -
  obtain bad s1 where e: "block_bad_either C b s = (bad, s1)" by force
  obtain r s2 where r: "nand_read_page_bmt C (PAGE_ADDR C b) s1 = (r, s2)" by force
  note cr = check_then_read[OF wf b e r]
  have cfg: "wf_cfg C" using wf by (auto simp: wf_pool_def wf_dev_cfg)
  have nb: "\<not> bad" using cr(5) im by (simp add: holds_bmt_image_def)
  let ?p = "phys_of_bmt (bmt_block_count s) t"
  obtain ys where ys: "dat_buf s2 = phys_bmt_bytes ?p @ ys"
    using image_prefix[OF t, of "page_size C" "dat_buf s2"] cr(2) im page_size_ge[OF cfg] by (auto simp: holds_bmt_image_def)
  have dec: "phys_bmt_of_bytes (dat_buf s2) = ?p" using phys_bmt_of_bytes_bytes[OF wf_phys_of_bmt[OF t]] by (simp add: ys)
  have mat: "match_bmt_signature (dat_buf s2)"
    by (simp add: ys match_bmt_signature_def phys_bmt_bytes_def phys_of_bmt_def Let_def MAIN_SIGNATURE_def)
  have f: "total_block_count s2 = total_block_count s" "system_block_count s2 = system_block_count s"
      "bmt_block_count s2 = bmt_block_count s" "length (bmt_table (bmt s2)) = MAX_BMT_SIZE"
    using cr(4) wf by (simp_all add: dev_buf_def kept_def wf_pool_def)
  have val: "valid_bmt_data (total_block_count s2) (system_block_count s2) (bmt_block_count s2) ?p = Some True"
    using valid_phys_of_bmt[OF t] rng by (auto simp: f)
  define t' where "t' = (bmt s2)\<lparr>mapped_count := ph_mapped_count ?p, bmt_version := ph_version ?p,
      bmt_table := memcpy (bmt_table (bmt s2)) 0 (take (unat (ph_mapped_count ?p)) (ph_table ?p))\<rparr>"
  have mc: "ph_mapped_count ?p = mapped_count t" by (simp add: phys_of_bmt_def Let_def)
  have "length (live_entries t) = unat (mapped_count t)" using t by (simp add: live_entries_def wf_bmt_def)
  then have live: "live_entries t' = live_entries t" "mapped_count t' = mapped_count t"
    using live_of_phys[OF t] mc by (simp_all add: t'_def live_entries_def memcpy_def)
  have run: "load_bmt_loop C (b # bs) s = Inr (b, remark_entries C (live_entries t') (s2\<lparr>bmt := t'\<rparr>))"
    using nb cr(1) mat val by (simp add: e r dec t'_def Let_def)
  have "bmt (remark_entries C (live_entries t') (s2\<lparr>bmt := t'\<rparr>)) = t'"
    using dev_only_fields(1)[OF remark_dev_only[OF cfg]] by simp
  with run live show ?thesis by simp
qed

lemma rev_upt_split: "lo \<le> b \<Longrightarrow> b < hi \<Longrightarrow> rev [lo..<hi] = rev [Suc b..<hi] @ b # rev [lo..<b]"
  by (metis (no_types, lifting) append.assoc append_Cons append_Nil less_imp_le_nat rev.simps(2) rev_append
      upt_add_eq_append upt_conv_Cons le_add_diff_inverse)

section \<open>Scanning for raw bad blocks\<close>

definition scan_hit :: "nand_cfg \<Rightarrow> bmt_globals \<Rightarrow> nat \<Rightarrow> bool" where
  "scan_hit C s b \<longleftrightarrow> block_marked C (dev s) b False \<and> is_badblock_raw (bmt s) (of_nat b)"

lemma scan_loop_spec:
  assumes "wf_dev C (dev s)" "\<forall>b\<in>set bs. b < block_total C" "length (badblock_table (init_bbt s)) = MAX_RAW_BAD_BLOCK_SIZE"
    and "scan_loop C bs count s = (r, s')"
  shows "(case r of
       Some n \<Rightarrow> n = count + length (filter (scan_hit C s) bs) \<and> (n \<le> MAX_RAW_BAD_BLOCK_SIZE \<or> count = n)
     | None \<Rightarrow> MAX_RAW_BAD_BLOCK_SIZE < count + length (filter (scan_hit C s) bs))
     \<and> (r \<noteq> None \<and> count \<le> MAX_RAW_BAD_BLOCK_SIZE \<longrightarrow> badblock_table (init_bbt s')
          = memcpy (badblock_table (init_bbt s)) count (map of_nat (filter (scan_hit C s) bs)))
     \<and> bmt s' = bmt s \<and> system_block_count s' = system_block_count s \<and> wf_dev C (dev s')
     \<and> flash_oob (dev s') = flash_oob (dev s)
     \<and> bbt_version (init_bbt s') = bbt_version (init_bbt s)"
  using assms
proof (induction bs arbitrary: count s)
  case Nil
  then show ?case by (auto simp: memcpy_def)
next
  case (Cons b bs)
  obtain q s1 where q: "nand_block_bad_bmt C (OFFSET C b) False s = (q, s1)" by force
  have d: "dev_only C {} s s1" using block_bad_dev_only[of C s "OFFSET C b" False] q by simp
  have hit: "(q \<noteq> 0) = block_marked C (dev s) b False" using bc.check_result[OF Cons.prems(1), of b False] Cons.prems(2) q by simp
  note wf1 = dev_only_wf[OF d Cons.prems(1)] and f = dev_only_fields[OF d]
  have sa: "flash_oob (dev s1) = flash_oob (dev s)" using d by (simp add: dev_only_def fun_eq_iff)
  have hits: "scan_hit C (s1\<lparr>init_bbt := i\<rparr>) = scan_hit C s" "scan_hit C s1 = scan_hit C s" for i
    using f sa by (simp_all add: scan_hit_def block_marked_def fun_eq_iff)
  show ?case
  proof (cases "scan_hit C s b")
    case False
    then have "scan_loop C bs count s1 = (r, s')" using Cons.prems(4) hit f by (auto simp: q scan_hit_def)
    from Cons.IH[OF wf1 _ _ this] False show ?thesis using Cons.prems(2,3) f sa hits by (cases r) simp_all
  next
    case True
    show ?thesis
    proof (cases "count \<ge> MAX_RAW_BAD_BLOCK_SIZE")
      case big: True
      have "r = None" "s' = s1" using Cons.prems(4) True big hit f by (auto simp: q scan_hit_def)
      then show ?thesis using True big f sa wf1 by simp
    next
      case small: False
      let ?i = "(init_bbt s1)\<lparr>badblock_table := (badblock_table (init_bbt s1))[count := of_nat b]\<rparr>"
      have run: "scan_loop C bs (Suc count) (s1\<lparr>init_bbt := ?i\<rparr>) = (r, s')"
        using Cons.prems(4) True small hit f by (simp add: q scan_hit_def)
      have len: "length (badblock_table (init_bbt s)) = MAX_RAW_BAD_BLOCK_SIZE" using Cons.prems(3) .
      have mem: "memcpy ((badblock_table (init_bbt s))[count := x]) (Suc count) xs = memcpy (badblock_table (init_bbt s)) count (x # xs)"
        for x :: u16 and xs using small len by (simp add: memcpy_def take_Suc_conv_app_nth)
      have "(case r of
           Some n \<Rightarrow> n = Suc count + length (filter (scan_hit C s) bs) \<and> (n \<le> MAX_RAW_BAD_BLOCK_SIZE \<or> Suc count = n)
         | None \<Rightarrow> MAX_RAW_BAD_BLOCK_SIZE < Suc count + length (filter (scan_hit C s) bs))
         \<and> (r \<noteq> None \<and> Suc count \<le> MAX_RAW_BAD_BLOCK_SIZE \<longrightarrow> badblock_table (init_bbt s')
              = memcpy ((badblock_table (init_bbt s))[count := of_nat b]) (Suc count) (map of_nat (filter (scan_hit C s) bs)))
         \<and> bmt s' = bmt s \<and> system_block_count s' = system_block_count s \<and> wf_dev C (dev s')
         \<and> flash_oob (dev s') = flash_oob (dev s) \<and> bbt_version (init_bbt s') = bbt_version (init_bbt s)"
        using Cons.IH[OF _ _ _ run] Cons.prems(2,3) wf1 f sa hits by (cases r) simp_all
      then show ?thesis using True small mem by (auto split: option.splits)
    qed
  qed
qed

end
