(* ===== verification/Bmt_Theorems.thy ===== *)
theory Bmt_Theorems
  imports Bmt_Load
begin

text \<open>
  The properties of the bad-block manager, stated over its operations: the
  table images round trip and detect changed bytes, logical blocks map
  injectively to good physical blocks, a bad block is redirected with its
  data, the writers return, and the tables are found again at start-up. Each
  is applied to a small concrete chip.
\<close>

section \<open>The table images\<close>

text \<open>
  The page image that fill\_nand\_bmt\_buffer builds from a mapping table carries
  the signature that load\_bmt\_data looks for, and decoding it gives back the
  table's entries; the load check accepts it exactly when every entry
  redirects a block of the chip into the pool.
\<close>

lemma bmt_image_roundtrip:
  assumes "wf_bmt n b" and "1020 \<le> length dat"
  shows "let img = fill_nand_bmt_buffer n b dat; p = phys_bmt_of_bytes img
         in match_bmt_signature img
            \<and> take (unat (ph_mapped_count p)) (ph_table p) = live_entries b
            \<and> ph_mapped_count p = mapped_count b
            \<and> valid_bmt_data tot sys n p = Some (\<forall>e\<in>set (live_entries b).
                 unat (bad_index e) < tot \<and> unat (mapped_index e) < tot \<and> sys \<le> unat (mapped_index e))"
  using decode_fill_bmt[OF assms] match_fill_bmt[of n b dat] live_of_phys[OF assms(1)] valid_phys_of_bmt[OF assms(1)]
  by (simp add: Let_def) (simp add: phys_of_bmt_def Let_def)

definition demo_table :: bmt_struct where
  "demo_table = \<lparr>bmt_table = replicate MAX_BMT_SIZE \<lparr>bad_index = 1, mapped_index = 3\<rparr>, bmt_version = 1,
     mapped_count = 1, bad_count = 0\<rparr>"

lemma demo_table_wf: "wf_bmt 2 demo_table" "live_entries demo_table = [\<lparr>bad_index = 1, mapped_index = 3\<rparr>]"
    "mapped_count demo_table = 1"
  by (simp_all add: wf_bmt_def demo_table_def live_entries_def MAX_BMT_SIZE_def)

lemma bmt_image_roundtrip_witness:
  "let img = fill_nand_bmt_buffer 2 demo_table (replicate 1024 0); p = phys_bmt_of_bytes img
   in match_bmt_signature img \<and> take 1 (ph_table p) = [\<lparr>bad_index = 1, mapped_index = 3\<rparr>]
      \<and> valid_bmt_data 4 2 2 p = Some True"
  using bmt_image_roundtrip[OF demo_table_wf(1), of "replicate 1024 0" 4 2]
  by (auto simp: Let_def demo_table_wf(2,3))

text \<open>
  The image of the raw bad-block table likewise carries its signature, decodes
  to the table it was made from, and is accepted exactly when every listed block
  lies in the system area.
\<close>

lemma bbt_image_roundtrip:
  assumes "wf_bbt b" and "512 \<le> length dat"
  shows "let img = fill_nand_bbt_buffer b dat; t = init_table_of_bytes img
         in match_bbt_signature img
            \<and> it_table t = badblock_table b \<and> it_badblock_count t = badblock_count b
            \<and> valid_bbt_data sys t = Some (\<forall>w\<in>set (raw_bad_blocks b). unat w < sys)"
  using decode_fill_bbt[OF assms] match_fill_bbt[of b dat] valid_table_of_bbt[OF assms(1)]
  by (simp add: Let_def) (simp add: table_of_bbt_def Let_def)

definition demo_bbt :: init_bbt_struct where
  "demo_bbt = \<lparr>badblock_table = [1, 3] @ replicate 248 0, bbt_version = 1, badblock_count = 2\<rparr>"

lemma demo_bbt_facts: "wf_bbt demo_bbt" "raw_bad_blocks demo_bbt = [1, 3]" "ascending_bbt 6 demo_bbt" "badblock_count demo_bbt = 2"
  by (simp_all add: wf_bbt_def demo_bbt_def raw_bad_blocks_def ascending_bbt_def MAX_RAW_BAD_BLOCK_SIZE_def)

lemma bbt_image_roundtrip_witness:
  "let img = fill_nand_bbt_buffer demo_bbt (replicate 512 0); t = init_table_of_bytes img
   in match_bbt_signature img \<and> it_badblock_count t = 2 \<and> valid_bbt_data 6 t = Some True"
  using bbt_image_roundtrip[OF demo_bbt_facts(1), of "replicate 512 0" 6] by (simp add: Let_def demo_bbt_facts)

text \<open>
  A table image in which one byte of the entries covered by the checksum has
  changed is rejected by valid\_bmt\_data.
\<close>

lemma bmt_image_single_byte_change_rejected:
  assumes "wf_bmt n b" and "1020 \<le> length dat" and "20 \<le> i" and "i < 20 + 4 * n"
    and "v \<noteq> fill_nand_bmt_buffer n b dat ! i"
  shows "valid_bmt_data tot sys n (phys_bmt_of_bytes ((fill_nand_bmt_buffer n b dat)[i := v])) = Some False"
proof -
  define img where "img = fill_nand_bmt_buffer n b dat"
  have nle: "n \<le> 250" using assms(1) by (simp add: wf_bmt_def MAX_BMT_SIZE_def)
  have len: "1020 \<le> length img"
    using assms(2) length_phys_bmt_bytes[OF wf_phys_of_bmt[OF assms(1)]] by (simp add: img_def fill_nand_bmt_buffer_def)
  have ok: "ph_checksum (phys_bmt_of_bytes img) = cal_bmt_checksum (phys_bmt_of_bytes img) n"
    using decode_fill_bmt[OF assms(1,2)] by (simp add: img_def)
  have old: "img ! 6 = img ! 3 + img ! 5 + sum_list (slice 20 (4 * n) img)"
    using ok cal_bmt_checksum_bytes[OF len nle] by (simp add: phys_bmt_of_bytes_def)
  let ?new = "img[i := v]"
  have "cal_bmt_checksum (phys_bmt_of_bytes ?new) n = img ! 3 + img ! 5 + sum_list (slice 20 (4 * n) ?new)"
    using cal_bmt_checksum_bytes[of ?new n] len nle assms(3) by simp
  moreover have "sum_list (slice 20 (4 * n) ?new) \<noteq> sum_list (slice 20 (4 * n) img)"
    using sum_list_slice_update[of 20 i "4 * n" img v] assms(3-5) len nle by (simp add: img_def)
  moreover have "ph_checksum (phys_bmt_of_bytes ?new) = img ! 6"
    using assms(3) by (simp add: phys_bmt_of_bytes_def)
  ultimately show ?thesis using old by (simp add: valid_bmt_data_def img_def)
qed

lemma bmt_image_single_byte_change_rejected_witness:
  "valid_bmt_data 4 2 2 (phys_bmt_of_bytes ((fill_nand_bmt_buffer 2 demo_table (replicate 1024 0))[20 :=
     fill_nand_bmt_buffer 2 demo_table (replicate 1024 0) ! 20 + 1])) = Some False"
  by (rule bmt_image_single_byte_change_rejected[OF demo_table_wf(1)]) simp_all

section \<open>Logical and physical blocks\<close>

text \<open>
  The table pBbt that create\_badblock\_table\_by\_bbt builds from an increasing
  list of raw bad blocks enumerates the good blocks of the system area in
  increasing order: its first system\_block\_count - badblock\_count entries are
  exactly the blocks that are not listed.
\<close>

lemma pBbt_enumerates_good_blocks:
  assumes "ascending_bbt sys bbt" and "sys \<le> 65281"
  shows "map unat (take (sys - unat (badblock_count bbt)) (create_badblock_table_by_bbt sys bbt))
       = filter (\<lambda>x. x \<notin> unat ` set (raw_bad_blocks bbt)) [0..<sys]"
proof -
  have "map unat (map (of_nat :: nat \<Rightarrow> u16) (good_blocks sys bbt)) = good_blocks sys bbt"
    unfolding map_map comp_def using assms(2) by (intro map_idI) (auto simp: good_blocks_def)
  then show ?thesis using create_badblock_table_spec[OF assms(1)] assms(2) by (simp add: good_blocks_def)
qed

lemma pBbt_enumerates_good_blocks_witness:
  "map unat (take 4 (create_badblock_table_by_bbt 6 demo_bbt)) = [0, 2, 4, 5]"
  using pBbt_enumerates_good_blocks[OF demo_bbt_facts(3)] by (simp add: demo_bbt_facts upt_rec)

text \<open>
  C18 Different logical blocks never share a physical block: through pBbt and the
  mapping table, the logical blocks of the system area map injectively to
  blocks of the chip, and never to a block listed as raw bad.
\<close>

theorem logical_blocks_map_injectively:
  assumes "ascending_bbt sys bbt" and "sys \<le> 65281" and "bmt_inv sys tot b" and "sys \<le> tot"
  defines "phys \<equiv> \<lambda>i. fst (get_mapping_block_index sys b bbt (create_badblock_table_by_bbt sys bbt) i)"
  shows "inj_on phys {..<sys - unat (badblock_count bbt)}
     \<and> (\<forall>i < sys - unat (badblock_count bbt). phys i < tot \<and> phys i \<notin> unat ` set (raw_bad_blocks bbt))"
  unfolding phys_def using mapping_inj[OF assms(1-3)] mapping_range[OF assms(1-4)] by blast

theorem logical_blocks_map_injectively_witness:
  "inj_on (\<lambda>i. fst (get_mapping_block_index 6 (demo_table\<lparr>mapped_count := 0\<rparr>) demo_bbt (create_badblock_table_by_bbt 6 demo_bbt) i)) {..<4}"
proof -
  have "bmt_inv 6 8 (demo_table\<lparr>mapped_count := 0\<rparr>)" by (simp add: bmt_inv_def live_entries_def)
  from logical_blocks_map_injectively[OF demo_bbt_facts(3) _ this] show ?thesis by (simp add: demo_bbt_facts)
qed

section \<open>Redirecting a bad block\<close>

text \<open>
  C15 update\_bmt on a system block that is not yet redirected always returns
  (fuel bmt\_block\_count + 2 is enough), never indexes outside its table and
  clears its busy flag. When it reports success, the block now maps to a pool
  block that was free, every other block maps where it did, the data of
  the failing block (for a write or read failure) is in the replacement, the image
  of the new table is on the flash, the block is marked bad and the
  invariant holds again. It reports failure only when no pool block is left.
\<close>

theorem update_bmt_redirects_block:
  assumes "bmt_ready C s" and "marks_stick C"
    and "offset div erase_size C < system_block_count s"
    and "get_mapping_block_index_by_bmt (system_block_count s) (bmt s) (offset div erase_size C)
       = offset div erase_size C"
    and "migrates reason \<longrightarrow> page_size C \<le> length dat \<and> oob_size C \<le> length oob"
    and "Suc (bmt_block_count s) < fuel"
  shows "\<exists>ok s'. update_bmt fuel C offset reason dat oob s = Inr (ok, s') \<and> \<not> isUpdateBmt s'
     \<and> (if ok then updated C offset reason dat oob s s' else avail C s' = {})"
  using update_bmt_returns[OF assms(1-4) _ assms(6)] assms(5) by blast

theorem update_bmt_redirects_block_witness:
  "bmt_ready demo_cfg demo_globals \<and> marks_stick demo_cfg \<and>
   (\<exists>ok s'. update_bmt 4 demo_cfg 0 UPDATE_READ_CHECK_FAIL (replicate 1024 7) (replicate 64 0xFF) demo_globals = Inr (ok, s')
     \<and> \<not> isUpdateBmt s'
     \<and> (if ok then updated demo_cfg 0 UPDATE_READ_CHECK_FAIL (replicate 1024 7) (replicate 64 0xFF) demo_globals s'
        else avail demo_cfg s' = {}))"
proof -
  have "get_mapping_block_index_by_bmt (system_block_count demo_globals) (bmt demo_globals) 0 = 0"
    by (simp add: get_mapping_block_index_by_bmt_def live_entries_def demo_globals_def)
  then show ?thesis
    using update_bmt_redirects_block[OF demo_ready demo_cfg_wf(2), of 0 UPDATE_READ_CHECK_FAIL "replicate 1024 7" "replicate 64 0xFF" 4]
      demo_ready demo_cfg_wf(2) by (simp add: demo_globals_def)
qed

text \<open>
  A second update that arrives while one is in progress, or one for a system
  block that is already redirected, reports success and changes nothing.
\<close>

lemma update_bmt_ignored:
  assumes "isUpdateBmt s \<or> offset div erase_size C < system_block_count s
      \<and> get_mapping_block_index_by_bmt (system_block_count s) (bmt s) (offset div erase_size C)
          \<noteq> offset div erase_size C"
  shows "update_bmt fuel C offset reason dat oob s = Inr (True, s)"
  using assms by (auto simp: update_bmt_def Let_def)

lemma update_bmt_ignored_witness:
  "update_bmt 0 demo_cfg 0 UPDATE_ERASE_FAIL [] [] (demo_globals\<lparr>isUpdateBmt := True\<rparr>)
     = Inr (True, demo_globals\<lparr>isUpdateBmt := True\<rparr>)"
  by (rule update_bmt_ignored) simp

section \<open>The writers\<close>



text \<open>
  C31 write\_bmt\_to\_flash always returns when marks take: bmt\_block\_count + 2 calls
  are enough. On success the page is stored in the block named by
  bmt\_block\_index, which is in the pool; failure means no pool block is available.
  The mapping table in memory is not changed.
\<close>

theorem write_bmt_to_flash_returns:
  assumes "pool_inv C s" and "marks_stick C" and "bmt_block_index s = 0 \<or> bmt_block_index s \<in> pool s"
    and "page_size C \<le> length dat" and "oob_size C \<le> length oob" and "Suc (bmt_block_count s) < fuel"
  shows "\<exists>ok s'. write_bmt_to_flash fuel C dat oob s = Inr (ok, s') \<and> pool_inv C s' \<and> bmt s' = bmt s
     \<and> (if ok then bmt_block_index s' \<in> pool s \<and> page_holds C (dev s') (PAGE_ADDR C (bmt_block_index s')) dat oob
        else avail C s' = {})"
proof -
  have "write_bmt_inv C dat oob s" using assms by (simp add: write_bmt_inv_def)
  moreover have "card (avail C s) + (if bmt_block_index s = 0 then 0 else 1) < fuel"
    using avail_le[of C s] assms(6) by auto
  ultimately obtain ok s' where r: "write_bmt_to_flash fuel C dat oob s = Inr (ok, s')" "write_bmt_post C dat oob s (ok, s')"
    using bmtw.loop_returns by (metis surj_pair)
  then show ?thesis
    using assms(3) by (intro exI[of _ ok] exI[of _ s']) (auto simp: write_bmt_post_def kept_def avail_def split: if_splits)
qed

theorem write_bmt_to_flash_returns_witness:
  "\<exists>ok s'. write_bmt_to_flash 4 demo_cfg (replicate 1024 1) (replicate 64 0xFF) demo_globals = Inr (ok, s') \<and> bmt s' = bmt demo_globals"
proof -
  have "pool_inv demo_cfg demo_globals" using demo_ready by (simp add: bmt_ready_def)
  then show ?thesis
    using write_bmt_to_flash_returns[of demo_cfg demo_globals "replicate 1024 1" "replicate 64 0xFF" 4] demo_cfg_wf(2)
    by (auto simp: demo_globals_def pool_def)
qed

text \<open>
  The same for write\_bbt\_to\_flash, which looks for a new block each time: with
  no table block yet, bmt\_block\_count + 1 calls are enough.
\<close>

lemma write_bbt_to_flash_returns:
  assumes "pool_inv C s" and "marks_stick C" and "bbt_block_index s = 0"
    and "page_size C \<le> length dat" and "oob_size C \<le> length oob" and "bmt_block_count s < fuel"
  shows "\<exists>ok s'. write_bbt_to_flash fuel C dat oob s = Inr (ok, s') \<and> pool_inv C s' \<and> bmt s' = bmt s
     \<and> (if ok then bbt_block_index s' \<in> avail C s \<and> page_holds C (dev s') (PAGE_ADDR C (bbt_block_index s')) dat oob
        else bbt_block_index s' = 0 \<and> avail C s' = {})"
proof -
  have "write_bbt_inv C dat oob s" using assms by (simp add: write_bbt_inv_def)
  moreover have "card (avail C s) < fuel" using avail_le[of C s] assms(6) by simp
  ultimately obtain ok s' where "write_bbt_to_flash fuel C dat oob s = Inr (ok, s')" "write_bbt_post C dat oob s (ok, s')"
    using bbt.loop_returns by (metis surj_pair)
  then show ?thesis
    by (intro exI[of _ ok] exI[of _ s']) (simp add: write_bbt_post_def kept_def)
qed

lemma write_bbt_to_flash_returns_witness:
  "\<exists>ok s'. write_bbt_to_flash 3 demo_cfg (replicate 1024 1) (replicate 64 0xFF) demo_globals = Inr (ok, s') \<and> bmt s' = bmt demo_globals"
proof -
  have "pool_inv demo_cfg demo_globals" using demo_ready by (simp add: bmt_ready_def)
  then show ?thesis
    using write_bbt_to_flash_returns[of demo_cfg demo_globals "replicate 1024 1" "replicate 64 0xFF" 3] demo_cfg_wf(2)
    by (auto simp: demo_globals_def)
qed

section \<open>When marks do not take\<close>

text \<open>
  A chip on which programming never succeeds and leaves the page erased. Its
  blocks can never be marked, so a writer finds the same block again and again.
\<close>

definition dead_program :: "nand_cfg \<Rightarrow> bool" where
  "dead_program C \<longleftrightarrow> (\<forall>t p. prog_fault C t p = Some (replicate (page_size C) 0xFF, replicate (oob_size C) 0xFF))
     \<and> (\<forall>t b. erase_fault C t b = None)"

definition stuck :: "nand_cfg \<Rightarrow> bmt_globals \<Rightarrow> bool" where
  "stuck C s \<longleftrightarrow> wf_pool C s \<and> pool_erased s \<and> bbt_block_index s = 0
     \<and> (\<forall>p. flash_oob (dev s) p = replicate (oob_size C) 0xFF)
     \<and> (\<exists>b\<in>pool s. b \<noteq> bmt_block_index s \<and> b \<notin> mapped_blocks s)"

lemma stuck_retries:
  assumes dead: "dead_program C" and st: "stuck C s"
  shows "\<exists>s'. write_bbt_attempt C dat oob s = Inr s' \<and> stuck C s'"
proof -
  have wf: "wf_pool C s" "wf_dev C (dev s)" "wf_cfg C" using st by (auto simp: stuck_def wf_pool_def wf_dev_cfg)
  have um: "\<not> block_marked C (dev s) b k" for b k
    using st oob_size_ge8[OF wf(3)] by (simp add: stuck_def block_marked_def mark_byte_def BMT_BAD_BLOCK_INDEX_OFFSET_def)
  have lt: "\<forall>b\<in>set (pool_up s). b < block_total C \<and> 0 < b" using pool_lt[OF wf(1)] by simp
  obtain b s0 where f: "find_available_block C False s = (b, s0)" by force
  have sp: "search_pool C (pool_up s) s = (b, s0)" using f st by (simp add: find_available_block_def stuck_def)
  have d0: "dev_only C {} s s0" and b: "b = (case find (available C s) (pool_up s) of None \<Rightarrow> 0 | Some x \<Rightarrow> x)"
    using search_pool_spec[OF wf(2), of "pool_up s"] lt sp by auto
  obtain x where "x \<in> set (pool_up s)" "available C s x"
    using st um pool_lt[OF wf(1)] by (auto simp: stuck_def available_def)
  then obtain y where y: "find (available C s) (pool_up s) = Some y" by (metis find_None_iff option.exhaust)
  then have "y \<in> set (pool_up s)" by (auto simp: find_Some_iff simp del: set_pool_up)
  then have bp: "b \<in> pool s" "b \<noteq> 0" using b y lt by auto
  define s2 where "s2 = snd (nand_write_page_bmt C (PAGE_ADDR C b) dat oob (s0\<lparr>bbt_block_index := b\<rparr>))"
  define s4 where "s4 = (snd (mark_block_bad_bmt C (OFFSET C b) True s2))\<lparr>bbt_block_index := 0\<rparr>"
  have "fst (nand_write_page_bmt C (PAGE_ADDR C b) dat oob (s0\<lparr>bbt_block_index := b\<rparr>)) \<noteq> 0"
    using dead by (simp add: nand_write_page_bmt_def en7512_nand_exec_write_page_def spi_nand_write_page_def dead_program_def Let_def)
  then have run: "write_bbt_attempt C dat oob s = Inr s4"
    using f bp(2) by (simp add: write_bbt_attempt_def s4_def s2_def case_prod_unfold)
  have bb: "b < block_total C" using lt bp(1) by simp
  have d2: "dev_only C {b} (s0\<lparr>bbt_block_index := b\<rparr>) s2"
    using write_page_bmt_dev_only[of C b "PAGE_ADDR C b" "s0\<lparr>bbt_block_index := b\<rparr>"] wf(3) by (simp add: s2_def PAGE_ADDR_eq)
  note d3 = mark_bad_dev_only[OF wf(3), of b s2 True]
  have "flash_oob (dev s0) = flash_oob (dev s)" using d0 by (simp add: dev_only_def fun_eq_iff)
  then have "flash_oob (dev s2) p = replicate (oob_size C) 0xFF" for p
    using dead st by (auto simp: s2_def nand_write_page_bmt_def en7512_nand_exec_write_page_def spi_nand_write_page_def
        dead_program_def Let_def stuck_def)
  then have ff: "flash_oob (dev s4) p = replicate (oob_size C) 0xFF" for p
    using dead by (auto simp: s4_def mark_block_bad_bmt_def en7512_nand_mark_badblock_def spi_nand_write_page_def
        spi_nand_erase_block_def dead_program_def Let_def)
  note fs = dev_only_fields[OF d0] dev_only_fields[OF d2] dev_only_fields[OF d3]
  have "wf_dev C (dev s4)" using dev_only_wf[OF d3 dev_only_wf[OF d2]] dev_only_wf[OF d0 wf(2)] by (simp add: s4_def)
  then have "wf_pool C s4" using wf(1) fs by (simp add: s4_def wf_pool_def)
  moreover have "pool s4 = pool s" "mapped_blocks s4 = mapped_blocks s" "bmt_block_index s4 = bmt_block_index s"
      "pool_erased s4" "bbt_block_index s4 = 0"
    using st fs by (simp_all add: s4_def pool_def mapped_blocks_def stuck_def)
  ultimately have "stuck C s4" using st ff by (simp add: stuck_def)
  with run show ?thesis by blast
qed

text \<open>
  Without the hypothesis on marks the recursion of write\_bbt\_to\_flash is
  unbounded: on a chip whose programming always fails and leaves the page erased
  it does not return for any number of calls, because the result of marking the
  block bad is ignored and the same block is chosen again.
\<close>

lemma write_bbt_to_flash_diverges:
  assumes "dead_program C" and "stuck C s"
  shows "write_bbt_to_flash fuel C dat oob s = Inl OutOfFuel"
  using assms(2)
proof (induction fuel arbitrary: s)
  case (Suc n)
  obtain s' where "write_bbt_attempt C dat oob s = Inr s'" "stuck C s'" using stuck_retries[OF assms(1) Suc.prems] by blast
  then show ?case using Suc.IH bbt.loop_Suc[of n C dat oob s] by simp
qed simp

definition dead_cfg :: nand_cfg where
  "dead_cfg = demo_cfg\<lparr>prog_fault := (\<lambda>_ _. Some (replicate 1024 0xFF, replicate 64 0xFF))\<rparr>"

lemma dead_sizes [simp]:
  "page_size dead_cfg = 1024" "erase_size dead_cfg = 2048" "oob_size dead_cfg = 64" "pages_per_block dead_cfg = 2"
  "block_total dead_cfg = 4"
  by (simp_all add: page_size_def erase_size_def oob_size_def pages_per_block_def block_total_def device_size_def
      dead_cfg_def demo_cfg_def)

lemma dead_demo: "dead_program dead_cfg" "stuck dead_cfg demo_globals"
proof -
  show "dead_program dead_cfg"
    by (simp add: dead_program_def) (simp add: dead_cfg_def demo_cfg_def)
  have "wf_cfg dead_cfg" by (simp add: wf_cfg_def dead_cfg_def demo_cfg_def)
  moreover have "wf_faults dead_cfg" by (simp add: wf_faults_def) (simp add: dead_cfg_def demo_cfg_def)
  ultimately have "wf_dev dead_cfg demo_dev" by (simp add: wf_dev_defs demo_dev_def)
  then have "wf_pool dead_cfg demo_globals" by (simp add: wf_pool_def demo_globals_def MAX_BMT_SIZE_def)
  then show "stuck dead_cfg demo_globals"
    by (simp add: stuck_def) (auto simp: demo_globals_def demo_dev_def pool_def mapped_blocks_def live_entries_def intro!: bexI[of _ 2])
qed

lemma write_bbt_to_flash_diverges_witness:
  "\<forall>fuel. write_bbt_to_flash fuel dead_cfg [] [] demo_globals = Inl OutOfFuel"
  using write_bbt_to_flash_diverges[OF dead_demo] by blast

section \<open>Starting up\<close>

text \<open>
  When load\_bmt\_data, load\_bbt\_data or reconstruct\_bmt read the first page of a
  pool block, they have just checked the block for marks. The check leaves
  the page in the read cache, so the read always reports success, also when the
  chip signalled an uncorrectable error for that page: the skip on a read error
  is never taken and only the checksum protects the tables.
\<close>

lemma table_read_never_reports_error:
  assumes "wf_pool C s" and "b < block_total C" and "block_bad_either C b s = (False, s1)"
  shows "fst (nand_read_page_bmt C (PAGE_ADDR C b) s1) = 0"
  using check_then_read(1)[OF assms] by (metis surj_pair fst_conv)

lemma table_read_never_reports_error_witness:
  "\<exists>s1. block_bad_either demo_cfg 3 demo_globals = (False, s1) \<and> fst (nand_read_page_bmt demo_cfg (PAGE_ADDR demo_cfg 3) s1) = 0"
proof -
  obtain bad s1 where e: "block_bad_either demo_cfg 3 demo_globals = (bad, s1)" by force
  have "\<not> bad" using check_then_read(5)[OF demo_wf_pool _ e] 
    by (simp add: block_marked_def mark_byte_def BMT_BAD_BLOCK_INDEX_OFFSET_def demo_globals_def demo_dev_def)
       (metis surj_pair)
  then show ?thesis using table_read_never_reports_error[OF demo_wf_pool, of 3 s1] e by simp
qed




text \<open>
  When the raw bad-block table is rebuilt by scanning, it lists, in
  increasing order, exactly the system blocks from 1 on that carry the
  raw mark and are not already redirected by the mapping table; it fails
  (result -1) exactly when there are more than 250 of them.
\<close>

lemma reconstruct_bbt_lists_raw_bad_blocks:
  assumes "wf_pool C s"
  shows "let hits = filter (scan_hit C s) [1..<system_block_count s];
             (ok, s') = reconstruct_bbt C s
         in ok = (length hits \<le> MAX_RAW_BAD_BLOCK_SIZE)
            \<and> (ok \<longrightarrow> map unat (raw_bad_blocks (init_bbt s')) = hits
                 \<and> ascending_bbt (system_block_count s) (init_bbt s'))"
proof -
  define s0 where "s0 = s\<lparr>init_bbt := \<lparr>badblock_table = replicate MAX_RAW_BAD_BLOCK_SIZE 0,
      bbt_version = BBT_VERSION, badblock_count = 0\<rparr>\<rparr>"
  define hits where "hits = filter (scan_hit C s) [1..<system_block_count s]"
  obtain r s' where run: "scan_loop C [1..<system_block_count s0] 0 s0 = (r, s')" by force
  have h: "scan_hit C s0 = scan_hit C s" "system_block_count s0 = system_block_count s"
    by (simp_all add: s0_def scan_hit_def fun_eq_iff)
  have lim: "\<forall>b\<in>set [1..<system_block_count s0]. b < block_total C" "system_block_count s \<le> 65535"
    using assms h by (auto simp: wf_pool_def)
  have sp: "(case r of Some n \<Rightarrow> n = length hits \<and> (n \<le> MAX_RAW_BAD_BLOCK_SIZE \<or> 0 = n)
       | None \<Rightarrow> MAX_RAW_BAD_BLOCK_SIZE < length hits)
     \<and> (r \<noteq> None \<longrightarrow> badblock_table (init_bbt s') = memcpy (replicate MAX_RAW_BAD_BLOCK_SIZE 0) 0 (map of_nat hits))"
  proof -
    have "wf_dev C (dev s0)" "length (badblock_table (init_bbt s0)) = MAX_RAW_BAD_BLOCK_SIZE"
      using assms by (simp_all add: s0_def wf_pool_def)
    from scan_loop_spec[OF this(1) lim(1) this(2) run, unfolded h, folded hits_def]
    show ?thesis by (cases r) (simp_all add: s0_def)
  qed
  have small: "\<forall>b\<in>set hits. b < system_block_count s" "sorted_wrt (<) hits"
    using sorted_wrt_filter[OF sorted_wrt_upt, of "scan_hit C s" 1 "system_block_count s"] by (auto simp: hits_def)
  have rec: "reconstruct_bbt C s = (r \<noteq> None, case r of None \<Rightarrow> s'
      | Some n \<Rightarrow> s'\<lparr>init_bbt := (init_bbt s')\<lparr>badblock_count := of_nat n\<rparr>\<rparr>)"
    using run by (cases r) (simp_all add: reconstruct_bbt_def scan_badblock_raw_def s0_def)
  have "map unat (map (of_nat :: nat \<Rightarrow> u16) hits) = hits" 
    unfolding map_map comp_def using small(1) lim(2) by (intro map_idI) auto
  moreover have "sorted_wrt (<) (map (of_nat :: nat \<Rightarrow> u16) hits)"
    using small lim(2) unfolding sorted_wrt_map
    by (rule_tac sorted_wrt_mono_rel[of hits "(<)"]) (auto simp: word_less_nat_alt)
  moreover have "raw_bad_blocks (init_bbt (snd (reconstruct_bbt C s))) = map of_nat hits"
      "wf_bbt (init_bbt (snd (reconstruct_bbt C s)))" if "r = Some n" for n
  proof -
    have n: "n = length hits" "n \<le> 250" using sp that by (auto simp: MAX_RAW_BAD_BLOCK_SIZE_def)
    then have "unat (of_nat n :: u8) = n" by (intro unat_of_nat_small) simp
    then show "raw_bad_blocks (init_bbt (snd (reconstruct_bbt C s))) = map of_nat hits"
      "wf_bbt (init_bbt (snd (reconstruct_bbt C s)))"
      using sp n that by (simp_all add: rec raw_bad_blocks_def wf_bbt_def memcpy_def MAX_RAW_BAD_BLOCK_SIZE_def)
  qed
  ultimately show ?thesis
    using sp rec small lim(2) unfolding hits_def[symmetric] Let_def
    by (cases r) (auto simp: ascending_bbt_def)
qed

lemma reconstruct_bbt_lists_raw_bad_blocks_witness:
  "wf_pool demo_cfg demo_globals \<and>
   (let hits = filter (scan_hit demo_cfg demo_globals) [1..<system_block_count demo_globals];
        (ok, s') = reconstruct_bbt demo_cfg demo_globals
    in ok = (length hits \<le> MAX_RAW_BAD_BLOCK_SIZE)
       \<and> (ok \<longrightarrow> map unat (raw_bad_blocks (init_bbt s')) = hits
            \<and> ascending_bbt (system_block_count demo_globals) (init_bbt s')))"
  using reconstruct_bbt_lists_raw_bad_blocks[OF demo_wf_pool] demo_wf_pool by blast

end
