(* ===== verification/Nand_Rw.thy ===== *)
theory Nand_Rw
  imports Bmt_Load
begin

text \<open>
  Byte-level access to the NAND flash (drivers/mtd/chips/spi\_nand\_flash.c):
  the boundary and alignment checks, reading, writing and erasing a range of
  logical addresses through the bad-block tables, the nandflash entry
  points, the computation of the pool size and the start-up sequence
  init\_bmt\_bbt.

  Addresses and lengths are 32-bit words, as in the C code, so sums wrap
  around. The remaining length of a transfer is a natural number that
  decreases. The erase loop compares two 32-bit counters and need not end, so
  it takes a bound on its iterations. A lookup that leaves pBbt and a
  write failure whose buffer is shorter than a page are OutOfBounds.
\<close>

section \<open>Checks\<close>

definition spi_nand_boundary_check :: "nand_cfg \<Rightarrow> u32 \<Rightarrow> u32 \<Rightarrow> SPI_NAND_FLASH_RTN_T" where
  "spi_nand_boundary_check C addr len =
    (if device_size C < unat (addr + len) then RTN_ALIGNED_CHECK_FAIL else RTN_NO_ERROR)"

definition block_unaligned :: "nand_cfg \<Rightarrow> u32 \<Rightarrow> bool" where
  "block_unaligned C a \<longleftrightarrow> a AND (of_nat (erase_size C) - 1) \<noteq> 0"

definition spi_nand_block_aligned_check :: "nand_cfg \<Rightarrow> u32 \<Rightarrow> u32 \<Rightarrow> SPI_NAND_FLASH_RTN_T" where
  "spi_nand_block_aligned_check C addr len =
    (let len' = (if block_unaligned C len then (len div of_nat (erase_size C) + 1) * of_nat (erase_size C) else len)
     in if block_unaligned C addr \<or> block_unaligned C len' then RTN_ALIGNED_CHECK_FAIL else RTN_NO_ERROR)"

section \<open>From logical to physical\<close>

text \<open>The physical block of a logical block and the value left in phy\_block\_bbt.\<close>

definition map_block :: "bmt_globals \<Rightarrow> nat \<Rightarrow> nat \<times> u16" where
  "map_block s l = get_mapping_block_index (system_block_count s) (bmt s) (init_bbt s) (pBbt s) l"

definition physical_addr :: "nand_cfg \<Rightarrow> bmt_globals \<Rightarrow> u32 \<Rightarrow> u32" where
  "physical_addr C s a =
     of_nat (fst (map_block s (unat a div erase_size C))) * of_nat (erase_size C)
     + of_nat (unat a mod erase_size C)"

section \<open>Reading\<close>

text \<open>
  The two outputs are the return value and the status that the caller passed
  by reference. The fast path of a one-byte read takes the byte
  from the cache without a page read.
\<close>

function read_loop :: "nand_cfg \<Rightarrow> nat \<Rightarrow> u32 \<Rightarrow> nat \<Rightarrow> SPI_NAND_FLASH_RTN_T \<Rightarrow> bytes \<Rightarrow> bmt_globals
    \<Rightarrow> SPI_NAND_FLASH_RTN_T \<times> SPI_NAND_FLASH_RTN_T \<times> bytes \<times> bmt_globals" where
  "read_loop C len read_addr remain rtn buf s =
    (if remain = 0 then (rtn, RTN_NO_ERROR, buf, s)
     else let phys = physical_addr C s read_addr;
              data_offset = unat phys mod page_size C;
              page_number = unat phys div page_size C
          in if len = 1 \<and> current_page_num (dev s) = Some page_number
             then (rtn, RTN_NO_ERROR, memcpy buf 0 [cache_page_data (dev s) ! data_offset], s)
             else let (st, d) = spi_nand_read_page C page_number (dev s);
                      s1 = s\<lparr>dev := d\<rparr>
                  in if (if hw_ecc_decode C then \<not> ecc_status_ok C (clock d) else st = RTN_DETECTED_BAD_BLOCK)
                     then (st, RTN_DETECTED_BAD_BLOCK, buf, s1)
                     else if data_offset + remain < page_size C
                     then (st, RTN_NO_ERROR,
                           memcpy buf (len - remain) (slice data_offset remain (cache_page_data d)), s1)
                     else let n = page_size C - data_offset
                          in read_loop C len (read_addr + of_nat n) (remain - n) st
                               (memcpy buf (len - remain) (slice data_offset n (cache_page_data d))) s1)"
  by pat_completeness auto
termination
proof (relation "measure (\<lambda>(C, len, addr, remain, rtn, buf, s). remain)", goal_cases)
  case (2 C len read_addr remain rtn buf s)
  have "unat (physical_addr C s read_addr) mod page_size C < page_size C" by simp
  with 2 have "remain - (page_size C - unat (physical_addr C s read_addr) mod page_size C) < remain"
    by (intro diff_less) (simp_all only: zero_less_diff neq0_conv)
  with 2 show ?case by simp
qed simp

declare read_loop.simps [simp del]

definition spi_nand_read_internal :: "nand_cfg \<Rightarrow> u32 \<Rightarrow> u32 \<Rightarrow> bytes \<Rightarrow> SPI_NAND_FLASH_RTN_T \<Rightarrow> bmt_globals
    \<Rightarrow> SPI_NAND_FLASH_RTN_T \<times> SPI_NAND_FLASH_RTN_T \<times> bytes \<times> bmt_globals" where
  "spi_nand_read_internal C addr len buf status s =
    (let addr' = of_nat (fold_window (unat addr));
         chk = spi_nand_boundary_check C addr' len
     in if chk \<noteq> RTN_NO_ERROR then (chk, status, buf, s)
        else read_loop C (unat len) addr' (unat len) RTN_NO_ERROR buf s)"

definition nandflash_read :: "nand_cfg \<Rightarrow> u32 \<Rightarrow> u32 \<Rightarrow> bytes \<Rightarrow> SPI_NAND_FLASH_RTN_T \<Rightarrow> bmt_globals
    \<Rightarrow> int \<times> SPI_NAND_FLASH_RTN_T \<times> bytes \<times> bmt_globals" where
  "nandflash_read C from len buf status s =
    (let (rtn, st, buf', s') = spi_nand_read_internal C from len buf status s
     in (if rtn = RTN_NO_ERROR then 0 else -1, st, buf', s'))"

section \<open>Writing\<close>

text \<open>
  The OOB bytes written with a page: 0xFF, and for a block of the pool the
  block it stands for.
\<close>

definition write_oob :: "nand_cfg \<Rightarrow> bmt_globals \<Rightarrow> nat \<times> u16 \<Rightarrow> bytes" where
  "write_oob C s pb =
    (let oob = replicate (oob_size C) 0xFF
     in if block_is_in_bmt_region (system_block_count s) (fst pb)
        then memcpy oob (if oob_reserve_for_bmt C then 0 else OOB_INDEX_OFFSET) (le16 (snd pb))
        else oob)"

text \<open>
  The return value is None for the -1 that is returned when the table could
  not be updated. A failed page is handed to update\_bmt with the
  rest of the caller's buffer, of which it uses a page.
\<close>

function write_loop :: "nat \<Rightarrow> nand_cfg \<Rightarrow> nat \<Rightarrow> u32 \<Rightarrow> nat \<Rightarrow> bytes \<Rightarrow> SPI_NAND_FLASH_RTN_T \<Rightarrow> bmt_globals
    \<Rightarrow> fault + SPI_NAND_FLASH_RTN_T option \<times> bmt_globals" where
  "write_loop fuel C len write_addr remain buf rtn s =
    (if remain = 0 then Inr (Some rtn, s)
     else let pb = map_block s (unat write_addr div erase_size C);
              phys = physical_addr C s write_addr;
              addr_offset = unat phys mod page_size C;
              page_number = unat phys div page_size C;
              data_len = (if page_size C < addr_offset + remain then page_size C - addr_offset else remain);
              oob = write_oob C s pb;
              dat = slice (len - remain) data_len buf;
              (st, d) = (if test_write_fail_flag C then (RTN_PROGRAM_FAIL, dev s)
                         else spi_nand_write_page C page_number addr_offset dat oob (dev s));
              s1 = s\<lparr>dev := d\<rparr>;
              next_addr = write_addr + of_nat data_len
          in if st = RTN_NO_ERROR then write_loop fuel C len next_addr (remain - data_len) buf st s1
             else if remain < page_size C then Inl OutOfBounds
             else case update_bmt fuel C (page_number * page_size C) UPDATE_WRITE_FAIL
                         (slice (len - remain) (page_size C) buf) oob s1 of
                    Inl e \<Rightarrow> Inl e
                  | Inr (ok, s2) \<Rightarrow>
                      if ok then write_loop fuel C len next_addr (remain - data_len) buf RTN_NO_ERROR s2
                      else Inr (None, s2))"
  by pat_completeness auto
termination
proof (relation "measure (\<lambda>(fuel, C, len, addr, remain, buf, rtn, s). remain)", goal_cases)
  case (2 fuel C len write_addr remain buf rtn s)
  have "unat (physical_addr C s write_addr) mod page_size C < page_size C" by simp
  with 2 have "remain - (page_size C - unat (physical_addr C s write_addr) mod page_size C) < remain"
    by (intro diff_less) (simp_all only: zero_less_diff neq0_conv)
  with 2 show ?case by simp
next
  case (3 fuel C len write_addr remain buf rtn s)
  have "unat (physical_addr C s write_addr) mod page_size C < page_size C" by simp
  with 3 have "remain - (page_size C - unat (physical_addr C s write_addr) mod page_size C) < remain"
    by (intro diff_less) (simp_all only: zero_less_diff neq0_conv)
  with 3 show ?case by simp
qed simp

declare write_loop.simps [simp del]

definition spi_nand_write_internal :: "nat \<Rightarrow> nand_cfg \<Rightarrow> u32 \<Rightarrow> u32 \<Rightarrow> bytes \<Rightarrow> bmt_globals
    \<Rightarrow> fault + SPI_NAND_FLASH_RTN_T option \<times> bmt_globals" where
  "spi_nand_write_internal fuel C dst_addr len buf s =
    (let chk = spi_nand_boundary_check C dst_addr len
     in if chk \<noteq> RTN_NO_ERROR then Inr (Some chk, s)
        else write_loop fuel C (unat len) dst_addr (unat len) buf RTN_NO_ERROR
               (s\<lparr>dev := SPI_NAND_Flash_Clear_Read_Cache_Data (dev s)\<rparr>))"

text \<open>The reported length is always the requested one; it is not modelled further.\<close>

definition nandflash_write :: "nat \<Rightarrow> nand_cfg \<Rightarrow> u32 \<Rightarrow> u32 \<Rightarrow> bytes \<Rightarrow> bmt_globals \<Rightarrow> fault + int \<times> bmt_globals" where
  "nandflash_write fuel C to len buf s =
    res_bind (spi_nand_write_internal fuel C to len buf s)
      (\<lambda>(rtn, s'). Inr (if rtn = Some RTN_NO_ERROR then 0 else -1, s'))"

section \<open>Erasing\<close>

fun erase_loop :: "nat \<Rightarrow> nat \<Rightarrow> nand_cfg \<Rightarrow> u32 \<Rightarrow> u32 \<Rightarrow> u32 \<Rightarrow> SPI_NAND_FLASH_RTN_T \<Rightarrow> bmt_globals
    \<Rightarrow> fault + SPI_NAND_FLASH_RTN_T \<times> bmt_globals" where
  "erase_loop 0 fuel C addr len erase_len rtn s = Inl OutOfFuel"
| "erase_loop (Suc n) fuel C addr len erase_len rtn s =
    (if \<not> erase_len < len then Inr (rtn, s)
     else let block_index = fst (map_block s (unat addr div erase_size C));
              (st, s1) = erase_block_s C block_index s;
              addr' = addr + of_nat (erase_size C);
              erase_len' = erase_len + of_nat (erase_size C)
          in if st = RTN_NO_ERROR then erase_loop n fuel C addr' len erase_len' st s1
             else case update_bmt fuel C (block_index * erase_size C) UPDATE_ERASE_FAIL [] [] s1 of
                    Inl e \<Rightarrow> Inl e
                  | Inr (ok, s2) \<Rightarrow>
                      if ok then erase_loop n fuel C addr' len erase_len' RTN_NO_ERROR s2
                      else Inr (RTN_ERASE_FAIL, s2))"

definition spi_nand_erase_internal :: "nat \<Rightarrow> nat \<Rightarrow> nand_cfg \<Rightarrow> u32 \<Rightarrow> u32 \<Rightarrow> bmt_globals
    \<Rightarrow> fault + SPI_NAND_FLASH_RTN_T \<times> bmt_globals" where
  "spi_nand_erase_internal n fuel C addr len s =
    (let chk = spi_nand_boundary_check C addr len
     in if chk \<noteq> RTN_NO_ERROR then Inr (chk, s)
        else let s1 = s\<lparr>dev := SPI_NAND_Flash_Clear_Read_Cache_Data (dev s)\<rparr>
             in if spi_nand_block_aligned_check C addr len = RTN_NO_ERROR
                then erase_loop n fuel C addr len 0 RTN_NO_ERROR s1
                else Inr (RTN_ALIGNED_CHECK_FAIL, s1))"

definition nandflash_erase :: "nat \<Rightarrow> nat \<Rightarrow> nand_cfg \<Rightarrow> u32 \<Rightarrow> u32 \<Rightarrow> bmt_globals \<Rightarrow> fault + int \<times> bmt_globals" where
  "nandflash_erase n fuel C offset len s =
    res_bind (spi_nand_erase_internal n fuel C offset len s)
      (\<lambda>(rtn, s'). Inr (if rtn = RTN_NO_ERROR then 0 else -1, s'))"

section \<open>Start-up\<close>

text \<open>
  The pool is counted from the last block down until it holds the required
  number of good blocks. The second component is maximum\_bmt\_block\_count.
\<close>

fun pool_scan :: "nand_cfg \<Rightarrow> nat \<Rightarrow> u16 \<Rightarrow> u16 \<Rightarrow> nand_dev \<Rightarrow> nat \<times> nand_dev" where
  "pool_scan C 0 valid need d = (0, d)"
| "pool_scan C (Suc b) valid need d =
    (let (r, d1) = en7512_nand_check_block_bad C (Suc b * erase_size C) BAD_BLOCK_RAW d
     in if r \<noteq> 0 then pool_scan C b valid need d1
        else if valid + 1 = need then (Suc b, d1)
        else pool_scan C b (valid + 1) need d1)"

definition calc_bmt_pool_size :: "nand_cfg \<Rightarrow> bmt_globals \<Rightarrow> nat \<times> nat \<times> bmt_globals" where
  "calc_bmt_pool_size C s =
    (let total_block = device_size C div erase_size C;
         need_valid_block_num = of_nat (total_block * 8 div 100) :: u16;
         maximum_bmt_block_count = total_block * 1 div 8;
         (last_block, d) = pool_scan C (total_block - 1) 0 need_valid_block_num (dev s)
     in (total_block - last_block, maximum_bmt_block_count, s\<lparr>dev := d\<rparr>))"

text \<open>
  The start-up sequence. have\_bmt and have\_bbt say that the static pointers g\_bmt
  and g\_bbt are already set, that is, that an earlier call has loaded the tables.
\<close>

definition init_bmt_bbt :: "nat \<Rightarrow> nand_cfg \<Rightarrow> bool \<Rightarrow> bool \<Rightarrow> bmt_globals \<Rightarrow> fault + int \<times> bmt_globals" where
  "init_bmt_bbt fuel C have_bmt have_bbt s =
    (let (bmt_pool_size, maximum, s1) = calc_bmt_pool_size C s
     in if maximum < bmt_pool_size then Inr (-1, s1)
        else let pool = (if MAX_BMT_SIZE < bmt_pool_size then MAX_BMT_SIZE else bmt_pool_size)
             in res_bind (if have_bmt then Inr (True, s1) else init_bmt C (int pool) s1) (\<lambda>(g_bmt, s2).
                  if \<not> g_bmt then Inr (-1, s2)
                  else res_bind (if have_bbt then Inr (True, s2) else start_init_bbt C s2) (\<lambda>(g_bbt, s3).
                    if \<not> g_bbt then Inr (-1, s3)
                    else res_bind (write_bbt_or_bmt_to_flash fuel C s3) (\<lambda>(r, s4).
                      if r \<noteq> 0 then Inr (-1, s4)
                      else res_bind (create_badblock_table C s4) (\<lambda>s5. Inr (0, s5))))))"

end
