(* ===== verification/Nand_Logical.thy ===== *)
theory Nand_Logical
  imports Nand_Rw
begin

text \<open>
  The byte-addressed view that Nand\_Rw offers to the rest of the bootloader. A
  logical address belongs to a logical block, which the two bad-block tables
  send to a physical block; flash\_byte is the byte stored there. Because
  the tables are injective on the logical area (rw\_inv), reading returns these
  bytes, writing changes the addressed bytes and no other, and
  erasing sets whole blocks to 0xFF and nothing else.

  reads\_clean, writes\_clean and erases\_clean say that the chip reports no fault.
\<close>

section \<open>The logical address space\<close>

definition logic_blocks :: "bmt_globals \<Rightarrow> nat" where
  "logic_blocks s = system_block_count s - unat (badblock_count (init_bbt s))"

definition rw_inv :: "nand_cfg \<Rightarrow> bmt_globals \<Rightarrow> bool" where
  "rw_inv C s \<longleftrightarrow> wf_dev C (dev s) \<and> ascending_bbt (system_block_count s) (init_bbt s)
     \<and> system_block_count s \<le> 65281 \<and> system_block_count s \<le> block_total C
     \<and> bmt_inv (system_block_count s) (block_total C) (bmt s)
     \<and> pBbt s = create_badblock_table_by_bbt (system_block_count s) (init_bbt s)"

definition phys_page :: "nand_cfg \<Rightarrow> bmt_globals \<Rightarrow> nat \<Rightarrow> nat" where
  "phys_page C s a = fst (map_block s (a div erase_size C)) * pages_per_block C + a mod erase_size C div page_size C"

definition flash_byte :: "nand_cfg \<Rightarrow> bmt_globals \<Rightarrow> nat \<Rightarrow> u8" where
  "flash_byte C s a = flash_data (dev s) (phys_page C s a) ! (a mod page_size C)"

definition logical_bytes :: "nand_cfg \<Rightarrow> bmt_globals \<Rightarrow> nat \<Rightarrow> nat \<Rightarrow> bytes" where
  "logical_bytes C s a n = map (flash_byte C s) [a..<a + n]"

definition logic_size :: "nand_cfg \<Rightarrow> bmt_globals \<Rightarrow> nat" where
  "logic_size C s = logic_blocks s * erase_size C"

lemma length_logical_bytes [simp]: "length (logical_bytes C s a n) = n"
  by (simp add: logical_bytes_def)

lemma logical_bytes_append: "k \<le> n \<Longrightarrow> logical_bytes C s a k @ logical_bytes C s (a + k) (n - k) = logical_bytes C s a n"
  unfolding logical_bytes_def map_append[symmetric] by (metis add.assoc le_add1 le_add_diff_inverse upt_add_eq_append)

definition same_tables :: "bmt_globals \<Rightarrow> bmt_globals \<Rightarrow> bool" where
  "same_tables s s' \<longleftrightarrow> system_block_count s' = system_block_count s \<and> bmt s' = bmt s
     \<and> init_bbt s' = init_bbt s \<and> pBbt s' = pBbt s"

lemma same_tables_refl [simp]: "same_tables s s" "same_tables s (s\<lparr>dev := d\<rparr>)" "same_tables s (s\<lparr>dev := d, dat_buf := x\<rparr>)"
  by (simp_all add: same_tables_def)

lemma same_tables_trans: "same_tables s s' \<Longrightarrow> same_tables s' s'' \<Longrightarrow> same_tables s s''"
  by (simp add: same_tables_def)

lemma same_tables_map:
  assumes "same_tables s s'"
  shows "map_block s' = map_block s" "phys_page C s' = phys_page C s" "logic_size C s' = logic_size C s"
    "physical_addr C s' = physical_addr C s"
  using assms by (simp_all add: same_tables_def map_block_def fun_eq_iff phys_page_def logic_size_def logic_blocks_def physical_addr_def)

lemmas dev_map [simp] = same_tables_map[OF same_tables_refl(2)]

lemma same_tables_inv: "same_tables s s' \<Longrightarrow> rw_inv C s \<Longrightarrow> wf_dev C (dev s') \<Longrightarrow> rw_inv C s'"
  by (simp add: rw_inv_def same_tables_def)

lemma rw_inv_cfg: "rw_inv C s \<Longrightarrow> wf_cfg C"
  unfolding rw_inv_def using wf_dev_cfg(1) by blast

lemma block_of_logical:
  "a < logic_size C s \<Longrightarrow> a div erase_size C < logic_blocks s"
  by (simp add: logic_size_def less_mult_imp_div_less)

lemma map_block_lt:
  assumes "rw_inv C s" "l < logic_blocks s" shows "fst (map_block s l) < block_total C"
  using assms mapping_range(1)[of "system_block_count s" "init_bbt s" "block_total C" "bmt s" l]
  by (simp add: rw_inv_def logic_blocks_def map_block_def)

lemma map_block_inj:
  assumes "rw_inv C s" "l < logic_blocks s" "l' < logic_blocks s" "fst (map_block s l) = fst (map_block s l')"
  shows "l = l'"
  using assms mapping_inj[of "system_block_count s" "init_bbt s" "block_total C" "bmt s"]
  by (auto simp: rw_inv_def logic_blocks_def map_block_def inj_on_def)

lemma logic_size_le: assumes "rw_inv C s" shows "logic_size C s \<le> device_size C"
proof -
  have "logic_blocks s \<le> block_total C" using assms unfolding rw_inv_def logic_blocks_def by linarith
  then show ?thesis
    using block_total_eq[OF rw_inv_cfg[OF assms]] mult_le_mono1 unfolding logic_size_def by metis
qed

lemma logic_size_30: "rw_inv C s \<Longrightarrow> logic_size C s \<le> 2 ^ 30"
  using logic_size_le[of C s] device_size_le[OF rw_inv_cfg[of C s]] by simp

lemma physical_addr_eq:
  assumes inv: "rw_inv C s" and a: "a < logic_size C s"
  shows "unat (physical_addr C s (of_nat a)) = fst (map_block s (a div erase_size C)) * erase_size C + a mod erase_size C"
proof -
  let ?p = "fst (map_block s (a div erase_size C))"
  note cfg = rw_inv_cfg[OF inv]
  have ua: "unat (of_nat a :: u32) = a" using a logic_size_30[OF inv] by simp
  have "?p < block_total C" by (rule map_block_lt[OF inv block_of_logical[OF a]])
  then have "Suc ?p * erase_size C \<le> block_total C * erase_size C" by (intro mult_le_mono1) simp
  then have "?p * erase_size C + a mod erase_size C < device_size C"
    using block_total_eq[OF cfg] mod_less_divisor[OF sizes_pos(2)[of C], of a] by (simp del: mod_less_divisor)
  also have "\<dots> < 2 ^ 32" using device_size_le[OF cfg] by simp
  finally show ?thesis unfolding physical_addr_def ua
    by (simp flip: of_nat_mult of_nat_add)
qed

lemma physical_page:
  assumes inv: "rw_inv C s" and a: "a < logic_size C s"
  shows "unat (physical_addr C s (of_nat a)) div page_size C = phys_page C s a"
    and "unat (physical_addr C s (of_nat a)) mod page_size C = a mod page_size C"
proof -
  note e = pages_per_block_eq(1)[OF rw_inv_cfg[OF inv]]
  show "unat (physical_addr C s (of_nat a)) div page_size C = phys_page C s a"
    unfolding physical_addr_eq[OF assms] phys_page_def by (simp add: e mult.assoc[symmetric])
  show "unat (physical_addr C s (of_nat a)) mod page_size C = a mod page_size C"
    unfolding physical_addr_eq[OF assms] by (simp add: e mult.assoc[symmetric] mod_mod_cancel)
qed

text \<open>Addresses of one page share the physical page; addresses of different pages do not.\<close>

lemma div_mod_page:
  assumes "wf_cfg C"
  shows "a mod erase_size C div page_size C = a div page_size C mod pages_per_block C"
    and "a div erase_size C = a div page_size C div pages_per_block C"
proof -
  note e = pages_per_block_eq[OF assms]
  have *: "erase_size C = page_size C * pages_per_block C" using e(1) by (simp add: mult.commute)
  show "a div erase_size C = a div page_size C div pages_per_block C"
    unfolding * by (rule div_mult2_eq)
  show "a mod erase_size C div page_size C = a div page_size C mod pages_per_block C"
    unfolding * by (simp add: mod_mult2_eq)
qed

lemma phys_page_inj:
  assumes inv: "rw_inv C s" and "a < logic_size C s" "b < logic_size C s"
  shows "phys_page C s a = phys_page C s b \<longleftrightarrow> a div page_size C = b div page_size C"
proof
  note e = pages_per_block_eq(2)[OF rw_inv_cfg[OF inv]] and d = div_mod_page[OF rw_inv_cfg[OF inv]]
  assume eq: "phys_page C s a = phys_page C s b"
  have "phys_page C s x div pages_per_block C = fst (map_block s (x div erase_size C))"
    "phys_page C s x mod pages_per_block C = x div page_size C mod pages_per_block C" for x
    using e by (simp_all add: phys_page_def d(1))
  with eq have "fst (map_block s (a div erase_size C)) = fst (map_block s (b div erase_size C))"
    and m: "a div page_size C mod pages_per_block C = b div page_size C mod pages_per_block C" by metis+
  then have "a div erase_size C = b div erase_size C"
    using map_block_inj[OF inv] block_of_logical assms(2,3) by blast
  then show "a div page_size C = b div page_size C" using m unfolding d(2)
    by (metis div_mult_mod_eq)
next
  assume "a div page_size C = b div page_size C"
  then show "phys_page C s a = phys_page C s b"
    using div_mod_page[OF rw_inv_cfg[OF inv]] by (simp add: phys_page_def)
qed

lemma phys_page_block:
  assumes "rw_inv C s" shows "page_in_block C (fst (map_block s (a div erase_size C))) (phys_page C s a)"
proof -
  note e = pages_per_block_eq[OF rw_inv_cfg[OF assms]]
  have "a mod erase_size C div page_size C < pages_per_block C"
    using div_mod_page(1)[OF rw_inv_cfg[OF assms], of a] e(2) by simp
  then show ?thesis by (simp add: page_in_block_def phys_page_def)
qed

lemma div_add_small: "a mod p + i < p \<Longrightarrow> (a + i) div p = a div (p :: nat)"
  using div_add1_eq[of a i p] by (simp add: div_eq_0_iff)

lemma div_eq_block:
  assumes "0 < p" "a mod p = (0 :: nat)" shows "x div p = a div p \<longleftrightarrow> a \<le> x \<and> x < a + p"
proof -
  obtain q where a: "a = q * p" using assms(2) by (metis add.right_neutral div_mult_mod_eq)
  have "x div p = q \<longleftrightarrow> q \<le> x div p \<and> x div p < Suc q" by linarith
  also have "\<dots> \<longleftrightarrow> q * p \<le> x \<and> x < Suc q * p"
    using less_eq_div_iff_mult_less_eq[OF assms(1)] div_less_iff_less_mult[OF assms(1)] by simp
  finally show ?thesis using assms(1) by (simp add: a add.commute)
qed

lemma page_slice:
  assumes inv: "rw_inv C s" and a: "a < logic_size C s" and n: "a mod page_size C + n \<le> page_size C"
  shows "slice (a mod page_size C) n (flash_data (dev s) (phys_page C s a)) = logical_bytes C s a n"
proof (rule nth_equalityI)
  let ?pg = "flash_data (dev s) (phys_page C s a)"
  have len: "length ?pg = page_size C" using inv by (simp add: rw_inv_def wf_dev_defs)
  then show "length (slice (a mod page_size C) n ?pg) = length (logical_bytes C s a n)" using n by simp
  fix i assume "i < length (slice (a mod page_size C) n ?pg)"
  then have i: "i < n" by simp
  then have *: "a mod page_size C + i < page_size C" using n by simp
  have "(a + i) div page_size C = a div page_size C" by (rule div_add_small[OF *])
  moreover have "(a + i) mod page_size C = a mod page_size C + i" using * by (metis mod_add_left_eq mod_less)
  ultimately have "flash_byte C s (a + i) = ?pg ! (a mod page_size C + i)"
    using div_mod_page[OF rw_inv_cfg[OF inv]] by (simp add: flash_byte_def phys_page_def)
  then show "slice (a mod page_size C) n ?pg ! i = logical_bytes C s a n ! i"
    using i * len by (simp add: nth_slice logical_bytes_def)
qed

section \<open>Reading\<close>

definition reads_clean :: "nand_cfg \<Rightarrow> bool" where
  "reads_clean C \<longleftrightarrow> reads_ok C \<and> (hw_ecc_decode C \<longrightarrow> (\<forall>t. ecc_status_ok C t))"

text \<open>The flash reads as before: the same tables and the same array under other caches.\<close>

definition same_flash :: "nand_cfg \<Rightarrow> bmt_globals \<Rightarrow> bmt_globals \<Rightarrow> bool" where
  "same_flash C s s' \<longleftrightarrow> same_tables s s' \<and> same_array (dev s) (dev s') \<and> rw_inv C s'"

lemma same_flash_bytes:
  "same_flash C s s' \<Longrightarrow> flash_byte C s' = flash_byte C s"
  "same_flash C s s' \<Longrightarrow> logical_bytes C s' = logical_bytes C s"
  "same_flash C s s' \<Longrightarrow> logic_size C s' = logic_size C s"
  using same_tables_map[of s s']
  by (auto simp: same_flash_def same_array_def flash_byte_def[abs_def] logical_bytes_def[abs_def])

lemma same_flash_refl: "rw_inv C s \<Longrightarrow> same_flash C s s"
  by (simp add: same_flash_def same_array_def)

lemma same_flash_trans: "same_flash C s s' \<Longrightarrow> same_flash C s' s'' \<Longrightarrow> same_flash C s s''"
  using same_tables_trans by (auto simp: same_flash_def same_array_def)

lemma read_page_same_flash:
  assumes "rw_inv C s" shows "same_flash C s (s\<lparr>dev := snd (spi_nand_read_page C p (dev s))\<rparr>)"
  using assms read_page_array[of "dev s" C p] read_page_wf[of C "dev s" p]
  by (auto simp: same_flash_def rw_inv_def same_tables_def)

lemma read_page_cached:
  assumes "wf_dev C d" shows "cache_page_data (snd (spi_nand_read_page C p d)) = flash_data d p"
  using assms by (auto simp: spi_nand_read_page_def wf_dev_defs)

text \<open>One iteration of the read loop, in terms of logical addresses.\<close>

lemma read_loop_step:
  assumes inv: "rw_inv C s" and clean: "reads_clean C" and a: "a < logic_size C s" and r: "0 < remain"
  defines "s1 \<equiv> s\<lparr>dev := snd (spi_nand_read_page C (phys_page C s a) (dev s))\<rparr>"
    and "n \<equiv> page_size C - a mod page_size C"
  shows "read_loop C len (of_nat a) remain RTN_NO_ERROR buf s =
    (if len = 1 \<and> current_page_num (dev s) = Some (phys_page C s a)
     then (RTN_NO_ERROR, RTN_NO_ERROR, memcpy buf 0 (logical_bytes C s a 1), s)
     else if a mod page_size C + remain < page_size C
     then (RTN_NO_ERROR, RTN_NO_ERROR, memcpy buf (len - remain) (logical_bytes C s a remain), s1)
     else read_loop C len (of_nat (a + n)) (remain - n) RTN_NO_ERROR (memcpy buf (len - remain) (logical_bytes C s a n)) s1)"
proof -
  let ?o = "a mod page_size C" and ?p = "phys_page C s a"
  note pp = physical_page[OF inv a]
  obtain st d where rd: "spi_nand_read_page C ?p (dev s) = (st, d)" by force
  have wf: "wf_dev C (dev s)" using inv by (simp add: rw_inv_def)
  have st: "st = RTN_NO_ERROR"
    using rd clean by (auto simp: spi_nand_read_page_def reads_clean_def reads_ok_def split: if_splits)
  have cd: "cache_page_data d = flash_data (dev s) ?p" using read_page_cached[OF wf, of ?p] rd by simp
  have ecc: "hw_ecc_decode C \<Longrightarrow> ecc_status_ok C (clock d)" using clean by (simp add: reads_clean_def)
  have sl: "?o + k \<le> page_size C \<Longrightarrow> slice ?o k (cache_page_data d) = logical_bytes C s a k" for k
    using page_slice[OF inv a, of k] cd by simp
  have hit: "logical_bytes C s a 1 = [cache_page_data (dev s) ! ?o]" if "current_page_num (dev s) = Some ?p"
    using that wf by (simp add: wf_dev_defs flash_byte_def logical_bytes_def)
  have "?o < page_size C" by simp
  then have "?o + n \<le> page_size C" by (simp add: n_def)
  then show ?thesis
    using r ecc st hit sl[of n] sl[of remain] unfolding n_def s1_def rd of_nat_add
    by (subst read_loop.simps) (auto simp: pp Let_def rd simp del: One_nat_def)
qed

lemma read_loop_spec:
  assumes "rw_inv C s" "reads_clean C" "a + remain \<le> logic_size C s" "remain \<le> len" "len \<le> length buf"
  shows "\<exists>s'. read_loop C len (of_nat a) remain RTN_NO_ERROR buf s
     = (RTN_NO_ERROR, RTN_NO_ERROR, memcpy buf (len - remain) (logical_bytes C s a remain), s') \<and> same_flash C s s'"
  using assms
proof (induction remain arbitrary: a buf s rule: less_induct)
  case (less remain)
  show ?case
  proof (cases "remain = 0")
    case True
    then show ?thesis
      using same_flash_refl[OF less.prems(1)] by (simp add: read_loop.simps memcpy_def logical_bytes_def)
  next
    case False
    define n where "n = page_size C - a mod page_size C"
    define buf' where "buf' = memcpy buf (len - remain) (logical_bytes C s a n)"
    define s1 where "s1 = s\<lparr>dev := snd (spi_nand_read_page C (phys_page C s a) (dev s))\<rparr>"
    have sf: "same_flash C s s1" unfolding s1_def by (rule read_page_same_flash[OF less.prems(1)])
    have o: "a mod page_size C < page_size C" by simp
    note step = read_loop_step[OF less.prems(1,2) _ _, of a remain len buf, folded n_def s1_def, folded buf'_def]
    show ?thesis
    proof (cases "len = 1 \<and> current_page_num (dev s) = Some (phys_page C s a) \<or> a mod page_size C + remain < page_size C")
      case True
      have "len = 1 \<Longrightarrow> logical_bytes C s a 1 = logical_bytes C s a remain \<and> len - remain = 0"
        using False less.prems(4) by (cases "remain = 1") auto
      with True show ?thesis using step False less.prems(3) sf same_flash_refl[OF less.prems(1)] by (auto simp del: One_nat_def)
    next
      case more: False
      then have n: "n \<le> remain" "0 < n" using o by (auto simp: n_def)
      have "rw_inv C s1" "a + n + (remain - n) \<le> logic_size C s1" "len \<le> length buf'"
        using sf less.prems(3-5) n same_flash_bytes(3)[OF sf] by (simp_all add: same_flash_def buf'_def)
      then obtain s' where s': "read_loop C len (of_nat (a + n)) (remain - n) RTN_NO_ERROR buf' s1
          = (RTN_NO_ERROR, RTN_NO_ERROR, memcpy buf' (len - (remain - n)) (logical_bytes C s1 (a + n) (remain - n)), s')"
        "same_flash C s1 s'"
        using less.IH[of "remain - n" s1 "a + n" buf'] less.prems(2,4) n by fastforce
      have "memcpy buf' (len - (remain - n)) (logical_bytes C s (a + n) (remain - n))
          = memcpy buf (len - remain) (logical_bytes C s a remain)"
        using memcpy_memcpy[of "len - remain" "logical_bytes C s a n" "logical_bytes C s (a + n) (remain - n)" buf]
          logical_bytes_append[OF n(1), of C s a] less.prems(4,5) n
        by (simp add: buf'_def Nat.diff_diff_right)
      then show ?thesis
        using step False more less.prems(3) s' same_flash_trans[OF sf s'(2)] same_flash_bytes(2)[OF sf]
        by (auto simp del: One_nat_def)
    qed
  qed
qed

section \<open>Writing\<close>

definition writes_clean :: "nand_cfg \<Rightarrow> bool" where
  "writes_clean C \<longleftrightarrow> (\<forall>t p. prog_fault C t p = None) \<and> \<not> test_write_fail_flag C"

lemma program_tail:
  assumes "length old = p" "length dat \<le> p"
  shows "program_bits old (dat @ replicate (p - length dat) 0xFF) = program_bits (take (length dat) old) dat @ drop (length dat) old"
proof (rule nth_equalityI)
  show "length (program_bits old (dat @ replicate (p - length dat) 0xFF))
      = length (program_bits (take (length dat) old) dat @ drop (length dat) old)" using assms by simp
  fix i assume "i < length (program_bits old (dat @ replicate (p - length dat) 0xFF))"
  then have "i < p" using assms by simp
  moreover have "w AND 0xFF = (w :: u8)" for w by (metis (no_types) FF_minus_1 and.right_neutral)
  ultimately show "program_bits old (dat @ replicate (p - length dat) 0xFF) ! i
      = (program_bits (take (length dat) old) dat @ drop (length dat) old) ! i"
    using assms by (simp add: program_bits_def nth_append min_def)
qed

lemma write_page_buffer_aligned:
  assumes "length cache = page_size C" "length dat \<le> page_size C" "dat \<noteq> []"
  shows "write_page_buffer C cache 0 dat = dat @ replicate (page_size C - length dat) 0xFF"
  using assms by (simp add: write_page_buffer_def memset_def memcpy_def)

text \<open>The array after a page-aligned page write: old bytes AND new bytes.\<close>

lemma write_page_aligned:
  assumes "wf_arr C d" "prog_fault C (clock d) p = None" "dat \<noteq> []" "length dat \<le> page_size C"
    and "spi_nand_write_page C p 0 dat oob d = (st, d')"
  shows "st = RTN_NO_ERROR"
    and "flash_data d' q = (if q = p then program_bits (take (length dat) (flash_data d p)) dat
              @ drop (length dat) (flash_data d p) else flash_data d q)"
  using assms write_page_buffer_aligned[of "cache_page_data d" C dat] program_tail[of "flash_data d p" "page_size C" dat]
  by (auto simp: spi_nand_write_page_def Let_def wf_arr_def)

lemma write_oob_length: "wf_cfg C \<Longrightarrow> length (write_oob C s pb) = oob_size C"
  using oob_size_ge8[of C] by (simp add: write_oob_def Let_def OOB_INDEX_OFFSET_def wf_cfg_def)

text \<open>What a write does to the logical bytes.\<close>

definition wrote :: "nand_cfg \<Rightarrow> bmt_globals \<Rightarrow> nat \<Rightarrow> bytes \<Rightarrow> bmt_globals \<Rightarrow> bool" where
  "wrote C s a dat s' \<longleftrightarrow> same_tables s s' \<and> rw_inv C s' \<and>
     (\<forall>x < logic_size C s. flash_byte C s' x =
        (if a \<le> x \<and> x < a + length dat then flash_byte C s x AND dat ! (x - a) else flash_byte C s x))"

lemma wrote_Nil: "rw_inv C s \<Longrightarrow> wrote C s a [] s"
  by (auto simp: wrote_def)

lemma wrote_append:
  assumes "wrote C s a x s1" "wrote C s1 (a + length x) y s2"
  shows "wrote C s a (x @ y) s2"
  using assms same_tables_trans[of s s1 s2] same_tables_map(3)[of s s1 C]
  by (auto simp: wrote_def nth_append)

lemma write_step:
  assumes inv: "rw_inv C s" and cl: "writes_clean C" and a: "a < logic_size C s" "a mod page_size C = 0"
    and dat: "dat \<noteq> []" "length dat \<le> page_size C"
    and run: "spi_nand_write_page C (phys_page C s a) 0 dat (write_oob C s pb) (dev s) = (st, d)"
  shows "st = RTN_NO_ERROR" "wrote C s a dat (s\<lparr>dev := d\<rparr>)"
proof -
  have wf: "wf_arr C (dev s)" "wf_cfg C" using inv wf_dev_cfg by (auto simp: rw_inv_def wf_dev_def)
  have nf: "prog_fault C (clock (dev s)) (phys_page C s a) = None" using cl by (simp add: writes_clean_def)
  note w = write_page_aligned[OF wf(1) nf dat run]
  show "st = RTN_NO_ERROR" by (rule w(1))
  have "wf_dev C d"
    using write_page_wf[OF wf(1), of 0 dat "write_oob C s pb"] dat write_oob_length[OF wf(2), of s pb] run
    by (metis add_0 eq_imp_le snd_conv)
  then have inv': "rw_inv C (s\<lparr>dev := d\<rparr>)" using same_tables_inv[OF same_tables_refl(2) inv] by simp
  have "flash_byte C (s\<lparr>dev := d\<rparr>) x = (if a \<le> x \<and> x < a + length dat then flash_byte C s x AND dat ! (x - a) else flash_byte C s x)"
    if x: "x < logic_size C s" for x
  proof (cases "x div page_size C = a div page_size C")
    case True
    have len: "length (flash_data (dev s) (phys_page C s a)) = page_size C" using wf(1) by (simp add: wf_arr_def)
    have ax: "x = a + x mod page_size C"
      using True a(2) div_mult_mod_eq[of x "page_size C"] div_mult_mod_eq[of a "page_size C"] by simp
    have xm: "x mod page_size C < page_size C" by simp
    have "phys_page C s x = phys_page C s a" using phys_page_inj[OF inv x a(1)] True by simp
    moreover have "(a \<le> x \<and> x < a + length dat) = (x mod page_size C < length dat)" "x - a = x mod page_size C" using ax by linarith+
    ultimately show ?thesis using w(2)[of "phys_page C s x"] dat(2) len xm
      by (simp add: flash_byte_def nth_append min_def program_bits_def del: mod_less_divisor)
  next
    case False
    then have "flash_byte C (s\<lparr>dev := d\<rparr>) x = flash_byte C s x"
      using w(2)[of "phys_page C s x"] phys_page_inj[OF inv x a(1)] by (simp add: flash_byte_def)
    moreover have "\<not> (a \<le> x \<and> x < a + length dat)"
    proof
      assume "a \<le> x \<and> x < a + length dat"
      then have "x = a + (x - a)" "x - a < page_size C" using dat(2) by linarith+
      then show False using False div_add_small[of a "page_size C" "x - a"] a(2) by simp
    qed
    ultimately show ?thesis by auto
  qed
  with inv' show "wrote C s a dat (s\<lparr>dev := d\<rparr>)" by (simp add: wrote_def)
qed

lemma write_loop_spec:
  assumes "rw_inv C s" "writes_clean C" "a + remain \<le> logic_size C s" "a mod page_size C = 0"
    and "remain \<le> len" "len \<le> length buf"
  shows "\<exists>s'. write_loop fuel C len (of_nat a) remain buf RTN_NO_ERROR s = Inr (Some RTN_NO_ERROR, s')
     \<and> wrote C s a (slice (len - remain) remain buf) s'"
  using assms
proof (induction remain arbitrary: a s rule: less_induct)
  case (less remain)
  show ?case
  proof (cases "remain = 0")
    case True
    then show ?thesis using wrote_Nil[OF less.prems(1)] by (simp add: write_loop.simps slice_def)
  next
    case False
    then have a: "a < logic_size C s" using less.prems(3) by simp
    note pp = physical_page[OF less.prems(1) a]
    define n where "n = (if page_size C < remain then page_size C else remain)"
    define dat where "dat = slice (len - remain) n buf"
    have n: "0 < n" "n \<le> remain" using False by (auto simp: n_def)
    have dat: "length dat = n" "dat \<noteq> []" "length dat \<le> page_size C"
      using n less.prems(5,6) by (auto simp: dat_def n_def slice_def)
    have ua: "unat (of_nat a :: u32) = a" using a logic_size_30[OF less.prems(1)] by simp
    obtain st d where run: "spi_nand_write_page C (phys_page C s a) 0 dat
        (write_oob C s (map_block s (a div erase_size C))) (dev s) = (st, d)" by force
    note w = write_step[OF less.prems(1,2) a less.prems(4) dat(2,3) run]
    have step: "write_loop fuel C len (of_nat a) remain buf RTN_NO_ERROR s
        = write_loop fuel C len (of_nat (a + n)) (remain - n) buf RTN_NO_ERROR (s\<lparr>dev := d\<rparr>)"
      using False less.prems(2,4) run w(1) unfolding dat_def n_def
      by (subst write_loop.simps) (auto simp: pp Let_def ua writes_clean_def)
    show ?thesis
    proof (cases "n = remain")
      case True
      then show ?thesis using step w(2) by (simp add: write_loop.simps dat_def)
    next
      case False
      then have ne: "n = page_size C" by (simp add: n_def split: if_splits)
      have "rw_inv C (s\<lparr>dev := d\<rparr>)" using w(2) by (simp add: wrote_def)
      moreover have "remain - n < remain" "a + n + (remain - n) \<le> logic_size C (s\<lparr>dev := d\<rparr>)"
        "(a + n) mod page_size C = 0" "remain - n \<le> len" using less.prems(3-5) n ne False by auto
      ultimately obtain s' where s': "write_loop fuel C len (of_nat (a + n)) (remain - n) buf RTN_NO_ERROR (s\<lparr>dev := d\<rparr>)
            = Inr (Some RTN_NO_ERROR, s')"
          "wrote C (s\<lparr>dev := d\<rparr>) (a + n) (slice (len - (remain - n)) (remain - n) buf) s'"
        using less.IH[of "remain - n" "s\<lparr>dev := d\<rparr>" "a + n"] less.prems(2,6) by metis
      have "slice (len - remain) n buf @ slice (len - (remain - n)) (remain - n) buf = slice (len - remain) remain buf"
        using slice_slice_append[OF n(2), of "len - remain" buf] less.prems(5) n by (simp add: Nat.diff_diff_right)
      then show ?thesis using step s' wrote_append[OF w(2)] dat(1) by (metis dat_def)
    qed
  qed
qed

section \<open>Erasing\<close>

definition erases_clean :: "nand_cfg \<Rightarrow> bool" where
  "erases_clean C \<longleftrightarrow> (\<forall>t b. erase_fault C t b = None)"

definition wiped :: "nand_cfg \<Rightarrow> bmt_globals \<Rightarrow> nat \<Rightarrow> nat \<Rightarrow> bmt_globals \<Rightarrow> bool" where
  "wiped C s a n s' \<longleftrightarrow> same_tables s s' \<and> rw_inv C s' \<and>
     (\<forall>x < logic_size C s. flash_byte C s' x = (if a \<le> x \<and> x < a + n then 0xFF else flash_byte C s x))"

lemma wiped_append:
  assumes "wiped C s a m s1" "wiped C s1 (a + m) n s2" shows "wiped C s a (m + n) s2"
  using assms same_tables_trans[of s s1 s2] same_tables_map(3)[of s s1 C] by (auto simp: wiped_def)

lemma erase_step:
  assumes inv: "rw_inv C s" and nc: "current_page_num (dev s) = None" and cl: "erases_clean C"
    and a: "a < logic_size C s" "a mod erase_size C = 0"
    and run: "erase_block_s C (fst (map_block s (a div erase_size C))) s = (st, s')"
  shows "st = RTN_NO_ERROR" "wiped C s a (erase_size C) s'" "current_page_num (dev s') = None"
proof -
  let ?b = "fst (map_block s (a div erase_size C))"
  obtain d where d: "spi_nand_erase_block C ?b (dev s) = (st, d)" "s' = s\<lparr>dev := d\<rparr>"
    using run by (auto simp: erase_block_s_def split: prod.splits)
  show st: "st = RTN_NO_ERROR" and nc': "current_page_num (dev s') = None"
    using d cl nc by (auto simp: spi_nand_erase_block_def erases_clean_def)
  have fd: "flash_data d p = (if page_in_block C ?b p then replicate (page_size C) 0xFF else flash_data (dev s) p)" for p
    using d cl by (auto simp: spi_nand_erase_block_def erases_clean_def)
  have "wf_arr C d" using erase_block_wf[of C "dev s" ?b] inv d by (simp add: rw_inv_def wf_dev_def)
  then have "wf_dev C d" using nc' d by (simp add: wf_dev_def cache_coherent_def)
  then have inv': "rw_inv C s'" using same_tables_inv[OF same_tables_refl(2) inv] d by simp
  have "flash_byte C s' x = (if a \<le> x \<and> x < a + erase_size C then 0xFF else flash_byte C s x)"
    if x: "x < logic_size C s" for x
  proof -
    have "x div erase_size C = a div erase_size C \<longleftrightarrow> a \<le> x \<and> x < a + erase_size C"
      using a(2) div_eq_block[OF sizes_pos(2)[of C], of a x] by simp
    moreover have "page_in_block C ?b (phys_page C s x) \<longleftrightarrow> x div erase_size C = a div erase_size C"
      using phys_page_block[OF inv, of x] map_block_inj[OF inv block_of_logical[OF x] block_of_logical[OF a(1)]]
      by (auto simp: page_in_block_def)
    ultimately show ?thesis using fd[of "phys_page C s x"] d(2) by (simp add: flash_byte_def)
  qed
  with inv' d(2) show "wiped C s a (erase_size C) s'" by (simp add: wiped_def)
qed

lemma erase_loop_spec:
  assumes "rw_inv C s" "current_page_num (dev s) = None" "erases_clean C" "a mod erase_size C = 0"
    and "k * erase_size C < unat len + erase_size C" "unat len \<le> k * erase_size C"
    and "j \<le> k" "a + (k - j) * erase_size C \<le> logic_size C s" "k * erase_size C \<le> 2 ^ 31" "k - j < n"
  shows "\<exists>s'. erase_loop n fuel C (of_nat a) len (of_nat (j * erase_size C)) RTN_NO_ERROR s = Inr (RTN_NO_ERROR, s')
     \<and> wiped C s a ((k - j) * erase_size C) s'"
  using assms
proof (induction "k - j" arbitrary: a j s n)
  case 0
  then have "j = k" "n = Suc (n - 1)" by simp_all
  moreover have "\<not> of_nat (k * erase_size C) < len"
    using 0 unat_of_nat_small[of "k * erase_size C", where 'a = 32]
    by (simp add: word_less_nat_alt not_less del: of_nat_mult unat_of_nat_small)
  ultimately show ?case using 0 by (cases n) (auto simp: wiped_def)
next
  case (Suc m)
  then have jk: "j < k" and m: "m = k - Suc j" by simp_all
  obtain n' where n: "n = Suc n'" using Suc.prems(10) by (cases n) auto
  have kj: "(k - j) * erase_size C = erase_size C + (k - Suc j) * erase_size C"
    using Suc.hyps(2) m by (metis mult_Suc)
  then have a: "a < logic_size C s" using Suc.prems(8) sizes_pos(2)[of C] by linarith
  have ua: "unat (of_nat a :: u32) = a" using a logic_size_30[OF Suc.prems(1)] by simp
  have "Suc j * erase_size C \<le> k * erase_size C" using jk by (intro mult_le_mono1) simp
  then have "j * erase_size C < unat len" using Suc.prems(5) by simp
  moreover have "unat (of_nat (j * erase_size C) :: u32) = j * erase_size C"
    using \<open>Suc j * _ \<le> _\<close> Suc.prems(9) sizes_pos(2)[of C] by (intro unat_of_nat_small) simp
  ultimately have lt: "of_nat (j * erase_size C) < len" by (simp only: word_less_nat_alt)
  obtain st s1 where run: "erase_block_s C (fst (map_block s (a div erase_size C))) s = (st, s1)" by force
  note e = erase_step[OF Suc.prems(1-3) a Suc.prems(4) run]
  have s1: "rw_inv C s1" "logic_size C s1 = logic_size C s" using e(2) same_tables_map(3) by (auto simp: wiped_def)
  have "k - Suc j < n'" using jk Suc.prems(10) n by linarith
  then obtain s' where s': "erase_loop n' fuel C (of_nat (a + erase_size C)) len (of_nat (Suc j * erase_size C)) RTN_NO_ERROR s1
        = Inr (RTN_NO_ERROR, s')" "wiped C s1 (a + erase_size C) ((k - Suc j) * erase_size C) s'"
    using Suc.hyps(1)[OF m s1(1) e(3) Suc.prems(3) _ Suc.prems(5,6), of "a + erase_size C" n'] Suc.prems jk kj s1(2)
    by auto
  have w: "(of_nat (Suc j * erase_size C) :: u32) = of_nat (j * erase_size C) + of_nat (erase_size C)"
    by (simp add: add.commute)
  have "erase_loop n fuel C (of_nat a) len (of_nat (j * erase_size C)) RTN_NO_ERROR s
      = erase_loop n' fuel C (of_nat (a + erase_size C)) len (of_nat (Suc j * erase_size C)) RTN_NO_ERROR s1"
    by (simp only: n erase_loop.simps Let_def ua run e(1) lt w of_nat_add prod.case simp_thms if_True if_False)
  then show ?case using s' wiped_append[OF e(2) s'(2)] kj by auto
qed

section \<open>The entry points\<close>

lemma unat_sum_in_range:
  assumes "rw_inv C s" "unat a + unat n \<le> logic_size C s"
  shows "unat (a + n :: u32) = unat a + unat n" "spi_nand_boundary_check C a n = RTN_NO_ERROR"
proof -
  have "unat a + unat n < 2 ^ 32" using assms logic_size_30[OF assms(1)] by simp
  then show *: "unat (a + n) = unat a + unat n" by (simp add: unat_word_ariths)
  show "spi_nand_boundary_check C a n = RTN_NO_ERROR"
    using assms(2) logic_size_le[OF assms(1)] by (simp add: spi_nand_boundary_check_def *)
qed

lemma block_unaligned_iff: "wf_cfg C \<Longrightarrow> block_unaligned C a \<longleftrightarrow> unat a mod erase_size C \<noteq> 0"
proof -
  have "of_nat (erase_size C) - 1 = (mask (erase_shift C) :: u32)" by (simp add: erase_size_def mask_eq_exp_minus_1)
  then have "a AND (of_nat (erase_size C) - 1) = take_bit (erase_shift C) a" by (simp add: take_bit_eq_mask)
  moreover have "take_bit (erase_shift C) a = 0 \<longleftrightarrow> unat (take_bit (erase_shift C) a) = 0" by (simp add: unat_eq_0)
  moreover have "unat (take_bit (erase_shift C) a) = unat a mod erase_size C"
    unfolding unsigned_take_bit_eq by (simp add: take_bit_eq_mod erase_size_def)
  ultimately show ?thesis by (simp add: block_unaligned_def)
qed

lemma aligned_check_iff:
  assumes "wf_cfg C"
  shows "spi_nand_block_aligned_check C addr len = RTN_NO_ERROR \<longleftrightarrow> unat addr mod erase_size C = 0"
proof -
  have "(w * of_nat (erase_size C)) AND (of_nat (erase_size C) - 1) = (0 :: u32)" for w
  proof -
    have "of_nat (erase_size C) - 1 = (mask (erase_shift C) :: u32)" by (simp add: erase_size_def mask_eq_exp_minus_1)
    then have "(w * of_nat (erase_size C)) AND (of_nat (erase_size C) - 1) = take_bit (erase_shift C) (w * 2 ^ erase_shift C)"
      by (simp add: take_bit_eq_mask erase_size_def)
    then show ?thesis by (simp add: take_bit_eq_0_iff)
  qed
  then show ?thesis
    using block_unaligned_iff[OF assms, of addr] by (auto simp: spi_nand_block_aligned_check_def Let_def block_unaligned_def)
qed

lemma nandflash_read_ok:
  assumes inv: "rw_inv C s" and cl: "reads_clean C" and le: "unat from + unat len \<le> logic_size C s"
    and buf: "unat len \<le> length buf"
  shows "\<exists>s'. nandflash_read C from len buf st s
     = (0, RTN_NO_ERROR, memcpy buf 0 (logical_bytes C s (unat from) (unat len)), s') \<and> same_flash C s s'"
proof -
  have "unat from < 0xbc000000" using le logic_size_30[OF inv] by simp
  then show ?thesis
    using read_loop_spec[OF inv cl le order_refl buf] unat_sum_in_range[OF inv le]
    by (auto simp: nandflash_read_def spi_nand_read_internal_def)
qed

lemma clear_cache_inv:
  assumes "rw_inv C s"
  shows "rw_inv C (s\<lparr>dev := SPI_NAND_Flash_Clear_Read_Cache_Data (dev s)\<rparr>)"
    and "flash_byte C (s\<lparr>dev := SPI_NAND_Flash_Clear_Read_Cache_Data (dev s)\<rparr>) = flash_byte C s"
    and "same_tables s (s\<lparr>dev := SPI_NAND_Flash_Clear_Read_Cache_Data (dev s)\<rparr>)"
  using assms wf_dev_def[of C "dev s"] by (simp_all add: rw_inv_def flash_byte_def[abs_def])

lemma nandflash_write_ok:
  assumes inv: "rw_inv C s" and cl: "writes_clean C" and le: "unat to + unat len \<le> logic_size C s"
    and al: "unat to mod page_size C = 0" and buf: "unat len \<le> length buf"
  shows "\<exists>s'. nandflash_write fuel C to len buf s = Inr (0, s') \<and> wrote C s (unat to) (take (unat len) buf) s'"
proof -
  let ?s = "s\<lparr>dev := SPI_NAND_Flash_Clear_Read_Cache_Data (dev s)\<rparr>"
  note c = clear_cache_inv[OF inv]
  obtain s' where s': "write_loop fuel C (unat len) to (unat len) buf RTN_NO_ERROR ?s = Inr (Some RTN_NO_ERROR, s')"
      "wrote C ?s (unat to) (take (unat len) buf) s'"
    using write_loop_spec[OF c(1) cl, of "unat to" "unat len" "unat len" buf fuel] le al buf by auto
  have "wrote C s (unat to) (take (unat len) buf) s'"
    using s'(2) c same_tables_trans[OF c(3)] unfolding wrote_def by simp
  then show ?thesis
    using s'(1) unat_sum_in_range[OF inv le] by (simp add: nandflash_write_def spi_nand_write_internal_def)
qed

lemma nandflash_erase_ok:
  assumes inv: "rw_inv C s" and cl: "erases_clean C" and al: "unat addr mod erase_size C = 0"
    and k: "k * erase_size C < unat len + erase_size C" "unat len \<le> k * erase_size C"
    and le: "unat addr + k * erase_size C \<le> logic_size C s" and n: "k < n"
  shows "\<exists>s'. nandflash_erase n fuel C addr len s = Inr (0, s') \<and> wiped C s (unat addr) (k * erase_size C) s'"
proof -
  let ?s = "s\<lparr>dev := SPI_NAND_Flash_Clear_Read_Cache_Data (dev s)\<rparr>"
  note c = clear_cache_inv[OF inv]
  have "k * erase_size C \<le> 2 ^ 31" using le logic_size_30[OF inv] by simp
  then obtain s' where s': "erase_loop n fuel C addr len 0 RTN_NO_ERROR ?s = Inr (RTN_NO_ERROR, s')"
      "wiped C ?s (unat addr) (k * erase_size C) s'"
    using erase_loop_spec[OF c(1) _ cl al k(1) k(2), of 0 n fuel] le n by auto
  have "wiped C s (unat addr) (k * erase_size C) s'"
    using s'(2) c same_tables_trans[OF c(3)] unfolding wiped_def by simp
  moreover have "unat addr + unat len \<le> logic_size C s" using k(2) le by simp
  ultimately show ?thesis
    using s'(1) unat_sum_in_range(2)[OF inv] aligned_check_iff[OF rw_inv_cfg[OF inv], of addr len] al
    by (simp add: nandflash_erase_def spi_nand_erase_internal_def)
qed

end
