(* ===== verification/Nand_Theorems.thy ===== *)
theory Nand_Theorems
  imports Nand_Logical
begin

text \<open>
  Properties of byte-level access to the NAND flash and of its start-up: the
  size of the replacement pool, reading, writing and erasing logical ranges, and what
  the range check and the page buffer do outside the well-behaved cases.
\<close>

section \<open>The pool size\<close>

definition good_in :: "nand_cfg \<Rightarrow> nand_dev \<Rightarrow> nat \<Rightarrow> nat \<Rightarrow> nat set" where
  "good_in C d l b = {x. l \<le> x \<and> x \<le> b \<and> \<not> block_marked C d x BAD_BLOCK_RAW}"

lemma good_in_Suc:
  "block_marked C d (Suc b) BAD_BLOCK_RAW \<Longrightarrow> good_in C d l (Suc b) = good_in C d l b"
  "\<not> block_marked C d (Suc b) BAD_BLOCK_RAW \<Longrightarrow> l \<le> Suc b \<Longrightarrow> good_in C d l (Suc b) = insert (Suc b) (good_in C d l b)"
  by (auto simp: good_in_def le_Suc_eq)

lemma Suc_notin_good_in [simp]: "Suc b \<notin> good_in C d l b"
  by (simp add: good_in_def)

lemma good_in_0 [simp]: "good_in C d (Suc 0) 0 = {}"
  by (auto simp: good_in_def)

lemma finite_good_in [simp]: "finite (good_in C d l b)"
  by (rule finite_subset[of _ "{..b}"]) (auto simp: good_in_def)

lemma good_in_array: "same_array d d' \<Longrightarrow> good_in C d' l b = good_in C d l b"
  by (simp add: good_in_def marked_same_array)

definition scanned :: "nand_cfg \<Rightarrow> nand_dev \<Rightarrow> nat \<Rightarrow> nat \<Rightarrow> nat \<Rightarrow> bool" where
  "scanned C d b k l \<longleftrightarrow> (if k \<le> card (good_in C d 1 b) then l \<in> good_in C d 1 b \<and> card (good_in C d l b) = k else l = 0)"

lemma scanned_skip:
  assumes "scanned C d b k l" "block_marked C d (Suc b) BAD_BLOCK_RAW"
  shows "scanned C d (Suc b) k l"
  using assms(1) unfolding scanned_def good_in_Suc(1)[OF assms(2)] .

lemma scanned_count:
  assumes "scanned C d b k l" "\<not> block_marked C d (Suc b) BAD_BLOCK_RAW"
  shows "scanned C d (Suc b) (Suc k) l"
proof -
  have "l \<in> good_in C d 1 b \<Longrightarrow> l \<le> Suc b" by (simp add: good_in_def)
  then show ?thesis
    using assms(1) good_in_Suc(2)[OF assms(2), of 1] good_in_Suc(2)[OF assms(2), of l]
    by (simp add: scanned_def split: if_splits)
qed

lemma pool_scan_spec:
  assumes "wf_dev C d" "b < block_total C" "unat valid < unat need" "pool_scan C b valid need d = (l, d')"
  shows "same_array d d' \<and> wf_dev C d' \<and> scanned C d b (unat need - unat valid) l"
  using assms
proof (induction b arbitrary: valid d)
  case 0
  then show ?case by (auto simp: same_array_def scanned_def)
next
  case (Suc b)
  obtain r d1 where chk: "en7512_nand_check_block_bad C (Suc b * erase_size C) False d = (r, d1)" by force
  have d1: "same_array d d1" "wf_dev C d1" "r \<noteq> 0 \<longleftrightarrow> block_marked C d (Suc b) False"
    using check_block_bad_array[of d C "Suc b * erase_size C" False] check_block_bad_wf[OF Suc.prems(1)]
      check_block_bad_spec[OF Suc.prems(1,2), of False] chk by (metis fst_conv snd_conv)+
  have sc: "scanned C d1 b k l = scanned C d b k l" for k by (simp add: scanned_def good_in_array[OF d1(1)])
  have tr: "same_array d1 d' \<Longrightarrow> same_array d d'" using d1(1) by (simp add: same_array_def)
  have uv: "unat (valid + 1) = unat valid + 1" using Suc.prems(3) unat_u16_lt[of need] by (simp add: unat_word_ariths del: unat_u16_lt)
  note run = Suc.prems(4)[unfolded pool_scan.simps Let_def chk prod.case]
  consider (bad) "r \<noteq> 0" | (stop) "r = 0" "valid + 1 = need" | (go) "r = 0" "valid + 1 \<noteq> need" by blast
  then show ?case
  proof cases
    case bad
    with run have "pool_scan C b valid need d1 = (l, d')" by simp
    from Suc.IH[OF d1(2) _ Suc.prems(3) this] show ?thesis using Suc.prems(2) bad d1(3) tr scanned_skip sc by simp
  next
    case stop
    then have l: "l = Suc b" "d' = d1" "unat need - unat valid = 1" using run uv by auto
    have "good_in C d (Suc b) (Suc b) = {Suc b}" using d1(3) stop by (auto simp: good_in_def)
    moreover have "1 \<le> card (good_in C d 1 (Suc b))" "Suc b \<in> good_in C d 1 (Suc b)"
      using d1(3) stop good_in_Suc(2)[of C d b 1] by (auto simp: card_insert_if)
    ultimately show ?thesis using l d1 by (simp add: scanned_def)
  next
    case go
    then have lt: "unat (valid + 1) < unat need" using uv Suc.prems(3) by (metis Suc_eq_plus1 Suc_leI le_neq_implies_less word_unat_eq_iff)
    from go run have "pool_scan C b (valid + 1) need d1 = (l, d')" by simp
    from Suc.IH[OF d1(2) _ lt this] show ?thesis
      using Suc.prems(2,3) go d1(3) tr scanned_count[of C d b "unat need - unat (valid + 1)" l] sc uv lt
      by (auto simp: Suc_diff_Suc)
  qed
qed

text \<open>
  The pool that calc\_bmt\_pool\_size reserves at the end of the chip begins with
  a block that is good by its raw mark and holds exactly 8 per cent of the
  chip's block count in good blocks, provided the chip has that many.
\<close>

lemma calc_bmt_pool_size_counts_good_blocks:
  assumes "wf_dev C (dev s)" and "calc_bmt_pool_size C s = (pool_size, maximum, s')"
    and "0 < block_total C * 8 div 100" and "block_total C * 8 div 100 < 2 ^ 16"
    and "block_total C * 8 div 100 \<le> card (good_in C (dev s) 1 (block_total C - 1))"
  shows "\<not> block_marked C (dev s) (block_total C - pool_size) BAD_BLOCK_RAW
     \<and> card (good_in C (dev s) (block_total C - pool_size) (block_total C - 1)) = block_total C * 8 div 100
     \<and> pool_size < block_total C \<and> maximum = block_total C div 8"
proof -
  define m where "m = block_total C * 8 div 100"
  note m = assms(3-5)[folded m_def]
  obtain l d where sc: "pool_scan C (block_total C - 1) 0 (of_nat m) (dev s) = (l, d)" by force
  have un: "unat (of_nat m :: u16) = m" using m(2) by (intro unat_of_nat_small) simp
  have "0 < block_total C" using m(1) by (cases "block_total C") (auto simp: m_def)
  then have "scanned C (dev s) (block_total C - 1) m l"
    using pool_scan_spec[OF assms(1) _ _ sc] m(1) by (simp add: un)
  then have l: "l \<in> good_in C (dev s) 1 (block_total C - 1)" "card (good_in C (dev s) l (block_total C - 1)) = m"
    using m(3) by (simp_all add: scanned_def)
  have ps: "pool_size = block_total C - l" "maximum = block_total C div 8"
    using assms(2) sc unfolding calc_bmt_pool_size_def Let_def block_total_def[symmetric] m_def[symmetric] by auto
  have "block_total C - pool_size = l" "pool_size < block_total C"
    using l(1) ps(1) by (auto simp: good_in_def)
  with l ps show ?thesis unfolding m_def by (simp add: good_in_def)
qed

text \<open>The demonstration chip with 128 blocks.\<close>

definition demo128 :: nand_cfg where "demo128 = demo_cfg\<lparr>chip_shift := 18\<rparr>"

lemma demo128_wf: "wf_dev demo128 demo_dev" "block_total demo128 = 128"
  "good_in demo128 demo_dev 1 127 = {1..127}"
  by (simp_all add: wf_dev_defs wf_faults_def demo_dev_def demo_cfg_def demo128_def page_size_def erase_size_def
      oob_size_def block_total_def device_size_def wf_cfg_def)
    (auto simp: good_in_def block_marked_def demo_dev_def mark_byte_def)

lemma calc_bmt_pool_size_counts_good_blocks_witness:
  "\<exists>pool_size s'. calc_bmt_pool_size demo128 demo_globals = (pool_size, 16, s')
     \<and> card (good_in demo128 demo_dev (128 - pool_size) 127) = 10"
proof -
  obtain p m s' where c: "calc_bmt_pool_size demo128 demo_globals = (p, m, s')" by (metis prod_cases3)
  have d: "dev demo_globals = demo_dev" by (simp add: demo_globals_def)
  show ?thesis using calc_bmt_pool_size_counts_good_blocks[of demo128 demo_globals, OF _ c] demo128_wf c by (simp add: d)
qed

section \<open>Reading, writing and erasing\<close>

lemma demo_rw_inv: "rw_inv demo_cfg demo_globals"
proof -
  have "create_badblock_table_by_bbt 2 (init_bbt demo_globals) = [0, 1]"
    by (simp add: create_badblock_table_by_bbt_def demo_globals_def upt_rec)
  moreover have "ascending_bbt 2 (init_bbt demo_globals)"
    by (simp add: ascending_bbt_def demo_globals_def wf_bbt_def raw_bad_blocks_def)
  moreover have "bmt_inv 2 4 (bmt demo_globals)" by (simp add: bmt_inv_def live_entries_def demo_globals_def)
  ultimately show ?thesis using demo_dev_wf by (simp add: rw_inv_def) (simp add: demo_globals_def)
qed

lemma demo_clean: "reads_clean demo_cfg" "writes_clean demo_cfg" "erases_clean demo_cfg"
  by (simp_all add: reads_clean_def reads_ok_def writes_clean_def erases_clean_def demo_cfg_def)

lemma demo_logic_size: "logic_size demo_cfg demo_globals = 4096"
  by (simp add: logic_size_def logic_blocks_def) (simp add: demo_globals_def)

text \<open>
  C27 nandflash\_read of a range inside the logical area returns, on a chip without
  read faults, exactly the bytes stored behind that range, and changes
  neither the tables nor the flash: only the page cache and the clock move.
\<close>

theorem nandflash_read_returns_logical_bytes:
  assumes "rw_inv C s" and "reads_clean C" and "unat from + unat len \<le> logic_size C s" and "unat len \<le> length buf"
  shows "\<exists>s'. nandflash_read C from len buf st s
       = (0, RTN_NO_ERROR, logical_bytes C s (unat from) (unat len) @ drop (unat len) buf, s')
     \<and> rw_inv C s' \<and> flash_byte C s' = flash_byte C s \<and> same_tables s s'"
  using nandflash_read_ok[OF assms] same_flash_bytes(1) by (fastforce simp: same_flash_def memcpy_def)

theorem nandflash_read_returns_logical_bytes_witness:
  "\<exists>s'. nandflash_read demo_cfg 100 2000 (replicate 2048 0) RTN_TIMEOUT demo_globals
       = (0, RTN_NO_ERROR, logical_bytes demo_cfg demo_globals 100 2000 @ replicate 48 0, s')"
  using nandflash_read_returns_logical_bytes[OF demo_rw_inv demo_clean(1), of 100 2000 "replicate 2048 0" RTN_TIMEOUT]
  by (auto simp: demo_logic_size)

text \<open>
  C21 nandflash\_write at a page boundary ANDs the data into the bytes it addresses
  and leaves every other byte of the logical area as it was, also those of the
  rest of the last page.
\<close>

theorem nandflash_write_changes_only_its_range:
  assumes "rw_inv C s" and "writes_clean C" and "unat to + unat len \<le> logic_size C s"
    and "unat to mod page_size C = 0" and "unat len \<le> length buf"
  shows "\<exists>s'. nandflash_write fuel C to len buf s = Inr (0, s') \<and> rw_inv C s' \<and> same_tables s s'
     \<and> (\<forall>x < logic_size C s. flash_byte C s' x =
          (if unat to \<le> x \<and> x < unat to + unat len then flash_byte C s x AND buf ! (x - unat to) else flash_byte C s x))"
  using nandflash_write_ok[OF assms, of fuel] assms(5) by (auto simp: wrote_def min_def)

theorem nandflash_write_changes_only_its_range_witness:
  "\<exists>s'. nandflash_write 0 demo_cfg 1024 1100 (replicate 2048 7) demo_globals = Inr (0, s')
     \<and> flash_byte demo_cfg s' 2123 = flash_byte demo_cfg demo_globals 2123 AND 7
     \<and> flash_byte demo_cfg s' 2124 = flash_byte demo_cfg demo_globals 2124"
  using nandflash_write_changes_only_its_range[OF demo_rw_inv demo_clean(2), of 1024 1100 "replicate 2048 7" 0]
  by (fastforce simp: demo_logic_size)

text \<open>
  C28 nandflash\_erase from a block boundary returns after len / erase\_size rounded up
  iterations (one more gives the final test), sets those logical blocks to 0xFF
  and leaves every other logical byte as it was.
\<close>

theorem nandflash_erase_wipes_blocks:
  assumes "rw_inv C s" and "erases_clean C" and "unat addr mod erase_size C = 0"
    and "k = (unat len + erase_size C - 1) div erase_size C"
    and "unat addr + k * erase_size C \<le> logic_size C s" and "k < n"
  shows "\<exists>s'. nandflash_erase n fuel C addr len s = Inr (0, s') \<and> rw_inv C s' \<and> same_tables s s'
     \<and> (\<forall>x < logic_size C s. flash_byte C s' x =
          (if unat addr \<le> x \<and> x < unat addr + k * erase_size C then 0xFF else flash_byte C s x))"
  using nandflash_erase_ok[OF assms(1-3) round_up_bounds[OF sizes_pos(2) assms(4)] assms(5,6), of fuel]
  by (auto simp: wiped_def)

theorem nandflash_erase_wipes_blocks_witness:
  "\<exists>s'. nandflash_erase 3 0 demo_cfg 0 2049 demo_globals = Inr (0, s') \<and> flash_byte demo_cfg s' 4095 = 0xFF"
  using nandflash_erase_wipes_blocks[OF demo_rw_inv demo_clean(3), of 0 2 2049 3 0]
  by (fastforce simp: demo_logic_size)

section \<open>Outside the well-behaved cases\<close>

lemma erase_loop_wrapped:
  assumes "erases_clean C" and "10 \<le> erase_shift C" and "even e"
  shows "erase_loop n fuel C a (-1) e rtn s = Inl OutOfFuel"
  using assms(3)
proof (induction n arbitrary: a e rtn s)
  case (Suc n)
  have "e \<noteq> -1" using Suc.prems by auto
  then have lt: "e < -1" using word_order.not_eq_extremum by blast
  obtain st s1 where run: "erase_block_s C (fst (map_block s (unat a div erase_size C))) s = (st, s1)" by force
  have st: "st = RTN_NO_ERROR"
    using run assms(1) by (auto simp: erase_block_s_def spi_nand_erase_block_def erases_clean_def split: prod.splits)
  have "even (of_nat (erase_size C) :: u32)" using assms(2) by (simp add: erase_size_def)
  then have "even (e + of_nat (erase_size C))" using Suc.prems by simp
  then show ?case using Suc.IH lt run st by (simp add: Let_def)
qed simp

text \<open>
  The range check adds address and length as 32-bit words. A request whose end
  wraps around therefore passes it; an erase of length 2\^32 - 1 from any block boundary
  above 0 is accepted and its loop, whose counter only takes multiples of the block
  size, never reaches the length: the call erases block after block and does not return.
\<close>

lemma wrapped_erase_never_returns:
  assumes "wf_cfg C" and "erases_clean C" and "unat addr mod erase_size C = 0" and "0 < unat addr"
    and "unat addr \<le> device_size C"
  shows "nandflash_erase n fuel C addr (-1) s = Inl OutOfFuel"
proof -
  have "addr \<noteq> 0" using assms(4) by auto
  then have "unat (addr - 1) = unat addr - 1" by (simp add: unat_minus_one)
  then have "spi_nand_boundary_check C addr (-1) = RTN_NO_ERROR"
    using assms(5) by (simp add: spi_nand_boundary_check_def)
  then show ?thesis
    using aligned_check_iff[OF assms(1), of addr "-1"] assms(3) erase_loop_wrapped[OF assms(2)] assms(1)
    by (simp add: nandflash_erase_def spi_nand_erase_internal_def wf_cfg_def)
qed

lemma wrapped_erase_never_returns_witness:
  "nandflash_erase 1000000 0 demo_cfg 2048 (-1) demo_globals = Inl OutOfFuel"
  using wrapped_erase_never_returns[OF demo_cfg_wf(1) demo_clean(3), of 2048] by simp

text \<open>
  spi\_nand\_write\_page fills its buffer with 0xFF from index data\_len on, not from the
  end of the data. For data that does not start at the page's beginning this
  overwrites the data itself: nothing that was to be stored at or after
  index data\_len survives, so with an offset of at least the length all of it is lost.
\<close>

lemma write_page_buffer_unaligned_loses_data:
  assumes "length cache = page_size C" and "dat \<noteq> []" and "off + length dat \<le> page_size C"
  shows "drop (length dat) (write_page_buffer C cache off dat) = replicate (page_size C - length dat) 0xFF
     \<and> (length dat \<le> off \<longrightarrow> slice off (length dat) (write_page_buffer C cache off dat) = replicate (length dat) 0xFF)"
proof -
  have e: "write_page_buffer C cache off dat
      = take (length dat) (memcpy cache off dat) @ replicate (page_size C - length dat) 0xFF"
    using assms by (simp add: write_page_buffer_def memset_def) (simp add: memcpy_def)
  have l: "length (take (length dat) (memcpy cache off dat)) = length dat"
    using length_memcpy[of off dat cache] assms(1,3) by simp
  have "slice off (length dat) (write_page_buffer C cache off dat) = replicate (length dat) 0xFF" if "length dat \<le> off"
    unfolding e slice_def drop_append l using that assms(3) l by (simp add: min_def)
  then show ?thesis using l by (simp add: e)
qed

lemma write_page_buffer_unaligned_loses_data_witness:
  "slice 8 3 (write_page_buffer demo_cfg (replicate 1024 0) 8 [1, 2, 3]) = replicate 3 0xFF"
  using write_page_buffer_unaligned_loses_data[of "replicate 1024 0" demo_cfg "[1, 2, 3]" 8]
  by (simp add: numeral_3_eq_3)

end
