(* ===== verification/Flashhal.thy ===== *)
theory Flashhal
  imports Nand_Logical
begin

text \<open>
  The flash abstraction layer (drivers/misc/ecnt/flash/flashhal.c): flash\_read,
  flash\_write and flash\_erase dispatch on the boot straps to the eMMC, the NAND or
  the SPI NOR driver; flash\_partial\_write replaces bytes inside one block and
  flash\_erase\_non\_block erases a range that need not be block aligned.

  The NAND driver is the model of Nand\_Rw. The eMMC and the SPI NOR drivers talk
  to hardware; their entry points are functions of the environment, which act
  on a state of their own. Addresses and lengths are 32-bit words.
\<close>

section \<open>Environment and state\<close>

record 'm hal_env =
  isEMMC :: bool
  IS_NANDFLASH :: bool
  IS_SPIFLASH :: bool
  nand_conf :: nand_cfg
  upd_fuel :: nat
  erase_bound :: nat
  MMC_BLOCK_SIZE :: nat
  mmc_block_read :: "u32 \<Rightarrow> 'm \<Rightarrow> int \<times> bytes \<times> 'm"
  mmc_block_write :: "u32 \<Rightarrow> u32 \<Rightarrow> bytes \<Rightarrow> 'm \<Rightarrow> u32 \<times> 'm"
  mmc_block_erase :: "u32 \<Rightarrow> u32 \<Rightarrow> 'm \<Rightarrow> u32 \<times> 'm"
  spiflash_read :: "u32 \<Rightarrow> u32 \<Rightarrow> 'm \<Rightarrow> int \<times> bytes \<times> 'm"
  spiflash_write :: "u32 \<Rightarrow> u32 \<Rightarrow> bytes \<Rightarrow> 'm \<Rightarrow> int \<times> 'm"
  spiflash_erase :: "u32 \<Rightarrow> u32 \<Rightarrow> 'm \<Rightarrow> int \<times> 'm"
  mtd_offset :: u32
  mtd_erasesize :: nat
  malloc_ok :: "nat \<Rightarrow> bool"

record 'm hal_state =
  nand :: bmt_globals
  other_dev :: 'm
  block_buf :: bytes

section \<open>Reading\<close>

text \<open>
  The loop over whole eMMC blocks: count blocks from index idx, copied to
  position pos of the caller's buffer through block\_buf.
\<close>

fun emmc_read_blocks :: "'m hal_env \<Rightarrow> nat \<Rightarrow> u32 \<Rightarrow> nat \<Rightarrow> bytes \<Rightarrow> 'm hal_state \<Rightarrow> bool \<times> bytes \<times> 'm hal_state" where
  "emmc_read_blocks E 0 idx pos buf h = (True, buf, h)"
| "emmc_read_blocks E (Suc count) idx pos buf h =
    (let (st, dat, m) = mmc_block_read E idx (other_dev h);
         h1 = h\<lparr>other_dev := m, block_buf := memcpy (block_buf h) 0 dat\<rparr>
     in if st \<noteq> 0 then (False, buf, h1)
        else emmc_read_blocks E count (idx + 1) (pos + MMC_BLOCK_SIZE E)
               (memcpy buf pos (take (MMC_BLOCK_SIZE E) (block_buf h1))) h1)"

text \<open>One block of which n bytes from offset are wanted: the first and the last piece.\<close>

definition emmc_read_piece :: "'m hal_env \<Rightarrow> u32 \<Rightarrow> nat \<Rightarrow> nat \<Rightarrow> nat \<Rightarrow> bytes \<Rightarrow> 'm hal_state \<Rightarrow> bool \<times> bytes \<times> 'm hal_state" where
  "emmc_read_piece E idx offset n pos buf h =
    (let (st, dat, m) = mmc_block_read E idx (other_dev h);
         h1 = h\<lparr>other_dev := m, block_buf := memcpy (block_buf h) 0 dat\<rparr>
     in if st \<noteq> 0 then (False, buf, h1)
        else (True, memcpy buf pos (slice offset n (block_buf h1)), h1))"

definition emmc_flash_read :: "'m hal_env \<Rightarrow> u32 \<Rightarrow> u32 \<Rightarrow> bytes \<Rightarrow> 'm hal_state \<Rightarrow> int \<times> bytes \<times> 'm hal_state" where
  "emmc_flash_read E from len buf h =
    (let bs = of_nat (MMC_BLOCK_SIZE E) :: u32;
         offset = from mod bs;
         n1 = (if offset \<noteq> 0 then (if len < bs - offset then len else bs - offset) else 0);
         (ok1, buf1, h1) = (if offset \<noteq> 0
            then emmc_read_piece E (from div bs) (unat offset) (unat n1) 0 buf h else (True, buf, h))
     in if \<not> ok1 then (-1, buf1, h1)
        else let from1 = from + n1; remain1 = len - n1;
                 start = from1 div bs; stop = (from1 + remain1) div bs;
                 count = (if remain1 \<noteq> 0 \<and> remain1 \<ge> bs then unat stop - unat start else 0);
                 (ok2, buf2, h2) = emmc_read_blocks E count start (unat n1) buf1 h1
             in if \<not> ok2 then (-1, buf2, h2)
                else let done2 = of_nat count * bs; from2 = from1 + done2; remain2 = remain1 - done2
                     in if remain2 = 0 then (0, buf2, h2)
                        else let (ok3, buf3, h3) = emmc_read_piece E (from2 div bs) 0 (unat remain2)
                                   (unat (n1 + done2)) buf2 h2
                             in (if ok3 then 0 else -1, buf3, h3))"

definition flash_read :: "'m hal_env \<Rightarrow> u32 \<Rightarrow> u32 \<Rightarrow> bytes \<Rightarrow> 'm hal_state \<Rightarrow> int \<times> bytes \<times> 'm hal_state" where
  "flash_read E from len buf h =
    (if isEMMC E then emmc_flash_read E from len buf h
     else if IS_NANDFLASH E then
       let (r, st, buf', s) = nandflash_read (nand_conf E) from len buf RTN_NO_ERROR (nand h)
       in (r, buf', h\<lparr>nand := s\<rparr>)
     else if IS_SPIFLASH E then
       let (r, dat, m) = spiflash_read E from len (other_dev h)
       in (r, memcpy buf 0 dat, h\<lparr>other_dev := m\<rparr>)
     else (-1, buf, h))"

section \<open>Erasing and writing\<close>

text \<open>The eMMC branches round the end of the range up to a block and assert that its start is aligned.\<close>

definition emmc_block_count :: "'m hal_env \<Rightarrow> u32 \<Rightarrow> u32 \<Rightarrow> u32" where
  "emmc_block_count E a len =
    (let bs = of_nat (MMC_BLOCK_SIZE E)
     in (a + len) div bs + (if (a + len) mod bs \<noteq> 0 then 1 else 0) - a div bs)"

definition flash_erase :: "'m hal_env \<Rightarrow> u32 \<Rightarrow> u32 \<Rightarrow> 'm hal_state \<Rightarrow> fault + int \<times> 'm hal_state" where
  "flash_erase E addr sz h =
    (if isEMMC E then
       if addr mod of_nat (MMC_BLOCK_SIZE E) \<noteq> 0 then Inl AssertFailed
       else let blkcnt = emmc_block_count E addr sz;
                (r, m) = mmc_block_erase E (addr div of_nat (MMC_BLOCK_SIZE E)) blkcnt (other_dev h)
            in Inr (if r \<noteq> blkcnt then -1 else 0, h\<lparr>other_dev := m\<rparr>)
     else if IS_NANDFLASH E then
       res_bind (nandflash_erase (erase_bound E) (upd_fuel E) (nand_conf E) addr sz (nand h))
         (\<lambda>(r, s). Inr (r, h\<lparr>nand := s\<rparr>))
     else if IS_SPIFLASH E then
       let (r, m) = spiflash_erase E addr sz (other_dev h) in Inr (r, h\<lparr>other_dev := m\<rparr>)
     else Inr (-1, h))"

definition flash_write :: "'m hal_env \<Rightarrow> u32 \<Rightarrow> u32 \<Rightarrow> bytes \<Rightarrow> 'm hal_state \<Rightarrow> fault + int \<times> 'm hal_state" where
  "flash_write E to len buf h =
    (if isEMMC E then
       if to mod of_nat (MMC_BLOCK_SIZE E) \<noteq> 0 then Inl AssertFailed
       else let blkcnt = emmc_block_count E to len;
                (r, m) = mmc_block_write E (to div of_nat (MMC_BLOCK_SIZE E)) blkcnt buf (other_dev h)
            in Inr (if r \<noteq> blkcnt then -1 else 0, h\<lparr>other_dev := m\<rparr>)
     else if IS_NANDFLASH E then
       res_bind (nandflash_write (upd_fuel E) (nand_conf E) to len buf (nand h))
         (\<lambda>(r, s). Inr (r, h\<lparr>nand := s\<rparr>))
     else if IS_SPIFLASH E then
       let (r, m) = spiflash_write E to len buf (other_dev h) in Inr (r, h\<lparr>other_dev := m\<rparr>)
     else Inr (-1, h))"

section \<open>Replacing bytes inside a block\<close>

text \<open>
  The block is read into block\_buf, erased, and written back with the new
  bytes. On the eMMC flash\_read itself uses block\_buf as scratch space; reading one
  aligned block into it leaves that block there.
\<close>

definition flash_partial_write :: "'m hal_env \<Rightarrow> u32 \<Rightarrow> u32 \<Rightarrow> bytes \<Rightarrow> 'm hal_state \<Rightarrow> fault + int \<times> 'm hal_state" where
  "flash_partial_write E to0 len buf h =
    (if \<not> (isEMMC E \<or> IS_NANDFLASH E \<or> IS_SPIFLASH E) then Inr (-1, h)
     else
       let to = (if \<not> isEMMC E \<and> \<not> IS_NANDFLASH E then to0 AND NOT (mtd_offset E) else to0);
           erasesize = of_nat (if isEMMC E then MMC_BLOCK_SIZE E
                               else if IS_NANDFLASH E then erase_size (nand_conf E) else mtd_erasesize E) :: u32;
           block_offset_addr = to mod erasesize;
           block_start_addr = to - block_offset_addr
       in if erasesize < block_offset_addr + len then Inr (-1, h)
          else if length (block_buf h) < unat erasesize then Inl OutOfBounds
          else let h0 = h\<lparr>block_buf := replicate (length (block_buf h)) 0\<rparr>;
                   (r, bb, h1) = flash_read E block_start_addr erasesize (block_buf h0) h0;
                   h2 = h1\<lparr>block_buf := bb\<rparr>
               in if r \<noteq> 0 then Inr (-1, h2)
                  else res_bind (flash_erase E block_start_addr erasesize h2) (\<lambda>(re, h3).
                    if re \<noteq> 0 then Inr (-1, h3)
                    else let h4 = h3\<lparr>block_buf := memcpy (block_buf h3) (unat block_offset_addr) (take (unat len) buf)\<rparr>
                         in res_bind (flash_write E block_start_addr erasesize (block_buf h4) h4) (\<lambda>(rw, h5).
                           Inr (if rw \<noteq> 0 then -1 else 0, h5))))"

section \<open>Erasing an unaligned range\<close>

text \<open>
  save\_piece reads the bytes next to the range that share its first or last block; None
  stands for a failed allocation or read.
\<close>

definition save_piece :: "'m hal_env \<Rightarrow> u32 \<Rightarrow> u32 \<Rightarrow> 'm hal_state \<Rightarrow> bytes option \<times> 'm hal_state" where
  "save_piece E a n h =
    (if \<not> malloc_ok E (unat n) then (None, h)
     else let (r, b, h1) = flash_read E a n (replicate (unat n) 0) h in (if r \<noteq> 0 then None else Some b, h1))"

definition restore_piece :: "'m hal_env \<Rightarrow> u32 \<Rightarrow> u32 \<Rightarrow> bytes \<Rightarrow> 'm hal_state \<Rightarrow> fault + int \<times> 'm hal_state" where
  "restore_piece E a n b h = (if n \<noteq> 0 then flash_write E a n b h else Inr (0, h))"

text \<open>
  start keeps its initial value 0 when addr is block aligned, and it is start, not
  addr, that is erased when there is a tail to keep.
\<close>

definition flash_erase_non_block :: "'m hal_env \<Rightarrow> u32 \<Rightarrow> u32 \<Rightarrow> 'm hal_state \<Rightarrow> fault + int \<times> 'm hal_state" where
  "flash_erase_non_block E addr sz h =
    (if \<not> (IS_NANDFLASH E \<or> isEMMC E) then Inr (-1, h)
     else
       let esz = of_nat (if IS_NANDFLASH E then erase_size (nand_conf E) else MMC_BLOCK_SIZE E) :: u32;
           add_head_size = addr mod esz;
           start = (if add_head_size \<noteq> 0 then addr - add_head_size else 0);
           (hd, h1) = (if add_head_size \<noteq> 0 then save_piece E start add_head_size h else (Some [], h))
       in case hd of None \<Rightarrow> Inr (-1, h1)
        | Some p_head_buf \<Rightarrow>
          let temp = (addr + sz) mod esz;
              end_addr = (if temp \<noteq> 0 then addr + sz else 0);
              add_tail_size = (if temp \<noteq> 0 then esz - temp else 0);
              (tl, h2) = (if temp \<noteq> 0 then save_piece E end_addr add_tail_size h1 else (Some [], h1))
          in case tl of None \<Rightarrow> Inr (-1, h2)
           | Some p_tail_buf \<Rightarrow>
             if add_head_size = 0 \<and> add_tail_size = 0 then flash_erase E addr sz h2
             else res_bind (flash_erase E start (sz + add_head_size + add_tail_size) h2) (\<lambda>(re, h3).
               if re \<noteq> 0 then Inr (-1, h3)
               else res_bind (restore_piece E start add_head_size p_head_buf h3) (\<lambda>(rh, h4).
                 if rh \<noteq> 0 then Inr (-1, h4)
                 else res_bind (restore_piece E end_addr add_tail_size p_tail_buf h4) (\<lambda>(rt, h5).
                   Inr (if rt \<noteq> 0 then -1 else 0, h5)))))"

section \<open>Reading an image\<close>

text \<open>
  Images come from the flash or, when image\_read\_mode is set, from memory at
  CONFIG\_RAMFS\_BASE, of which ram gives the bytes.
\<close>

definition image_read :: "'m hal_env \<Rightarrow> bool \<Rightarrow> (nat \<Rightarrow> u8) \<Rightarrow> bool \<Rightarrow> u32 \<Rightarrow> u32 \<Rightarrow> bytes \<Rightarrow> 'm hal_state
    \<Rightarrow> int \<times> bytes \<times> 'm hal_state" where
  "image_read E image_read_mode ram retlen_null from len buf h =
    (if \<not> image_read_mode then (if \<not> retlen_null then flash_read E from len buf h else (-1, buf, h))
     else (0, memcpy buf 0 (map (\<lambda>i. ram (unat from + i)) [0..<unat len]), h))"

end
