(* ===== verification/Flash_Interface.thy ===== *)
theory Flash_Interface
  imports Prelude
begin

text \<open>
  What the rest of the bootloader relies on when it uses the flash: a byte
  array of fixed capacity that can be read anywhere, whose blocks are erased to
  0xFF, and into which writes at page boundaries AND their data. frame stands for
  the part of the state that the three operations leave alone.
\<close>

locale byte_flash =
  fixes ok :: "'s \<Rightarrow> bool" and byte :: "'s \<Rightarrow> nat \<Rightarrow> u8" and cap :: "'s \<Rightarrow> nat" and frame :: "'s \<Rightarrow> 'f"
    and bs :: nat and ps :: nat
    and rd :: "u32 \<Rightarrow> u32 \<Rightarrow> bytes \<Rightarrow> 's \<Rightarrow> int \<times> bytes \<times> 's"
    and er :: "u32 \<Rightarrow> u32 \<Rightarrow> 's \<Rightarrow> fault + int \<times> 's"
    and wr :: "u32 \<Rightarrow> u32 \<Rightarrow> bytes \<Rightarrow> 's \<Rightarrow> fault + int \<times> 's"
  assumes block_pos: "0 < bs" and page_dvd: "ok s \<Longrightarrow> ps dvd bs"
    and rd_ok: "ok s \<Longrightarrow> unat a + unat n \<le> cap s \<Longrightarrow> unat n \<le> length buf \<Longrightarrow>
      \<exists>s'. rd a n buf s = (0, memcpy buf 0 (map (byte s) [unat a..<unat a + unat n]), s')
        \<and> ok s' \<and> byte s' = byte s \<and> cap s' = cap s \<and> frame s' = frame s"
    and er_ok: "ok s \<Longrightarrow> unat a mod bs = 0 \<Longrightarrow> unat a + round_up bs (unat n) \<le> cap s \<Longrightarrow>
      \<exists>s'. er a n s = Inr (0, s') \<and> ok s' \<and> cap s' = cap s \<and> frame s' = frame s
        \<and> (\<forall>x < cap s. byte s' x = (if unat a \<le> x \<and> x < unat a + round_up bs (unat n) then 0xFF else byte s x))"
    and wr_ok: "ok s \<Longrightarrow> unat a mod ps = 0 \<Longrightarrow> unat a + unat n \<le> cap s \<Longrightarrow> unat n \<le> length buf \<Longrightarrow>
      \<exists>s'. wr a n buf s = Inr (0, s') \<and> ok s' \<and> cap s' = cap s \<and> frame s' = frame s
        \<and> (\<forall>x < cap s. byte s' x = (if unat a \<le> x \<and> x < unat a + unat n then byte s x AND buf ! (x - unat a) else byte s x))"
begin

lemma block_page_aligned: "ok s \<Longrightarrow> a mod bs = 0 \<Longrightarrow> a mod ps = 0"
  using page_dvd by (meson dvd_eq_mod_eq_0 dvd_trans)

text \<open>Writing into erased bytes stores the data.\<close>

lemma wr_erased:
  assumes "ok s" "unat a mod ps = 0" "unat a + unat n \<le> cap s" "unat n \<le> length buf"
    and ff: "\<And>x. unat a \<le> x \<Longrightarrow> x < unat a + unat n \<Longrightarrow> byte s x = 0xFF"
  shows "\<exists>s'. wr a n buf s = Inr (0, s') \<and> ok s' \<and> cap s' = cap s \<and> frame s' = frame s
     \<and> (\<forall>x < cap s. byte s' x = (if unat a \<le> x \<and> x < unat a + unat n then buf ! (x - unat a) else byte s x))"
  using wr_ok[OF assms(1-4)] ff by fastforce

lemma er_blocks:
  assumes "ok s" "unat a mod bs = 0" "unat n mod bs = 0" "unat a + unat n \<le> cap s"
  shows "\<exists>s'. er a n s = Inr (0, s') \<and> ok s' \<and> cap s' = cap s \<and> frame s' = frame s
        \<and> (\<forall>x < cap s. byte s' x = (if unat a \<le> x \<and> x < unat a + unat n then 0xFF else byte s x))"
  using er_ok[OF assms(1,2), of n] assms(4) unfolding round_up_multiple[OF block_pos assms(3)] by fastforce

text \<open>
  Erasing and writing n bytes at a block boundary stores them; what remains of the
  last block is erased and nothing else changes.
\<close>

lemma store_image:
  assumes "ok s" "unat a mod bs = 0" "unat a + round_up bs (unat n) \<le> cap s" "unat n \<le> length buf"
  shows "\<exists>s1 s2. er a n s = Inr (0, s1) \<and> wr a n buf s1 = Inr (0, s2) \<and> ok s2 \<and> cap s2 = cap s \<and> frame s2 = frame s
     \<and> (\<forall>x < cap s. byte s2 x = (if unat a \<le> x \<and> x < unat a + unat n then buf ! (x - unat a)
          else if unat a \<le> x \<and> x < unat a + round_up bs (unat n) then 0xFF else byte s x))"
proof -
  have le: "unat n \<le> round_up bs (unat n)" using block_pos by (rule round_up_ge)
  obtain s1 where e: "er a n s = Inr (0, s1)" "ok s1" "cap s1 = cap s" "frame s1 = frame s"
    "\<And>x. x < cap s \<Longrightarrow> byte s1 x = (if unat a \<le> x \<and> x < unat a + round_up bs (unat n) then 0xFF else byte s x)"
    using er_ok[OF assms(1-3)] by blast
  have "\<exists>s'. wr a n buf s1 = Inr (0, s') \<and> ok s' \<and> cap s' = cap s1 \<and> frame s' = frame s1
     \<and> (\<forall>x < cap s1. byte s' x = (if unat a \<le> x \<and> x < unat a + unat n then buf ! (x - unat a) else byte s1 x))"
    using e assms(3) le by (intro wr_erased[OF e(2) block_page_aligned[OF assms(1,2)] _ assms(4)]) auto
  then show ?thesis using e by auto
qed

lemma rewrite_blocks:
  assumes "ok s" "unat a mod bs = 0" "unat n mod bs = 0" "unat a + unat n \<le> cap s" "unat n \<le> length buf"
  shows "\<exists>s1 s2. er a n s = Inr (0, s1) \<and> wr a n buf s1 = Inr (0, s2) \<and> ok s2 \<and> cap s2 = cap s \<and> frame s2 = frame s
     \<and> (\<forall>x < cap s. byte s2 x = (if unat a \<le> x \<and> x < unat a + unat n then buf ! (x - unat a) else byte s x))"
  using store_image[OF assms(1,2), of n buf] assms(4,5) unfolding round_up_multiple[OF block_pos assms(3)] by fastforce

text \<open>What was stored is what is read.\<close>

lemma rewrite_read:
  assumes "ok s" "unat a mod bs = 0" "unat n mod bs = 0" "unat a + unat n \<le> cap s" "length dat = unat n"
  shows "\<exists>s1 s2 s3. er a n s = Inr (0, s1) \<and> wr a n dat s1 = Inr (0, s2)
     \<and> rd a n (replicate (unat n) 0) s2 = (0, dat, s3) \<and> byte s3 = byte s2"
proof -
  obtain s1 s2 where w: "er a n s = Inr (0, s1)" "wr a n dat s1 = Inr (0, s2)" "ok s2" "cap s2 = cap s"
    "\<And>x. x < cap s \<Longrightarrow> byte s2 x = (if unat a \<le> x \<and> x < unat a + unat n then dat ! (x - unat a) else byte s x)"
    using rewrite_blocks[OF assms(1-4), of dat] assms(5) by auto
  have "map (byte s2) [unat a..<unat a + unat n] = dat"
    using w(4,5) assms(4,5) by (intro nth_equalityI) auto
  then show ?thesis using rd_ok[OF w(3), of a n "replicate (unat n) 0"] w assms(4,5) by fastforce
qed

end

end
