(* ===== verification/Flashhal_Nand.thy ===== *)
theory Flashhal_Nand
  imports Flashhal Flash_Interface
begin

text \<open>
  The flash layer over a NAND chip that reports no fault provides the flash
  interface: the interpretation hal, on which the callers of flash\_read,
  flash\_erase and flash\_write rest.
\<close>

definition nand_env :: "'m hal_env \<Rightarrow> bool" where
  "nand_env E \<longleftrightarrow> IS_NANDFLASH E \<and> \<not> isEMMC E \<and> reads_clean (nand_conf E) \<and> writes_clean (nand_conf E)
     \<and> erases_clean (nand_conf E) \<and> block_total (nand_conf E) < erase_bound E"

definition hal_ok :: "'m hal_env \<Rightarrow> 'm hal_state \<Rightarrow> bool" where
  "hal_ok E h \<longleftrightarrow> nand_env E \<and> rw_inv (nand_conf E) (nand h)"

definition hal_byte :: "'m hal_env \<Rightarrow> 'm hal_state \<Rightarrow> nat \<Rightarrow> u8" where
  "hal_byte E h = flash_byte (nand_conf E) (nand h)"

definition hal_cap :: "'m hal_env \<Rightarrow> 'm hal_state \<Rightarrow> nat" where
  "hal_cap E h = logic_size (nand_conf E) (nand h)"

definition hal_frame :: "'m hal_state \<Rightarrow> 'm \<times> bytes" where
  "hal_frame h = (other_dev h, block_buf h)"

lemmas hal_defs = hal_ok_def hal_byte_def hal_cap_def hal_frame_def

lemma hal_update [simp]:
  "hal_ok E (h\<lparr>block_buf := b\<rparr>) = hal_ok E h" "hal_byte E (h\<lparr>block_buf := b\<rparr>) = hal_byte E h"
  "hal_cap E (h\<lparr>block_buf := b\<rparr>) = hal_cap E h"
  by (simp_all add: hal_defs)

lemma flash_read_nand:
  assumes "hal_ok E h" "unat a + unat n \<le> hal_cap E h" "unat n \<le> length buf"
  shows "\<exists>h'. flash_read E a n buf h = (0, memcpy buf 0 (map (hal_byte E h) [unat a..<unat a + unat n]), h')
     \<and> hal_ok E h' \<and> hal_byte E h' = hal_byte E h \<and> hal_cap E h' = hal_cap E h \<and> hal_frame h' = hal_frame h"
  using nandflash_read_ok[of "nand_conf E" "nand h" a n buf RTN_NO_ERROR] assms same_flash_bytes
  by (fastforce simp: hal_defs nand_env_def flash_read_def same_flash_def logical_bytes_def)

lemma flash_erase_nand:
  assumes "hal_ok E h" "unat a mod erase_size (nand_conf E) = 0"
    and "unat a + round_up (erase_size (nand_conf E)) (unat n) \<le> hal_cap E h"
  shows "\<exists>h'. flash_erase E a n h = Inr (0, h') \<and> hal_ok E h' \<and> hal_cap E h' = hal_cap E h \<and> hal_frame h' = hal_frame h
     \<and> (\<forall>x < hal_cap E h. hal_byte E h' x =
          (if unat a \<le> x \<and> x < unat a + round_up (erase_size (nand_conf E)) (unat n) then 0xFF else hal_byte E h x))"
proof -
  let ?C = "nand_conf E"
  define k where "k = (unat n + erase_size ?C - 1) div erase_size ?C"
  have k: "k * erase_size ?C < unat n + erase_size ?C" "unat n \<le> k * erase_size ?C"
    using round_up_bounds[OF sizes_pos(2) k_def] by auto
  have ru: "round_up (erase_size ?C) (unat n) = k * erase_size ?C" by (simp add: round_up_def k_def)
  have inv: "rw_inv ?C (nand h)" using assms(1) by (simp add: hal_ok_def)
  have "k * erase_size ?C \<le> block_total ?C * erase_size ?C"
    using assms(3) logic_size_le[OF inv] block_total_eq[OF rw_inv_cfg[OF inv]] by (simp add: hal_cap_def ru)
  then have "k \<le> block_total ?C" by simp
  then have "k < erase_bound E" using assms(1) by (simp add: hal_ok_def nand_env_def)
  then obtain s' where s': "nandflash_erase (erase_bound E) (upd_fuel E) ?C a n (nand h) = Inr (0, s')"
      "wiped ?C (nand h) (unat a) (k * erase_size ?C) s'"
    using nandflash_erase_ok[OF inv _ assms(2) k, of "erase_bound E" "upd_fuel E"] assms ru
    by (auto simp: hal_cap_def hal_ok_def nand_env_def)
  then show ?thesis unfolding ru
    using assms(1) same_tables_map(3)[of "nand h" s'] by (auto simp: hal_defs flash_erase_def nand_env_def wiped_def)
qed

lemma flash_write_nand:
  assumes "hal_ok E h" "unat a mod page_size (nand_conf E) = 0" "unat a + unat n \<le> hal_cap E h" "unat n \<le> length buf"
  shows "\<exists>h'. flash_write E a n buf h = Inr (0, h') \<and> hal_ok E h' \<and> hal_cap E h' = hal_cap E h \<and> hal_frame h' = hal_frame h
     \<and> (\<forall>x < hal_cap E h. hal_byte E h' x =
          (if unat a \<le> x \<and> x < unat a + unat n then hal_byte E h x AND buf ! (x - unat a) else hal_byte E h x))"
proof -
  obtain s' where s': "nandflash_write (upd_fuel E) (nand_conf E) a n buf (nand h) = Inr (0, s')"
      "wrote (nand_conf E) (nand h) (unat a) (take (unat n) buf) s'"
    using nandflash_write_ok[of "nand_conf E" "nand h" a n buf "upd_fuel E"] assms by (auto simp: hal_defs nand_env_def)
  then show ?thesis
    using assms same_tables_map(3)[of "nand h" s'] by (auto simp: hal_defs flash_write_def nand_env_def wrote_def min_def)
qed

text \<open>The flash layer on a fault-free NAND provides the flash interface.\<close>

lemma wf_or_not: "hal_ok E h \<Longrightarrow> page_size (nand_conf E) dvd erase_size (nand_conf E)"
  using pages_per_block_eq(1)[OF rw_inv_cfg[of "nand_conf E" "nand h"]] by (simp add: hal_ok_def)

interpretation hal: byte_flash "hal_ok E" "hal_byte E" "hal_cap E" hal_frame
    "erase_size (nand_conf E)" "page_size (nand_conf E)" "flash_read E" "flash_erase E" "flash_write E" for E
proof (unfold_locales, goal_cases)
  case 1 show ?case by simp
next
  case (2 s) then show ?case by (rule wf_or_not)
next
  case (3 s a n buf) then show ?case by (rule flash_read_nand)
next
  case (4 s a n) then show ?case by (rule flash_erase_nand)
next
  case (5 s a n buf) then show ?case by (rule flash_write_nand)
qed

lemma hal_word_facts:
  fixes to :: u32
  assumes "hal_ok E h" "unat to < hal_cap E h"
  defines "bs \<equiv> erase_size (nand_conf E)"
  shows "unat (of_nat bs :: u32) = bs" "unat (to mod of_nat bs) = unat to mod bs"
    "unat (to - to mod of_nat bs) = unat to - unat to mod bs" "unat to div bs * bs + bs \<le> hal_cap E h"
    "hal_cap E h \<le> 2 ^ 30"
proof -
  have inv: "rw_inv (nand_conf E) (nand h)" using assms(1) by (simp add: hal_ok_def)
  have cap: "hal_cap E h = logic_blocks (nand h) * bs" by (simp add: hal_cap_def logic_size_def bs_def)
  show c30: "hal_cap E h \<le> 2 ^ 30" using logic_size_30[OF inv] by (simp add: hal_cap_def)
  have "unat to div bs < logic_blocks (nand h)" using assms(2) unfolding cap by (simp add: less_mult_imp_div_less)
  then have "Suc (unat to div bs) * bs \<le> logic_blocks (nand h) * bs" by (intro mult_le_mono1) simp
  then show le: "unat to div bs * bs + bs \<le> hal_cap E h" by (simp add: cap add.commute)
  then have "bs < 2 ^ 32" using c30 by simp
  then show u: "unat (of_nat bs :: u32) = bs" by simp
  show m: "unat (to mod of_nat bs) = unat to mod bs" unfolding unat_mod u ..
  show "unat (to - to mod of_nat bs) = unat to - unat to mod bs"
    using m by (metis mod_less_eq_dividend unat_sub_if' )
qed

lemma nth_replace_in_block:
  assumes "bs \<le> length z" "off + n \<le> bs" "n \<le> length buf" "a \<le> x" "x < a + bs"
  shows "memcpy (memcpy z 0 (map f [a..<a + bs])) off (take n buf) ! (x - a)
       = (if a + off \<le> x \<and> x < a + off + n then buf ! (x - (a + off)) else f x)"
  using assms by (auto simp: memcpy_def nth_append min_def)

lemma unat_add_le:
  fixes a b c :: "'a::len word"
  assumes "unat a + unat b \<le> unat c" shows "unat (a + b) = unat a + unat b"
proof -
  have "unat a + unat b < 2 ^ LENGTH('a)" using assms unsigned_less[of c] by (metis order_le_less_trans)
  then show ?thesis by (simp add: unat_word_ariths)
qed

section \<open>Replacing bytes inside a block\<close>

lemma flash_partial_write_nand:
  assumes "hal_ok E h" and "unat to mod erase_size (nand_conf E) + unat len \<le> erase_size (nand_conf E)"
    and "unat to < hal_cap E h" and "erase_size (nand_conf E) \<le> length (block_buf h)" and "unat len \<le> length buf"
  shows "\<exists>h'. flash_partial_write E to len buf h = Inr (0, h') \<and> hal_ok E h' \<and> hal_cap E h' = hal_cap E h \<and> length (block_buf h') = length (block_buf h)
     \<and> (\<forall>x < hal_cap E h. hal_byte E h' x =
          (if unat to \<le> x \<and> x < unat to + unat len then buf ! (x - unat to) else hal_byte E h x))"
proof -
  define bs where "bs = erase_size (nand_conf E)"
  let ?off = "to mod of_nat bs :: u32" and ?n = "of_nat bs :: u32"
  let ?st = "to - ?off"
  note w = hal_word_facts[OF assms(1,3), folded bs_def]
  define a where "a = unat to - unat to mod bs"
  have ua: "unat ?st = a" "unat ?n = bs" "unat ?off = unat to mod bs" using w a_def by auto
  have a: "a = unat to div bs * bs" by (simp add: a_def minus_mod_eq_div_mult)
  then have al: "a mod bs = 0" "a + bs \<le> hal_cap E h" "unat to = a + unat to mod bs" using w(4) by (auto simp: a_def)
  have flags: "\<not> isEMMC E" "IS_NANDFLASH E" using assms(1) by (auto simp: hal_ok_def nand_env_def)
  define h0 where "h0 = h\<lparr>block_buf := replicate (length (block_buf h)) 0\<rparr>"
  have h0: "hal_ok E h0" "hal_byte E h0 = hal_byte E h" "hal_cap E h0 = hal_cap E h" "length (block_buf h0) = length (block_buf h)"
    using assms(1) by (simp_all add: h0_def)
  let ?old = "map (hal_byte E h) [a..<a + bs]"
  obtain h1 where h1: "flash_read E ?st ?n (block_buf h0) h0 = (0, memcpy (block_buf h0) 0 ?old, h1)"
      "hal_ok E h1" "hal_byte E h1 = hal_byte E h" "hal_cap E h1 = hal_cap E h"
    using hal.rd_ok[OF h0(1), of ?st ?n "block_buf h0"] assms(4) al(2) unfolding ua h0 bs_def[symmetric] by auto
  define bb where "bb = memcpy (block_buf h0) 0 ?old"
  define h2 where "h2 = h1\<lparr>block_buf := bb\<rparr>"
  obtain h3 where h3: "flash_erase E ?st ?n h2 = Inr (0, h3)" "hal_ok E h3" "hal_cap E h3 = hal_cap E h" "hal_frame h3 = hal_frame h2"
      "\<And>x. x < hal_cap E h \<Longrightarrow> hal_byte E h3 x = (if a \<le> x \<and> x < a + bs then 0xFF else hal_byte E h x)"
    using hal.er_blocks[of E h2 ?st ?n] h1 al unfolding ua bs_def[symmetric] h2_def by (auto simp: ua)
  have bb3: "block_buf h3 = bb" using h3(4) by (simp add: hal_frame_def h2_def)
  define new where "new = memcpy bb (unat to mod bs) (take (unat len) buf)"
  define h4 where "h4 = h3\<lparr>block_buf := new\<rparr>"
  have lbb: "length bb = length (block_buf h)" using assms(4) by (simp add: bb_def bs_def h0)
  have lnew: "bs \<le> length new" using lbb assms(2,4,5) unfolding new_def bs_def[symmetric] by (simp add: min_def)
  obtain h5 where h5: "flash_write E ?st ?n new h4 = Inr (0, h5)" "hal_ok E h5" "hal_cap E h5 = hal_cap E h" "hal_frame h5 = hal_frame h4"
      "\<And>x. x < hal_cap E h \<Longrightarrow> hal_byte E h5 x = (if a \<le> x \<and> x < a + bs then new ! (x - a) else hal_byte E h3 x)"
    using hal.wr_erased[of E h4 ?st ?n new] h3 al lnew hal.block_page_aligned[OF h3(2), folded bs_def, OF al(1)]
    unfolding ua h4_def by (auto simp: ua)
  have "flash_partial_write E to len buf h = Inr (0, h5)"
    using flags assms(2,4) h1(1) h3(1) h5(1) unat_add_le[of ?off len ?n]
    unfolding flash_partial_write_def bs_def[symmetric]
    by (simp add: Let_def word_less_nat_alt ua h0_def[symmetric] bb_def[symmetric] h2_def[symmetric] bb3 new_def[symmetric] h4_def[symmetric])
  moreover have "hal_byte E h5 x = (if unat to \<le> x \<and> x < unat to + unat len then buf ! (x - unat to) else hal_byte E h x)"
    if x: "x < hal_cap E h" for x
    using h5(5)[OF x] h3(5)[OF x] assms(2,5) al(3) h0(4) assms(4)
      nth_replace_in_block[of bs "block_buf h0" "unat to mod bs" "unat len" buf a x "hal_byte E h"]
    unfolding bs_def[symmetric] new_def bb_def by (auto simp: bs_def[symmetric])
  moreover have "length (block_buf h5) = length (block_buf h)"
    using h5(4) lbb assms(2,4,5) unfolding hal_frame_def h4_def new_def bs_def[symmetric] by (simp add: min_def)
  ultimately show ?thesis using h5(2,3) by blast
qed

section \<open>Erasing an unaligned range\<close>

lemma save_piece_ok:
  assumes "hal_ok E h" "unat a + unat n \<le> hal_cap E h" "malloc_ok E (unat n)"
  shows "\<exists>h'. save_piece E a n h = (Some (map (hal_byte E h) [unat a..<unat a + unat n]), h')
     \<and> hal_ok E h' \<and> hal_byte E h' = hal_byte E h \<and> hal_cap E h' = hal_cap E h"
  using hal.rd_ok[OF assms(1,2), of "replicate (unat n) 0"] assms(3) by (auto simp: save_piece_def)

lemma restore_piece_ok:
  assumes "hal_ok E h" "unat a mod page_size (nand_conf E) = 0" "unat a + unat n \<le> hal_cap E h"
  shows "\<exists>h'. restore_piece E a n (map f [unat a..<unat a + unat n]) h = Inr (0, h') \<and> hal_ok E h' \<and> hal_cap E h' = hal_cap E h
     \<and> (\<forall>x < hal_cap E h. hal_byte E h' x =
          (if unat a \<le> x \<and> x < unat a + unat n then hal_byte E h x AND f x else hal_byte E h x))"
proof (cases "n = 0")
  case False
  then show ?thesis
    using hal.wr_ok[OF assms, of "map f [unat a..<unat a + unat n]"] by (auto simp: restore_piece_def)
qed (use assms in \<open>auto simp: restore_piece_def\<close>)

text \<open>The pieces of a range: what shares its first and its last block.\<close>

definition tail_of :: "nat \<Rightarrow> nat \<Rightarrow> nat" where
  "tail_of bs e = (if e mod bs = 0 then 0 else bs - e mod bs)"

lemma tail_of_aligned: assumes "0 < bs" shows "(e + tail_of bs e) mod bs = 0"
proof (cases "e mod bs = 0")
  case False
  have "e mod bs < bs" using assms by simp
  then have "e + (bs - e mod bs) = e div bs * bs + bs" using div_mult_mod_eq[of e bs] by linarith
  then show ?thesis using False by (simp add: tail_of_def)
qed (simp add: tail_of_def)

lemma round_up_le:
  assumes "0 < bs" "e \<le> k * bs" shows "e + tail_of bs e \<le> k * (bs :: nat)"
proof (cases "e mod bs = 0")
  case False
  then have "e \<noteq> k * bs" by auto
  then have "e div bs < k" using assms by (simp add: div_less_iff_less_mult)
  then have "Suc (e div bs) * bs \<le> k * bs" by (intro mult_le_mono1) simp
  moreover have "e mod bs < bs" using assms by simp
  ultimately have "e + (bs - e mod bs) \<le> k * bs" using div_mult_mod_eq[of e bs] unfolding mult_Suc by linarith
  then show ?thesis using False by (simp add: tail_of_def)
qed (use assms in \<open>simp add: tail_of_def\<close>)

lemma hal_block_size:
  assumes "hal_ok E h"
  shows "unat (of_nat (erase_size (nand_conf E)) :: u32) = erase_size (nand_conf E)"
    "unat (w mod of_nat (erase_size (nand_conf E)) :: u32) = unat w mod erase_size (nand_conf E)"
    "erase_size (nand_conf E) dvd hal_cap E h" "hal_cap E h \<le> 2 ^ 30" "erase_size (nand_conf E) \<le> 2 ^ 30"
proof -
  have inv: "rw_inv (nand_conf E) (nand h)" using assms by (simp add: hal_ok_def)
  have "erase_shift (nand_conf E) \<le> chip_shift (nand_conf E)" using rw_inv_cfg[OF inv] by (simp add: wf_cfg_def)
  then have "erase_size (nand_conf E) \<le> device_size (nand_conf E)" by (simp add: erase_size_def device_size_def)
  then show le: "erase_size (nand_conf E) \<le> 2 ^ 30" using device_size_le[OF rw_inv_cfg[OF inv]] by simp
  then show u: "unat (of_nat (erase_size (nand_conf E)) :: u32) = erase_size (nand_conf E)" by simp
  show "unat (w mod of_nat (erase_size (nand_conf E)) :: u32) = unat w mod erase_size (nand_conf E)"
    unfolding unat_mod u ..
  show "erase_size (nand_conf E) dvd hal_cap E h" by (simp add: hal_cap_def logic_size_def)
  show "hal_cap E h \<le> 2 ^ 30" using logic_size_30[OF inv] by (simp add: hal_cap_def)
qed

text \<open>
  The pieces of the range that starts at addr and is sz long, as numbers and as the
  words the code computes: the bytes before it in its first block, its end, the
  bytes after it in its last block, and the address from which is erased.
\<close>

definition head_of :: "nat \<Rightarrow> nat \<Rightarrow> nat" where
  "head_of bs a = a mod bs"

definition erase_from :: "nat \<Rightarrow> nat \<Rightarrow> nat" where
  "erase_from bs a = (if head_of bs a = 0 then 0 else a - head_of bs a)"

lemma pieces_words:
  fixes addr sz :: u32
  assumes ok: "hal_ok E h" and le: "unat addr + unat sz \<le> hal_cap E h"
  defines "bs \<equiv> erase_size (nand_conf E)"
  defines "e \<equiv> unat addr + unat sz"
  shows "unat (addr + sz) = e"
    and "unat (if addr mod of_nat bs \<noteq> 0 then addr - addr mod of_nat bs else 0) = erase_from bs (unat addr)"
    and "unat (if (addr + sz) mod of_nat bs \<noteq> 0 then of_nat bs - (addr + sz) mod of_nat bs else 0) = tail_of bs e"
    and "e + tail_of bs e \<le> hal_cap E h"
    and "unat (sz + addr mod of_nat bs + (if (addr + sz) mod of_nat bs \<noteq> 0 then of_nat bs - (addr + sz) mod of_nat bs else 0))
       = unat sz + head_of bs (unat addr) + tail_of bs e"
    and "(unat sz + head_of bs (unat addr) + tail_of bs e) mod bs = 0"
    and "erase_from bs (unat addr) + unat sz + head_of bs (unat addr) + tail_of bs e \<le> hal_cap E h"
proof -
  note b = hal_block_size[OF ok, folded bs_def]
  have bs: "0 < bs" by (simp add: bs_def)
  show e: "unat (addr + sz) = e" using le b(4) by (simp add: e_def unat_word_ariths)
  have z: "(w mod of_nat bs \<noteq> 0) = (unat w mod bs \<noteq> 0)" for w :: u32 using b(2)[of w] by (metis unat_0 unat_eq_0)
  show "unat (if addr mod of_nat bs \<noteq> 0 then addr - addr mod of_nat bs else 0) = erase_from bs (unat addr)"
    using b(2)[of addr] z[of addr] by (simp add: erase_from_def head_of_def unat_sub_if' del: word_neq_0_conv)
  let ?t = "if (addr + sz) mod of_nat bs \<noteq> 0 then of_nat bs - (addr + sz) mod of_nat bs else 0 :: u32"
  have "e mod bs < bs" using bs by simp
  then show t: "unat ?t = tail_of bs e"
    using b(1) b(2)[of "addr + sz"] z[of "addr + sz"] e by (simp add: tail_of_def unat_sub_if' del: word_neq_0_conv)
  obtain k where k: "hal_cap E h = k * bs" using b(3) by (metis dvd_def mult.commute)
  show ec: "e + tail_of bs e \<le> hal_cap E h" using round_up_le[OF bs, of e k] le k by (simp add: e_def)
  have hd: "head_of bs (unat addr) \<le> unat addr" by (simp add: head_of_def)
  have sum: "unat sz + head_of bs (unat addr) + tail_of bs e \<le> e + tail_of bs e" using hd by (simp add: e_def)
  show tot: "unat (sz + addr mod of_nat bs + ?t) = unat sz + head_of bs (unat addr) + tail_of bs e"
  proof -
    have "unat sz + unat (addr mod of_nat bs) + unat ?t < 2 ^ 32"
      using sum ec b(4) b(2)[of addr] t by (simp add: head_of_def)
    then show ?thesis using t b(2)[of addr] by (simp add: unat_word_ariths head_of_def)
  qed
  have "unat sz + head_of bs (unat addr) + tail_of bs e + (unat addr - head_of bs (unat addr)) = e + tail_of bs e"
    using hd by (simp add: e_def)
  moreover have "(unat addr - head_of bs (unat addr)) mod bs = 0" by (simp add: head_of_def minus_mod_eq_mult_div)
  ultimately show "(unat sz + head_of bs (unat addr) + tail_of bs e) mod bs = 0"
    using tail_of_aligned[OF bs, of e] by (metis mod_add_right_eq add.right_neutral)
  show "erase_from bs (unat addr) + unat sz + head_of bs (unat addr) + tail_of bs e \<le> hal_cap E h"
    using ec hd by (simp add: erase_from_def e_def)
qed

lemma erase_non_block_run:
  fixes addr sz :: u32
  assumes ok: "hal_ok E h" and le: "unat addr + unat sz \<le> hal_cap E h" and m: "\<And>n. malloc_ok E n"
  defines "bs \<equiv> erase_size (nand_conf E)"
  defines "hd' \<equiv> head_of bs (unat addr)" and "e \<equiv> unat addr + unat sz" and "st \<equiv> erase_from bs (unat addr)"
  defines "tl' \<equiv> tail_of bs e"
  assumes pg: "e mod page_size (nand_conf E) = 0" and ne: "hd' \<noteq> 0 \<or> tl' \<noteq> 0"
  shows "\<exists>h'. flash_erase_non_block E addr sz h = Inr (0, h') \<and> hal_ok E h' \<and> hal_cap E h' = hal_cap E h
     \<and> (\<forall>x < hal_cap E h. hal_byte E h' x =
          (if st + hd' \<le> x \<and> x < st + unat sz + hd' + tl' \<and> \<not> (e \<le> x \<and> x < e + tl') then 0xFF else hal_byte E h x))"
proof -
  define hw where "hw = addr mod of_nat bs"
  define sw where "sw = (if hw \<noteq> 0 then addr - hw else 0)"
  define tw where "tw = (if (addr + sz) mod of_nat bs \<noteq> 0 then of_nat bs - (addr + sz) mod of_nat bs else 0)"
  define ew where "ew = (if (addr + sz) mod of_nat bs \<noteq> 0 then addr + sz else 0)"
  note b = hal_block_size[OF ok, folded bs_def] and w0 = pieces_words[OF ok le, folded bs_def e_def]
  note w = w0[folded hw_def, folded sw_def tw_def hd'_def tl'_def st_def]
  have hw: "unat hw = hd'" using b(2)[of addr] by (simp add: hw_def hd'_def head_of_def)
  have "e mod bs < bs" by (simp add: bs_def)
  moreover have "tw = 0 \<longleftrightarrow> tl' = 0" using w(3) by (metis unat_0 unat_eq_0)
  ultimately have tw0: "tw = 0 \<longleftrightarrow> (addr + sz) mod of_nat bs = 0"
    using b(2)[of "addr + sz"] w(1) by (auto simp: tl'_def tail_of_def unat_eq_0[symmetric])
  have ew: "tw \<noteq> 0 \<Longrightarrow> unat ew = e" using tw0 w(1) by (simp add: ew_def)
  let ?f = "hal_byte E h"
  have st_hd: "st + hd' \<le> hal_cap E h" using w(7) by simp
  obtain h1 where h1: "(if hw \<noteq> 0 then save_piece E sw hw h else (Some [], h)) = (Some (map ?f [st..<st + hd']), h1)"
      "hal_ok E h1" "hal_byte E h1 = ?f" "hal_cap E h1 = hal_cap E h"
    using save_piece_ok[OF ok, of sw hw] m ok st_hd w(2) hw by (cases "hw = 0") auto
  obtain h2 where h2: "(if (addr + sz) mod of_nat bs \<noteq> 0 then save_piece E ew tw h1 else (Some [], h1))
        = (Some (map ?f [e..<e + tl']), h2)" "hal_ok E h2" "hal_byte E h2 = ?f" "hal_cap E h2 = hal_cap E h"
    using save_piece_ok[OF h1(2), of ew tw] m h1 w(3,4) ew tw0 by (cases "tw = 0") auto
  have tot: "unat (sz + hw + tw) = unat sz + hd' + tl'" using w(5) .
  have sa: "st mod bs = 0" by (simp add: st_def erase_from_def head_of_def minus_mod_eq_mult_div)
  obtain h3 where h3: "flash_erase E sw (sz + hw + tw) h2 = Inr (0, h3)" "hal_ok E h3" "hal_cap E h3 = hal_cap E h"
      "\<And>x. x < hal_cap E h \<Longrightarrow> hal_byte E h3 x = (if st \<le> x \<and> x < st + (unat sz + hd' + tl') then 0xFF else ?f x)"
    using hal.er_blocks[OF h2(2), folded bs_def, of sw "sz + hw + tw"] w(2,6,7) sa tot h2 by (auto simp: add.assoc)
  obtain h4 where h4: "restore_piece E sw hw (map ?f [st..<st + hd']) h3 = Inr (0, h4)" "hal_ok E h4" "hal_cap E h4 = hal_cap E h"
      "\<And>x. x < hal_cap E h \<Longrightarrow> hal_byte E h4 x = (if st \<le> x \<and> x < st + hd' then hal_byte E h3 x AND ?f x else hal_byte E h3 x)"
    using restore_piece_ok[OF h3(2), of sw hw ?f] hal.block_page_aligned[OF h3(2), folded bs_def, OF sa] w(2) hw st_hd h3(3) by auto
  obtain h5 where h5: "restore_piece E ew tw (map ?f [e..<e + tl']) h4 = Inr (0, h5)" "hal_ok E h5" "hal_cap E h5 = hal_cap E h"
      "\<And>x. x < hal_cap E h \<Longrightarrow> hal_byte E h5 x = (if e \<le> x \<and> x < e + tl' then hal_byte E h4 x AND ?f x else hal_byte E h4 x)"
  proof (cases "tw = 0")
    case True
    then have "tl' = 0" using w(3) by simp
    then show ?thesis using that[of h4] h4 True by (auto simp: restore_piece_def)
  next
    case False
    then show ?thesis using restore_piece_ok[OF h4(2), of ew tw ?f] ew pg w(3,4) h4(3) that by auto
  qed
  have "flash_erase_non_block E addr sz h = Inr (0, h5)"
  proof -
    have fl: "IS_NANDFLASH E" using ok by (simp add: hal_ok_def nand_env_def)
    have nz: "\<not> (hw = 0 \<and> tw = 0)" using ne hw w(3) by auto
    show ?thesis
      by (simp only: flash_erase_non_block_def Let_def fl simp_thms if_True bs_def[symmetric] hw_def[symmetric]
          sw_def[symmetric] tw_def[symmetric] ew_def[symmetric] h1(1) h2(1) prod.case option.case nz if_False
          h3(1) h4(1) h5(1) res_bind_simps)
  qed
  moreover have "hal_byte E h5 x = (if st + hd' \<le> x \<and> x < st + unat sz + hd' + tl' \<and> \<not> (e \<le> x \<and> x < e + tl') then 0xFF else ?f x)"
    if "x < hal_cap E h" for x
    using h5(4)[OF that] h4(4)[OF that] h3(4)[OF that] by auto
  ultimately show ?thesis using h5(2,3) by blast
qed

end
