(* ===== verification/Flashhal_Theorems.thy ===== *)
theory Flashhal_Theorems
  imports Flashhal_Nand Nand_Theorems
begin

text \<open>
  Properties of the flash layer: replacing bytes inside a block, erasing a range
  that is not block aligned, and reading the eMMC at any address.
\<close>

text \<open>
  C22 flash\_partial\_write on the NAND replaces exactly the bytes it is given: for a
  range inside one block of the logical area it returns 0, the bytes of the range
  are the new ones and every other byte of the flash, also of
  the same block, is what it was before the block was erased and rewritten.
\<close>

theorem flash_partial_write_replaces_range:
  assumes "hal_ok E h" and "unat to mod erase_size (nand_conf E) + unat len \<le> erase_size (nand_conf E)"
    and "unat to < hal_cap E h" and "erase_size (nand_conf E) \<le> length (block_buf h)" and "unat len \<le> length buf"
  shows "\<exists>h'. flash_partial_write E to len buf h = Inr (0, h') \<and> hal_ok E h'
     \<and> (\<forall>x < hal_cap E h. hal_byte E h' x =
          (if unat to \<le> x \<and> x < unat to + unat len then buf ! (x - unat to) else hal_byte E h x))"
  using flash_partial_write_nand[OF assms] by blast

lemma erase_non_block_exact:
  fixes addr sz :: u32
  assumes "hal_ok E h" and "unat addr + unat sz \<le> hal_cap E h" and "\<And>n. malloc_ok E n"
    and "(unat addr + unat sz) mod page_size (nand_conf E) = 0"
    and "unat addr mod erase_size (nand_conf E) = 0 \<longrightarrow> (unat addr + unat sz) mod erase_size (nand_conf E) = 0"
  shows "\<exists>h'. flash_erase_non_block E addr sz h = Inr (0, h') \<and> hal_ok E h' \<and> hal_cap E h' = hal_cap E h
     \<and> (\<forall>x < hal_cap E h. hal_byte E h' x =
          (if unat addr \<le> x \<and> x < unat addr + unat sz then 0xFF else hal_byte E h x))"
proof (cases "unat addr mod erase_size (nand_conf E) = 0")
  case True
  then have sz: "unat sz mod erase_size (nand_conf E) = 0" using assms(5) by (metis mod_add_left_eq add_0)
  have "addr mod of_nat (erase_size (nand_conf E)) = 0" "(addr + sz) mod of_nat (erase_size (nand_conf E)) = 0"
    using True assms(5) pieces_words(1)[OF assms(1,2)] hal_block_size(2)[OF assms(1)] by (metis unat_eq_0)+
  then have "flash_erase_non_block E addr sz h = flash_erase E addr sz h"
    using assms(1) by (simp add: flash_erase_non_block_def Let_def hal_ok_def nand_env_def)
  then show ?thesis using hal.er_blocks[OF assms(1) True sz assms(2)] by auto
next
  case False
  let ?bs = "erase_size (nand_conf E)"
  have "unat addr mod ?bs \<le> unat addr" by simp
  with False have st: "erase_from ?bs (unat addr) + head_of ?bs (unat addr) = unat addr"
    unfolding erase_from_def head_of_def by auto
  then have st2: "erase_from ?bs (unat addr) + unat sz + head_of ?bs (unat addr) = unat addr + unat sz" by linarith
  obtain h' where h': "flash_erase_non_block E addr sz h = Inr (0, h')" "hal_ok E h'" "hal_cap E h' = hal_cap E h"
    "\<And>x. x < hal_cap E h \<Longrightarrow> hal_byte E h' x = (if unat addr \<le> x \<and> x < unat addr + unat sz + tail_of ?bs (unat addr + unat sz)
        \<and> \<not> (unat addr + unat sz \<le> x \<and> x < unat addr + unat sz + tail_of ?bs (unat addr + unat sz)) then 0xFF else hal_byte E h x)"
    using erase_non_block_run[OF assms(1-4)] False unfolding st st2 by (auto simp: head_of_def)
  then show ?thesis by (intro exI[of _ h']) auto
qed

text \<open>
  C32 flash\_erase\_non\_block on the NAND erases exactly the range it is given and
  restores the rest of its first and last block, when the end of the range is at
  a page boundary and the range either starts inside a block or consists of whole blocks.
\<close>

theorem flash_erase_non_block_keeps_rest:
  fixes addr sz :: u32
  assumes "hal_ok E h" and "unat addr + unat sz \<le> hal_cap E h" and "\<And>n. malloc_ok E n"
    and "(unat addr + unat sz) mod page_size (nand_conf E) = 0"
    and "unat addr mod erase_size (nand_conf E) = 0 \<longrightarrow> (unat addr + unat sz) mod erase_size (nand_conf E) = 0"
  shows "\<exists>h'. flash_erase_non_block E addr sz h = Inr (0, h') \<and> hal_ok E h'
     \<and> (\<forall>x < hal_cap E h. hal_byte E h' x =
          (if unat addr \<le> x \<and> x < unat addr + unat sz then 0xFF else hal_byte E h x))"
  using erase_non_block_exact[OF assms] by blast

text \<open>
  When the range starts at a block boundary but does not end at one,
  flash\_erase\_non\_block erases the wrong place: start still has its initial value
  0, so the erase begins at offset 0 of the flash, where the bootloader is. The call
  reports success; everything below sz plus the kept tail, except that tail, is erased.
\<close>

lemma flash_erase_non_block_erases_from_zero:
  fixes addr sz :: u32
  assumes "hal_ok E h" and "unat addr + unat sz \<le> hal_cap E h" and "\<And>n. malloc_ok E n"
    and "(unat addr + unat sz) mod page_size (nand_conf E) = 0"
    and "unat addr mod erase_size (nand_conf E) = 0" and "(unat addr + unat sz) mod erase_size (nand_conf E) \<noteq> 0"
  defines "tail \<equiv> erase_size (nand_conf E) - (unat addr + unat sz) mod erase_size (nand_conf E)"
  shows "\<exists>h'. flash_erase_non_block E addr sz h = Inr (0, h')
     \<and> (\<forall>x < hal_cap E h. hal_byte E h' x =
          (if x < unat sz + tail \<and> \<not> (unat addr + unat sz \<le> x \<and> x < unat addr + unat sz + tail)
           then 0xFF else hal_byte E h x))"
proof -
  have "(unat addr + unat sz) mod erase_size (nand_conf E) < erase_size (nand_conf E)" by simp
  then have "tail \<noteq> 0" unfolding tail_def by linarith
  moreover have "tail_of (erase_size (nand_conf E)) (unat addr + unat sz) = tail"
    using assms(6) by (simp add: tail_of_def tail_def)
  ultimately show ?thesis using erase_non_block_run[OF assms(1-4)] assms(5) by (auto simp: head_of_def erase_from_def)
qed

section \<open>Reading the eMMC\<close>

text \<open>
  What flash\_read relies on of the eMMC driver: reading block idx succeeds and
  delivers the bytes of that block, of a media whose bytes are given by media.
\<close>

definition mmc_reads :: "'m hal_env \<Rightarrow> (nat \<Rightarrow> u8) \<Rightarrow> bool" where
  "mmc_reads E media \<longleftrightarrow> (\<forall>idx m. mmc_block_read E idx m
     = (0, map media [unat idx * MMC_BLOCK_SIZE E..<unat idx * MMC_BLOCK_SIZE E + MMC_BLOCK_SIZE E], m))"

lemma emmc_read_piece_ok:
  assumes "mmc_reads E media" "MMC_BLOCK_SIZE E \<le> length (block_buf h)" "offset + n \<le> MMC_BLOCK_SIZE E"
  shows "\<exists>h'. emmc_read_piece E idx offset n pos buf h
      = (True, memcpy buf pos (map media [unat idx * MMC_BLOCK_SIZE E + offset..<unat idx * MMC_BLOCK_SIZE E + offset + n]), h')
     \<and> length (block_buf h') = length (block_buf h)"
proof -
  let ?b = "unat idx * MMC_BLOCK_SIZE E"
  have "slice offset n (memcpy (block_buf h) 0 (map media [?b..<?b + MMC_BLOCK_SIZE E])) = map media [?b + offset..<?b + offset + n]"
    using assms(2,3) by (intro nth_equalityI) (auto simp: slice_def memcpy_def nth_append add.assoc)
  then show ?thesis using assms by (simp add: emmc_read_piece_def mmc_reads_def)
qed

lemma emmc_read_blocks_ok:
  assumes "mmc_reads E media" "MMC_BLOCK_SIZE E \<le> length (block_buf h)"
    and "i + k < 2 ^ 32" "pos + k * MMC_BLOCK_SIZE E \<le> length buf"
  shows "\<exists>h'. emmc_read_blocks E k (of_nat i) pos buf h
      = (True, memcpy buf pos (map media [i * MMC_BLOCK_SIZE E..<(i + k) * MMC_BLOCK_SIZE E]), h')
     \<and> length (block_buf h') = length (block_buf h)"
  using assms
proof (induction k arbitrary: i pos buf h)
  case 0
  then show ?case by (simp add: memcpy_def)
next
  case (Suc k)
  let ?bs = "MMC_BLOCK_SIZE E" and ?blk = "map media [i * MMC_BLOCK_SIZE E..<i * MMC_BLOCK_SIZE E + MMC_BLOCK_SIZE E]"
  let ?h1 = "h\<lparr>block_buf := memcpy (block_buf h) 0 ?blk\<rparr>"
  have len: "length (block_buf ?h1) = length (block_buf h)" using Suc.prems(2) by simp
  have "unat (of_nat i :: u32) = i" using Suc.prems(3) by simp
  then have rd: "mmc_block_read E (of_nat i) (other_dev h) = (0, ?blk, other_dev h)"
    using Suc.prems(1) unfolding mmc_reads_def by metis
  have bl: "take ?bs (memcpy (block_buf h) 0 ?blk) = ?blk" by (simp add: memcpy_def)
  have of_S: "of_nat i + 1 = (of_nat (Suc i) :: u32)" by simp
  have step: "emmc_read_blocks E (Suc k) (of_nat i) pos buf h
      = emmc_read_blocks E k (of_nat (Suc i)) (pos + ?bs) (memcpy buf pos ?blk) ?h1"
    unfolding emmc_read_blocks.simps Let_def rd prod.case of_S by (simp add: bl)
  have lb: "length (memcpy buf pos ?blk) = length buf" using Suc.prems(4) by simp
  obtain h' where h': "emmc_read_blocks E k (of_nat (Suc i)) (pos + ?bs) (memcpy buf pos ?blk) ?h1
      = (True, memcpy (memcpy buf pos ?blk) (pos + ?bs) (map media [Suc i * ?bs..<(Suc i + k) * ?bs]), h')"
      "length (block_buf h') = length (block_buf h)"
    using Suc.IH[of ?h1 "Suc i" "pos + ?bs" "memcpy buf pos ?blk"] Suc.prems len lb by auto
  have "?blk @ map media [Suc i * ?bs..<(Suc i + k) * ?bs] = map media [i * ?bs..<(i + Suc k) * ?bs]"
    unfolding map_append[symmetric] using upt_add_eq_append[of "i * ?bs" "i * ?bs + ?bs" "k * ?bs"]
    by (simp add: algebra_simps)
  then show ?case
    using step h' memcpy_memcpy[of pos ?blk "map media [Suc i * ?bs..<(Suc i + k) * ?bs]" buf] Suc.prems(4)
    by (simp add: algebra_simps)
qed

text \<open>The three pieces of a read, as numbers: m bytes up to a block boundary, k blocks, and the rest.\<close>

definition lead_bytes :: "nat \<Rightarrow> nat \<Rightarrow> nat \<Rightarrow> nat" where
  "lead_bytes bs a n = (if a mod bs = 0 then 0 else min n (bs - a mod bs))"

lemma lead_aligned:
  assumes "0 < bs" "lead_bytes bs a n < n" shows "(a + lead_bytes bs a n) mod bs = 0"
proof (cases "a mod bs = 0")
  case False
  then have "a + lead_bytes bs a n = a + tail_of bs a" using assms(2) by (simp add: lead_bytes_def tail_of_def min_def split: if_splits)
  then show ?thesis using tail_of_aligned[OF assms(1), of a] by simp
qed (simp add: lead_bytes_def)

lemma block_count_eq:
  assumes "0 < bs" "0 < r \<Longrightarrow> A mod bs = 0"
  shows "(if r \<noteq> 0 \<and> bs \<le> r then (A + r) div bs - A div bs else 0) = r div (bs :: nat)"
proof (cases "r = 0 \<or> r < bs")
  case False
  then obtain q where "A = q * bs" using assms(2) by (metis add.right_neutral div_mult_mod_eq neq0_conv)
  then show ?thesis using assms(1) False by simp
qed auto

lemma emmc_first_piece:
  fixes a n :: u32
  assumes "mmc_reads E media" "0 < MMC_BLOCK_SIZE E" "MMC_BLOCK_SIZE E \<le> length (block_buf h)" "MMC_BLOCK_SIZE E < 2 ^ 32"
  defines "b \<equiv> of_nat (MMC_BLOCK_SIZE E) :: u32" and "m \<equiv> lead_bytes (MMC_BLOCK_SIZE E) (unat a) (unat n)"
  defines "n1 \<equiv> if a mod b \<noteq> 0 then (if n < b - a mod b then n else b - a mod b) else 0"
  shows "unat n1 = m"
    and "\<exists>h'. (if a mod b \<noteq> 0 then emmc_read_piece E (a div b) (unat (a mod b)) (unat n1) 0 buf h else (True, buf, h))
      = (True, memcpy buf 0 (map media [unat a..<unat a + m]), h') \<and> length (block_buf h') = length (block_buf h)"
proof -
  define bs where "bs = MMC_BLOCK_SIZE E"
  have ub: "unat b = bs" using assms(4) by (simp add: b_def bs_def)
  have um: "unat (a mod b) = unat a mod bs" unfolding unat_mod ub ..
  have lt: "unat a mod bs < bs" using assms(2) by (simp add: bs_def)
  have z: "a mod b = 0 \<longleftrightarrow> unat a mod bs = 0" using um by (metis unat_0 unat_eq_0)
  have us: "unat (b - a mod b) = bs - unat a mod bs" using lt by (simp add: unat_sub_if' ub um)
  show n1: "unat n1 = m"
    using us z by (auto simp: n1_def m_def lead_bytes_def bs_def[symmetric] word_less_nat_alt min_def)
  have d: "unat (a div b) * bs + unat a mod bs = unat a" unfolding unat_div ub by simp
  show "\<exists>h'. (if a mod b \<noteq> 0 then emmc_read_piece E (a div b) (unat (a mod b)) (unat n1) 0 buf h else (True, buf, h))
      = (True, memcpy buf 0 (map media [unat a..<unat a + m]), h') \<and> length (block_buf h') = length (block_buf h)"
  proof (cases "a mod b = 0")
    case True
    then show ?thesis using z by (simp add: m_def lead_bytes_def bs_def memcpy_def)
  next
    case False
    have "unat a mod bs + m \<le> bs" using False z lt by (simp add: m_def lead_bytes_def bs_def[symmetric])
    then show ?thesis
      using emmc_read_piece_ok[OF assms(1,3), of "unat a mod bs" m "a div b" 0 buf] False d n1 um by (simp add: bs_def[symmetric])
  qed
qed

text \<open>The words that the middle and the last piece are computed with.\<close>

lemma emmc_piece_words:
  fixes a len n1 b :: u32
  assumes bs: "0 < bs" "unat b = bs" and n1: "unat n1 = lead_bytes bs (unat a) (unat len)" and lt: "unat a + unat len < 2 ^ 32"
  defines "A \<equiv> unat a + unat n1" and "r \<equiv> unat len - unat n1"
  defines "k \<equiv> r div bs"
  shows "unat (a + n1) = A" and "unat (len - n1) = r" and "A + r = unat a + unat len" and "0 < r \<longrightarrow> A mod bs = 0"
    and "(if len - n1 \<noteq> 0 \<and> len - n1 \<ge> b then unat ((a + n1 + (len - n1)) div b) - unat ((a + n1) div b) else 0) = k"
    and "unat (of_nat k * b) = k * bs" and "unat (n1 + of_nat k * b) = unat n1 + k * bs"
    and "unat (a + n1 + of_nat k * b) = A + k * bs" and "unat (len - n1 - of_nat k * b) = r mod bs"
proof -
  have mle: "unat n1 \<le> unat len" by (simp add: n1 lead_bytes_def)
  show A: "unat (a + n1) = A" using lt mle by (simp add: A_def unat_word_ariths)
  show r: "unat (len - n1) = r" using mle by (simp add: r_def unat_sub_if')
  show Ar: "A + r = unat a + unat len" using mle by (simp add: A_def r_def)
  have uAr: "unat (a + n1 + (len - n1)) = A + r" using lt A r Ar by (simp add: unat_word_ariths)
  show al: "0 < r \<longrightarrow> A mod bs = 0" using lead_aligned[OF bs(1), of "unat a" "unat len"] by (simp add: A_def r_def n1)
  have z: "len - n1 = 0 \<longleftrightarrow> r = 0" using r by (metis unat_0 unat_eq_0)
  show "(if len - n1 \<noteq> 0 \<and> len - n1 \<ge> b then unat ((a + n1 + (len - n1)) div b) - unat ((a + n1) div b) else 0) = k"
    using block_count_eq[OF bs(1), of r A] al unfolding z k_def unat_div uAr A bs(2) word_le_nat_alt r by blast
  have kr: "k * bs + r mod bs = r" by (simp add: k_def)
  have d: "of_nat k * b = of_nat (k * bs)" using of_nat_unat_id[of b] by (simp add: bs(2))
  show ud: "unat (of_nat k * b) = k * bs"
    unfolding d using kr lt Ar by (intro unat_of_nat_small) (simp add: word_size)
  show "unat (n1 + of_nat k * b) = unat n1 + k * bs" using ud kr lt mle by (simp add: r_def unat_word_ariths)
  show "unat (a + n1 + of_nat k * b) = A + k * bs" using ud kr lt Ar A by (simp add: unat_word_ariths)
  show "unat (len - n1 - of_nat k * b) = r mod bs" using ud kr r by (simp add: unat_sub_if')
qed

text \<open>The whole blocks, as a range of bytes.\<close>

lemma emmc_middle_piece:
  assumes "mmc_reads E media" "MMC_BLOCK_SIZE E \<le> length (block_buf h)" "0 < MMC_BLOCK_SIZE E"
    and "unat w = A div MMC_BLOCK_SIZE E" "A + k * MMC_BLOCK_SIZE E < 2 ^ 32" "0 < k \<longrightarrow> A mod MMC_BLOCK_SIZE E = 0"
    and "pos + k * MMC_BLOCK_SIZE E \<le> length buf"
  shows "\<exists>h'. emmc_read_blocks E k w pos buf h = (True, memcpy buf pos (map media [A..<A + k * MMC_BLOCK_SIZE E]), h')
     \<and> length (block_buf h') = length (block_buf h)"
proof (cases "k = 0")
  case False
  let ?bs = "MMC_BLOCK_SIZE E"
  have w: "w = of_nat (A div ?bs)" using assms(4) of_nat_unat_id[of w] by simp
  have A: "A div ?bs * ?bs = A" using assms(6) False by (metis add.right_neutral div_mult_mod_eq neq0_conv)
  have "A div ?bs + k \<le> (A div ?bs + k) * ?bs" using assms(3) by simp
  then have "A div ?bs + k < 2 ^ 32" using assms(5) A by (simp add: add_mult_distrib)
  from emmc_read_blocks_ok[OF assms(1,2) this assms(7)] show ?thesis by (simp add: w add_mult_distrib A)
qed (simp add: memcpy_def)

text \<open>
  flash\_read on the eMMC returns the bytes of the card for any start and length:
  the partial first block, the whole blocks and the partial last block that it
  reads one by one make up exactly the requested range.
\<close>

lemma emmc_flash_read_returns_range:
  fixes a len :: u32
  assumes "isEMMC E" and "mmc_reads E media" and "0 < MMC_BLOCK_SIZE E" and "MMC_BLOCK_SIZE E \<le> length (block_buf h)"
    and "MMC_BLOCK_SIZE E < 2 ^ 32" and "unat a + unat len < 2 ^ 32" and "unat len \<le> length buf"
  shows "\<exists>h'. flash_read E a len buf h = (0, map media [unat a..<unat a + unat len] @ drop (unat len) buf, h')"
proof -
  define bs b where "bs = MMC_BLOCK_SIZE E" and "b = (of_nat (MMC_BLOCK_SIZE E) :: u32)"
  define n1 where "n1 = (if a mod b \<noteq> 0 then (if len < b - a mod b then len else b - a mod b) else 0)"
  have bs: "0 < bs" "unat b = bs" using assms(3,5) by (simp_all add: bs_def b_def)
  note p1 = emmc_first_piece[OF assms(2-5), where a = a and n = len, folded b_def, folded n1_def bs_def]
  define A r k where "A = unat a + unat n1" and "r = unat len - unat n1" and "k = r div bs"
  note w = emmc_piece_words[OF bs p1(1) assms(6), folded A_def r_def, folded k_def]
  let ?d = "of_nat k * b"
  have kr: "k * bs + r mod bs = r" by (simp add: k_def)
  obtain h1 where h1: "(if a mod b \<noteq> 0 then emmc_read_piece E (a div b) (unat (a mod b)) (unat n1) 0 buf h else (True, buf, h))
      = (True, memcpy buf 0 (map media [unat a..<A]), h1)" "length (block_buf h1) = length (block_buf h)"
    using p1(2) unfolding p1(1)[symmetric] A_def by blast
  have k0: "0 < k \<longrightarrow> A mod bs = 0" using w(4) by (cases "r = 0") (auto simp: k_def)
  define buf2 where "buf2 = memcpy buf 0 (map media [unat a..<A + k * bs])"
  have "unat n1 + k * bs \<le> length buf" "A + k * bs < 2 ^ 32" using w(3) kr assms(6,7) by (simp_all add: A_def)
  then obtain h2 where "emmc_read_blocks E k ((a + n1) div b) (unat n1) (memcpy buf 0 (map media [unat a..<A])) h1
      = (True, memcpy (memcpy buf 0 (map media [unat a..<A])) (unat n1) (map media [A..<A + k * bs]), h2)"
      and h2b: "length (block_buf h2) = length (block_buf h)"
    using emmc_middle_piece[OF assms(2), of h1 "(a + n1) div b" A k "unat n1" "memcpy buf 0 (map media [unat a..<A])", folded bs_def]
      h1(2) assms(4) bs w(1) k0 by (auto simp: unat_div A_def bs_def[symmetric])
  then have h2: "emmc_read_blocks E k ((a + n1) div b) (unat n1) (memcpy buf 0 (map media [unat a..<A])) h1 = (True, buf2, h2)"
    using memcpy_memcpy[of 0 "map media [unat a..<A]" "map media [A..<A + k * bs]" buf] upt_add_eq_append[of "unat a" A "k * bs"]
      \<open>unat n1 + k * bs \<le> length buf\<close> by (simp add: buf2_def A_def)
  have run: "flash_read E a len buf h = (if len - n1 - ?d = 0 then (0, buf2, h2)
      else let (ok3, buf3, h3) = emmc_read_piece E ((a + n1 + ?d) div b) 0 (unat (len - n1 - ?d)) (unat (n1 + ?d)) buf2 h2
           in (if ok3 then 0 else -1, buf3, h3))"
    unfolding flash_read_def emmc_flash_read_def using assms(1)
    by (simp only: if_True Let_def b_def[symmetric] n1_def[symmetric] h1(1) prod.case simp_thms if_False w(5) h2)
  have whole: "A + k * bs + r mod bs = unat a + unat len" using w(3) kr by simp
  show ?thesis
  proof (cases "r mod bs = 0")
    case True
    then have "len - n1 - ?d = 0" using w(9) by (metis unat_eq_0)
    moreover have "A + k * bs = unat a + unat len" using w(3) kr True by simp
    ultimately show ?thesis using run by (simp add: buf2_def memcpy_def)
  next
    case False
    then have "A mod bs = 0" using w(4) by (cases "r = 0") auto
    then have i: "unat ((a + n1 + ?d) div b) * bs = A + k * bs"
      unfolding unat_div w(8) bs(2) by (metis add.right_neutral div_mult_mod_eq mod_mult_self1)
    obtain h3 where h3: "emmc_read_piece E ((a + n1 + ?d) div b) 0 (r mod bs) (unat n1 + k * bs) buf2 h2
        = (True, memcpy buf2 (unat n1 + k * bs) (map media [A + k * bs..<A + k * bs + r mod bs]), h3)"
      using emmc_read_piece_ok[OF assms(2), of h2 0 "r mod bs" "(a + n1 + ?d) div b" "unat n1 + k * bs" buf2] i bs(1) h2b assms(4)
      by (auto simp: bs_def[symmetric])
    have "memcpy buf2 (unat n1 + k * bs) (map media [A + k * bs..<A + k * bs + r mod bs])
        = memcpy buf 0 (map media [unat a..<unat a + unat len])"
      using memcpy_memcpy[of 0 "map media [unat a..<A + k * bs]" "map media [A + k * bs..<A + k * bs + r mod bs]" buf]
        upt_add_eq_append[of "unat a" "A + k * bs" "r mod bs"] assms(7) w(3) kr
      unfolding whole by (simp add: buf2_def A_def)
    moreover have "len - n1 - ?d \<noteq> 0" using w(9) False by (metis unat_0)
    ultimately show ?thesis using run h3 unfolding whole by (simp add: w(7,9) memcpy_def)
  qed
qed

section \<open>Applications\<close>

text \<open>A layer over the demonstration chip, and one over an eMMC whose bytes are their addresses.\<close>

definition demo_env :: "unit hal_env" where
  "demo_env = \<lparr>isEMMC = False, IS_NANDFLASH = True, IS_SPIFLASH = False, nand_conf = demo_cfg, upd_fuel = 0,
     erase_bound = 5, MMC_BLOCK_SIZE = 512, mmc_block_read = (\<lambda>_ m. (0, [], m)), mmc_block_write = (\<lambda>_ n _ m. (n, m)),
     mmc_block_erase = (\<lambda>_ n m. (n, m)), spiflash_read = (\<lambda>_ _ m. (0, [], m)), spiflash_write = (\<lambda>_ _ _ m. (0, m)),
     spiflash_erase = (\<lambda>_ _ m. (0, m)), mtd_offset = 0, mtd_erasesize = 0, malloc_ok = (\<lambda>_. True)\<rparr>"

definition demo_hal :: "unit hal_state" where
  "demo_hal = \<lparr>nand = demo_globals, other_dev = (), block_buf = replicate 4096 0\<rparr>"

lemma demo_hal_ok: "hal_ok demo_env demo_hal" "hal_cap demo_env demo_hal = 4096" "nand_conf demo_env = demo_cfg"
    "\<And>n. malloc_ok demo_env n" "length (block_buf demo_hal) = 4096"
  using demo_rw_inv demo_clean demo_logic_size
  by (simp_all add: hal_ok_def hal_cap_def nand_env_def demo_env_def demo_hal_def)

theorem flash_partial_write_replaces_range_witness:
  "\<exists>h'. flash_partial_write demo_env 2100 3 [1, 2, 3] demo_hal = Inr (0, h')
     \<and> hal_byte demo_env h' 2101 = 2 \<and> hal_byte demo_env h' 2103 = hal_byte demo_env demo_hal 2103"
  using flash_partial_write_replaces_range[OF demo_hal_ok(1), of 2100 3 "[1, 2, 3]"]
  by (fastforce simp: demo_hal_ok)

theorem flash_erase_non_block_keeps_rest_witness:
  "\<exists>h'. flash_erase_non_block demo_env 1000 2072 demo_hal = Inr (0, h')
     \<and> hal_byte demo_env h' 999 = hal_byte demo_env demo_hal 999 \<and> hal_byte demo_env h' 1000 = 0xFF"
  using flash_erase_non_block_keeps_rest[OF demo_hal_ok(1), of 1000 2072] by (fastforce simp: demo_hal_ok)

lemma flash_erase_non_block_erases_from_zero_witness:
  "\<exists>h'. flash_erase_non_block demo_env 2048 1024 demo_hal = Inr (0, h') \<and> hal_byte demo_env h' 0 = 0xFF
     \<and> hal_byte demo_env h' 2048 = hal_byte demo_env demo_hal 2048"
  using flash_erase_non_block_erases_from_zero[OF demo_hal_ok(1), of 2048 1024] by (fastforce simp: demo_hal_ok)

definition demo_emmc :: "unit hal_env" where
  "demo_emmc = demo_env\<lparr>isEMMC := True, mmc_block_read :=
     (\<lambda>idx m. (0, map of_nat [unat idx * 512..<unat idx * 512 + 512], m))\<rparr>"

lemma emmc_flash_read_returns_range_witness:
  "\<exists>h'. flash_read demo_emmc 510 1030 (replicate 1030 0) demo_hal = (0, map of_nat [510..<1540], h')"
proof -
  have "mmc_reads demo_emmc of_nat" by (simp add: mmc_reads_def demo_emmc_def demo_env_def)
  then show ?thesis
    using emmc_flash_read_returns_range[of demo_emmc of_nat demo_hal 510 1030 "replicate 1030 0"]
    by (simp add: demo_emmc_def demo_env_def demo_hal_def)
qed

end
