(* ===== verification/Xmodem.thy ===== *)
theory Xmodem
  imports Prelude
begin

text \<open>
  The XMODEM receiver of the first-stage loader
  (plat/ecnt/common/drivers/xmodem/xmodem.c), through which an image arrives over the
  serial console: the CRC, the timed reads, and the receive loop.

  The console is the list of results that successive polls of getc give, negative
  when no character is waiting; after its end every poll is negative. The loop body
  is one attempt, which returns (Inl) or asks for another one (Inr). The bytes sent are
  recorded in order.
\<close>

section \<open>CRC and checksum\<close>

definition crc_bit :: "u16 \<Rightarrow> u16" where
  "crc_bit crc = (if crc AND 0x8000 \<noteq> 0 then push_bit 1 crc XOR 0x1021 else push_bit 1 crc)"

definition crc_xmodem_update :: "u16 \<Rightarrow> u8 \<Rightarrow> u16" where
  "crc_xmodem_update crc dat = (crc_bit ^^ 8) (crc XOR push_bit 8 (ucast dat))"

text \<open>buffer holds the data and, behind it, the CRC (high byte first) or the checksum.\<close>

definition xmodemCrcCheck :: "bool \<Rightarrow> bytes \<Rightarrow> nat \<Rightarrow> bool" where
  "xmodemCrcCheck crcflag buffer n =
    (if crcflag then
       foldl crc_xmodem_update 0 (take n buffer) = push_bit 8 (ucast (buffer ! n)) + ucast (buffer ! (n + 1))
     else sum_list (take n buffer) = buffer ! n)"

section \<open>Timed reads\<close>

type_synonym console = "int list"

fun xmodemIn :: "console \<Rightarrow> int \<times> console" where
  "xmodemIn [] = (-1, [])"
| "xmodemIn (x # xs) = (x, xs)"

fun wait_in :: "nat \<Rightarrow> int \<Rightarrow> console \<Rightarrow> int \<times> console" where
  "wait_in 0 ret c = (ret, c)"
| "wait_in (Suc n) ret c = (if ret < 0 then let (r, c') = xmodemIn c in wait_in n r c' else (ret, c))"

definition xmodemInTime :: "nat \<Rightarrow> console \<Rightarrow> int \<times> console" where
  "xmodemInTime timeout_10ms c = (let (r, c') = xmodemIn c in wait_in (timeout_10ms * 1000 * 10) r c')"

definition XMODEM_TIMEOUT_DELAY :: nat where "XMODEM_TIMEOUT_DELAY = 100"
definition XMODEM_RETRY_LIMIT :: nat where "XMODEM_RETRY_LIMIT = 32"

lemma wait_in_length: "wait_in n r c = (r', c') \<Longrightarrow> length c' \<le> length c \<and> (r < 0 \<and> r' \<ge> 0 \<longrightarrow> length c' < length c)"
proof (induction n arbitrary: r c)
  case (Suc n)
  show ?case
  proof (cases "r < 0")
    case True
    with Suc show ?thesis by (cases c) (fastforce split: prod.splits)+
  next
    case False
    with Suc.prems show ?thesis by auto
  qed
qed auto

lemma in_time_length:
  "xmodemInTime t c = (r, c') \<Longrightarrow> length c' \<le> length c \<and> (r \<ge> 0 \<longrightarrow> length c' < length c)"
  using wait_in_length[of "t * 1000 * 10" _ _ r c'] by (cases c) (fastforce simp: xmodemInTime_def)+

function xmodemInFlush :: "console \<Rightarrow> console" where
  "xmodemInFlush c =
    (let (r, c') = xmodemInTime XMODEM_TIMEOUT_DELAY c in if r \<ge> 0 then xmodemInFlush c' else c')"
  by pat_completeness auto
termination
  by (relation "measure length") (auto dest!: in_time_length[OF sym])

declare xmodemInFlush.simps [simp del]

section \<open>The receiver\<close>

record xm_state =
  con :: console
  sent :: bytes
  xm_buf :: bytes
  xm_pos :: nat
  seqnum :: u8
  pktsize :: nat
  response :: u8
  retry :: nat
  crcflag :: bool
  totalbytes :: nat

definition SOH :: int where "SOH = 0x01"
definition STX :: int where "STX = 0x02"
definition EOT :: int where "EOT = 0x04"
definition CAN :: int where "CAN = 0x18"
definition ACK :: u8 where "ACK = 0x06"
definition NAK :: u8 where "NAK = 0x15"
definition CH_C :: u8 where "CH_C = 0x43"

definition XMODEM_ERROR_REMOTECANCEL :: int where "XMODEM_ERROR_REMOTECANCEL = -1"
definition XMODEM_ERROR_OUTOFSYNC :: int where "XMODEM_ERROR_OUTOFSYNC = -2"
definition XMODEM_ERROR_RETRYEXCEED :: int where "XMODEM_ERROR_RETRYEXCEED = -3"
definition XMODEM_ERROR_OUTOFMEMORY :: int where "XMODEM_ERROR_OUTOFMEMORY = -4"

definition WriteBuffer :: "bytes \<Rightarrow> xm_state \<Rightarrow> xm_state" where
  "WriteBuffer dat s = s\<lparr>xm_buf := memcpy (xm_buf s) (xm_pos s) dat, xm_pos := xm_pos s + length dat\<rparr>"

definition flush_out :: "bytes \<Rightarrow> xm_state \<Rightarrow> xm_state" where
  "flush_out cs s = s\<lparr>con := xmodemInFlush (con s), sent := sent s @ cs\<rparr>"

text \<open>Reads n more bytes of a packet; the Boolean tells whether all of them arrived.\<close>

fun read_rest :: "nat \<Rightarrow> console \<Rightarrow> bool \<times> bytes \<times> console" where
  "read_rest 0 c = (True, [], c)"
| "read_rest (Suc n) c =
    (let (r, c') = xmodemInTime XMODEM_TIMEOUT_DELAY c
     in if r \<ge> 0 then let (ok, bs, c'') = read_rest n c' in (ok, word_of_int r # bs, c'')
        else (False, [], c'))"

text \<open>
  What happens after the first character c of a packet: the rest is read and checked.
  pkt starts with the sequence number (xmbuf[1]).
\<close>

definition xm_packet :: "nat \<Rightarrow> xm_state \<Rightarrow> (int \<times> xm_state) + xm_state" where
  "xm_packet xmdmBufLen s0 =
    (let s = (if response s0 = CH_C then s0\<lparr>crcflag := True\<rparr> else s0);
         n = pktsize s + (if crcflag s then 1 else 0) + 4 - 1;
         (ok, pkt, c) = read_rest n (con s);
         s1 = s\<lparr>con := c\<rparr>
     in if \<not> ok
        then Inr (s1\<lparr>retry := retry s1 - 1, con := xmodemInFlush (con s1), response := NAK\<rparr>)
        else if pkt ! 0 = NOT (pkt ! 1) \<and> xmodemCrcCheck (crcflag s1) (drop 2 pkt) (pktsize s1)
        then if pkt ! 0 = seqnum s1
             then if xmdmBufLen < totalbytes s1 + pktsize s1
                  then Inl (XMODEM_ERROR_OUTOFMEMORY, flush_out [word_of_int CAN, word_of_int CAN, word_of_int CAN] s1)
                  else Inr ((WriteBuffer (slice 2 (pktsize s1) pkt) s1)\<lparr>totalbytes := totalbytes s1 + pktsize s1,
                         seqnum := seqnum s1 + 1, retry := XMODEM_RETRY_LIMIT, response := ACK\<rparr>)
             else if pkt ! 0 = seqnum s1 - 1 then Inr (s1\<lparr>response := ACK\<rparr>)
             else Inl (XMODEM_ERROR_OUTOFSYNC, flush_out [word_of_int CAN, word_of_int CAN, word_of_int CAN] s1)
        else Inr (s1\<lparr>retry := retry s1 - 1, con := xmodemInFlush (con s1), response := NAK\<rparr>))"

definition xm_attempt :: "nat \<Rightarrow> xm_state \<Rightarrow> (int \<times> xm_state) + xm_state" where
  "xm_attempt xmdmBufLen s =
    (if retry s = 0
     then Inl (XMODEM_ERROR_RETRYEXCEED, flush_out [word_of_int CAN, word_of_int CAN, word_of_int CAN] s)
     else
       let (c, con1) = xmodemInTime XMODEM_TIMEOUT_DELAY (con s);
           s1 = s\<lparr>con := con1, sent := sent s @ [response s]\<rparr>
       in if c < 0 then Inr (s1\<lparr>retry := retry s1 - 1\<rparr>)
          else if c = SOH then xm_packet xmdmBufLen (s1\<lparr>pktsize := 128\<rparr>)
          else if c = STX then xm_packet xmdmBufLen (s1\<lparr>pktsize := 1024\<rparr>)
          else if c = EOT then Inl (int (totalbytes s1), flush_out [ACK] s1)
          else if c = CAN then
            let (c2, con2) = xmodemInTime XMODEM_TIMEOUT_DELAY con1;
                s2 = s1\<lparr>con := con2\<rparr>
            in if c2 = CAN then Inl (XMODEM_ERROR_REMOTECANCEL, flush_out [ACK] s2)
               else xm_packet xmdmBufLen s2
          else xm_packet xmdmBufLen s1)"

fun xm_loop :: "nat \<Rightarrow> nat \<Rightarrow> xm_state \<Rightarrow> fault + (int \<times> xm_state)" where
  "xm_loop xmdmBufLen 0 s = Inl OutOfFuel"
| "xm_loop xmdmBufLen (Suc n) s =
    (case xm_attempt xmdmBufLen s of Inl r \<Rightarrow> Inr r | Inr s' \<Rightarrow> xm_loop xmdmBufLen n s')"

definition xm_start :: "console \<Rightarrow> bytes \<Rightarrow> xm_state" where
  "xm_start c buf = \<lparr>con = c, sent = [], xm_buf = buf, xm_pos = 0, seqnum = 1, pktsize = 128,
     response = CH_C, retry = XMODEM_RETRY_LIMIT, crcflag = False, totalbytes = 0\<rparr>"

definition XModemReceive :: "nat \<Rightarrow> nat \<Rightarrow> console \<Rightarrow> bytes \<Rightarrow> fault + (int \<times> xm_state)" where
  "XModemReceive fuel bufLen console buf = xm_loop bufLen fuel (xm_start console buf)"

end
