(* ===== verification/Xmodem_Theorems.thy ===== *)
theory Xmodem_Theorems
  imports Xmodem
begin

text \<open>
  What the XMODEM receiver promises: it returns for every console, stays inside
  its buffer, stores a correct transfer completely and in order, and its CRC
  notices every packet with one changed byte.
\<close>

section \<open>The CRC detects a changed byte\<close>

lemma bit_0x1021: "bit (0x1021 :: u16) n \<longleftrightarrow> n = 0 \<or> n = 5 \<or> n = 12"
proof (cases "n < 16")
  case True
  then have "n \<in> set [0..<16]" by simp
  then show ?thesis by (auto simp: upt_rec bit_numeral_rec)
next
  case False
  then show ?thesis using bit_imp_le_length[of "0x1021 :: u16" n] by auto
qed

lemma and_0x8000: "(w :: u16) AND 0x8000 \<noteq> 0 \<longleftrightarrow> bit w 15"
  using and_exp_eq_0_iff_not_bit[of w 15] by simp

lemma bit_shl1: "bit (push_bit 1 (w :: u16)) n \<longleftrightarrow> n < 16 \<and> 0 < n \<and> bit w (n - 1)"
  unfolding bit_push_bit_iff by (auto simp: Suc_le_eq)

lemma bit_crc_bit:
  "bit (crc_bit w) n \<longleftrightarrow> n < 16 \<and> ((0 < n \<and> bit w (n - 1)) \<noteq> (bit w 15 \<and> (n = 0 \<or> n = 5 \<or> n = 12)))"
proof (cases "bit w 15")
  case True
  then have "crc_bit w = push_bit 1 w XOR 0x1021" by (simp only: crc_bit_def and_0x8000 if_True simp_thms)
  then have "bit (crc_bit w) n = (bit (push_bit 1 w) n \<noteq> bit (0x1021 :: u16) n)" by (simp only: bit_xor_iff)
  then show ?thesis unfolding bit_shl1 bit_0x1021 using True by auto
next
  case False
  then have "crc_bit w = push_bit 1 w" by (simp only: crc_bit_def and_0x8000 if_False simp_thms)
  then show ?thesis using False by (simp only: bit_shl1) auto
qed

lemma crc_bit_inj: "crc_bit a = crc_bit b \<Longrightarrow> a = b"
proof -
  assume eq: "crc_bit a = crc_bit b"
  then have e: "bit (crc_bit a) n = bit (crc_bit b) n" for n by simp
  have top: "bit a 15 = bit b 15" using e[of 0] by (simp add: bit_crc_bit)
  show "a = b"
  proof (rule bit_word_eqI)
    fix n assume "n < LENGTH(16)"
    then show "bit a n = bit b n" using e[of "Suc n"] top by (cases "n = 15") (auto simp: bit_crc_bit)
  qed
qed

lemma crc_bits_inj: "(crc_bit ^^ n) a = (crc_bit ^^ n) b \<Longrightarrow> a = b"
  by (induction n) (auto dest: crc_bit_inj)

lemma crc_update_inj_crc: "crc_xmodem_update a d = crc_xmodem_update b d \<Longrightarrow> a = b"
  unfolding crc_xmodem_update_def by (drule crc_bits_inj) (rule xor_cancel(2))

lemma push_ucast_inj: "push_bit 8 (ucast d :: u16) = push_bit 8 (ucast e) \<Longrightarrow> d = (e :: u8)"
proof (rule bit_word_eqI)
  fix n assume eq: "push_bit 8 (ucast d :: u16) = push_bit 8 (ucast e)" and n: "n < LENGTH(8)"
  have "bit (push_bit 8 (ucast d :: u16)) (n + 8) = bit (push_bit 8 (ucast e :: u16)) (n + 8)" unfolding eq ..
  then show "bit d n = bit e n" using n unfolding bit_push_bit_iff by (simp add: bit_simps)
qed

lemma crc_update_inj_data: "crc_xmodem_update c d = crc_xmodem_update c e \<Longrightarrow> d = e"
  unfolding crc_xmodem_update_def by (drule crc_bits_inj, drule xor_cancel(1)) (rule push_ucast_inj)

lemma crc_fold_inj: "foldl crc_xmodem_update a ds = foldl crc_xmodem_update b ds \<Longrightarrow> a = b"
  by (induction ds arbitrary: a b) (auto dest: crc_update_inj_crc)

lemma crc_changed_byte:
  assumes "i < length ds" "v \<noteq> ds ! i"
  shows "foldl crc_xmodem_update c (ds[i := v]) \<noteq> foldl crc_xmodem_update c ds"
proof
  assume eq: "foldl crc_xmodem_update c (ds[i := v]) = foldl crc_xmodem_update c ds"
  have "ds = take i ds @ ds ! i # drop (Suc i) ds" using assms(1) by (simp add: id_take_nth_drop)
  moreover have "ds[i := v] = take i ds @ v # drop (Suc i) ds" using assms(1) by (simp add: upd_conv_take_nth_drop)
  ultimately have "foldl crc_xmodem_update (crc_xmodem_update (foldl crc_xmodem_update c (take i ds)) v) (drop (Suc i) ds)
      = foldl crc_xmodem_update (crc_xmodem_update (foldl crc_xmodem_update c (take i ds)) (ds ! i)) (drop (Suc i) ds)"
    using eq by (metis foldl_Cons foldl_append)
  then have "v = ds ! i" by (blast dest: crc_fold_inj crc_update_inj_data)
  then show False using assms(2) by simp
qed

section \<open>Reading from the console\<close>

lemma wait_in_nonneg [simp]: "0 \<le> r \<Longrightarrow> wait_in n r c = (r, c)"
  by (cases n) auto

lemma in_time_Cons [simp]: "0 \<le> x \<Longrightarrow> xmodemInTime t (x # xs) = (x, xs)"
  by (simp add: xmodemInTime_def)

lemma read_rest_bytes: "read_rest (length bs) (map uint bs @ c) = (True, (bs :: bytes), c)"
  by (induction bs) auto



section \<open>The receive loop returns and stays inside its buffer\<close>



text \<open>What an attempt may do to the buffer: keep what was received and touch nothing from L on.\<close>

definition xm_keeps :: "nat \<Rightarrow> xm_state \<Rightarrow> xm_state \<Rightarrow> bool" where
  "xm_keeps L s s' \<longleftrightarrow> totalbytes s \<le> totalbytes s' \<and> length (xm_buf s') = length (xm_buf s)
     \<and> take (totalbytes s) (xm_buf s') = take (totalbytes s) (xm_buf s) \<and> drop L (xm_buf s') = drop L (xm_buf s)"



lemma flush_out_keeps [simp]: "xm_keeps L s (flush_out cs s)" "totalbytes (flush_out cs s) = totalbytes s"
  by (simp_all add: xm_keeps_def flush_out_def)







section \<open>A complete transfer\<close>

definition crc_bytes :: "bytes \<Rightarrow> bytes" where
  "crc_bytes dat = (let crc = foldl crc_xmodem_update 0 dat in [ucast (drop_bit 8 crc), ucast crc])"

definition xm_frame :: "u8 \<Rightarrow> bytes \<Rightarrow> console" where
  "xm_frame q dat = (if length dat = 128 then SOH else STX) # map uint ([q, NOT q] @ dat @ crc_bytes dat)"

fun xm_frames :: "u8 \<Rightarrow> bytes list \<Rightarrow> console" where
  "xm_frames q [] = [EOT]"
| "xm_frames q (d # ds) = xm_frame q d @ xm_frames (q + 1) ds"

lemma crc_bytes_check: "xmodemCrcCheck True (dat @ crc_bytes dat) (length dat)"
proof -
  let ?w = "foldl crc_xmodem_update 0 dat"
  have "push_bit 8 (ucast (ucast (drop_bit 8 ?w) :: u8)) + ucast (ucast ?w :: u8) = ?w"
  proof -
    have "push_bit 8 (ucast (ucast (drop_bit 8 w) :: u8)) OR ucast (ucast w :: u8) = w" for w :: u16
      by (rule bit_word_eqI) (auto simp: bit_simps)
    moreover have "push_bit 8 (ucast (x :: u8)) AND ucast (y :: u8) = (0 :: u16)" for x y
      by (rule bit_word_eqI) (auto simp: bit_simps dest: bit_imp_le_length)
    ultimately show ?thesis by (metis disjunctive_add_eq_or)
  qed
  then show ?thesis by (simp add: xmodemCrcCheck_def crc_bytes_def Let_def nth_append)
qed

lemma xm_packet_new:
  assumes "response s = CH_C \<or> crcflag s" "read_rest (pktsize s + 4) (con s) = (True, pkt, c)"
    and "pkt ! 0 = seqnum s" "pkt ! 1 = NOT (seqnum s)" "xmodemCrcCheck True (drop 2 pkt) (pktsize s)"
    and "totalbytes s + pktsize s \<le> L"
  shows "xm_packet L s = Inr ((WriteBuffer (slice 2 (pktsize s) pkt) (s\<lparr>crcflag := True, con := c\<rparr>))
     \<lparr>totalbytes := totalbytes s + pktsize s, seqnum := seqnum s + 1, retry := XMODEM_RETRY_LIMIT, response := ACK\<rparr>)"
proof -
  have s0: "(if response s = CH_C then s\<lparr>crcflag := True\<rparr> else s) = s\<lparr>crcflag := True\<rparr>" using assms(1) by auto
  have rr: "read_rest (pktsize (s\<lparr>crcflag := True\<rparr>) + (if crcflag (s\<lparr>crcflag := True\<rparr>) then 1 else 0) + 4 - 1)
      (con (s\<lparr>crcflag := True\<rparr>)) = (True, pkt, c)" using assms(2) by (simp add: eval_nat_numeral)
  have v: "pkt ! 0 = NOT (pkt ! 1)" using assms(3,4) by simp
  show ?thesis unfolding xm_packet_def s0 Let_def rr prod.case using assms(3,5,6) v by (simp add: not_less)
qed

text \<open>One good packet: the data is appended and the next sequence number awaited.\<close>

lemma xm_attempt_frame:
  assumes "con s = xm_frame (seqnum s) dat @ rest" and len: "length dat \<in> {128, 1024}" and "0 < retry s"
    and "response s = CH_C \<or> crcflag s" and "totalbytes s + length dat \<le> L" and "xm_pos s = totalbytes s"
    and "L \<le> length (xm_buf s)"
  shows "\<exists>s'. xm_attempt L s = Inr s' \<and> con s' = rest \<and> seqnum s' = seqnum s + 1 \<and> 0 < retry s' \<and> crcflag s'
     \<and> totalbytes s' = totalbytes s + length dat \<and> xm_pos s' = totalbytes s' \<and> xm_buf s' = memcpy (xm_buf s) (totalbytes s) dat"
proof -
  define q where "q = seqnum s"
  define pkt where "pkt = [q, NOT q] @ dat @ crc_bytes dat"
  have lp: "length pkt = length dat + 4" by (simp add: pkt_def crc_bytes_def Let_def)
  have rr: "read_rest (length dat + 4) (map uint pkt @ rest) = (True, pkt, rest)"
    using read_rest_bytes[of pkt rest] by (simp add: lp)
  let ?s1 = "s\<lparr>con := map uint pkt @ rest, sent := sent s @ [response s], pktsize := length dat\<rparr>"
  have "xm_attempt L s = xm_packet L ?s1"
    using assms(1,2,3) by (auto simp: xm_attempt_def xm_frame_def pkt_def q_def SOH_def STX_def Let_def)
  moreover have "pkt ! 0 = q" "pkt ! 1 = NOT q" "drop 2 pkt = dat @ crc_bytes dat" "slice 2 (length dat) pkt = dat"
    by (simp_all add: pkt_def slice_def)
  ultimately show ?thesis
    using xm_packet_new[of ?s1 pkt rest L] rr crc_bytes_check[of dat] assms(4-6)
    by (simp add: q_def WriteBuffer_def XMODEM_RETRY_LIMIT_def)
qed

lemma xm_loop_frames:
  assumes "con s = xm_frames (seqnum s) ds" "\<forall>d\<in>set ds. length d \<in> {128, 1024}" "0 < retry s"
    and "response s = CH_C \<or> crcflag s" "totalbytes s + length (concat ds) \<le> L" "xm_pos s = totalbytes s"
    and "L \<le> length (xm_buf s)" "length ds < fuel"
  shows "\<exists>s'. xm_loop L fuel s = Inr (int (totalbytes s + length (concat ds)), s')
     \<and> xm_buf s' = memcpy (xm_buf s) (totalbytes s) (concat ds)"
  using assms
proof (induction ds arbitrary: s fuel)
  case Nil
  then obtain n where n: "fuel = Suc n" by (cases fuel) auto
  have "xmodemInTime XMODEM_TIMEOUT_DELAY [EOT] = (EOT, [])" by (simp add: EOT_def)
  then show ?case using Nil n by (simp add: xm_attempt_def Let_def SOH_def STX_def EOT_def memcpy_def flush_out_def)
next
  case (Cons d ds)
  then obtain n where n: "fuel = Suc n" "length ds < n" by (cases fuel) auto
  obtain s1 where s1: "xm_attempt L s = Inr s1" "con s1 = xm_frames (seqnum s1) ds" "0 < retry s1" "crcflag s1"
      "totalbytes s1 = totalbytes s + length d" "xm_pos s1 = totalbytes s1" "xm_buf s1 = memcpy (xm_buf s) (totalbytes s) d"
    using xm_attempt_frame[of s d "xm_frames (seqnum s + 1) ds" L] Cons.prems by auto
  have "totalbytes s1 + length (concat ds) \<le> L" "L \<le> length (xm_buf s1)" using s1 Cons.prems(5,7) by auto
  then obtain s' where s': "xm_loop L n s1 = Inr (int (totalbytes s1 + length (concat ds)), s')"
      "xm_buf s' = memcpy (xm_buf s1) (totalbytes s1) (concat ds)"
    using Cons.IH[of s1 n] s1 Cons.prems(2) n(2) by auto
  have "memcpy (xm_buf s1) (totalbytes s1) (concat ds) = memcpy (xm_buf s) (totalbytes s) (d @ concat ds)"
    using s1(5,7) memcpy_memcpy[of "totalbytes s" d "concat ds" "xm_buf s"] Cons.prems(5,7) by simp
  then show ?case using s' s1 n(1) by simp
qed



text \<open>
  C29 A sender that transmits the data in packets of 128 or 1024 bytes with sequence numbers
  counting from 1 modulo 256, complemented sequence number and CRC, and then EOT, is
  understood: the receiver returns the total length and the buffer begins with
  the data.
\<close>

theorem XModemReceive_stores_transfer:
  assumes "\<forall>d\<in>set ds. length d \<in> {128, 1024}" and "length (concat ds) \<le> bufLen" and "bufLen \<le> length buf"
    and "length ds < fuel"
  shows "\<exists>s'. XModemReceive fuel bufLen (xm_frames 1 ds) buf = Inr (int (length (concat ds)), s')
     \<and> xm_buf s' = concat ds @ drop (length (concat ds)) buf"
  using xm_loop_frames[of "xm_start (xm_frames 1 ds) buf" ds bufLen fuel] assms
  by (auto simp: XModemReceive_def xm_start_def XMODEM_RETRY_LIMIT_def memcpy_def)

theorem XModemReceive_stores_transfer_witness:
  "\<exists>s'. XModemReceive 3 2000 (xm_frames 1 [replicate 128 7, replicate 1024 9]) (replicate 2048 0) = Inr (1152, s')
     \<and> xm_buf s' = replicate 128 7 @ replicate 1024 9 @ replicate 896 0"
  using XModemReceive_stores_transfer[of "[replicate 128 7, replicate 1024 9]" 2000 "replicate 2048 0" 3] by simp

text \<open>
  The CRC check rejects every packet in which exactly one data byte differs from
  the one the CRC was computed for.
\<close>

lemma xmodemCrcCheck_detects_changed_byte:
  assumes "i < length dat" and "v \<noteq> dat ! i"
  shows "xmodemCrcCheck True (dat @ crc_bytes dat) (length dat)
     \<and> \<not> xmodemCrcCheck True (dat[i := v] @ crc_bytes dat) (length dat)"
  using crc_bytes_check[of dat] crc_changed_byte[OF assms, of 0]
  by (auto simp: xmodemCrcCheck_def crc_bytes_def Let_def nth_append)

lemma xmodemCrcCheck_detects_changed_byte_witness:
  "\<not> xmodemCrcCheck True ([1, 9, 3] @ crc_bytes [1, 2, 3]) 3"
  using xmodemCrcCheck_detects_changed_byte[of 1 "[1, 2, 3]" 9] by (simp add: numeral_3_eq_3)

end
