(* ===== verification/Fiptool.thy ===== *)
theory Fiptool
  imports Prelude
begin

text \<open>
  Reading a firmware image package (drivers/misc/ecnt/image/fiptool.c): parse\_fip looks for the
  entry of the image that is to be verified in the table of contents and
  remembers its offset in fip\_offset.

  The package lies in memory mem, a byte list; buf, the caller's pointer, is a
  position in it, which the function may move on. An access behind mem is the fault
  OutOfBounds.
\<close>

section \<open>Constants of the format\<close>

definition MV_DATA_OFFSET :: nat where "MV_DATA_OFFSET = 0x800"
definition BOOT_FIP_MAX_SIZE :: u32 where "BOOT_FIP_MAX_SIZE = 0x1F800"
definition TOC_HEADER_NAME :: u32 where "TOC_HEADER_NAME = 0xAA640001"
definition SIP_VERIFY_BL2 :: u32 where "SIP_VERIFY_BL2 = 0x82000201"
definition SIP_VERIFY_BL33 :: u32 where "SIP_VERIFY_BL33 = 0x82000205"

definition UUID_NON_TRUSTED_FIRMWARE_BL33 :: bytes where
  "UUID_NON_TRUSTED_FIRMWARE_BL33 = [0xd6, 0xd0, 0xee, 0xa7, 0xfc, 0xea, 0xd5, 0x4b, 0x97, 0x82, 0x99, 0x34, 0xf2, 0x34, 0xb6, 0xe4]"

definition UUID_TRUSTED_BOOT_FIRMWARE_BL2 :: bytes where
  "UUID_TRUSTED_BOOT_FIRMWARE_BL2 = [0x5f, 0xf9, 0xec, 0x0b, 0x4d, 0x22, 0x3e, 0x4d, 0xa5, 0x44, 0xc3, 0x9d, 0x81, 0xc7, 0x3f, 0x0a]"

definition img_uuid :: "bool \<Rightarrow> bytes" where
  "img_uuid tcboot = (if tcboot then UUID_TRUSTED_BOOT_FIRMWARE_BL2 else UUID_NON_TRUSTED_FIRMWARE_BL33)"

definition img_smc :: "bool \<Rightarrow> u32" where
  "img_smc tcboot = (if tcboot then SIP_VERIFY_BL2 else SIP_VERIFY_BL33)"

text \<open>sizeof(fip\_toc\_header\_t) and sizeof(fip\_toc\_entry\_t).\<close>

definition toc_header_size :: nat where "toc_header_size = 16"
definition toc_entry_size :: nat where "toc_entry_size = 40"

record fip_toc_entry =
  uuid :: bytes
  offset_address :: u64
  toc_size :: u64
  toc_flags :: u64

definition read_entry :: "bytes \<Rightarrow> fip_toc_entry" where
  "read_entry b = \<lparr>uuid = take 16 b, offset_address = rd64 (drop 16 b), toc_size = rd64 (drop 24 b), toc_flags = rd64 (drop 32 b)\<rparr>"

section \<open>parse\_fip\<close>

text \<open>What the call leaves behind: the result, the moved pointer and the caller's variables, and fip\_offset.\<close>

record fip_vars =
  fip_buf :: nat
  buf_size :: u32
  fip_off :: u32
  fip_size :: u32
  fip_flag :: u32
  fip_offset :: u32

text \<open>The walk over the table; its end is the 32-bit position bufend.\<close>

function toc_walk :: "bool \<Rightarrow> bytes \<Rightarrow> nat \<Rightarrow> nat \<Rightarrow> fip_vars \<Rightarrow> fault + u32 \<times> fip_vars" where
  "toc_walk tcboot mem e bufend v =
    (if e + toc_entry_size - 1 < bufend then
       res_bind (rd_at read_entry toc_entry_size mem e) (\<lambda>entry.
         if uuid entry = img_uuid tcboot
         then Inr (img_smc tcboot, v\<lparr>fip_off := ucast (offset_address entry), fip_size := ucast (toc_size entry),
                fip_flag := (if toc_flags entry \<noteq> 0 then ucast (toc_flags entry) else fip_flag v),
                fip_offset := ucast (offset_address entry)\<rparr>)
         else toc_walk tcboot mem (e + toc_entry_size) bufend v)
     else Inr (0, v))"
  by pat_completeness auto
termination
  by (relation "measure (\<lambda>(_, _, e, bufend, _). bufend - e)") (auto simp: toc_entry_size_def)

declare toc_walk.simps [simp del]

definition parse_fip :: "bytes \<Rightarrow> fip_vars \<Rightarrow> fault + u32 \<times> fip_vars" where
  "parse_fip mem v =
    res_bind (rd_at rd32 4 mem (fip_buf v)) (\<lambda>name.
      if name \<noteq> TOC_HEADER_NAME then
        let v1 = v\<lparr>fip_buf := fip_buf v + MV_DATA_OFFSET\<rparr>
        in res_bind (rd_at rd32 4 mem (fip_buf v1)) (\<lambda>name1.
             if name1 \<noteq> TOC_HEADER_NAME then Inr (0, v1)
             else toc_walk True mem (fip_buf v1 + toc_header_size) (fip_buf v1 + unat BOOT_FIP_MAX_SIZE)
                    (v1\<lparr>buf_size := BOOT_FIP_MAX_SIZE\<rparr>))
      else toc_walk False mem (fip_buf v + toc_header_size) (fip_buf v + unat (buf_size v)) v)"

section \<open>Packages as the tool writes them\<close>

definition print_entry :: "fip_toc_entry \<Rightarrow> bytes" where
  "print_entry e = uuid e @ le64 (offset_address e) @ le64 (toc_size e) @ le64 (toc_flags e)"

definition print_toc :: "u32 \<Rightarrow> u64 \<Rightarrow> fip_toc_entry list \<Rightarrow> bytes" where
  "print_toc serial flags es = le32 TOC_HEADER_NAME @ le32 serial @ le64 flags @ concat (map print_entry es)"

lemma read_print_entry: "length (uuid e) = 16 \<Longrightarrow> read_entry (print_entry e @ xs) = e"
  by (simp add: read_entry_def print_entry_def)

lemma length_print_entry: "length (uuid e) = 16 \<Longrightarrow> length (print_entry e) = toc_entry_size"
  by (simp add: print_entry_def toc_entry_size_def)

lemma rd_at_append: "length pre = off \<Longrightarrow> length x = n \<Longrightarrow> rd_at rd n (pre @ x @ post) off = Inr (rd x)"
  by (simp add: rd_at_def slice_def)

text \<open>The walk finds the first entry with the identifier of the image.\<close>

definition fip_found :: "bool \<Rightarrow> fip_toc_entry \<Rightarrow> fip_vars \<Rightarrow> fip_vars" where
  "fip_found tcboot e v = v\<lparr>fip_off := ucast (offset_address e), fip_size := ucast (toc_size e),
     fip_flag := (if toc_flags e \<noteq> 0 then ucast (toc_flags e) else fip_flag v), fip_offset := ucast (offset_address e)\<rparr>"

lemma toc_walk_finds:
  assumes "\<forall>e\<in>set es. length (uuid e) = 16" "find (\<lambda>e. uuid e = img_uuid tcboot) es = Some x"
    and "length pre + length (concat (map print_entry es)) \<le> bufend"
  shows "toc_walk tcboot (pre @ concat (map print_entry es) @ post) (length pre) bufend v = Inr (img_smc tcboot, fip_found tcboot x v)"
  using assms
proof (induction es arbitrary: pre)
  case (Cons e es)
  have le: "length (print_entry e) = toc_entry_size" and rp: "read_entry (print_entry e) = e"
    using Cons.prems(1) length_print_entry[of e] read_print_entry[of e "[]"] by auto
  have rd: "rd_at read_entry toc_entry_size (pre @ concat (map print_entry (e # es)) @ post) (length pre) = Inr e"
    using rd_at_append[of pre "length pre" "print_entry e" toc_entry_size read_entry "concat (map print_entry es) @ post"] le rp by simp
  have b: "length pre + toc_entry_size - 1 < bufend" using Cons.prems(3) le by (simp add: toc_entry_size_def)
  show ?case
  proof (cases "uuid e = img_uuid tcboot")
    case True
    then have "x = e" using Cons.prems(2) by simp
    then show ?thesis using True rd b by (subst toc_walk.simps) (simp add: fip_found_def)
  next
    case False
    have "toc_walk tcboot ((pre @ print_entry e) @ concat (map print_entry es) @ post) (length (pre @ print_entry e)) bufend v
        = Inr (img_smc tcboot, fip_found tcboot x v)"
      by (rule Cons.IH) (use Cons.prems False in auto)
    then show ?thesis using False rd b le by (subst toc_walk.simps) simp
  qed
qed simp

lemma parse_fip_toc:
  assumes "\<forall>e\<in>set es. length (uuid e) = 16"
    and "find (\<lambda>e. uuid e = UUID_NON_TRUSTED_FIRMWARE_BL33) es = Some x"
    and "length (print_toc serial flags es) \<le> unat (buf_size v)" and "fip_buf v = length pre"
  shows "parse_fip (pre @ print_toc serial flags es @ post) v
       = Inr (SIP_VERIFY_BL33, v\<lparr>fip_off := ucast (offset_address x), fip_size := ucast (toc_size x),
           fip_flag := (if toc_flags x \<noteq> 0 then ucast (toc_flags x) else fip_flag v),
           fip_offset := ucast (offset_address x)\<rparr>)"
proof -
  let ?mem = "pre @ print_toc serial flags es @ post"
  let ?h = "le32 TOC_HEADER_NAME @ le32 serial @ le64 flags"
  have m: "?mem = (pre @ ?h) @ concat (map print_entry es) @ post" by (simp add: print_toc_def)
  have "rd_at rd32 4 ?mem (length pre) = Inr TOC_HEADER_NAME"
    using rd_at_append[of pre "length pre" "le32 TOC_HEADER_NAME" 4 rd32] by (simp add: print_toc_def)
  moreover have "toc_walk False ?mem (length pre + toc_header_size) (length pre + unat (buf_size v)) v
      = Inr (img_smc False, fip_found False x v)"
    unfolding m using toc_walk_finds[of es False x "pre @ ?h" "length pre + unat (buf_size v)" post v] assms
    by (simp add: img_uuid_def toc_header_size_def print_toc_def)
  ultimately show ?thesis using assms(4) by (simp add: parse_fip_def img_smc_def fip_found_def)
qed

text \<open>
  C30 parse\_fip reads what the packaging tool writes: for a table of contents with header and
  entries at the start of the package, it returns the verification call of the first
  entry with the identifier of the second-stage firmware, together with this
  entry's offset and size, and records the offset for the image reader.
\<close>

theorem parse_fip_reads_toc:
  assumes "\<forall>e\<in>set es. length (uuid e) = 16"
    and "find (\<lambda>e. uuid e = UUID_NON_TRUSTED_FIRMWARE_BL33) es = Some x"
    and "length (print_toc serial flags es) \<le> unat (buf_size v)" and "fip_buf v = length pre"
  shows "parse_fip (pre @ print_toc serial flags es @ post) v
       = Inr (SIP_VERIFY_BL33, v\<lparr>fip_off := ucast (offset_address x), fip_size := ucast (toc_size x),
           fip_flag := (if toc_flags x \<noteq> 0 then ucast (toc_flags x) else fip_flag v),
           fip_offset := ucast (offset_address x)\<rparr>)"
  using assms by (rule parse_fip_toc)

definition demo_toc :: "fip_toc_entry list" where
  "demo_toc = [\<lparr>uuid = UUID_TRUSTED_BOOT_FIRMWARE_BL2, offset_address = 0x100, toc_size = 0x40, toc_flags = 0\<rparr>,
     \<lparr>uuid = UUID_NON_TRUSTED_FIRMWARE_BL33, offset_address = 0x2000, toc_size = 0x5000, toc_flags = 2\<rparr>]"

definition demo_fip_vars :: fip_vars where
  "demo_fip_vars = \<lparr>fip_buf = 0, buf_size = 0x2000, fip_off = 0, fip_size = 0, fip_flag = 0, fip_offset = 0\<rparr>"

theorem parse_fip_reads_toc_witness:
  "parse_fip (print_toc 7 0 demo_toc @ replicate 100 0) demo_fip_vars
   = Inr (SIP_VERIFY_BL33, demo_fip_vars\<lparr>fip_off := 0x2000, fip_size := 0x5000, fip_flag := 2, fip_offset := 0x2000\<rparr>)"
  using parse_fip_reads_toc[of demo_toc "demo_toc ! 1" 7 0 demo_fip_vars "[]" "replicate 100 0"]
  by (simp add: demo_toc_def demo_fip_vars_def UUID_NON_TRUSTED_FIRMWARE_BL33_def UUID_TRUSTED_BOOT_FIRMWARE_BL2_def
      print_toc_def print_entry_def)

end
