(* ===== verification/Ecnt_Image.thy ===== *)
theory Ecnt_Image
  imports Flashhal_Nand Fiptool
begin

text \<open>
  Reading the system image from the flash (drivers/misc/ecnt/image/ecnt\_image.c):
  get\_tclinux\_imginfo loads the device-tree container of the image piece by piece
  and reports where the kernel and the root file system lie in it.

  The buffer buf of the callers is a byte list; every read is checked against its
  end. The device-tree library (lib/libfdt) is vendored code; its functions are
  parameters that map the bytes of the buffer to node and property offsets.
\<close>

section \<open>Environment and state\<close>

record fdt_lib =
  fdt_path_offset :: "bytes \<Rightarrow> string \<Rightarrow> int"
  fdt_subnode_offset :: "bytes \<Rightarrow> int \<Rightarrow> string \<Rightarrow> int"
  fdt_getprop :: "bytes \<Rightarrow> int \<Rightarrow> string \<Rightarrow> (u32 \<times> u32) option"

record 'm img_env =
  hal_of :: "'m hal_env"
  fdt :: fdt_lib
  ramfs :: "nat \<Rightarrow> u8"

record 'm img_state =
  ihal :: "'m hal_state"
  ibuf :: bytes
  image_read_mode :: bool
  ifip_offset :: u32
  uenv :: "string \<Rightarrow> string option"

record tclinux_imginfo =
  kernel_off :: u32
  kernel_size :: u32
  rootfs_off :: u32
  rootfs_size :: u32
  tclinux_size :: u32

datatype IMG_BOOT_STATUS = NOT_BOOT_IMG | BOOT_IMG

definition FDT_MAGIC :: u32 where "FDT_MAGIC = 0xD00DFEED"
definition FLASH_READ_HEADER_LEN :: u32 where "FLASH_READ_HEADER_LEN = 0x800"

text \<open>Fields of the device-tree header, stored in big-endian order.\<close>

definition fdt_magic :: "bytes \<Rightarrow> u32" where "fdt_magic b = rd_be32 b"
definition fdt_totalsize :: "bytes \<Rightarrow> u32" where "fdt_totalsize b = rd_be32 (drop 4 b)"
definition fdt_off_dt_strings :: "bytes \<Rightarrow> u32" where "fdt_off_dt_strings b = rd_be32 (drop 12 b)"
definition fdt_size_dt_strings :: "bytes \<Rightarrow> u32" where "fdt_size_dt_strings b = rd_be32 (drop 32 b)"

section \<open>Reading a piece of the image\<close>

text \<open>image\_read(addr + x, n, retlen, buf + x).\<close>

definition read_img :: "'m img_env \<Rightarrow> u32 \<Rightarrow> u32 \<Rightarrow> u32 \<Rightarrow> 'm img_state \<Rightarrow> fault + int \<times> 'm img_state" where
  "read_img M addr x n st =
    (if length (ibuf st) < unat x + unat n then Inl OutOfBounds
     else let (r, dat, h) = image_read (hal_of M) (image_read_mode st) (ramfs M) False (addr + x) n (drop (unat x) (ibuf st)) (ihal st)
          in Inr (r, st\<lparr>ihal := h, ibuf := take (unat x) (ibuf st) @ dat\<rparr>))"

definition get_fdt_node_offset_len :: "fdt_lib \<Rightarrow> bytes \<Rightarrow> int \<Rightarrow> string \<Rightarrow> (u32 \<times> u32) option" where
  "get_fdt_node_offset_len F buf images_noffset node =
    (let noffset = fdt_subnode_offset F buf images_noffset node
     in if noffset < 0 then None else fdt_getprop F buf noffset ''data'')"

section \<open>get\_tclinux\_imginfo\<close>

text \<open>The strings block and everything up to the header of the kernel node; the Inl side of the inner sum is the early return.\<close>

definition imginfo_dt :: "'m img_env \<Rightarrow> u32 \<Rightarrow> int \<Rightarrow> 'm img_state \<Rightarrow> fault + (u32 option \<times> 'm img_state)" where
  "imginfo_dt M addr images st =
    res_bind (read_img M addr (fdt_off_dt_strings (ibuf st)) (fdt_size_dt_strings (ibuf st)) st) (\<lambda>(r, st1).
      if r \<noteq> 0 then Inr (None, st1)
      else case get_fdt_node_offset_len (fdt M) (ibuf st1) images ''fdt@1'' of
        None \<Rightarrow> Inr (None, st1)
      | Some (off, n) \<Rightarrow>
          let len = n + (off + FLASH_READ_HEADER_LEN)
          in if FLASH_READ_HEADER_LEN < len
             then res_bind (read_img M addr FLASH_READ_HEADER_LEN (len - FLASH_READ_HEADER_LEN) st1) (\<lambda>(r2, st2).
                    Inr (if r2 \<noteq> 0 then None else Some len, st2))
             else Inr (Some FLASH_READ_HEADER_LEN, st1))"

text \<open>The kernel, of which the body is read only for booting, and the header behind it.\<close>

definition imginfo_kernel :: "'m img_env \<Rightarrow> u32 \<Rightarrow> IMG_BOOT_STATUS \<Rightarrow> u32 \<Rightarrow> u32 \<Rightarrow> 'm img_state \<Rightarrow> fault + 'm img_state" where
  "imginfo_kernel M addr boot fdt_read_length kend st =
    res_bind (if boot = BOOT_IMG \<and> fdt_read_length < kend
              then read_img M addr fdt_read_length (kend - fdt_read_length) st else Inr (0, st)) (\<lambda>(r1, st1).
    res_bind (read_img M addr kend FLASH_READ_HEADER_LEN st1) (\<lambda>(r2, st2). Inr st2))"

definition imginfo_rootfs :: "'m img_env \<Rightarrow> u32 \<Rightarrow> int \<Rightarrow> IMG_BOOT_STATUS \<Rightarrow> u32 \<Rightarrow> tclinux_imginfo \<Rightarrow> 'm img_state
    \<Rightarrow> fault + int \<times> tclinux_imginfo \<times> 'm img_state" where
  "imginfo_rootfs M addr images boot kend info st =
    (case get_fdt_node_offset_len (fdt M) (ibuf st) images (if image_read_mode st then ''ramdisk@1'' else ''filesystem@1'') of
      None \<Rightarrow> Inr (-1, info, st)
    | Some (off, n) \<Rightarrow>
        let st1 = (if image_read_mode st then st\<lparr>uenv := (uenv st)(''root'' \<mapsto> ''/dev/ram rw'')\<rparr> else st);
            info1 = info\<lparr>rootfs_off := off, rootfs_size := n\<rparr>
        in res_bind (if image_read_mode st1
                     then read_img M addr (kend + FLASH_READ_HEADER_LEN) n st1 else Inr (0, st1)) (\<lambda>(r1, st2).
           res_bind (if boot = BOOT_IMG
                     then read_img M addr (off + n) FLASH_READ_HEADER_LEN st2 else Inr (0, st2)) (\<lambda>(r2, st3).
             Inr (0, info1, st3))))"

definition imginfo_fit :: "'m img_env \<Rightarrow> u32 \<Rightarrow> tclinux_imginfo \<Rightarrow> IMG_BOOT_STATUS \<Rightarrow> 'm img_state
    \<Rightarrow> fault + int \<times> tclinux_imginfo \<times> 'm img_state" where
  "imginfo_fit M addr info boot st =
    (let info1 = info\<lparr>tclinux_size := fdt_totalsize (ibuf st)\<rparr>;
         images = fdt_path_offset (fdt M) (ibuf st) ''/images''
     in if images < 0 then Inr (-1, info1, st)
        else res_bind (imginfo_dt M addr images st) (\<lambda>(frl, st1).
          case frl of None \<Rightarrow> Inr (-1, info1, st1)
          | Some fdt_read_length \<Rightarrow>
             (case get_fdt_node_offset_len (fdt M) (ibuf st1) images ''kernel@1'' of
                None \<Rightarrow> Inr (-1, info1, st1)
              | Some (koff, ksize) \<Rightarrow>
                  let info2 = info1\<lparr>kernel_off := koff, kernel_size := ksize\<rparr>
                  in res_bind (imginfo_kernel M addr boot fdt_read_length (koff + ksize) st1)
                       (imginfo_rootfs M addr images boot (koff + ksize) info2))))"

definition get_tclinux_imginfo :: "'m img_env \<Rightarrow> u32 \<Rightarrow> tclinux_imginfo \<Rightarrow> IMG_BOOT_STATUS \<Rightarrow> 'm img_state
    \<Rightarrow> fault + int \<times> tclinux_imginfo \<times> 'm img_state" where
  "get_tclinux_imginfo M orig_addr info boot st =
    (let addr = (if image_read_mode st then 0x100 else orig_addr + ifip_offset st)
     in res_bind (read_img M addr 0 FLASH_READ_HEADER_LEN st) (\<lambda>(r, st1).
          if r \<noteq> 0 then Inr (-1, info, st1)
          else if fdt_magic (ibuf st1) = FDT_MAGIC then imginfo_fit M addr info boot st1
          else Inr (-1, info, st1)))"

text \<open>The version is read into the trx header of the caller, whose 256 bytes are hdr.\<close>

definition TRX_MAGIC2 :: u32 where "TRX_MAGIC2 = 0x32524448"
definition trx_header_size :: nat where "trx_header_size = 256"

definition get_tclinux_img_version :: "'m img_env \<Rightarrow> u32 \<Rightarrow> 'm img_state \<Rightarrow> int \<times> bytes \<times> 'm img_state" where
  "get_tclinux_img_version M addr st =
    (let (r, hdr, h) = image_read (hal_of M) (image_read_mode st) (ramfs M) False (addr + ifip_offset st)
           (of_nat trx_header_size) (replicate trx_header_size 0) (ihal st);
         st1 = st\<lparr>ihal := h\<rparr>
     in if r \<noteq> 0 then (-1, hdr, st1)
        else if rd32 hdr \<noteq> TRX_MAGIC2 then (-1, hdr, st1)
        else (0, hdr, st1))"

text \<open>run is run\_command; isSwap the static flag of the function.\<close>

definition boot_from_another_image :: "string \<Rightarrow> string \<Rightarrow> (string \<Rightarrow> 's \<Rightarrow> int \<times> 's) \<Rightarrow> bool \<Rightarrow> 's \<Rightarrow> int \<times> bool \<times> 's" where
  "boot_from_another_image swap_cmd boot_cmd run isSwap s =
    (if \<not> isSwap then
       let (r, s1) = run swap_cmd s
       in if r \<noteq> 0 then (-1, True, s1) else let (r2, s2) = run boot_cmd s1 in (r2, True, s2)
     else (-1, isSwap, s))"

section \<open>What a read leaves in the buffer\<close>

text \<open>
  Read bytes lie in the buffer at the distance from its start that they have from
  the start of the image. img\_at tells that this holds at position k.
\<close>

definition img_at :: "'m img_env \<Rightarrow> nat \<Rightarrow> 'm img_state \<Rightarrow> nat \<Rightarrow> bool" where
  "img_at M base st k \<longleftrightarrow> ibuf st ! k = hal_byte (hal_of M) (ihal st) (base + k)"

definition img_inv :: "'m img_env \<Rightarrow> nat \<Rightarrow> 'm img_state \<Rightarrow> bool" where
  "img_inv M base st \<longleftrightarrow> hal_ok (hal_of M) (ihal st) \<and> \<not> image_read_mode st
     \<and> base + length (ibuf st) \<le> hal_cap (hal_of M) (ihal st)"

definition img_step :: "'m img_env \<Rightarrow> nat \<Rightarrow> 'm img_state \<Rightarrow> 'm img_state \<Rightarrow> bool" where
  "img_step M base st st' \<longleftrightarrow> img_inv M base st' \<and> length (ibuf st') = length (ibuf st)
     \<and> hal_byte (hal_of M) (ihal st') = hal_byte (hal_of M) (ihal st) \<and> (\<forall>k. img_at M base st k \<longrightarrow> img_at M base st' k)"

lemma img_step_refl [simp]: "img_inv M base st \<Longrightarrow> img_step M base st st"
  by (simp add: img_step_def)

lemma img_step_trans [trans]: "img_step M base st st1 \<Longrightarrow> img_step M base st1 st2 \<Longrightarrow> img_step M base st st2"
  by (simp add: img_step_def)

lemma read_img_step:
  assumes "img_inv M (unat addr) st" "read_img M addr x n st = Inr (r, st')"
  shows "r = 0" "img_step M (unat addr) st st'" "\<And>k. unat x \<le> k \<Longrightarrow> k < unat x + unat n \<Longrightarrow> img_at M (unat addr) st' k"
proof -
  let ?E = "hal_of M" and ?h = "ihal st" and ?buf = "drop (unat x) (ibuf st)"
  have fit: "unat x + unat n \<le> length (ibuf st)" using assms(2) by (auto simp: read_img_def split: if_splits)
  have inv: "hal_ok ?E ?h" "\<not> image_read_mode st" "unat addr + length (ibuf st) \<le> hal_cap ?E ?h"
    using assms(1) by (auto simp: img_inv_def)
  have "hal_cap ?E ?h \<le> 2 ^ 30" using logic_size_30[of "nand_conf ?E" "nand ?h"] inv(1) by (simp add: hal_ok_def hal_cap_def)
  then have ua: "unat (addr + x) = unat addr + unat x" using inv(3) fit by (simp add: unat_word_ariths)
  let ?dat = "map (hal_byte ?E ?h) [unat addr + unat x..<unat addr + unat x + unat n]"
  obtain h' where h': "flash_read ?E (addr + x) n ?buf ?h = (0, memcpy ?buf 0 ?dat, h')" "hal_ok ?E h'"
      "hal_byte ?E h' = hal_byte ?E ?h" "hal_cap ?E h' = hal_cap ?E ?h"
    using hal.rd_ok[OF inv(1), of "addr + x" n ?buf] fit inv(3) unfolding ua by (auto simp: le_diff_conv2)
  have res: "r = 0 \<and> st' = st\<lparr>ihal := h', ibuf := memcpy (ibuf st) (unat x) ?dat\<rparr>"
    using assms(2) fit inv(2) h'(1) by (auto simp: read_img_def image_read_def memcpy_def add.commute)
  then show "r = 0" by simp
  have at: "ibuf st' ! k = (if unat x \<le> k \<and> k < unat x + unat n then hal_byte ?E ?h (unat addr + k) else ibuf st ! k)"
    if "k < length (ibuf st)" for k using res that fit nth_memcpy[of "unat x" ?dat "ibuf st" k] by auto
  have beyond: "ibuf st' ! k = ibuf st ! k" if "\<not> k < length (ibuf st)" for k
    using res that fit by (auto simp: memcpy_def nth_append)
  show "img_step M (unat addr) st st'"
    unfolding img_step_def img_inv_def img_at_def using res h' inv at beyond fit by (auto; metis)
  show "img_at M (unat addr) st' k" if "unat x \<le> k" "k < unat x + unat n" for k
    using that at[of k] fit res h'(3) by (simp add: img_at_def)
qed

lemma read_img_total:
  assumes "img_inv M (unat addr) st" "unat x + unat n \<le> length (ibuf st)"
  obtains st' where "read_img M addr x n st = Inr (0, st')" "img_step M (unat addr) st st'"
proof -
  obtain r st' where r: "read_img M addr x n st = Inr (r, st')" using assms(2) by (fastforce simp: read_img_def split: prod.splits)
  then show ?thesis using that[of st'] read_img_step(1,2)[OF assms(1) r] by simp
qed

text \<open>Reading on from where the image is complete so far.\<close>

lemma read_img_extends:
  assumes "img_inv M (unat addr) st" "a < b" "read_img M addr a (b - a) st = Inr (r, st')"
    and "\<And>k. k < unat a \<Longrightarrow> img_at M (unat addr) st k"
  shows "img_step M (unat addr) st st'" "k < unat b \<Longrightarrow> img_at M (unat addr) st' k"
proof -
  show s: "img_step M (unat addr) st st'" by (rule read_img_step(2)[OF assms(1,3)])
  have "unat a + unat (b - a) = unat b" using assms(2) by (metis le_add_diff_inverse order_less_imp_le unat_sub word_le_nat_alt)
  then show "img_at M (unat addr) st' k" if "k < unat b"
    using read_img_step(3)[OF assms(1,3), of k] assms(4)[of k] s that by (cases "k < unat a") (auto simp: img_step_def)
qed

lemma imginfo_dt_step:
  assumes "img_inv M (unat addr) st" "imginfo_dt M addr images st = Inr (Some frl, st')"
    and "\<And>k. k < unat FLASH_READ_HEADER_LEN \<Longrightarrow> img_at M (unat addr) st k"
  shows "img_step M (unat addr) st st'" "k < unat frl \<Longrightarrow> img_at M (unat addr) st' k"
proof -
  let ?b = "unat addr"
  obtain r st1 off n where 1: "read_img M addr (fdt_off_dt_strings (ibuf st)) (fdt_size_dt_strings (ibuf st)) st = Inr (r, st1)"
    and 2: "(let len = n + (off + FLASH_READ_HEADER_LEN)
          in if FLASH_READ_HEADER_LEN < len
             then res_bind (read_img M addr FLASH_READ_HEADER_LEN (len - FLASH_READ_HEADER_LEN) st1) (\<lambda>(r2, st2).
                    Inr (if r2 \<noteq> 0 then None else Some len, st2))
             else Inr (Some FLASH_READ_HEADER_LEN, st1)) = Inr (Some frl, st')"
    using assms(2) by (fastforce simp: imginfo_dt_def res_bind_eq_Inr split: if_splits option.splits)
  note s1 = read_img_step[OF assms(1) 1]
  have hd1: "img_at M ?b st1 k" if "k < unat FLASH_READ_HEADER_LEN" for k
    using s1(2) assms(3)[OF that] by (simp add: img_step_def)
  have i1: "img_inv M ?b st1" using s1(2) by (simp add: img_step_def)
  have "img_step M ?b st1 st' \<and> (k < unat frl \<longrightarrow> img_at M ?b st' k)"
  proof (cases "FLASH_READ_HEADER_LEN < n + (off + FLASH_READ_HEADER_LEN)")
    case True
    then obtain r2 where 3: "read_img M addr FLASH_READ_HEADER_LEN (frl - FLASH_READ_HEADER_LEN) st1 = Inr (r2, st')"
      and frl: "frl = n + (off + FLASH_READ_HEADER_LEN)"
      using 2 by (auto simp: Let_def res_bind_eq_Inr split: if_splits)
    show ?thesis using read_img_extends[OF i1 True[folded frl] 3 hd1] by blast
  next
    case False
    then show ?thesis using 2 hd1 i1 by (auto simp: Let_def)
  qed
  then show "img_step M ?b st st'" "k < unat frl \<Longrightarrow> img_at M ?b st' k" using img_step_trans[OF s1(2)] by auto
qed

lemma imginfo_kernel_step:
  assumes "img_inv M (unat addr) st" "imginfo_kernel M addr BOOT_IMG frl kend st = Inr st'"
    and "\<And>k. k < unat frl \<Longrightarrow> img_at M (unat addr) st k"
  shows "img_step M (unat addr) st st'" "k < unat kend + 0x800 \<Longrightarrow> img_at M (unat addr) st' k"
proof -
  let ?b = "unat addr"
  obtain r1 st1 r2 where 1: "(if frl < kend then read_img M addr frl (kend - frl) st else Inr (0, st)) = Inr (r1, st1)"
    and 2: "read_img M addr kend FLASH_READ_HEADER_LEN st1 = Inr (r2, st')"
    using assms(2) by (fastforce simp: imginfo_kernel_def res_bind_eq_Inr)
  have s1: "img_step M ?b st st1 \<and> (k < unat kend \<longrightarrow> img_at M ?b st1 k)"
  proof (cases "frl < kend")
    case True
    then have r: "read_img M addr frl (kend - frl) st = Inr (r1, st1)" using 1 by simp
    show ?thesis using read_img_extends[OF assms(1) True r assms(3)] by blast
  next
    case False
    then show ?thesis using 1 assms(1,3) by (auto simp: word_less_nat_alt)
  qed
  then have i1: "img_inv M ?b st1" by (simp add: img_step_def)
  note s2 = read_img_step[OF i1 2]
  show "img_step M ?b st st'" using s1 s2(2) img_step_trans by blast
  show "img_at M ?b st' k" if "k < unat kend + 0x800"
    using s1 s2(2) s2(3)[of k] that unfolding img_step_def FLASH_READ_HEADER_LEN_def by (cases "k < unat kend") auto
qed

lemma imginfo_rootfs_step:
  assumes "img_inv M (unat addr) st" "imginfo_rootfs M addr images boot kend info st = Inr (0, info', st')"
  shows "img_step M (unat addr) st st' \<and> kernel_off info' = kernel_off info \<and> kernel_size info' = kernel_size info"
  using assms read_img_step(2)
  by (fastforce simp: imginfo_rootfs_def img_inv_def res_bind_eq_Inr Let_def split: option.splits if_splits)

end
