(* ===== verification/Image_Theorems.thy ===== *)
theory Image_Theorems
  imports Ecnt_Image Flashhal_Theorems
begin

text \<open>Properties of the image reader.\<close>

lemma imginfo_loads_kernel:
  fixes orig :: u32
  assumes "hal_ok (hal_of M) (ihal st)" and "\<not> image_read_mode st"
    and "unat (orig + ifip_offset st) + length (ibuf st) \<le> hal_cap (hal_of M) (ihal st)"
    and "get_tclinux_imginfo M orig info0 BOOT_IMG st = Inr (0, info, st')"
    and "k < unat (kernel_off info + kernel_size info) + 0x800"
  shows "ibuf st' ! k = hal_byte (hal_of M) (ihal st) (unat (orig + ifip_offset st) + k)"
proof -
  define addr where "addr = orig + ifip_offset st"
  let ?b = "unat addr"
  have i0: "img_inv M ?b st" using assms(1-3) by (simp add: img_inv_def addr_def)
  obtain r st1 where 1: "read_img M addr 0 FLASH_READ_HEADER_LEN st = Inr (r, st1)"
    and 2: "imginfo_fit M addr info0 BOOT_IMG st1 = Inr (0, info, st')"
    using assms(2,4) by (fastforce simp: get_tclinux_imginfo_def res_bind_eq_Inr addr_def[symmetric] split: if_splits)
  note s1 = read_img_step[OF i0 1]
  have i1: "img_inv M ?b st1" using s1(2) by (simp add: img_step_def)
  have h1: "k < unat FLASH_READ_HEADER_LEN \<Longrightarrow> img_at M ?b st1 k" for k using s1(3)[of k] by simp
  obtain images frl st2 koff ksize st3 info2 where 3: "imginfo_dt M addr images st1 = Inr (Some frl, st2)"
    and 4: "imginfo_kernel M addr BOOT_IMG frl (koff + ksize) st2 = Inr st3"
    and 5: "imginfo_rootfs M addr images BOOT_IMG (koff + ksize) info2 st3 = Inr (0, info, st')"
    and info2: "kernel_off info2 = koff" "kernel_size info2 = ksize"
    using 2 by (fastforce simp: imginfo_fit_def res_bind_eq_Inr Let_def split: if_splits option.splits)
  note s2 = imginfo_dt_step[OF i1 3 h1]
  have i2: "img_inv M ?b st2" using s2(1) by (simp add: img_step_def)
  note s3 = imginfo_kernel_step[OF i2 4 s2(2)]
  have i3: "img_inv M ?b st3" using s3(1) by (simp add: img_step_def)
  note s4 = imginfo_rootfs_step[OF i3 5]
  have "img_at M ?b st3 k" using s3(2) assms(5) s4 info2 by simp
  then have "img_at M ?b st' k" using s4 by (simp add: img_step_def)
  moreover have "img_step M ?b st st'" using s1(2) s2(1) s3(1) s4 img_step_trans by blast
  ultimately show ?thesis by (simp add: img_at_def img_step_def addr_def)
qed

text \<open>
  When get\_tclinux\_imginfo reports success for an image that is to be booted, the
  whole image up to the end of the kernel and the header behind it is in
  memory: every byte of the buffer there is the byte of the flash at the same distance from
  the start of the image, whatever offsets the device tree claimed. This holds for every
  behaviour of the device-tree library.
\<close>

lemma get_tclinux_imginfo_loads_kernel:
  fixes orig :: u32
  assumes "hal_ok (hal_of M) (ihal st)" and "\<not> image_read_mode st"
    and "unat (orig + ifip_offset st) + length (ibuf st) \<le> hal_cap (hal_of M) (ihal st)"
    and "get_tclinux_imginfo M orig info0 BOOT_IMG st = Inr (0, info, st')"
    and "k < unat (kernel_off info + kernel_size info) + 0x800"
  shows "ibuf st' ! k = hal_byte (hal_of M) (ihal st) (unat (orig + ifip_offset st) + k)"
  using assms by (rule imginfo_loads_kernel)

text \<open>An image of the smallest kind on the demonstration chip.\<close>

definition demo_fdt :: fdt_lib where
  "demo_fdt = \<lparr>fdt_path_offset = (\<lambda>_ _. 0), fdt_subnode_offset = (\<lambda>_ _ n. if n = ''fdt@1'' then 1 else if n = ''kernel@1'' then 2 else 3),
     fdt_getprop = (\<lambda>_ n _. if n = 1 then Some (0, 0) else if n = 2 then Some (16, 32) else Some (64, 16))\<rparr>"

definition demo_img_env :: "unit img_env" where
  "demo_img_env = \<lparr>hal_of = demo_env, fdt = demo_fdt, ramfs = (\<lambda>_. 0)\<rparr>"

definition fit_globals :: bmt_globals where
  "fit_globals = demo_globals\<lparr>dev := demo_dev\<lparr>flash_data := (\<lambda>_. [0xD0, 0x0D, 0xFE, 0xED] @ replicate 1020 0)\<rparr>\<rparr>"

definition demo_info :: tclinux_imginfo where
  "demo_info = \<lparr>kernel_off = 0, kernel_size = 0, rootfs_off = 0, rootfs_size = 0, tclinux_size = 0\<rparr>"

definition demo_img :: "unit img_state" where
  "demo_img = \<lparr>ihal = demo_hal\<lparr>nand := fit_globals\<rparr>, ibuf = replicate 4096 0, image_read_mode = False, ifip_offset = 0, uenv = (\<lambda>_. None)\<rparr>"

lemma fit_rw_inv: "rw_inv demo_cfg fit_globals"
proof -
  have "create_badblock_table_by_bbt 2 (init_bbt demo_globals) = [0, 1]"
    by (simp add: create_badblock_table_by_bbt_def demo_globals_def upt_rec)
  moreover have "ascending_bbt 2 (init_bbt demo_globals)"
    by (simp add: ascending_bbt_def demo_globals_def wf_bbt_def raw_bad_blocks_def)
  moreover have "bmt_inv 2 4 (bmt demo_globals)" by (simp add: bmt_inv_def live_entries_def demo_globals_def)
  moreover have "wf_dev demo_cfg (dev fit_globals)"
    using demo_dev_wf by (simp add: fit_globals_def wf_dev_defs wf_faults_def demo_dev_def)
  ultimately show ?thesis by (simp add: rw_inv_def) (simp add: fit_globals_def demo_globals_def)
qed

lemma demo_img_inv: "img_inv demo_img_env 0 demo_img"
  using fit_rw_inv demo_clean
  by (simp add: img_inv_def demo_img_env_def demo_img_def hal_ok_def nand_env_def demo_env_def demo_hal_def hal_cap_def logic_size_def logic_blocks_def)
    (simp add: fit_globals_def demo_globals_def)

lemma demo_img_bytes: "k < 1024 \<Longrightarrow> hal_byte demo_env (ihal demo_img) k = ([0xD0, 0x0D, 0xFE, 0xED] @ replicate 1020 0) ! k"
  by (simp add: hal_byte_def flash_byte_def demo_img_def demo_env_def demo_hal_def fit_globals_def demo_globals_def)

text \<open>A device tree of which only the magic number is set is accepted by this library.\<close>

lemma tiny_fit_success:
  assumes i0: "img_inv M (unat addr) st" and len: "4096 \<le> length (ibuf st)" and F: "fdt M = demo_fdt" and addr: "addr = orig + ifip_offset st"
    and bytes: "\<And>k. k < 64 \<Longrightarrow> hal_byte (hal_of M) (ihal st) (unat addr + k) = ([0xD0, 0x0D, 0xFE, 0xED] @ replicate 60 0) ! k"
  shows "\<exists>info st'. get_tclinux_imginfo M orig info0 BOOT_IMG st = Inr (0, info, st') \<and> kernel_off info = 16 \<and> kernel_size info = 32"
proof -
  let ?b = "unat addr"
  note tot = read_img_total[of M addr]
  obtain st1 where 1: "read_img M addr 0 FLASH_READ_HEADER_LEN st = Inr (0, st1)" "img_step M ?b st st1"
    using tot[OF i0, of 0 FLASH_READ_HEADER_LEN] len by (auto simp: FLASH_READ_HEADER_LEN_def)
  have at: "ibuf st1 ! k = ([0xD0, 0x0D, 0xFE, 0xED] @ replicate 60 0) ! k" if "k < 64" for k
    using read_img_step(3)[OF i0 1(1), of k] 1(2) that bytes[OF that]
    by (simp add: img_at_def img_step_def FLASH_READ_HEADER_LEN_def)
  have l1: "4096 \<le> length (ibuf st1)" using 1(2) len by (simp add: img_step_def)
  have magic: "fdt_magic (ibuf st1) = FDT_MAGIC" by (simp add: fdt_magic_def FDT_MAGIC_def rd_be32_def rd32_def at)
  have dts: "fdt_off_dt_strings (ibuf st1) = 0" "fdt_size_dt_strings (ibuf st1) = 0"
    using l1 by (simp_all add: fdt_off_dt_strings_def fdt_size_dt_strings_def rd_be32_def rd32_def at nth_append)
  have i1: "img_inv M ?b st1" using 1(2) by (simp add: img_step_def)
  obtain st2 where 2: "read_img M addr 0 0 st1 = Inr (0, st2)" "img_step M ?b st1 st2"
    using tot[OF i1, of 0 0] by auto
  then have i2: "img_inv M ?b st2" "4096 \<le> length (ibuf st2)" using l1 by (simp_all add: img_step_def)
  obtain st3 where 3: "read_img M addr 48 FLASH_READ_HEADER_LEN st2 = Inr (0, st3)" "img_step M ?b st2 st3"
    using tot[OF i2(1), of 48 FLASH_READ_HEADER_LEN] i2(2) by (auto simp: FLASH_READ_HEADER_LEN_def)
  then have i3: "img_inv M ?b st3" "4096 \<le> length (ibuf st3)" "\<not> image_read_mode st3" using i2 by (auto simp: img_step_def img_inv_def)
  obtain st4 where 4: "read_img M addr 80 FLASH_READ_HEADER_LEN st3 = Inr (0, st4)"
    using tot[OF i3(1), of 80 FLASH_READ_HEADER_LEN] i3(2) by (auto simp: FLASH_READ_HEADER_LEN_def)
  have node: "get_fdt_node_offset_len (fdt M) b i n = (if n = ''fdt@1'' then Some (0, 0) else if n = ''kernel@1'' then Some (16, 32) else Some (64, 16))"
    for b i n by (simp add: get_fdt_node_offset_len_def F demo_fdt_def)
  have dt: "imginfo_dt M addr 0 st1 = Inr (Some FLASH_READ_HEADER_LEN, st2)"
    by (simp add: imginfo_dt_def dts 2 node)
  have kernel: "imginfo_kernel M addr BOOT_IMG FLASH_READ_HEADER_LEN 48 st2 = Inr st3"
    unfolding imginfo_kernel_def by (simp add: 3) (simp add: FLASH_READ_HEADER_LEN_def)
  have images: "fdt_path_offset (fdt M) b n = 0" for b n by (simp add: F demo_fdt_def)
  have m: "\<not> image_read_mode st" using i0 by (simp add: img_inv_def)
  show ?thesis using 1(1) magic m
    by (simp add: get_tclinux_imginfo_def addr[symmetric] imginfo_fit_def images dt node kernel imginfo_rootfs_def i3(3) 4)
qed

lemma demo_img_success:
  "\<exists>info st'. get_tclinux_imginfo demo_img_env 0 info0 BOOT_IMG demo_img = Inr (0, info, st')
     \<and> kernel_off info = 16 \<and> kernel_size info = 32"
proof (rule tiny_fit_success[of _ 0])
  show "img_inv demo_img_env (unat (0 :: u32)) demo_img" using demo_img_inv by simp
  show "hal_byte (hal_of demo_img_env) (ihal demo_img) (unat (0 :: u32) + k) = ([0xD0, 0x0D, 0xFE, 0xED] @ replicate 60 0) ! k" if "k < 64" for k
    using that demo_img_bytes[of k] by (simp add: demo_img_env_def nth_Cons split: nat.split)
qed (simp_all add: demo_img_def demo_img_env_def)

lemma get_tclinux_imginfo_loads_kernel_witness:
  "\<exists>st'. ibuf st' ! 47 = hal_byte demo_env (ihal demo_img) 47
     \<and> (\<exists>info. get_tclinux_imginfo demo_img_env 0 demo_info BOOT_IMG demo_img = Inr (0, info, st'))"
proof -
  obtain info st' where r: "get_tclinux_imginfo demo_img_env 0 demo_info BOOT_IMG demo_img = Inr (0, info, st')"
    and k: "kernel_off info = 16" "kernel_size info = 32" using demo_img_success by blast
  have i: "hal_ok demo_env (ihal demo_img)" "\<not> image_read_mode demo_img" "4096 \<le> hal_cap demo_env (ihal demo_img)"
      "ifip_offset demo_img = 0" "length (ibuf demo_img) = 4096" "hal_of demo_img_env = demo_env"
    using demo_img_inv by (simp_all add: img_inv_def demo_img_def demo_img_env_def)
  have "ibuf st' ! 47 = hal_byte demo_env (ihal demo_img) 47"
    using get_tclinux_imginfo_loads_kernel[OF _ i(2) _ r, of 47] i k by simp
  then show ?thesis using r by blast
qed

end
