(* ===== verification/Cstring.thy ===== *)
theory Cstring
  imports Prelude
begin

text \<open>
  C strings and number parsing as the partition parser uses them: a string that is only
  read is a list of characters without its terminating zero, a character array
  that is written is a list of fixed length in which CHR 0x00 ends the string.
  simple\_strtoull is that of lib/vsprintf.c.
\<close>

section \<open>Character arrays\<close>

definition NUL :: char where "NUL = CHR 0x00"

definition c_str :: "string \<Rightarrow> string" where
  "c_str arr = takeWhile (\<lambda>c. c \<noteq> NUL) arr"

definition strcpy :: "string \<Rightarrow> string \<Rightarrow> fault + string" where
  "strcpy dst src = (if length dst < length src + 1 then Inl OutOfBounds else Inr (memcpy dst 0 (src @ [NUL])))"

definition strcat :: "string \<Rightarrow> string \<Rightarrow> fault + string" where
  "strcat dst src =
    (let n = length (c_str dst)
     in if length dst < n + length src + 1 then Inl OutOfBounds else Inr (memcpy dst n (src @ [NUL])))"

lemma c_str_append [simp]: "NUL \<notin> set src \<Longrightarrow> c_str (src @ NUL # rest) = src"
  unfolding c_str_def by (subst takeWhile_append2) auto

lemma strcpy_c_str:
  assumes "strcpy dst src = Inr arr" "NUL \<notin> set src"
  shows "c_str arr = src" "length arr = length dst"
  using assms by (auto simp: strcpy_def memcpy_def split: if_splits)

lemma strcat_c_str:
  assumes "strcat dst src = Inr arr" "NUL \<notin> set src"
  shows "c_str arr = c_str dst @ src" "length arr = length dst"
proof -
  let ?n = "length (c_str dst)"
  have fit: "?n + length src + 1 \<le> length dst" and arr: "arr = take ?n dst @ (src @ [NUL]) @ drop (?n + (length src + 1)) dst"
    using assms(1) by (auto simp: strcat_def Let_def memcpy_def split: if_splits)
  have "take ?n dst = c_str dst" unfolding c_str_def by (metis takeWhile_eq_take)
  moreover have "NUL \<notin> set (c_str dst)" unfolding c_str_def by (auto dest: set_takeWhileD)
  ultimately have "c_str arr = c_str ((c_str dst @ src) @ NUL # drop (?n + (length src + 1)) dst)" by (simp add: arr)
  also have "\<dots> = c_str dst @ src" using assms(2) \<open>NUL \<notin> set (c_str dst)\<close> by (intro c_str_append) simp
  finally show "c_str arr = c_str dst @ src" .
  show "length arr = length dst" using fit arr by simp
qed

text \<open>strstr: the text from the first occurrence on.\<close>

fun strstr :: "string \<Rightarrow> string \<Rightarrow> string option" where
  "strstr [] n = (if n = [] then Some [] else None)"
| "strstr (c # cs) n = (if take (length n) (c # cs) = n then Some (c # cs) else strstr cs n)"

text \<open>strchr, returning the text before the character and the text from it on.\<close>

definition strchr :: "string \<Rightarrow> char \<Rightarrow> (string \<times> string) option" where
  "strchr s c = (if c \<in> set s then Some (takeWhile (\<lambda>x. x \<noteq> c) s, dropWhile (\<lambda>x. x \<noteq> c) s) else None)"

text \<open>strncmp(a, b, n) = 0 for a string b, where a starts with the n characters of pre.\<close>

definition strncmp_eq :: "string \<Rightarrow> string \<Rightarrow> bool" where
  "strncmp_eq pre b \<longleftrightarrow> take (length pre) b = pre"

section \<open>Numbers\<close>

definition isdigit :: "char \<Rightarrow> bool" where
  "isdigit c \<longleftrightarrow> 48 \<le> (of_char c :: nat) \<and> (of_char c :: nat) \<le> 57"

definition isxdigit :: "char \<Rightarrow> bool" where
  "isxdigit c \<longleftrightarrow> isdigit c \<or> 65 \<le> (of_char c :: nat) \<and> (of_char c :: nat) \<le> 70 \<or> 97 \<le> (of_char c :: nat) \<and> (of_char c :: nat) \<le> 102"

definition digit_value :: "char \<Rightarrow> nat" where
  "digit_value c = (if isdigit c then of_char c - 48 else if 97 \<le> (of_char c :: nat) then of_char c - 97 + 10 else of_char c - 65 + 10)"

fun strtoull_loop :: "nat \<Rightarrow> u64 \<Rightarrow> string \<Rightarrow> u64 \<times> string" where
  "strtoull_loop base result [] = (result, [])"
| "strtoull_loop base result (c # cs) =
    (if isxdigit c \<and> digit_value c < base then strtoull_loop base (result * of_nat base + of_nat (digit_value c)) cs
     else (result, c # cs))"

text \<open>With base 0, as the parser calls it: 0x introduces base 16, another leading 0 base 8.\<close>

definition simple_strtoull :: "string \<Rightarrow> u64 \<times> string" where
  "simple_strtoull cp =
    (if take 1 cp = ''0''
     then if take 1 (drop 1 cp) = ''x'' \<and> drop 2 cp \<noteq> [] \<and> isxdigit (hd (drop 2 cp))
          then strtoull_loop 16 0 (drop 2 cp) else strtoull_loop 8 0 (drop 1 cp)
     else strtoull_loop 10 0 cp)"

lemma strtoull_loop_length: "strtoull_loop b r cs = (v, rest) \<Longrightarrow> length rest \<le> length cs"
  by (induction b r cs rule: strtoull_loop.induct) (auto split: if_splits)

lemma simple_strtoull_length: "simple_strtoull cs = (v, rest) \<Longrightarrow> length rest \<le> length cs"
  by (fastforce simp: simple_strtoull_def split: if_splits dest: strtoull_loop_length)

section \<open>Decimal numerals\<close>

fun show_dec :: "nat \<Rightarrow> string" where
  "show_dec n = (if n < 10 then [char_of (48 + n)] else show_dec (n div 10) @ [char_of (48 + n mod 10)])"

declare show_dec.simps [simp del]

definition dec_stop :: "string \<Rightarrow> bool" where
  "dec_stop s = (case s of [] \<Rightarrow> True | c # _ \<Rightarrow> \<not> isdigit c)"

lemma digit_char: "d < 10 \<Longrightarrow> isdigit (char_of (48 + d :: nat)) \<and> digit_value (char_of (48 + d :: nat)) = d"
  by (simp add: isdigit_def digit_value_def)

lemma strtoull_stop: "dec_stop s \<Longrightarrow> strtoull_loop 10 r s = (r, s)"
proof (cases s)
  case (Cons c cs)
  moreover assume "dec_stop s"
  ultimately have "\<not> isdigit c" by (simp add: dec_stop_def)
  then have "\<not> (isxdigit c \<and> digit_value c < 10)" by (auto simp: digit_value_def)
  then show ?thesis unfolding Cons by auto
qed simp

lemma strtoull_loop_dec:
  "strtoull_loop 10 r (show_dec n @ s) = strtoull_loop 10 (r * 10 ^ length (show_dec n) + of_nat n) s"
proof (induction n arbitrary: r s rule: show_dec.induct)
  case (1 n)
  show ?case
  proof (cases "n < 10")
    case True
    then show ?thesis using digit_char[of n] by (simp add: show_dec.simps[of n] isxdigit_def)
  next
    case False
    have n: "(of_nat n :: u64) = of_nat (n div 10) * 10 + of_nat (n mod 10)"
      by (metis div_mult_mod_eq of_nat_add of_nat_mult of_nat_numeral)
    have d: "isxdigit (char_of (48 + n mod 10))" "digit_value (char_of (48 + n mod 10)) = n mod 10"
      using digit_char[of "n mod 10"] by (simp_all add: isxdigit_def)
    let ?t = "show_dec (n div 10)"
    have "strtoull_loop 10 r (show_dec n @ s) = strtoull_loop 10 r (?t @ (char_of (48 + n mod 10) # s))"
      using False by (simp add: show_dec.simps[of n])
    also have "\<dots> = strtoull_loop 10 (r * 10 ^ length ?t + of_nat (n div 10)) (char_of (48 + n mod 10) # s)"
      using 1[OF False] .
    also have "\<dots> = strtoull_loop 10 ((r * 10 ^ length ?t + of_nat (n div 10)) * 10 + of_nat (n mod 10)) s"
      using d by simp
    also have "(r * 10 ^ length ?t + of_nat (n div 10)) * 10 + of_nat (n mod 10) = r * 10 ^ length (show_dec n) + of_nat n"
      using False n by (simp add: show_dec.simps[of n] algebra_simps)
    finally show ?thesis .
  qed
qed

lemma show_dec_head: "0 < n \<Longrightarrow> \<exists>d cs. show_dec n = char_of (48 + d :: nat) # cs \<and> 0 < d \<and> d < 10"
proof (induction n rule: show_dec.induct)
  case (1 n)
  show ?case
  proof (cases "n < 10")
    case True
    then show ?thesis using 1(2) by (intro exI[of _ n] exI[of _ "[]"]) (simp add: show_dec.simps[of n])
  next
    case False
    then have "0 < n div 10" by simp
    then obtain d cs where "show_dec (n div 10) = char_of (48 + d :: nat) # cs" "0 < d" "d < 10" using 1(1)[OF False] by blast
    then show ?thesis using False by (intro exI[of _ d]) (simp add: show_dec.simps[of n])
  qed
qed

lemma simple_strtoull_dec:
  assumes "0 < n" "dec_stop s"
  shows "simple_strtoull (show_dec n @ s) = (of_nat n, s)"
proof -
  obtain d cs where d: "show_dec n = char_of (48 + d :: nat) # cs" "0 < d" "d < 10" using show_dec_head[OF assms(1)] by blast
  have "char_of (48 + d :: nat) \<noteq> CHR ''0''"
  proof
    assume "char_of (48 + d :: nat) = CHR ''0''"
    then have "(of_char (char_of (48 + d :: nat)) :: nat) = of_char (CHR ''0'')" by simp
    then show False using d(2,3) by simp
  qed
  then have "simple_strtoull (show_dec n @ s) = strtoull_loop 10 0 (show_dec n @ s)"
    unfolding simple_strtoull_def d(1) by simp
  then show ?thesis using strtoull_loop_dec[of 0 n s] strtoull_stop[OF assms(2)] by simp
qed

end
