(* ===== verification/Ecnt_Mtd.thy ===== *)
theory Ecnt_Mtd
  imports Cstring Ecnt_Image
begin

text \<open>
  The partition table (drivers/misc/ecnt/image/ecnt\_mtd.c): the parser of the
  partition string, the two passes that lay the partitions out in the flash, and the lookup
  functions.

  The names in the table are pointers, null in an entry that was never filled in; a string
  function applied to such a name is the fault NullPointer. Choices that the
  sources make with preprocessor symbols are fields of the configuration.
\<close>

section \<open>Configuration, constants and the table\<close>

record mtd_conf =
  TCSUPPORT_OPENWRT :: bool
  RDKB_BUILD :: bool
  TCSUPPORT_ARM_MULTIBOOT :: bool
  TCSUPPORT_BLX_MULTICOPY :: bool
  TCSUPPORT_RESERVEAREA_BLOCK :: u32
  flash_base :: u32

record mtd_partition =
  pname :: "string option"
  psize :: u32
  poffset :: u32
  mask_flags :: u32

record mtd_state =
  ecnt_parts :: "mtd_partition list"
  kernel_part_index :: int
  kernel_slave_part_index :: int
  has_remaining_part_flag :: bool
  tclinux_part_size :: u64
  tclinux_part_offset :: u64

definition SIZE_REMAINING :: u32 where "SIZE_REMAINING = 0xFFFFFFFF"
definition SIZE_TO_GET :: u32 where "SIZE_TO_GET = 0xFFFFFFFE"
definition OFFSET_CONTINUOUS :: u32 where "OFFSET_CONTINUOUS = 0xFFFFFFFF"
definition OFFSET_BACK_FORWARD :: u32 where "OFFSET_BACK_FORWARD = 0xFFFFFFFE"
definition OFFSET_NOT_FOUND :: u32 where "OFFSET_NOT_FOUND = 0xFFFFFFFF"
definition PARTS_SIZE :: nat where "PARTS_SIZE = 512"
definition STR_LEN :: nat where "STR_LEN = 256"

abbreviation TCLINUX :: string where "TCLINUX \<equiv> ''tclinux''"
abbreviation TCLINUX_SLAVE :: string where "TCLINUX_SLAVE \<equiv> ''tclinux_slave''"
abbreviation KERNEL_PART :: string where "KERNEL_PART \<equiv> ''kernel''"
abbreviation ROOTFS_PART :: string where "ROOTFS_PART \<equiv> ''rootfs''"
abbreviation KERNEL_SLAVE_PART :: string where "KERNEL_SLAVE_PART \<equiv> ''kernel_slave''"
abbreviation ROOTFS_SLAVE_PART :: string where "ROOTFS_SLAVE_PART \<equiv> ''rootfs_slave''"
abbreviation BOOTLOADER_PART :: string where "BOOTLOADER_PART \<equiv> ''bootloader''"
abbreviation ROMFILE_PART :: string where "ROMFILE_PART \<equiv> ''romfile''"
abbreviation BOOTLOADER_PART_STR :: string where "BOOTLOADER_PART_STR \<equiv> ''0[bootloader],''"
abbreviation ROMFILE_PART_STR :: string where "ROMFILE_PART_STR \<equiv> ''0[romfile],''"

definition RESERVEAREA :: "mtd_conf \<Rightarrow> string" where
  "RESERVEAREA K = (if TCSUPPORT_OPENWRT K \<or> RDKB_BUILD K then ''art'' else ''reservearea'')"

text \<open>An entry of the zero-initialised static array.\<close>

definition null_part :: mtd_partition where
  "null_part = \<lparr>pname = None, psize = 0, poffset = 0, mask_flags = 0\<rparr>"

definition part_is :: "mtd_partition \<Rightarrow> string \<Rightarrow> fault + bool" where
  "part_is p n = (case pname p of None \<Rightarrow> Inl NullPointer | Some m \<Rightarrow> Inr (m = n))"

section \<open>Parsing one partition definition\<close>

definition ecnt_memparse :: "string \<Rightarrow> u32 \<Rightarrow> u64 \<times> string" where
  "ecnt_memparse ptr blocksize =
    (let (ret, endptr) = simple_strtoull ptr
     in case endptr of [] \<Rightarrow> (ret, [])
        | c # cs \<Rightarrow>
            if c = CHR ''G'' \<or> c = CHR ''g'' then (push_bit 30 ret, cs)
            else if c = CHR ''M'' \<or> c = CHR ''m'' then (push_bit 20 ret, cs)
            else if c = CHR ''K'' \<or> c = CHR ''k'' then (push_bit 10 ret, cs)
            else if c = CHR ''B'' \<or> c = CHR ''b'' then (ret * ucast blocksize, cs)
            else (ret, c # cs))"

lemma ecnt_memparse_length: "ecnt_memparse s b = (v, rest) \<Longrightarrow> length rest \<le> length s"
proof -
  obtain w r where w: "simple_strtoull s = (w, r)" by fastforce
  assume "ecnt_memparse s b = (v, rest)"
  then have "length rest \<le> length r" unfolding ecnt_memparse_def w by (cases r) (auto simp del: push_bit_eq_mult split: if_splits)
  then show ?thesis using simple_strtoull_length[OF w] by simp
qed

text \<open>The size, where minus stands for all the remaining space, once; None is the error return.\<close>

definition part_size :: "u32 \<Rightarrow> string \<Rightarrow> bool \<Rightarrow> (u32 \<times> string \<times> bool) option" where
  "part_size blocksize s has_remaining =
    (if take 1 s = ''-'' then (if \<not> has_remaining then Some (SIZE_REMAINING, drop 1 s, True) else None)
     else
       let (v, s1) = ecnt_memparse s blocksize;
           size0 = ucast v :: u32;
           size1 = (if size0 = 0 then SIZE_TO_GET else size0)
       in if size1 < blocksize then None else Some (size1, s1, has_remaining))"

text \<open>The name in brackets: None is a missing bracket, Some None a partition without name.\<close>

definition part_name :: "string \<Rightarrow> (string option \<times> string) option" where
  "part_name s =
    (if take 1 s = ''['' then
       (case strchr (drop 1 s) (CHR '']'') of None \<Rightarrow> None | Some (name, rest) \<Rightarrow> Some (Some name, drop 1 rest))
     else Some (None, s))"

definition part_offset :: "string \<Rightarrow> u32 \<times> string" where
  "part_offset s =
    (let s1 = (if take 1 s = ''a'' then drop 1 s else s)
     in if take 3 s1 = ''end'' then (OFFSET_BACK_FORWARD, drop 3 s1) else (OFFSET_CONTINUOUS, s1))"

record part_def =
  def_size :: u32
  def_name :: "string option"
  def_offset :: u32

definition parse_part :: "u32 \<Rightarrow> string \<Rightarrow> bool \<Rightarrow> (part_def \<times> string \<times> bool) option" where
  "parse_part blocksize s has_remaining =
    (case part_size blocksize s has_remaining of None \<Rightarrow> None
     | Some (sz, s1, rem) \<Rightarrow>
        (case part_name s1 of None \<Rightarrow> None
         | Some (name, s2) \<Rightarrow>
             let (offs, s3) = part_offset s2
             in Some (\<lparr>def_size = sz, def_name = name, def_offset = offs\<rparr>, s3, rem)))"

lemma part_name_length: "part_name s = Some (n, r) \<Longrightarrow> length r \<le> length s"
  using length_dropWhile_le[of "\<lambda>x. x \<noteq> CHR '']''" "drop 1 s"] by (auto simp: part_name_def strchr_def split: if_splits)

lemma part_offset_length: "length (snd (part_offset s)) \<le> length s"
  by (simp add: part_offset_def Let_def)

lemma part_size_length: "part_size b s h = Some (v, r, h') \<Longrightarrow> length r \<le> length s"
  by (auto simp: part_size_def Let_def split: if_splits prod.splits dest!: ecnt_memparse_length)

lemma parse_part_length: "parse_part b s h = Some (d, r, h') \<Longrightarrow> length r \<le> length s"
proof -
  assume "parse_part b s h = Some (d, r, h')"
  then obtain sz s1 nm s2 where "part_size b s h = Some (sz, s1, h')" "part_name s1 = Some (nm, s2)" "snd (part_offset s2) = r"
    by (auto simp: parse_part_def Let_def split: option.splits prod.splits)
  then show ?thesis using part_size_length part_name_length part_offset_length[of s2] by (metis order_trans)
qed

section \<open>Parsing the whole string\<close>

text \<open>The entries that a system partition occupies besides its own, and the memory for their names.\<close>

definition tclinux_slots :: "string \<Rightarrow> nat \<times> nat" where
  "tclinux_slots name =
    (if strncmp_eq name TCLINUX then (2, length KERNEL_PART + length ROOTFS_PART + 2)
     else if strncmp_eq name TCLINUX_SLAVE then (2, length KERNEL_SLAVE_PART + length ROOTFS_SLAVE_PART + 2)
     else (0, 0))"

definition set_part :: "nat \<Rightarrow> string \<Rightarrow> u32 \<Rightarrow> u32 \<Rightarrow> mtd_partition list \<Rightarrow> mtd_partition list" where
  "set_part i name sz offs ps = ps[i := (ps ! i)\<lparr>pname := Some name, psize := sz, poffset := offs\<rparr>]"

definition ecnt_newpart_set_other_parts :: "mtd_conf \<Rightarrow> string \<Rightarrow> nat \<Rightarrow> mtd_state \<Rightarrow> mtd_state" where
  "ecnt_newpart_set_other_parts K name index g =
    (if name = TCLINUX then
       g\<lparr>ecnt_parts := set_part (index + 1) ROOTFS_PART SIZE_TO_GET OFFSET_CONTINUOUS
            (set_part index KERNEL_PART SIZE_TO_GET OFFSET_CONTINUOUS (ecnt_parts g)), kernel_part_index := int index\<rparr>
     else if name = TCLINUX_SLAVE then
       g\<lparr>ecnt_parts := set_part (index + 1) ROOTFS_SLAVE_PART SIZE_TO_GET OFFSET_CONTINUOUS
            (set_part index KERNEL_SLAVE_PART SIZE_TO_GET OFFSET_CONTINUOUS (ecnt_parts g)), kernel_slave_part_index := int index\<rparr>
     else if name = RESERVEAREA K then
       g\<lparr>ecnt_parts := set_part index (RESERVEAREA K) (0x40000 * TCSUPPORT_RESERVEAREA_BLOCK K) OFFSET_BACK_FORWARD (ecnt_parts g)\<rparr>
     else g)"

text \<open>Entering a definition once the table has been allocated.\<close>

definition enter_part :: "mtd_conf \<Rightarrow> nat \<Rightarrow> part_def \<Rightarrow> string \<Rightarrow> mtd_state \<Rightarrow> mtd_state" where
  "enter_part K this_part d name g =
    (let num_parts = length (ecnt_parts g);
         g1 = g\<lparr>ecnt_parts := (ecnt_parts g)[this_part := \<lparr>pname = Some name, psize = def_size d, poffset = def_offset d, mask_flags = 0\<rparr>]\<rparr>;
         g2 = (if name = TCLINUX \<or> name = TCLINUX_SLAVE then ecnt_newpart_set_other_parts K name (this_part - 2) g1 else g1)
     in if this_part = num_parts - 2 then ecnt_newpart_set_other_parts K (RESERVEAREA K) (num_parts - 1) g2 else g2)"

function ecnt_newpart :: "mtd_conf \<Rightarrow> u32 \<Rightarrow> string \<Rightarrow> nat \<Rightarrow> nat \<Rightarrow> mtd_state \<Rightarrow> fault + bool \<times> mtd_state" where
  "ecnt_newpart K blocksize s this_part extra_mem_size g =
    (case parse_part blocksize s (has_remaining_part_flag g) of
      None \<Rightarrow> Inr (False, g\<lparr>has_remaining_part_flag := has_remaining_part_flag g \<or> take 1 s = ''-''\<rparr>)
    | Some (d, s1, rem) \<Rightarrow>
       (case def_name d of None \<Rightarrow> Inl NullPointer
        | Some name \<Rightarrow>
           let (slots, mem) = tclinux_slots name;
               this1 = this_part + slots;
               extra1 = extra_mem_size + length name + 1 + mem;
               g1 = g\<lparr>has_remaining_part_flag := rem\<rparr>
           in if take 1 s1 = '','' then
                res_bind (ecnt_newpart K blocksize (drop 1 s1) (this1 + 1) extra1 g1) (\<lambda>(ok, g2).
                  if ok then Inr (True, enter_part K this1 d name g2) else Inr (False, g2))
              else
                let num_parts = this1 + 2;
                    alloc_size = num_parts * 16 + extra1 + length (RESERVEAREA K) + 1
                in if PARTS_SIZE < alloc_size then Inr (False, g1)
                   else Inr (True, enter_part K this1 d name (g1\<lparr>ecnt_parts := replicate num_parts null_part\<rparr>))))"
  by pat_completeness auto
termination
proof (relation "measure (\<lambda>(_, _, s, _). length s)", goal_cases)
  case (2 K blocksize s this_part extra g p d q s1 rem name r slots mem this1 extra1 g1)
  then have "length s1 \<le> length s" using parse_part_length[of blocksize s "has_remaining_part_flag g"] by auto
  moreover have "s1 \<noteq> []" using 2 by (cases s1) auto
  ultimately show ?case by (cases s1) auto
qed auto

declare ecnt_newpart.simps [simp del]

text \<open>
  The bootloader and romfile partitions are put in front when the string lacks them.
  dst is the caller's character array, whose contents are arbitrary at first.
\<close>

definition ecnt_check_mtdpart_str :: "mtd_conf \<Rightarrow> string \<Rightarrow> string \<Rightarrow> fault + string" where
  "ecnt_check_mtdpart_str K dst src =
    (let bootloader_p = strstr src BOOTLOADER_PART;
         have_romfile = (strstr src ROMFILE_PART \<noteq> None \<or> TCSUPPORT_OPENWRT K \<or> RDKB_BUILD K)
     in case bootloader_p of
          None \<Rightarrow> if have_romfile
                  then res_bind (strcpy dst BOOTLOADER_PART_STR) (\<lambda>d. strcat d src)
                  else res_bind (strcpy dst BOOTLOADER_PART_STR) (\<lambda>d. res_bind (strcat d ROMFILE_PART_STR) (\<lambda>d. strcat d src))
        | Some bp \<Rightarrow>
            if have_romfile then strcpy dst src
            else (case strchr bp (CHR '','') of None \<Rightarrow> Inl NullPointer
                  | Some (_, rest) \<Rightarrow>
                     let n = length src - length rest + 1
                     in if length dst < n then Inl OutOfBounds
                        else res_bind (strcat (memcpy dst 0 (take n src)) ROMFILE_PART_STR) (\<lambda>d. strcat d (drop 1 rest))))"

definition ecnt_mtdpart_setup :: "mtd_conf \<Rightarrow> string \<Rightarrow> string \<Rightarrow> u32 \<Rightarrow> mtd_state \<Rightarrow> fault + bool \<times> mtd_state" where
  "ecnt_mtdpart_setup K cmdline s blocksize g =
    (if STR_LEN < length s + length BOOTLOADER_PART_STR + length ROMFILE_PART_STR then Inr (False, g)
     else res_bind (ecnt_check_mtdpart_str K cmdline s) (\<lambda>cmd.
            ecnt_newpart K blocksize (c_str cmd) 0 0 g))"

section \<open>Looking partitions up\<close>

fun find_part :: "string \<Rightarrow> mtd_partition list \<Rightarrow> fault + mtd_partition option" where
  "find_part name [] = Inr None"
| "find_part name (p # ps) = res_bind (part_is p name) (\<lambda>b. if b then Inr (Some p) else find_part name ps)"

definition ecnt_get_mtd_offset :: "string \<Rightarrow> mtd_state \<Rightarrow> fault + u32" where
  "ecnt_get_mtd_offset name g = res_bind (find_part name (ecnt_parts g))
     (\<lambda>r. Inr (case r of None \<Rightarrow> OFFSET_NOT_FOUND | Some p \<Rightarrow> poffset p))"

definition ecnt_get_mtd_size :: "string \<Rightarrow> mtd_state \<Rightarrow> fault + u32" where
  "ecnt_get_mtd_size name g = res_bind (find_part name (ecnt_parts g))
     (\<lambda>r. Inr (case r of None \<Rightarrow> SIZE_TO_GET | Some p \<Rightarrow> psize p))"

definition mtd_offset_or_0 :: "string \<Rightarrow> u32 \<Rightarrow> mtd_state \<Rightarrow> fault + u32" where
  "mtd_offset_or_0 name base g = res_bind (ecnt_get_mtd_offset name g) (\<lambda>v. Inr (if v = OFFSET_NOT_FOUND then 0 else v + base))"

definition ecnt_get_mtd_part_size :: "string \<Rightarrow> mtd_state \<Rightarrow> fault + u32" where
  "ecnt_get_mtd_part_size name g = res_bind (ecnt_get_mtd_size name g) (\<lambda>v. Inr (if v = SIZE_TO_GET then 0 else v))"

definition ecnt_get_romfile_mtd_offset :: "mtd_state \<Rightarrow> fault + u32" where
  "ecnt_get_romfile_mtd_offset = mtd_offset_or_0 ROMFILE_PART 0"
definition ecnt_get_tclinux_mtd_offset :: "mtd_state \<Rightarrow> fault + u32" where
  "ecnt_get_tclinux_mtd_offset = mtd_offset_or_0 TCLINUX 0"
definition ecnt_get_tclinux_slave_mtd_offset :: "mtd_state \<Rightarrow> fault + u32" where
  "ecnt_get_tclinux_slave_mtd_offset = mtd_offset_or_0 TCLINUX_SLAVE 0"
definition ecnt_get_ubootenv_mtd_offset :: "mtd_state \<Rightarrow> fault + u32" where
  "ecnt_get_ubootenv_mtd_offset = mtd_offset_or_0 ''u-boot-env'' 0"
definition ecnt_get_factory_mtd_offset :: "mtd_state \<Rightarrow> fault + u32" where
  "ecnt_get_factory_mtd_offset = mtd_offset_or_0 ''Factory'' 0"
definition ecnt_get_tclinux_flash_offset :: "mtd_conf \<Rightarrow> mtd_state \<Rightarrow> fault + u32" where
  "ecnt_get_tclinux_flash_offset K = mtd_offset_or_0 TCLINUX (flash_base K)"
definition ecnt_get_tclinux_slave_flash_offset :: "mtd_conf \<Rightarrow> mtd_state \<Rightarrow> fault + u32" where
  "ecnt_get_tclinux_slave_flash_offset K = mtd_offset_or_0 TCLINUX_SLAVE (flash_base K)"
definition ecnt_get_reservearea_flash_offset :: "mtd_conf \<Rightarrow> mtd_state \<Rightarrow> fault + u32" where
  "ecnt_get_reservearea_flash_offset K = mtd_offset_or_0 (RESERVEAREA K) (flash_base K)"
definition ecnt_get_tclinux_size :: "mtd_state \<Rightarrow> fault + u32" where
  "ecnt_get_tclinux_size = ecnt_get_mtd_part_size TCLINUX"
definition ecnt_get_tclinux_slave_size :: "mtd_state \<Rightarrow> fault + u32" where
  "ecnt_get_tclinux_slave_size = ecnt_get_mtd_part_size TCLINUX_SLAVE"
definition ecnt_get_kernel_size :: "mtd_state \<Rightarrow> fault + u32" where
  "ecnt_get_kernel_size = ecnt_get_mtd_part_size KERNEL_PART"
definition ecnt_get_kernel_slave_size :: "mtd_state \<Rightarrow> fault + u32" where
  "ecnt_get_kernel_slave_size = ecnt_get_mtd_part_size KERNEL_SLAVE_PART"
definition ecnt_get_reservearea_size :: "mtd_conf \<Rightarrow> mtd_state \<Rightarrow> fault + u32" where
  "ecnt_get_reservearea_size K = ecnt_get_mtd_part_size (RESERVEAREA K)"
definition ecnt_get_boot_size :: "mtd_state \<Rightarrow> fault + u32" where
  "ecnt_get_boot_size = ecnt_get_mtd_part_size BOOTLOADER_PART"
definition ecnt_get_romfile_size :: "mtd_state \<Rightarrow> fault + u32" where
  "ecnt_get_romfile_size = ecnt_get_mtd_part_size ROMFILE_PART"

text \<open>The first partition called rootfs\_data with an offset and a size.\<close>

fun rootfsdata_info :: "mtd_partition list \<Rightarrow> fault + (u32 \<times> u32) option" where
  "rootfsdata_info [] = Inr None"
| "rootfsdata_info (p # ps) = res_bind (part_is p ''rootfs_data'') (\<lambda>b.
     if b \<and> poffset p > 0 \<and> psize p > 0 then Inr (Some (poffset p, psize p)) else rootfsdata_info ps)"

definition do_get_mtd_rootfsdata_info :: "mtd_state \<Rightarrow> fault + (u32 \<times> u32) option" where
  "do_get_mtd_rootfsdata_info g = rootfsdata_info (ecnt_parts g)"

end
