(* ===== verification/Mtd_Layout.thy ===== *)
theory Mtd_Layout
  imports Ecnt_Mtd
begin

text \<open>
  Laying the partitions out (drivers/misc/ecnt/image/ecnt\_mtd.c): a pass from the front
  places partitions one behind the other until it meets one that counts from the end
  of the flash or takes the remaining space; a pass from the back places the rest, and
  what lies between is the size of the remaining partition. Afterwards the
  kernel and root file system entries are taken from the images themselves.

  Offsets and partition sizes are 32-bit words that wrap around as in the code, the size of the
  flash is a 64-bit word. A pass returns False where the code returns 0.
\<close>

section \<open>The pass from the front\<close>

definition ALIGN :: "u32 \<Rightarrow> u32 \<Rightarrow> u32" where
  "ALIGN x a = (x + (a - 1)) AND NOT (a - 1)"

definition ecnt_get_bootloader_romfile_size :: "mtd_conf \<Rightarrow> string \<Rightarrow> u32" where
  "ecnt_get_bootloader_romfile_size K name =
    (let bootloader_size = (if TCSUPPORT_BLX_MULTICOPY K \<or> TCSUPPORT_ARM_MULTIBOOT K
           then 0x80000 + (if TCSUPPORT_ARM_MULTIBOOT K then 0x00100000 else 0) + (if TCSUPPORT_BLX_MULTICOPY K then 0x00180000 else 0)
           else 0x80000);
         romfile_size = 0x40000;
         blocksize = 0x40000
     in if name = BOOTLOADER_PART then (if bootloader_size < blocksize then blocksize else bootloader_size)
        else if name = ROMFILE_PART then (if romfile_size < blocksize then blocksize else romfile_size)
        else SIZE_TO_GET)"

record layout =
  lay_g :: mtd_state
  lay_off :: u32
  size_remaining_index :: "nat option"
  size_remaining_offset_start :: u32
  first_back_forward_index :: "nat option"
  is_tclinux_remaining_flag :: bool

datatype 'a flow = Continue 'a | Break 'a | Fail 'a

definition upd_part :: "nat \<Rightarrow> (mtd_partition \<Rightarrow> mtd_partition) \<Rightarrow> layout \<Rightarrow> layout" where
  "upd_part i f L = L\<lparr>lay_g := (lay_g L)\<lparr>ecnt_parts := (ecnt_parts (lay_g L))[i := f (ecnt_parts (lay_g L) ! i)]\<rparr>\<rparr>"

definition lay_part :: "layout \<Rightarrow> nat \<Rightarrow> mtd_partition" where
  "lay_part L i = ecnt_parts (lay_g L) ! i"

text \<open>Lines 584 to 596: the check against the end of the flash, the next offset, the system partition.\<close>

definition fwd_advance :: "u32 \<Rightarrow> u64 \<Rightarrow> nat \<Rightarrow> layout \<Rightarrow> fault + layout flow" where
  "fwd_advance blocksize fsize i L =
    (let p = lay_part L i; stop = lay_off L + psize p
     in if fsize < ucast stop then Inr (Fail L)
        else res_bind (part_is p TCLINUX) (\<lambda>b.
          let L1 = L\<lparr>lay_off := ALIGN stop blocksize\<rparr>
          in Inr (Continue (if b then L1\<lparr>lay_g := (lay_g L1)\<lparr>tclinux_part_offset := ucast (poffset p), tclinux_part_size := ucast (psize p)\<rparr>\<rparr>
                        else L1))))"

text \<open>Lines 568 to 583: the offset, and a partition that takes the remaining space.\<close>

definition fwd_place :: "u32 \<Rightarrow> u64 \<Rightarrow> nat \<Rightarrow> layout \<Rightarrow> fault + layout flow" where
  "fwd_place blocksize fsize i L0 =
    (let L = upd_part i (\<lambda>p. p\<lparr>poffset := lay_off L0\<rparr>) L0
     in if psize (lay_part L i) = SIZE_REMAINING then
          let L1 = L\<lparr>size_remaining_index := Some i, size_remaining_offset_start := lay_off L\<rparr>
          in if i + 1 = length (ecnt_parts (lay_g L))
             then fwd_advance blocksize fsize i (upd_part i (\<lambda>p. p\<lparr>psize := ucast (fsize - ucast (lay_off L))\<rparr>) L1)
             else res_bind (part_is (lay_part L i) TCLINUX) (\<lambda>b.
                    Inr (Break (L1\<lparr>is_tclinux_remaining_flag := b \<or> is_tclinux_remaining_flag L, first_back_forward_index := Some (i + 1)\<rparr>)))
        else fwd_advance blocksize fsize i L)"

definition fwd_step :: "mtd_conf \<Rightarrow> u32 \<Rightarrow> u64 \<Rightarrow> nat \<Rightarrow> layout \<Rightarrow> fault + layout flow" where
  "fwd_step K blocksize fsize i L =
    (let p = lay_part L i
     in if poffset p = OFFSET_BACK_FORWARD then Inr (Break (L\<lparr>first_back_forward_index := Some i\<rparr>))
        else if psize p = SIZE_TO_GET then
          res_bind (part_is p BOOTLOADER_PART) (\<lambda>b. res_bind (part_is p ROMFILE_PART) (\<lambda>r.
            if b \<or> r then fwd_place blocksize fsize i
                (upd_part i (\<lambda>p. p\<lparr>psize := ecnt_get_bootloader_romfile_size K (if b then BOOTLOADER_PART else ROMFILE_PART)\<rparr>) L)
            else Inr (Continue (upd_part i (\<lambda>p. p\<lparr>poffset := lay_off L\<rparr>) L))))
        else fwd_place blocksize fsize i L)"

fun fwd_loop :: "mtd_conf \<Rightarrow> u32 \<Rightarrow> u64 \<Rightarrow> nat \<Rightarrow> nat \<Rightarrow> layout \<Rightarrow> fault + bool \<times> layout" where
  "fwd_loop K blocksize fsize 0 i L = Inr (True, L)"
| "fwd_loop K blocksize fsize (Suc n) i L =
    res_bind (fwd_step K blocksize fsize i L) (\<lambda>f.
      case f of Continue L1 \<Rightarrow> fwd_loop K blocksize fsize n (i + 1) L1 | Break L1 \<Rightarrow> Inr (True, L1) | Fail L1 \<Rightarrow> Inr (False, L1))"

section \<open>The pass from the back\<close>

text \<open>Indices first + n - 1 down to first.\<close>

fun back_loop :: "u32 \<Rightarrow> u64 \<Rightarrow> nat \<Rightarrow> nat \<Rightarrow> u32 \<Rightarrow> layout \<Rightarrow> bool \<times> layout" where
  "back_loop blocksize fsize first 0 back_forward_total_size L = (True, L)"
| "back_loop blocksize fsize first (Suc n) back_forward_total_size L =
    (let i = first + n;
         sz = ALIGN (psize (lay_part L i)) blocksize;
         tot = back_forward_total_size + sz;
         offs = lay_off L - sz;
         L1 = (upd_part i (\<lambda>p. p\<lparr>psize := sz, poffset := offs\<rparr>) L)\<lparr>lay_off := offs\<rparr>
     in if fsize < ucast (offs + tot) then (False, L1)
        else back_loop blocksize fsize first n tot L1)"

definition back_pass :: "u32 \<Rightarrow> u64 \<Rightarrow> layout \<Rightarrow> bool \<times> layout" where
  "back_pass blocksize fsize L0 =
    (let L = L0\<lparr>lay_off := ucast fsize\<rparr>
     in case first_back_forward_index L of None \<Rightarrow> (True, L)
        | Some first \<Rightarrow> back_loop blocksize fsize first (length (ecnt_parts (lay_g L)) - first) 0 L)"

definition set_remaining :: "layout \<Rightarrow> layout" where
  "set_remaining L =
    (case size_remaining_index L of None \<Rightarrow> L
     | Some r \<Rightarrow>
        let L1 = upd_part r (\<lambda>p. p\<lparr>psize := lay_off L - size_remaining_offset_start L\<rparr>) L
        in if is_tclinux_remaining_flag L1
           then L1\<lparr>lay_g := (lay_g L1)\<lparr>tclinux_part_offset := ucast (poffset (lay_part L1 r)), tclinux_part_size := ucast (psize (lay_part L1 r))\<rparr>\<rparr>
           else L1)"

definition layout_start :: "mtd_state \<Rightarrow> layout" where
  "layout_start g = \<lparr>lay_g = g, lay_off = 0, size_remaining_index = None, size_remaining_offset_start = 0,
     first_back_forward_index = None, is_tclinux_remaining_flag = False\<rparr>"

definition layout_parts :: "mtd_conf \<Rightarrow> u32 \<Rightarrow> u64 \<Rightarrow> mtd_state \<Rightarrow> fault + bool \<times> layout" where
  "layout_parts K blocksize fsize g =
    res_bind (fwd_loop K blocksize fsize (length (ecnt_parts g)) 0 (layout_start g)) (\<lambda>(ok, L).
      if \<not> ok then Inr (False, L)
      else let (ok2, L2) = back_pass blocksize fsize L
           in Inr (if ok2 then (True, set_remaining L2) else (False, L2)))"

section \<open>Kernel and root file system\<close>

definition ROOTFS_PARTITION :: "u32 \<Rightarrow> u32" where
  "ROOTFS_PARTITION a = (a + 0x10000) AND NOT (0x10000 - 1)"

definition no_imginfo :: tclinux_imginfo where
  "no_imginfo = \<lparr>kernel_off = 0, kernel_size = 0, rootfs_off = 0, rootfs_size = 0, tclinux_size = 0\<rparr>"

text \<open>The entries at index and index + 1 for an image with the given contents.\<close>

definition set_image_parts :: "nat \<Rightarrow> tclinux_imginfo \<Rightarrow> mtd_partition list \<Rightarrow> mtd_partition list" where
  "set_image_parts k info ps =
    (let ps1 = ps[k := (ps ! k)\<lparr>psize := kernel_off info + kernel_size info + of_nat trx_header_size\<rparr>]
     in ps1[k + 1 := (ps1 ! (k + 1))\<lparr>psize := ROOTFS_PARTITION (rootfs_size info),
              poffset := poffset (ps1 ! k) + rootfs_off info + of_nat trx_header_size\<rparr>])"

definition ecnt_set_kernel_rootfs_part :: "mtd_conf \<Rightarrow> 'm img_env \<Rightarrow> mtd_state \<Rightarrow> 'm img_state \<Rightarrow> fault + mtd_state \<times> 'm img_state" where
  "ecnt_set_kernel_rootfs_part K M g st =
    (if kernel_part_index g < 0 then Inr (g, st)
     else res_bind (ecnt_get_tclinux_flash_offset K g) (\<lambda>base.
       let first_imgAddr = base + of_nat trx_header_size; k = nat (kernel_part_index g)
       in res_bind (get_tclinux_imginfo M first_imgAddr no_imginfo NOT_BOOT_IMG st) (\<lambda>(r, first_imginfo, st1).
          if r \<noteq> 0 then Inr (g, st1)
          else let tclinux_real_size = psize (ecnt_parts g ! (k + 2));
                   g1 = g\<lparr>ecnt_parts := set_image_parts k first_imginfo (ecnt_parts g)\<rparr>
               in if kernel_slave_part_index g1 > 0 then
                    res_bind (get_tclinux_imginfo M (first_imgAddr + tclinux_real_size) no_imginfo NOT_BOOT_IMG st1) (\<lambda>(r2, second_imginfo, st2).
                      Inr (g1\<lparr>ecnt_parts := set_image_parts (nat (kernel_slave_part_index g1)) second_imginfo (ecnt_parts g1)\<rparr>, st2))
                  else Inr (g1, st1))))"

section \<open>The whole set-up\<close>

text \<open>The result is the number of partitions, or 0.\<close>

definition ecnt_parse_partitions :: "mtd_conf \<Rightarrow> 'm img_env \<Rightarrow> string \<Rightarrow> string \<Rightarrow> u32 \<Rightarrow> u64 \<Rightarrow> mtd_state \<Rightarrow> 'm img_state
    \<Rightarrow> fault + int \<times> mtd_state \<times> 'm img_state" where
  "ecnt_parse_partitions K M cmdline parts_str blocksize fsize g st =
    res_bind (ecnt_mtdpart_setup K cmdline parts_str blocksize g) (\<lambda>(ok, g1).
      if \<not> ok then Inr (0, g1, st)
      else res_bind (layout_parts K blocksize fsize g1) (\<lambda>(ok2, L).
        if \<not> ok2 then Inr (0, lay_g L, st)
        else res_bind (ecnt_set_kernel_rootfs_part K M (lay_g L) st) (\<lambda>(g2, st2).
          Inr (int (length (ecnt_parts g2)), g2, st2))))"

record flash_geometry =
  emmc_user_capacity :: u64
  nand_blocksize :: u32
  nand_flash_avalable_size :: u64
  mtd_info_erasesize :: u32
  mtd_info_size :: u64

text \<open>Returns the new flash\_tclinux\_start as well.\<close>

definition ecnt_parse_cmdline_partitions :: "mtd_conf \<Rightarrow> 'm img_env \<Rightarrow> flash_geometry \<Rightarrow> string \<Rightarrow> string \<Rightarrow> mtd_state \<Rightarrow> 'm img_state
    \<Rightarrow> fault + int \<times> u32 \<times> mtd_state \<times> 'm img_state" where
  "ecnt_parse_cmdline_partitions K M G cmdline parts_str g st =
    res_bind (if isEMMC (hal_of M)
              then ecnt_parse_partitions K M cmdline parts_str (of_nat (MMC_BLOCK_SIZE (hal_of M))) (emmc_user_capacity G) g st
              else if IS_NANDFLASH (hal_of M)
              then ecnt_parse_partitions K M cmdline parts_str (nand_blocksize G * 1024) (nand_flash_avalable_size G) g st
              else ecnt_parse_partitions K M cmdline parts_str (mtd_info_erasesize G) (mtd_info_size G) g st) (\<lambda>(r, g1, st1).
    res_bind (ecnt_get_tclinux_flash_offset K g1) (\<lambda>start. Inr (r, start, g1, st1)))"

end
