(* ===== verification/Mtd_Theorems.thy ===== *)
theory Mtd_Theorems
  imports Mtd_Layout
begin

text \<open>
  Properties of the partition set-up: the parser builds the table that a partition string
  describes, and the layout gives every partition its own, aligned piece of the flash.
\<close>

section \<open>Partition strings\<close>

text \<open>
  A specification lists the partitions; its printed form is the partition string. The
  table it stands for has the kernel and root file system entries in front of each system
  partition and the reserve area at the end.
\<close>

datatype spec_size = Kib nat | Rest | Auto

record part_spec =
  sp_size :: spec_size
  sp_name :: string
  sp_end :: bool

fun print_size :: "spec_size \<Rightarrow> string" where
  "print_size (Kib n) = show_dec n @ ''k''"
| "print_size Rest = ''-''"
| "print_size Auto = ''0''"

definition print_spec :: "part_spec \<Rightarrow> string" where
  "print_spec sp = print_size (sp_size sp) @ ''['' @ sp_name sp @ '']'' @ (if sp_end sp then ''end'' else [])"

fun print_specs :: "part_spec list \<Rightarrow> string" where
  "print_specs [] = []"
| "print_specs [sp] = print_spec sp"
| "print_specs (sp # sps) = print_spec sp @ '','' @ print_specs sps"

fun size_of_spec :: "spec_size \<Rightarrow> u32" where
  "size_of_spec (Kib n) = of_nat (n * 1024)"
| "size_of_spec Rest = SIZE_REMAINING"
| "size_of_spec Auto = SIZE_TO_GET"

definition def_of :: "part_spec \<Rightarrow> part_def" where
  "def_of sp = \<lparr>def_size = size_of_spec (sp_size sp), def_name = Some (sp_name sp),
     def_offset = (if sp_end sp then OFFSET_BACK_FORWARD else OFFSET_CONTINUOUS)\<rparr>"

definition entry_of :: "string \<Rightarrow> u32 \<Rightarrow> u32 \<Rightarrow> mtd_partition" where
  "entry_of n sz offs = \<lparr>pname = Some n, psize = sz, poffset = offs, mask_flags = 0\<rparr>"

definition overlay_of :: "string \<Rightarrow> mtd_partition list" where
  "overlay_of n = (if n = TCLINUX then [entry_of KERNEL_PART SIZE_TO_GET OFFSET_CONTINUOUS, entry_of ROOTFS_PART SIZE_TO_GET OFFSET_CONTINUOUS]
     else if n = TCLINUX_SLAVE
     then [entry_of KERNEL_SLAVE_PART SIZE_TO_GET OFFSET_CONTINUOUS, entry_of ROOTFS_SLAVE_PART SIZE_TO_GET OFFSET_CONTINUOUS] else [])"

definition entries_of :: "part_spec \<Rightarrow> mtd_partition list" where
  "entries_of sp = overlay_of (sp_name sp) @ [entry_of (sp_name sp) (def_size (def_of sp)) (def_offset (def_of sp))]"

definition reserve_of :: "mtd_conf \<Rightarrow> mtd_partition" where
  "reserve_of K = entry_of (RESERVEAREA K) (0x40000 * TCSUPPORT_RESERVEAREA_BLOCK K) OFFSET_BACK_FORWARD"

definition table_of :: "mtd_conf \<Rightarrow> part_spec list \<Rightarrow> mtd_partition list" where
  "table_of K sps = concat (map entries_of sps) @ [reserve_of K]"

definition name_bytes :: "part_spec list \<Rightarrow> nat" where
  "name_bytes sps = sum_list (map (\<lambda>sp. length (sp_name sp) + 1 + snd (tclinux_slots (sp_name sp))) sps)"

definition good_spec :: "u32 \<Rightarrow> part_spec \<Rightarrow> bool" where
  "good_spec blocksize sp \<longleftrightarrow> CHR '']'' \<notin> set (sp_name sp)
     \<and> (sp_name sp = TCLINUX \<or> sp_name sp = TCLINUX_SLAVE
        \<or> \<not> strncmp_eq (sp_name sp) TCLINUX \<and> \<not> strncmp_eq (sp_name sp) TCLINUX_SLAVE)
     \<and> (case sp_size sp of Kib n \<Rightarrow> 0 < n \<and> n * 1024 < 2 ^ 32 \<and> unat blocksize \<le> n * 1024 | _ \<Rightarrow> True)"

definition one_rest :: "bool \<Rightarrow> part_spec list \<Rightarrow> bool" where
  "one_rest seen sps \<longleftrightarrow> length (filter (\<lambda>sp. sp_size sp = Rest) sps) + (if seen then 1 else 0) \<le> 1"

section \<open>Parsing what was printed\<close>

lemma show_dec_no_dash: "0 < n \<Longrightarrow> take 1 (show_dec n @ s) \<noteq> ''-''"
proof -
  assume "0 < n"
  then obtain d cs where d: "show_dec n = char_of (48 + d :: nat) # cs" "0 < d" "d < 10" using show_dec_head by blast
  have "char_of (48 + d :: nat) \<noteq> CHR ''-''"
  proof
    assume "char_of (48 + d :: nat) = CHR ''-''"
    then have "(of_char (char_of (48 + d :: nat)) :: nat) = of_char (CHR ''-'')" by simp
    then show False using d(2,3) by simp
  qed
  then show ?thesis by (simp add: d(1))
qed

lemma kib_word: "n * 1024 < 2 ^ 32 \<Longrightarrow> ucast (push_bit 10 (of_nat n :: u64)) = (of_nat (n * 1024) :: u32)"
proof -
  have "push_bit 10 (of_nat n :: u64) = of_nat (n * 1024)" by (simp add: push_bit_eq_mult)
  moreover assume "n * 1024 < 2 ^ 32"
  then have "take_bit LENGTH(64) (n * 1024) = n * 1024" by (subst take_bit_nat_eq_self) simp_all
  ultimately show ?thesis by (simp only: unsigned_of_nat)
qed

lemma split_at_char:
  "c \<notin> set n \<Longrightarrow> takeWhile (\<lambda>x. x \<noteq> c) (n @ c # r) = n \<and> dropWhile (\<lambda>x. x \<noteq> c) (n @ c # r) = c # r"
  by (induction n) auto

lemma part_size_print:
  assumes "good_spec bs sp" "sp_size sp = Rest \<longrightarrow> \<not> rem" "bs \<le> SIZE_TO_GET"
  shows "part_size bs (print_size (sp_size sp) @ ''['' @ s) rem = Some (size_of_spec (sp_size sp), ''['' @ s, rem \<or> sp_size sp = Rest)"
proof (cases "sp_size sp")
  case (Kib n)
  then have n: "0 < n" "n * 1024 < 2 ^ 32" "unat bs \<le> n * 1024" using assms(1) by (simp_all add: good_spec_def)
  have st: "simple_strtoull (show_dec n @ CHR ''k'' # CHR ''['' # s) = (of_nat n, CHR ''k'' # CHR ''['' # s)"
    by (rule simple_strtoull_dec[OF n(1)]) (simp add: dec_stop_def isdigit_def)
  have un: "unat (of_nat (n * 1024) :: u32) = n * 1024" using n(2) by (subst unat_of_nat_small) simp_all
  have "of_nat (n * 1024) \<noteq> (0 :: u32)" using un n(1) by (metis nat_0_less_mult_iff unsigned_0 zero_less_numeral less_numeral_extra(3))
  moreover have "\<not> of_nat (n * 1024) < bs" using un n(3) by (simp add: word_less_nat_alt)
  ultimately show ?thesis using show_dec_no_dash[OF n(1), of "CHR ''k'' # CHR ''['' # s"] kib_word[OF n(2)] st
    by (simp add: Kib part_size_def ecnt_memparse_def del: of_nat_mult push_bit_eq_mult)
next
  case Rest
  then show ?thesis using assms(2) by (simp add: part_size_def)
next
  case Auto
  have "simple_strtoull (CHR ''0'' # CHR ''['' # s) = (0, CHR ''['' # s)"
    by (simp add: simple_strtoull_def isxdigit_def isdigit_def)
  then show ?thesis using assms(3) by (simp add: Auto part_size_def ecnt_memparse_def not_less)
qed

lemma parse_part_print:
  assumes "good_spec bs sp" "sp_size sp = Rest \<longrightarrow> \<not> rem" "bs \<le> SIZE_TO_GET" "rest = [] \<or> hd rest = CHR '',''"
  shows "parse_part bs (print_spec sp @ rest) rem = Some (def_of sp, rest, rem \<or> sp_size sp = Rest)"
proof -
  let ?e = "(if sp_end sp then ''end'' else []) @ rest"
  have nb: "CHR '']'' \<notin> set (sp_name sp)" using assms(1) by (simp add: good_spec_def)
  have pn: "part_name (''['' @ sp_name sp @ '']'' @ ?e) = Some (Some (sp_name sp), ?e)"
    using split_at_char[OF nb, of ?e] by (simp add: part_name_def strchr_def)
  have po: "part_offset ?e = (def_offset (def_of sp), rest)"
    using assms(4) by (cases rest) (auto simp: part_offset_def def_of_def)
  have "print_spec sp @ rest = print_size (sp_size sp) @ ''['' @ (sp_name sp @ '']'' @ ?e)" by (simp add: print_spec_def)
  then show ?thesis using part_size_print[OF assms(1-3), of "sp_name sp @ '']'' @ ?e"] pn po
    by (simp add: parse_part_def def_of_def)
qed

lemma def_name_def_of [simp]: "def_name (def_of sp) = Some (sp_name sp)"
  by (simp add: def_of_def)

lemma length_entries: "good_spec bs sp \<Longrightarrow> length (entries_of sp) = fst (tclinux_slots (sp_name sp)) + 1"
  by (auto simp: entries_of_def overlay_of_def tclinux_slots_def good_spec_def strncmp_eq_def)

lemma shift_update: "(replicate j x @ ys)[j + k := v] = replicate j x @ ys[k := v]" "(replicate j x @ ys) ! (j + k) = ys ! k"
  by (simp_all add: list_update_append nth_append)

text \<open>The last entry becomes the reserve area when the last definition is entered.\<close>

definition close_table :: "mtd_conf \<Rightarrow> mtd_partition list \<Rightarrow> mtd_partition list" where
  "close_table K t = (case t of [p] \<Rightarrow>
     [p\<lparr>pname := Some (RESERVEAREA K), psize := 0x40000 * TCSUPPORT_RESERVEAREA_BLOCK K, poffset := OFFSET_BACK_FORWARD\<rparr>] | _ \<Rightarrow> t)"

lemma close_append: "t \<noteq> [] \<Longrightarrow>
    (if length t = 1 then set_part (k + length e) (RESERVEAREA K) (0x40000 * TCSUPPORT_RESERVEAREA_BLOCK K) OFFSET_BACK_FORWARD (replicate k x @ e @ t)
     else replicate k x @ e @ t) = replicate k x @ e @ close_table K t"
  by (cases t; cases "tl t") (auto simp: close_table_def set_part_def shift_update list_update_append nth_append)

lemma set_reserve:
  "ecnt_newpart_set_other_parts K (RESERVEAREA K) i g =
     g\<lparr>ecnt_parts := set_part i (RESERVEAREA K) (0x40000 * TCSUPPORT_RESERVEAREA_BLOCK K) OFFSET_BACK_FORWARD (ecnt_parts g)\<rparr>"
  by (simp add: ecnt_newpart_set_other_parts_def RESERVEAREA_def)

lemma enter_part_entries:
  assumes "good_spec bs sp" and i: "i = j + fst (tclinux_slots (sp_name sp))" and t: "t \<noteq> []"
    and g: "ecnt_parts g = replicate (i + 1) null_part @ t"
  shows "ecnt_parts (enter_part K i (def_of sp) (sp_name sp) g) = replicate j null_part @ entries_of sp @ close_table K t"
proof -
  let ?n = "sp_name sp" and ?s = "fst (tclinux_slots (sp_name sp))"
  define e where "e = entry_of ?n (def_size (def_of sp)) (def_offset (def_of sp))"
  define g1 where "g1 = g\<lparr>ecnt_parts := (ecnt_parts g)[i := e]\<rparr>"
  define g2 where "g2 = (if ?n = TCLINUX \<or> ?n = TCLINUX_SLAVE then ecnt_newpart_set_other_parts K ?n (i - 2) g1 else g1)"
  have g0: "ecnt_parts g = replicate j null_part @ replicate ?s null_part @ [null_part] @ t"
    using g i by (simp add: replicate_add replicate_app_Cons_same)
  have "ecnt_parts g1 = replicate j null_part @ (replicate ?s null_part @ [null_part] @ t)[?s := e]"
    unfolding g1_def i using shift_update(1)[of j null_part _ ?s] by (simp add: g0)
  then have p1: "ecnt_parts g1 = replicate j null_part @ replicate ?s null_part @ [e] @ t" by (simp add: list_update_append)
  have p2: "ecnt_parts g2 = replicate j null_part @ entries_of sp @ t"
  proof (cases "?n = TCLINUX \<or> ?n = TCLINUX_SLAVE")
    case True
    then have s2: "?s = 2" by (auto simp: tclinux_slots_def strncmp_eq_def)
    then have p: "ecnt_parts g1 = replicate j null_part @ [null_part, null_part, e] @ t" and ij: "i - 2 = j"
      using p1 i by (simp_all add: numeral_2_eq_2)
    have "ecnt_parts g2 = replicate j null_part @ (overlay_of ?n @ [e]) @ t"
      using True unfolding g2_def ij ecnt_newpart_set_other_parts_def overlay_of_def
      using shift_update[of j null_part _ 0] shift_update[of j null_part _ 1]
      by (auto simp: p set_part_def null_part_def entry_of_def)
    then show ?thesis by (simp add: entries_of_def e_def)
  next
    case False
    then have "?s = 0" using assms(1) by (auto simp: tclinux_slots_def good_spec_def)
    then show ?thesis using False p1 by (simp add: g2_def entries_of_def overlay_of_def e_def)
  qed
  have len: "length (ecnt_parts g) = i + 1 + length t" using g by simp
  have le: "length (entries_of sp) = ?s + 1" by (rule length_entries[OF assms(1)])
  have last: "i = length (ecnt_parts g) - 2 \<longleftrightarrow> length t = 1" using len t by (cases t) auto
  have idx: "length t = 1 \<Longrightarrow> length (ecnt_parts g) - 1 = j + length (entries_of sp)" using len le i by simp
  have "enter_part K i (def_of sp) ?n g = (if i = length (ecnt_parts g) - 2
      then ecnt_newpart_set_other_parts K (RESERVEAREA K) (length (ecnt_parts g) - 1) g2 else g2)"
    by (simp add: enter_part_def Let_def g2_def g1_def e_def entry_of_def)
  then have "ecnt_parts (enter_part K i (def_of sp) ?n g) = (if length t = 1
      then set_part (j + length (entries_of sp)) (RESERVEAREA K) (0x40000 * TCSUPPORT_RESERVEAREA_BLOCK K) OFFSET_BACK_FORWARD (ecnt_parts g2)
      else ecnt_parts g2)"
    unfolding last using idx by (simp add: set_reserve)
  then show ?thesis unfolding p2 using close_append[OF t] by simp
qed

lemma tl_table: "sps \<noteq> [] \<Longrightarrow> close_table K (table_of K sps) = table_of K sps"
  by (cases sps) (auto simp: table_of_def close_table_def entries_of_def split: list.splits)

lemma ecnt_newpart_print:
  assumes "sps \<noteq> []" "\<forall>sp\<in>set sps. good_spec bs sp" "one_rest (has_remaining_part_flag g) sps" "bs \<le> SIZE_TO_GET"
    and "16 * (j + length (table_of K sps)) + extra + name_bytes sps + length (RESERVEAREA K) + 1 \<le> PARTS_SIZE"
  shows "\<exists>g'. ecnt_newpart K bs (print_specs sps) j extra g = Inr (True, g') \<and> ecnt_parts g' = replicate j null_part @ table_of K sps"
  using assms
proof (induction sps arbitrary: j extra g)
  case (Cons sp sps)
  let ?n = "sp_name sp" and ?rem = "has_remaining_part_flag g"
  obtain slots mem where sl: "tclinux_slots ?n = (slots, mem)" by fastforce
  have good: "good_spec bs sp" and r: "sp_size sp = Rest \<longrightarrow> \<not> ?rem" using Cons.prems(2,3) by (auto simp: one_rest_def split: if_splits)
  define g1 where "g1 = g\<lparr>has_remaining_part_flag := ?rem \<or> sp_size sp = Rest\<rparr>"
  have len: "length (entries_of sp) = slots + 1" using length_entries[OF good] sl by simp
  have tab: "table_of K (sp # sps) = entries_of sp @ table_of K sps" by (simp add: table_of_def)
  have nb: "name_bytes (sp # sps) = length ?n + 1 + mem + name_bytes sps" by (simp add: name_bytes_def sl)
  show ?case
  proof (cases "sps = []")
    case True
    have pp: "parse_part bs (print_spec sp) ?rem = Some (def_of sp, [], ?rem \<or> sp_size sp = Rest)"
      using parse_part_print[OF good r Cons.prems(4), of "[]"] by simp
    let ?i = "j + slots" and ?g = "g1\<lparr>ecnt_parts := replicate (j + slots + 2) null_part\<rparr>"
    have ok: "(j + slots + 2) * 16 + (extra + length ?n + 1 + mem) + length (RESERVEAREA K) + 1 \<le> PARTS_SIZE"
      using Cons.prems(5) len nb unfolding tab True by (simp add: table_of_def name_bytes_def)
    have "ecnt_newpart K bs (print_specs (sp # sps)) j extra g = Inr (True, enter_part K ?i (def_of sp) ?n ?g)"
      using pp ok True by (subst ecnt_newpart.simps) (simp add: sl g1_def Let_def)
    moreover have "ecnt_parts (enter_part K ?i (def_of sp) ?n ?g) = replicate j null_part @ entries_of sp @ close_table K [null_part]"
      by (rule enter_part_entries[OF good]) (simp_all add: sl replicate_append_same[symmetric])
    ultimately show ?thesis unfolding tab True
      by (simp add: table_of_def close_table_def reserve_of_def entry_of_def null_part_def)
  next
    case False
    then have ps: "print_specs (sp # sps) = print_spec sp @ '','' @ print_specs sps" by (cases sps) auto
    have pp: "parse_part bs (print_spec sp @ '','' @ print_specs sps) ?rem = Some (def_of sp, '','' @ print_specs sps, ?rem \<or> sp_size sp = Rest)"
      using parse_part_print[OF good r Cons.prems(4), of "'','' @ print_specs sps"] by simp
    let ?x = "extra + length ?n + 1 + mem" and ?i = "j + slots"
    have "\<exists>g'. ecnt_newpart K bs (print_specs sps) (?i + 1) ?x g1 = Inr (True, g') \<and> ecnt_parts g' = replicate (?i + 1) null_part @ table_of K sps"
    proof (rule Cons.IH[OF False])
      show "\<forall>sp\<in>set sps. good_spec bs sp" "bs \<le> SIZE_TO_GET" using Cons.prems by auto
      show "one_rest (has_remaining_part_flag g1) sps" using Cons.prems(3) by (auto simp: one_rest_def g1_def split: if_splits)
      show "16 * (?i + 1 + length (table_of K sps)) + ?x + name_bytes sps + length (RESERVEAREA K) + 1 \<le> PARTS_SIZE"
        using Cons.prems(5) len nb unfolding tab by simp
    qed
    then obtain g2 where g2: "ecnt_newpart K bs (print_specs sps) (?i + 1) ?x g1 = Inr (True, g2)"
      "ecnt_parts g2 = replicate (?i + 1) null_part @ table_of K sps" by blast
    have "ecnt_newpart K bs (print_specs (sp # sps)) j extra g = Inr (True, enter_part K ?i (def_of sp) ?n g2)"
      unfolding ps using pp g2(1) by (subst ecnt_newpart.simps) (simp add: sl g1_def Let_def)
    moreover have "ecnt_parts (enter_part K ?i (def_of sp) ?n g2) = replicate j null_part @ entries_of sp @ close_table K (table_of K sps)"
      by (rule enter_part_entries[OF good _ _ g2(2)]) (simp_all add: sl table_of_def)
    ultimately show ?thesis unfolding tab by (simp add: tl_table[OF False])
  qed
qed simp

section \<open>The bootloader and romfile partitions\<close>

definition auto_part :: "string \<Rightarrow> part_spec" where
  "auto_part n = \<lparr>sp_size = Auto, sp_name = n, sp_end = False\<rparr>"

lemma check_str_prepends:
  assumes "strstr src BOOTLOADER_PART = None" "strstr src ROMFILE_PART = None" "NUL \<notin> set src"
    and "\<not> TCSUPPORT_OPENWRT K" "\<not> RDKB_BUILD K" "length src + 26 \<le> length dst"
  shows "\<exists>arr. ecnt_check_mtdpart_str K dst src = Inr arr \<and> c_str arr = BOOTLOADER_PART_STR @ ROMFILE_PART_STR @ src"
proof -
  have n: "NUL \<notin> set BOOTLOADER_PART_STR" "NUL \<notin> set ROMFILE_PART_STR" by (simp_all add: NUL_def)
  obtain d1 where d1: "strcpy dst BOOTLOADER_PART_STR = Inr d1" using assms(6) by (auto simp: strcpy_def)
  note c1 = strcpy_c_str[OF d1 n(1)]
  obtain d2 where d2: "strcat d1 ROMFILE_PART_STR = Inr d2" using assms(6) c1 by (auto simp: strcat_def Let_def)
  note c2 = strcat_c_str[OF d2 n(2)]
  obtain d3 where d3: "strcat d2 src = Inr d3" using assms(6) c1 c2 by (auto simp: strcat_def Let_def)
  show ?thesis using assms(1,2,4,5) d1 d2 d3 strcat_c_str(1)[OF d3 assms(3)] c1 c2 by (simp add: ecnt_check_mtdpart_str_def)
qed

text \<open>
  C23 The partition string is parsed into the table it describes: for a string that is the
  printed form of a list of partitions (sizes in kibibytes, at most one that takes
  the remaining space, names that are not proper prefixes of a system partition's name) and
  mentions neither bootloader nor romfile, the table consists of the two boot partitions,
  the listed partitions in order, each system partition preceded by its kernel and root file
  system entries, and the reserve area at the end, provided the table fits into the static buffer.
\<close>

theorem ecnt_mtdpart_setup_builds_table:
  assumes "sps \<noteq> []" and "\<forall>sp\<in>set sps. good_spec bs sp" and "one_rest (has_remaining_part_flag g) sps" and "bs \<le> SIZE_TO_GET"
    and "strstr (print_specs sps) BOOTLOADER_PART = None" and "strstr (print_specs sps) ROMFILE_PART = None"
    and "NUL \<notin> set (print_specs sps)" and "\<not> TCSUPPORT_OPENWRT K" and "\<not> RDKB_BUILD K"
    and "length cmdline = STR_LEN" and "length (print_specs sps) + 26 \<le> STR_LEN"
    and "16 * (2 + length (table_of K sps)) + name_bytes sps + 31 \<le> PARTS_SIZE"
  shows "\<exists>g'. ecnt_mtdpart_setup K cmdline (print_specs sps) bs g = Inr (True, g')
     \<and> ecnt_parts g' = entry_of BOOTLOADER_PART SIZE_TO_GET OFFSET_CONTINUOUS # entry_of ROMFILE_PART SIZE_TO_GET OFFSET_CONTINUOUS
         # table_of K sps"
proof -
  let ?b = "auto_part BOOTLOADER_PART" and ?r = "auto_part ROMFILE_PART"
  obtain arr where arr: "ecnt_check_mtdpart_str K cmdline (print_specs sps) = Inr arr"
    "c_str arr = BOOTLOADER_PART_STR @ ROMFILE_PART_STR @ print_specs sps"
    using check_str_prepends[OF assms(5-9), of cmdline] assms(10,11) by (auto simp: STR_LEN_def)
  have pr: "print_specs (?b # ?r # sps) = c_str arr"
    unfolding arr(2) using assms(1) by (cases sps) (auto simp: auto_part_def print_spec_def)
  have ne: "RESERVEAREA K = ''reservearea''" using assms(8,9) by (simp add: RESERVEAREA_def)
  have g: "good_spec bs ?b" "good_spec bs ?r" by (simp_all add: good_spec_def auto_part_def strncmp_eq_def)
  have tab: "table_of K (?b # ?r # sps) = entry_of BOOTLOADER_PART SIZE_TO_GET OFFSET_CONTINUOUS
      # entry_of ROMFILE_PART SIZE_TO_GET OFFSET_CONTINUOUS # table_of K sps"
    by (simp add: table_of_def entries_of_def overlay_of_def auto_part_def def_of_def)
  have nb: "name_bytes (?b # ?r # sps) = 19 + name_bytes sps"
    by (simp add: name_bytes_def auto_part_def tclinux_slots_def strncmp_eq_def)
  obtain g' where "ecnt_newpart K bs (print_specs (?b # ?r # sps)) 0 0 g = Inr (True, g')" "ecnt_parts g' = table_of K (?b # ?r # sps)"
    using ecnt_newpart_print[of "?b # ?r # sps" bs g 0 K 0] assms(2,3,4,12) g
    unfolding tab nb ne by (auto simp: one_rest_def auto_part_def)
  then show ?thesis using arr assms(11) pr tab by (simp add: ecnt_mtdpart_setup_def STR_LEN_def)
qed

text \<open>The partition string of the demonstration boards, with its sizes in kibibytes.\<close>

definition demo_mtd_conf :: mtd_conf where
  "demo_mtd_conf = \<lparr>TCSUPPORT_OPENWRT = False, RDKB_BUILD = False, TCSUPPORT_ARM_MULTIBOOT = False, TCSUPPORT_BLX_MULTICOPY = False,
     TCSUPPORT_RESERVEAREA_BLOCK = 9, flash_base = 0\<rparr>"

definition demo_mtd :: mtd_state where
  "demo_mtd = \<lparr>ecnt_parts = [], kernel_part_index = -1, kernel_slave_part_index = -1, has_remaining_part_flag = False,
     tclinux_part_size = 0, tclinux_part_offset = 0xFFFFFFFF\<rparr>"

definition demo_specs :: "part_spec list" where
  "demo_specs = [\<lparr>sp_size = Kib 25600, sp_name = TCLINUX, sp_end = False\<rparr>,
     \<lparr>sp_size = Kib 25600, sp_name = TCLINUX_SLAVE, sp_end = False\<rparr>, \<lparr>sp_size = Kib 1024, sp_name = ''config'', sp_end = False\<rparr>]"

lemma demo_string: "print_specs demo_specs = ''25600k[tclinux],25600k[tclinux_slave],1024k[config]''"
  by (simp add: demo_specs_def print_spec_def show_dec.simps char_of_def bit_0)

lemmas demo_table_defs = table_of_def demo_specs_def entries_of_def overlay_of_def def_of_def reserve_of_def demo_mtd_conf_def RESERVEAREA_def

theorem ecnt_mtdpart_setup_builds_table_witness:
  "\<exists>g'. ecnt_mtdpart_setup demo_mtd_conf (replicate 256 CHR ''x'') ''25600k[tclinux],25600k[tclinux_slave],1024k[config]'' 0x20000 demo_mtd = Inr (True, g')
     \<and> map pname (ecnt_parts g') = map Some [BOOTLOADER_PART, ROMFILE_PART, KERNEL_PART, ROOTFS_PART, TCLINUX, KERNEL_SLAVE_PART, ROOTFS_SLAVE_PART,
          TCLINUX_SLAVE, ''config'', ''reservearea'']"
proof -
  have good: "\<forall>sp\<in>set demo_specs. good_spec 0x20000 sp" by (simp add: demo_specs_def good_spec_def strncmp_eq_def)
  have rest: "one_rest (has_remaining_part_flag demo_mtd) demo_specs" by (simp add: one_rest_def demo_specs_def demo_mtd_def)
  have s: "strstr (print_specs demo_specs) BOOTLOADER_PART = None" "strstr (print_specs demo_specs) ROMFILE_PART = None"
    "NUL \<notin> set (print_specs demo_specs)" unfolding demo_string by (simp_all add: NUL_def)
  have le: "length (print_specs demo_specs) + 26 \<le> STR_LEN"
    "16 * (2 + length (table_of demo_mtd_conf demo_specs)) + name_bytes demo_specs + 31 \<le> PARTS_SIZE"
    unfolding demo_string by (simp_all add: STR_LEN_def PARTS_SIZE_def demo_table_defs name_bytes_def tclinux_slots_def strncmp_eq_def)
  have names: "map pname (table_of demo_mtd_conf demo_specs) = map Some [KERNEL_PART, ROOTFS_PART, TCLINUX, KERNEL_SLAVE_PART, ROOTFS_SLAVE_PART,
      TCLINUX_SLAVE, ''config'', ''reservearea'']" by (simp add: demo_table_defs entry_of_def)
  obtain g' where g': "ecnt_mtdpart_setup demo_mtd_conf (replicate 256 CHR ''x'') (print_specs demo_specs) 0x20000 demo_mtd = Inr (True, g')"
    "ecnt_parts g' = entry_of BOOTLOADER_PART SIZE_TO_GET OFFSET_CONTINUOUS # entry_of ROMFILE_PART SIZE_TO_GET OFFSET_CONTINUOUS
       # table_of demo_mtd_conf demo_specs"
    using ecnt_mtdpart_setup_builds_table[OF _ good rest _ s _ _ _ le, of "replicate 256 CHR ''x''"]
    by (auto simp: demo_specs_def demo_mtd_conf_def STR_LEN_def SIZE_TO_GET_def)
  then show ?thesis unfolding demo_string[symmetric] using names by (simp add: entry_of_def)
qed

end
