(* ===== verification/Layout_Theorems.thy ===== *)
theory Layout_Theorems
  imports Mtd_Theorems
begin

text \<open>
  The layout of the partitions: when the partitions fit, the two passes succeed and every
  partition gets an aligned piece of its own; and the size check of the second pass is
  never the one that fails.
\<close>

section \<open>Alignment\<close>

lemma and_not_mask: "w AND NOT (mask k) = push_bit k (drop_bit k (w :: 'a::len word))"
  by (rule bit_word_eqI) (auto simp: bit_simps)

lemma unat_clear_low: "unat (w AND NOT (mask k)) = unat (w :: u32) div 2 ^ k * 2 ^ k"
proof -
  have "unat w div 2 ^ k * 2 ^ k \<le> unat w" by simp
  then have "unat w div 2 ^ k * 2 ^ k < 2 ^ LENGTH(32)" using unsigned_less[of w] by (rule order_le_less_trans)
  then have t: "take_bit LENGTH(32) (unat w div 2 ^ k * 2 ^ k) = unat w div 2 ^ k * 2 ^ k" by (rule take_bit_nat_eq_self)
  have "take_bit LENGTH(32) (unat w) = unat w" by (rule take_bit_nat_eq_self) (rule unsigned_less)
  moreover have "unat (push_bit k (drop_bit k w)) = take_bit LENGTH(32) (push_bit k (drop_bit k (take_bit LENGTH(32) (unat w))))"
    by (simp only: unsigned_push_bit_eq unsigned_drop_bit_eq)
  ultimately show ?thesis unfolding and_not_mask by (simp only: push_bit_eq_mult drop_bit_eq_div t)
qed

text \<open>A block size is a power of two between 4 and 2 to the 31.\<close>

definition block_bits :: "u32 \<Rightarrow> nat \<Rightarrow> bool" where
  "block_bits bs k \<longleftrightarrow> bs = 2 ^ k \<and> 2 \<le> k \<and> k < 32"

lemma block_bits_unat: "block_bits bs k \<Longrightarrow> unat bs = 2 ^ k"
  using unat_of_nat_small[of "2 ^ k", where 'a = 32] power_strict_increasing[of k 32 "2 :: nat"] by (simp add: block_bits_def)

lemma ALIGN_unat: "block_bits bs k \<Longrightarrow> unat (ALIGN x bs) = (unat x + (2 ^ k - 1)) mod 2 ^ 32 div 2 ^ k * 2 ^ k"
proof -
  assume b: "block_bits bs k"
  have m: "bs - 1 = mask k" using b by (simp add: block_bits_def mask_eq_exp_minus_1)
  have "(1 :: u32) \<le> bs" using b block_bits_unat[OF b] by (simp add: word_le_nat_alt)
  then have "unat (bs - 1) = 2 ^ k - 1" using block_bits_unat[OF b] by (simp add: unat_sub)
  then have "unat (x + (bs - 1)) = (unat x + (2 ^ k - 1)) mod 2 ^ 32" by (simp add: unat_word_ariths)
  then show ?thesis unfolding ALIGN_def m[symmetric] using unat_clear_low[of "x + (bs - 1)" k] m by simp
qed

lemma round_up_fits:
  assumes "block_bits bs k" "round_up (2 ^ k) n < 2 ^ 32"
  shows "n + (2 ^ k - 1) < 2 ^ 32"
proof -
  let ?B = "2 ^ k :: nat"
  have dv: "?B dvd 2 ^ 32" using assms(1) by (intro le_imp_power_dvd) (simp add: block_bits_def)
  obtain c where c: "2 ^ 32 = c * ?B" using dv by (metis dvd_div_mult_self)
  obtain q where q: "round_up ?B n = q * ?B" by (simp add: round_up_def)
  have "q < c" using assms(2) unfolding c q by simp
  then have "Suc q * ?B \<le> c * ?B" by (intro mult_le_mono1) simp
  then have "round_up ?B n + ?B \<le> 2 ^ 32" unfolding c q by simp
  moreover have "n \<le> round_up ?B n" by (rule round_up_ge) simp
  moreover have "0 < ?B" by simp
  ultimately show ?thesis by linarith
qed

lemma ALIGN_round_up:
  assumes "block_bits bs k" "round_up (2 ^ k) (unat x) < 2 ^ 32"
  shows "unat (ALIGN x bs) = round_up (2 ^ k) (unat x)"
  using ALIGN_unat[OF assms(1), of x] round_up_fits[OF assms] by (simp add: round_up_def)

lemma round_up_add: "0 < p \<Longrightarrow> p dvd a \<Longrightarrow> round_up p (a + n) = a + round_up p n"
proof -
  assume p: "0 < p" and "p dvd a"
  then obtain c where c: "a = c * p" by (metis dvd_div_mult_self)
  define m where "m = n + (p - 1)"
  have "(c * p + m) div p = c + m div p" using p by simp
  moreover have "a + n + p - 1 = c * p + m" "n + p - 1 = m" using p c by (simp_all add: m_def)
  ultimately show ?thesis by (simp add: round_up_def c distrib_right)
qed

text \<open>The size markers are rounded to nothing.\<close>

lemma ALIGN_markers:
  assumes "block_bits bs k" shows "ALIGN SIZE_TO_GET bs = 0" "ALIGN SIZE_REMAINING bs = 0"
proof -
  have k: "4 \<le> (2 :: nat) ^ k" "(2 :: nat) ^ k < 2 ^ 32"
    using assms power_increasing[of 2 k "2 :: nat"] power_strict_increasing[of k 32 "2 :: nat"] by (auto simp: block_bits_def)
  define B where "B = (2 :: nat) ^ k"
  have "(unat SIZE_TO_GET + (B - 1)) mod 2 ^ 32 = B - 3" "(unat SIZE_REMAINING + (B - 1)) mod 2 ^ 32 = B - 2"
  proof -
    have "unat SIZE_TO_GET + (B - 1) = (B - 3) + 2 ^ 32" "unat SIZE_REMAINING + (B - 1) = (B - 2) + 2 ^ 32"
      using k unfolding B_def by (simp_all add: SIZE_TO_GET_def SIZE_REMAINING_def)
    moreover have "B - 3 < 2 ^ 32" "B - 2 < 2 ^ 32" using k unfolding B_def by linarith+
    ultimately show "(unat SIZE_TO_GET + (B - 1)) mod 2 ^ 32 = B - 3" "(unat SIZE_REMAINING + (B - 1)) mod 2 ^ 32 = B - 2"
      by (simp_all only: mod_add_self2 mod_less)
  qed
  moreover have "(B - 3) div B = 0" "(B - 2) div B = 0" using k unfolding B_def[symmetric] by simp_all
  ultimately have "unat (ALIGN SIZE_TO_GET bs) = 0" "unat (ALIGN SIZE_REMAINING bs) = 0"
    using ALIGN_unat[OF assms, folded B_def] by simp_all
  then show "ALIGN SIZE_TO_GET bs = 0" "ALIGN SIZE_REMAINING bs = 0" by (simp_all only: unat_eq_0)
qed

section \<open>The space a table needs\<close>

definition boot_part :: "mtd_partition \<Rightarrow> bool" where
  "boot_part p \<longleftrightarrow> pname p = Some BOOTLOADER_PART \<or> pname p = Some ROMFILE_PART"

text \<open>A kernel or root file system entry lies inside its system partition; every other entry is a partition of its own.\<close>

definition real_part :: "mtd_partition \<Rightarrow> bool" where
  "real_part p \<longleftrightarrow> psize p \<noteq> SIZE_TO_GET \<or> boot_part p"

definition wanted_size :: "mtd_conf \<Rightarrow> mtd_partition \<Rightarrow> u32" where
  "wanted_size K p = (if psize p = SIZE_TO_GET \<and> boot_part p then ecnt_get_bootloader_romfile_size K (the (pname p)) else psize p)"

definition need :: "mtd_conf \<Rightarrow> nat \<Rightarrow> mtd_partition \<Rightarrow> nat" where
  "need K B p = (if \<not> real_part p \<or> psize p = SIZE_REMAINING then 0 else round_up B (unat (wanted_size K p)))"

definition space :: "mtd_conf \<Rightarrow> nat \<Rightarrow> mtd_partition list \<Rightarrow> nat" where
  "space K B ps = sum_list (map (need K B) ps)"

text \<open>A table that fits into F bytes and ends with a partition that counts from the end.\<close>

definition table_fits :: "mtd_conf \<Rightarrow> u32 \<Rightarrow> nat \<Rightarrow> mtd_partition list \<Rightarrow> bool" where
  "table_fits K bs F ps \<longleftrightarrow> (\<exists>k. block_bits bs k) \<and> (\<forall>p\<in>set ps. pname p \<noteq> None) \<and> space K (unat bs) ps \<le> F \<and> F < 2 ^ 32
     \<and> unat bs dvd F \<and> ps \<noteq> [] \<and> poffset (last ps) = OFFSET_BACK_FORWARD"

abbreviation front :: "mtd_conf \<Rightarrow> u32 \<Rightarrow> mtd_partition list \<Rightarrow> nat \<Rightarrow> nat" where
  "front K bs ps i \<equiv> space K (unat bs) (take i ps)"

lemma space_append [simp]: "space K B (xs @ ys) = space K B xs + space K B ys"
  by (simp add: space_def)

lemma front_Suc: "i < length ps \<Longrightarrow> front K bs ps (Suc i) = front K bs ps i + need K (unat bs) (ps ! i)"
  by (simp add: take_Suc_conv_app_nth space_def)

lemma front_le: "front K bs ps i \<le> space K (unat bs) ps"
  using space_append[of K "unat bs" "take i ps" "drop i ps"] by simp

lemma need_dvd: "B dvd need K B p"
  by (simp add: need_def round_up_def)

lemma space_dvd: "B dvd space K B ps"
  by (induction ps) (simp_all add: space_def need_dvd)

lemma boot_size_regular:
  "n = BOOTLOADER_PART \<or> n = ROMFILE_PART \<Longrightarrow> ecnt_get_bootloader_romfile_size K n \<noteq> SIZE_REMAINING"
  by (auto simp: ecnt_get_bootloader_romfile_size_def SIZE_REMAINING_def Let_def)

section \<open>The pass from the front\<close>

definition placed :: "mtd_conf \<Rightarrow> u32 \<Rightarrow> mtd_partition list \<Rightarrow> nat \<Rightarrow> mtd_partition \<Rightarrow> bool" where
  "placed K bs ps j q \<longleftrightarrow> pname q = pname (ps ! j) \<and> unat (poffset q) = front K bs ps j
     \<and> (real_part (ps ! j) \<longrightarrow> psize q = wanted_size K (ps ! j) \<and> front K bs ps j + unat (psize q) \<le> front K bs ps (Suc j))"

definition fwd_inv :: "mtd_conf \<Rightarrow> u32 \<Rightarrow> mtd_partition list \<Rightarrow> nat \<Rightarrow> layout \<Rightarrow> bool" where
  "fwd_inv K bs ps i L \<longleftrightarrow> length (ecnt_parts (lay_g L)) = length ps \<and> unat (lay_off L) = front K bs ps i
     \<and> (\<forall>j<i. placed K bs ps j (ecnt_parts (lay_g L) ! j)) \<and> (\<forall>j. i \<le> j \<and> j < length ps \<longrightarrow> ecnt_parts (lay_g L) ! j = ps ! j)
     \<and> size_remaining_index L = None"

lemma upd_part_simps [simp]:
  "lay_off (upd_part i f L) = lay_off L" "size_remaining_index (upd_part i f L) = size_remaining_index L"
  "first_back_forward_index (upd_part i f L) = first_back_forward_index L"
  "ecnt_parts (lay_g (upd_part i f L)) = (ecnt_parts (lay_g L))[i := f (ecnt_parts (lay_g L) ! i)]"
  by (simp_all add: upd_part_def)

lemma unat_ucast_64 [simp]: "unat (ucast (w :: u32) :: u64) = unat w"
proof -
  have "unat w < 2 ^ LENGTH(64)" using unsigned_less[of w, where 'a = nat] by simp
  then show ?thesis by (simp add: unsigned_ucast_eq take_bit_nat_eq_self)
qed

lemma fwd_advance_ok:
  assumes "block_bits bs k" "pname (lay_part L i) = Some nm" "unat bs dvd unat (lay_off L)"
    and "unat (lay_off L) + round_up (unat bs) (unat (psize (lay_part L i))) \<le> unat fsize" "unat fsize < 2 ^ 32"
  shows "\<exists>L'. fwd_advance bs fsize i L = Inr (Continue L') \<and> ecnt_parts (lay_g L') = ecnt_parts (lay_g L)
     \<and> unat (lay_off L') = unat (lay_off L) + round_up (unat bs) (unat (psize (lay_part L i)))
     \<and> size_remaining_index L' = size_remaining_index L"
proof -
  let ?w = "psize (lay_part L i)" and ?B = "unat bs"
  have B: "?B = 2 ^ k" "0 < ?B" using block_bits_unat[OF assms(1)] by simp_all
  have le: "unat ?w \<le> round_up ?B (unat ?w)" using B(2) by (rule round_up_ge)
  have st: "unat (lay_off L + ?w) = unat (lay_off L) + unat ?w" using assms(4,5) le by (simp add: unat_word_ariths)
  have ru: "round_up ?B (unat (lay_off L + ?w)) = unat (lay_off L) + round_up ?B (unat ?w)"
    unfolding st by (rule round_up_add[OF B(2) assms(3)])
  have al: "unat (ALIGN (lay_off L + ?w) bs) = unat (lay_off L) + round_up ?B (unat ?w)"
    using ALIGN_round_up[OF assms(1), of "lay_off L + ?w"] ru assms(4,5) B(1) by simp
  have "\<not> fsize < ucast (lay_off L + ?w)" using st assms(4) le by (simp add: word_less_nat_alt)
  then show ?thesis using assms(2) al by (simp add: fwd_advance_def part_is_def Let_def)
qed

lemma fwd_place_ok:
  assumes b: "block_bits bs k" and inv: "fwd_inv K bs ps i L0" and i: "i < length ps"
    and L: "L = L0\<lparr>lay_g := g\<rparr>" "ecnt_parts g = (ecnt_parts (lay_g L0))[i := q]" and q: "pname q = pname (ps ! i)" "pname q = Some nm"
      "psize q = wanted_size K (ps ! i)" "psize q \<noteq> SIZE_REMAINING"
    and real: "real_part (ps ! i)" "psize (ps ! i) \<noteq> SIZE_REMAINING"
    and le: "front K bs ps (Suc i) \<le> unat fsize" "unat fsize < 2 ^ 32"
  shows "\<exists>L'. fwd_place bs fsize i L = Inr (Continue L') \<and> fwd_inv K bs ps (Suc i) L'"
proof -
  define L1 where "L1 = upd_part i (\<lambda>p. p\<lparr>poffset := lay_off L\<rparr>) L"
  have len: "length (ecnt_parts (lay_g L0)) = length ps" using inv by (simp add: fwd_inv_def)
  have q1: "lay_part L1 i = q\<lparr>poffset := lay_off L0\<rparr>" using L i len by (simp add: L1_def lay_part_def)
  have nd: "need K (unat bs) (ps ! i) = round_up (unat bs) (unat (psize q))" using real q(3) by (simp add: need_def)
  have fr: "front K bs ps (Suc i) = front K bs ps i + round_up (unat bs) (unat (psize q))" using front_Suc[OF i] nd by simp
  have off: "unat (lay_off L1) = front K bs ps i" using inv L(1) by (simp add: L1_def fwd_inv_def)
  obtain L' where L': "fwd_advance bs fsize i L1 = Inr (Continue L')" "ecnt_parts (lay_g L') = ecnt_parts (lay_g L1)"
      "unat (lay_off L') = front K bs ps (Suc i)" "size_remaining_index L' = size_remaining_index L1"
    using fwd_advance_ok[OF b, of L1 i nm fsize] q q1 off space_dvd le fr by auto
  have "fwd_place bs fsize i L = Inr (Continue L')"
    using L'(1) q(4) q1 by (simp add: fwd_place_def L1_def[symmetric] Let_def)
  moreover have "placed K bs ps i (q\<lparr>poffset := lay_off L0\<rparr>)"
    using q inv fr round_up_ge[of "unat bs" "unat (psize q)"] block_bits_unat[OF b] by (simp add: placed_def fwd_inv_def)
  then have "fwd_inv K bs ps (Suc i) L'"
    using inv L L' i len by (auto simp: fwd_inv_def L1_def less_Suc_eq nth_list_update)
  ultimately show ?thesis by blast
qed

definition fwd_end :: "mtd_conf \<Rightarrow> u32 \<Rightarrow> mtd_partition list \<Rightarrow> nat \<Rightarrow> layout \<Rightarrow> bool" where
  "fwd_end K bs ps fb L \<longleftrightarrow> length (ecnt_parts (lay_g L)) = length ps \<and> first_back_forward_index L = Some fb \<and> fb < length ps
     \<and> (\<forall>j. fb \<le> j \<and> j < length ps \<longrightarrow> ecnt_parts (lay_g L) ! j = ps ! j)
     \<and> (case size_remaining_index L of None \<Rightarrow> \<forall>j<fb. placed K bs ps j (ecnt_parts (lay_g L) ! j)
        | Some r \<Rightarrow> fb = Suc r \<and> (\<forall>j<r. placed K bs ps j (ecnt_parts (lay_g L) ! j)) \<and> psize (ps ! r) = SIZE_REMAINING
            \<and> unat (size_remaining_offset_start L) = front K bs ps r
            \<and> pname (ecnt_parts (lay_g L) ! r) = pname (ps ! r) \<and> unat (poffset (ecnt_parts (lay_g L) ! r)) = front K bs ps r)"

lemma fwd_step_ok:
  assumes fits: "table_fits K bs (unat fsize) ps" and inv: "fwd_inv K bs ps i L" and i: "i < length ps"
  shows "(\<exists>L'. fwd_step K bs fsize i L = Inr (Continue L') \<and> fwd_inv K bs ps (Suc i) L' \<and> Suc i < length ps)
     \<or> (\<exists>L' fb. fwd_step K bs fsize i L = Inr (Break L') \<and> fwd_end K bs ps fb L')"
proof -
  obtain k where b: "block_bits bs k" using fits by (auto simp: table_fits_def)
  have same: "lay_part L i = ps ! i" and len: "length (ecnt_parts (lay_g L)) = length ps" using inv i by (auto simp: fwd_inv_def lay_part_def)
  obtain nm where nm: "pname (ps ! i) = Some nm" using fits nth_mem[OF i] by (fastforce simp: table_fits_def)
  have le: "front K bs ps (Suc i) \<le> unat fsize" "unat fsize < 2 ^ 32"
    using fits front_le[of K bs "Suc i" ps] by (auto simp: table_fits_def)
  show ?thesis
  proof (cases "poffset (ps ! i) = OFFSET_BACK_FORWARD")
    case True
    then show ?thesis using inv i by (intro disjI2) (simp add: fwd_step_def same fwd_end_def fwd_inv_def)
  next
    case False
    then have "ps ! i \<noteq> last ps" using fits by (auto simp: table_fits_def)
    then have last: "Suc i < length ps" using i by (metis last_conv_nth length_greater_0_conv less_antisym diff_Suc_1 Suc_lessI length_Suc_conv_rev list.size(3) not_less_zero)
    show ?thesis
    proof (cases "psize (ps ! i) = SIZE_TO_GET")
      case tg: True
      show ?thesis
      proof (cases "boot_part (ps ! i)")
        case True
        then have n: "nm = BOOTLOADER_PART \<or> nm = ROMFILE_PART" using nm by (simp add: boot_part_def)
        define q where "q = (ps ! i)\<lparr>psize := ecnt_get_bootloader_romfile_size K nm\<rparr>"
        have w: "wanted_size K (ps ! i) = psize q" using tg True nm by (simp add: wanted_size_def q_def)
        have "(if nm = BOOTLOADER_PART then BOOTLOADER_PART else ROMFILE_PART) = nm" using n by auto
        then have "fwd_step K bs fsize i L = fwd_place bs fsize i (L\<lparr>lay_g := (lay_g L)\<lparr>ecnt_parts := (ecnt_parts (lay_g L))[i := q]\<rparr>\<rparr>)"
          using n False tg nm same unfolding fwd_step_def by (auto simp: part_is_def upd_part_def q_def lay_part_def)
        moreover have "\<exists>L'. fwd_place bs fsize i (L\<lparr>lay_g := (lay_g L)\<lparr>ecnt_parts := (ecnt_parts (lay_g L))[i := q]\<rparr>\<rparr>) = Inr (Continue L')
            \<and> fwd_inv K bs ps (Suc i) L'"
          by (rule fwd_place_ok[OF b inv i refl, of _ q nm]) (use True tg nm w le boot_size_regular[OF n] in \<open>auto simp: q_def real_part_def SIZE_TO_GET_def SIZE_REMAINING_def\<close>)
        ultimately show ?thesis using last by auto
      next
        case nb: False
        let ?L = "upd_part i (\<lambda>p. p\<lparr>poffset := lay_off L\<rparr>) L"
        have "fwd_step K bs fsize i L = Inr (Continue ?L)"
          using nb False tg nm by (simp add: fwd_step_def same part_is_def boot_part_def)
        moreover have "need K (unat bs) (ps ! i) = 0" "\<not> real_part (ps ! i)" using nb tg by (simp_all add: need_def real_part_def)
        then have "fwd_inv K bs ps (Suc i) ?L"
          using inv len i front_Suc[OF i, of K bs] by (auto simp: fwd_inv_def placed_def less_Suc_eq)
        ultimately show ?thesis using last by blast
      qed
    next
      case ntg: False
      then have real: "real_part (ps ! i)" and w: "wanted_size K (ps ! i) = psize (ps ! i)" by (simp_all add: real_part_def wanted_size_def)
      have fs: "fwd_step K bs fsize i L = fwd_place bs fsize i L" using False ntg by (simp add: fwd_step_def same)
      show ?thesis
      proof (cases "psize (ps ! i) = SIZE_REMAINING")
        case True
        let ?L = "(upd_part i (\<lambda>p. p\<lparr>poffset := lay_off L\<rparr>) L)\<lparr>size_remaining_index := Some i, size_remaining_offset_start := lay_off L,
           is_tclinux_remaining_flag := nm = TCLINUX \<or> is_tclinux_remaining_flag L, first_back_forward_index := Some (i + 1)\<rparr>"
        have at: "lay_part (upd_part i (\<lambda>p. p\<lparr>poffset := lay_off L\<rparr>) L) i = (ps ! i)\<lparr>poffset := lay_off L\<rparr>"
          using same len i by (simp add: lay_part_def)
        have "fwd_place bs fsize i L = Inr (Break ?L)"
          using True nm last len at by (simp add: fwd_place_def Let_def part_is_def upd_part_def)
        moreover have "fwd_end K bs ps (Suc i) ?L" using inv last len i True by (auto simp: fwd_end_def fwd_inv_def)
        ultimately show ?thesis unfolding fs by blast
      next
        case nrem: False
        have "\<exists>L'. fwd_place bs fsize i L = Inr (Continue L') \<and> fwd_inv K bs ps (Suc i) L'"
          by (rule fwd_place_ok[OF b inv i, of _ "lay_g L" "ps ! i" nm]) (use nrem real nm w le same len i list_update_id[of "ecnt_parts (lay_g L)" i, symmetric] in \<open>auto simp: lay_part_def\<close>)
        then show ?thesis unfolding fs using last by blast
      qed
    qed
  qed
qed

lemma fwd_loop_ok:
  assumes "table_fits K bs (unat fsize) ps" "fwd_inv K bs ps i L" "i < length ps" "i + n = length ps"
  shows "\<exists>L' fb. fwd_loop K bs fsize n i L = Inr (True, L') \<and> fwd_end K bs ps fb L'"
  using assms(2-)
proof (induction n arbitrary: i L)
  case (Suc n)
  from fwd_step_ok[OF assms(1) Suc.prems(1,2)] show ?case
  proof
    assume "\<exists>L'. fwd_step K bs fsize i L = Inr (Continue L') \<and> fwd_inv K bs ps (Suc i) L' \<and> Suc i < length ps"
    then show ?thesis using Suc.IH[of "Suc i"] Suc.prems(3) by fastforce
  next
    assume "\<exists>L' fb. fwd_step K bs fsize i L = Inr (Break L') \<and> fwd_end K bs ps fb L'"
    then show ?thesis by fastforce
  qed
qed simp

section \<open>The pass from the back\<close>

lemma ucast_ucast_size: "unat (fsize :: u64) < 2 ^ 32 \<Longrightarrow> unat (ucast fsize :: u32) = unat fsize"
  by (simp add: unsigned_ucast_eq take_bit_nat_eq_self)

text \<open>The offset falls by exactly what the total grows, so their sum is always the size of the flash.\<close>

lemma back_loop_succeeds:
  assumes "unat fsize < 2 ^ 32" "lay_off L + tot = ucast fsize"
  shows "fst (back_loop bs fsize fb n tot L)"
  using assms(2)
proof (induction n arbitrary: tot L)
  case (Suc n)
  let ?sz = "ALIGN (psize (lay_part L (fb + n))) bs"
  let ?L = "(upd_part (fb + n) (\<lambda>p. p\<lparr>psize := ?sz, poffset := lay_off L - ?sz\<rparr>) L)\<lparr>lay_off := lay_off L - ?sz\<rparr>"
  have sum: "(lay_off L - ?sz) + (tot + ?sz) = ucast fsize" using Suc.prems by simp
  have "\<not> fsize < ucast ((lay_off L - ?sz) + (tot + ?sz))"
    unfolding sum using ucast_ucast_size[OF assms(1)] by (simp add: word_less_nat_alt)
  moreover have "fst (back_loop bs fsize fb n (tot + ?sz) ?L)" by (rule Suc.IH) (use sum in simp)
  ultimately show ?case by (simp add: Let_def)
qed simp

definition back_size :: "u32 \<Rightarrow> mtd_partition list \<Rightarrow> nat" where
  "back_size bs ps = sum_list (map (\<lambda>p. unat (ALIGN (psize p) bs)) ps)"

lemma back_size_drop: "i < length ps \<Longrightarrow> back_size bs (drop i ps) = unat (ALIGN (psize (ps ! i)) bs) + back_size bs (drop (Suc i) ps)"
  unfolding back_size_def by (subst Cons_nth_drop_Suc[symmetric]) simp_all

lemma need_le_space: "p \<in> set ps \<Longrightarrow> need K B p \<le> space K B ps"
  unfolding space_def by (rule member_le_sum_list) simp_all

lemma align_need:
  assumes "table_fits K bs F ps" "p \<in> set ps"
  shows "unat (ALIGN (psize p) bs) \<le> need K (unat bs) p"
    and "psize p \<noteq> SIZE_TO_GET \<Longrightarrow> psize p \<noteq> SIZE_REMAINING \<Longrightarrow> unat (psize p) \<le> unat (ALIGN (psize p) bs)"
proof -
  obtain k where b: "block_bits bs k" using assms(1) by (auto simp: table_fits_def)
  have F: "need K (unat bs) p < 2 ^ 32" using need_le_space[OF assms(2), of K "unat bs"] assms(1) by (simp add: table_fits_def)
  have "unat (ALIGN (psize p) bs) = (if psize p = SIZE_TO_GET \<or> psize p = SIZE_REMAINING then 0 else round_up (unat bs) (unat (psize p)))
      \<and> (psize p \<noteq> SIZE_TO_GET \<and> psize p \<noteq> SIZE_REMAINING \<longrightarrow> need K (unat bs) p = round_up (unat bs) (unat (psize p)))"
    using ALIGN_markers[OF b] ALIGN_round_up[OF b, of "psize p"] F block_bits_unat[OF b]
    by (auto simp: need_def real_part_def wanted_size_def)
  then show "unat (ALIGN (psize p) bs) \<le> need K (unat bs) p"
    "psize p \<noteq> SIZE_TO_GET \<Longrightarrow> psize p \<noteq> SIZE_REMAINING \<Longrightarrow> unat (psize p) \<le> unat (ALIGN (psize p) bs)"
    using round_up_ge[of "unat bs" "unat (psize p)"] block_bits_unat[OF b] by (auto split: if_splits)
qed

lemma back_size_le: "table_fits K bs F ps \<Longrightarrow> back_size bs (drop i ps) \<le> space K (unat bs) (drop i ps)"
  unfolding back_size_def space_def by (rule sum_list_mono) (auto intro: align_need(1) dest: in_set_dropD)

lemma back_loop_parts:
  assumes "unat fsize < 2 ^ 32" "back_size bs (drop fb ps) \<le> unat fsize"
    and "fb + n \<le> length ps" "length (ecnt_parts (lay_g L)) = length ps" "\<And>j. fb \<le> j \<Longrightarrow> j < fb + n \<Longrightarrow> ecnt_parts (lay_g L) ! j = ps ! j"
    and "unat (lay_off L) = unat fsize - back_size bs (drop (fb + n) ps)" "lay_off L + tot = ucast fsize"
  shows "\<exists>L'. back_loop bs fsize fb n tot L = (True, L') \<and> length (ecnt_parts (lay_g L')) = length ps
     \<and> unat (lay_off L') = unat fsize - back_size bs (drop fb ps)
     \<and> size_remaining_index L' = size_remaining_index L \<and> size_remaining_offset_start L' = size_remaining_offset_start L
     \<and> (\<forall>j. fb \<le> j \<and> j < fb + n \<longrightarrow> pname (ecnt_parts (lay_g L') ! j) = pname (ps ! j)
          \<and> psize (ecnt_parts (lay_g L') ! j) = ALIGN (psize (ps ! j)) bs
          \<and> unat (poffset (ecnt_parts (lay_g L') ! j)) = unat fsize - back_size bs (drop j ps))
     \<and> (\<forall>j. j < fb \<or> fb + n \<le> j \<longrightarrow> ecnt_parts (lay_g L') ! j = ecnt_parts (lay_g L) ! j)"
  using assms(3-)
proof (induction n arbitrary: tot L)
  case 0
  then show ?case by auto
next
  case (Suc n)
  let ?i = "fb + n"
  have i: "?i < length ps" "lay_part L ?i = ps ! ?i" using Suc.prems(1,3) by (auto simp: lay_part_def)
  define sz where "sz = ALIGN (psize (ps ! ?i)) bs"
  define L1 where "L1 = (upd_part ?i (\<lambda>p. p\<lparr>psize := sz, poffset := lay_off L - sz\<rparr>) L)\<lparr>lay_off := lay_off L - sz\<rparr>"
  have bs: "back_size bs (drop ?i ps) = unat sz + back_size bs (drop (Suc ?i) ps)"
    using back_size_drop[OF i(1)] by (simp add: sz_def)
  have "back_size bs (drop ?i ps) \<le> back_size bs (drop fb ps)"
    using sum_list_append[of "map (\<lambda>p. unat (ALIGN (psize p) bs)) (take n (drop fb ps))" "map (\<lambda>p. unat (ALIGN (psize p) bs)) (drop n (drop fb ps))"]
    unfolding back_size_def map_append[symmetric] append_take_drop_id by (simp add: add.commute)
  then have le: "back_size bs (drop ?i ps) \<le> unat fsize" using assms(2) by simp
  have off: "unat (lay_off L - sz) = unat fsize - back_size bs (drop ?i ps)"
  proof -
    have u: "unat (lay_off L) = unat fsize - back_size bs (drop (Suc ?i) ps)" using Suc.prems(4) by simp
    then have "sz \<le> lay_off L" using bs le by (simp add: word_le_nat_alt)
    then have "unat (lay_off L - sz) = unat (lay_off L) - unat sz" by (rule unat_sub)
    then show ?thesis unfolding u bs by simp
  qed
  have sum: "(lay_off L - sz) + (tot + sz) = ucast fsize" using Suc.prems(5) by simp
  have "\<not> fsize < ucast ((lay_off L - sz) + (tot + sz))"
    unfolding sum using ucast_ucast_size[OF assms(1)] by (simp add: word_less_nat_alt)
  then have step: "back_loop bs fsize fb (Suc n) tot L = back_loop bs fsize fb n (tot + sz) L1"
    using i(2) by (simp add: Let_def L1_def sz_def)
  obtain L' where L': "back_loop bs fsize fb n (tot + sz) L1 = (True, L')" "length (ecnt_parts (lay_g L')) = length ps"
     "unat (lay_off L') = unat fsize - back_size bs (drop fb ps)"
     "size_remaining_index L' = size_remaining_index L1" "size_remaining_offset_start L' = size_remaining_offset_start L1"
     "\<And>j. fb \<le> j \<and> j < fb + n \<Longrightarrow> pname (ecnt_parts (lay_g L') ! j) = pname (ps ! j)
          \<and> psize (ecnt_parts (lay_g L') ! j) = ALIGN (psize (ps ! j)) bs
          \<and> unat (poffset (ecnt_parts (lay_g L') ! j)) = unat fsize - back_size bs (drop j ps)"
     "\<And>j. j < fb \<or> fb + n \<le> j \<Longrightarrow> ecnt_parts (lay_g L') ! j = ecnt_parts (lay_g L1) ! j"
    using Suc.IH[of L1 "tot + sz"] Suc.prems(1-3) sum off by (force simp: L1_def)
  have "ecnt_parts (lay_g L') ! ?i = (ps ! ?i)\<lparr>psize := sz, poffset := lay_off L - sz\<rparr>"
    using L'(7)[of ?i] i Suc.prems(2) by (simp add: L1_def lay_part_def)
  then have at: "pname (ecnt_parts (lay_g L') ! ?i) = pname (ps ! ?i)" "psize (ecnt_parts (lay_g L') ! ?i) = ALIGN (psize (ps ! ?i)) bs"
    "unat (poffset (ecnt_parts (lay_g L') ! ?i)) = unat fsize - back_size bs (drop ?i ps)" using off by (simp_all add: sz_def)
  show ?case unfolding step
  proof (intro exI[of _ L'] conjI allI impI)
    show "size_remaining_index L' = size_remaining_index L" "size_remaining_offset_start L' = size_remaining_offset_start L"
      using L'(4,5) by (simp_all add: L1_def upd_part_def)
    fix j
    show "pname (ecnt_parts (lay_g L') ! j) = pname (ps ! j)" if "fb \<le> j \<and> j < fb + Suc n" using L'(6)[of j] at that by (cases "j = ?i") auto
    show "psize (ecnt_parts (lay_g L') ! j) = ALIGN (psize (ps ! j)) bs" if "fb \<le> j \<and> j < fb + Suc n" using L'(6)[of j] at that by (cases "j = ?i") auto
    show "unat (poffset (ecnt_parts (lay_g L') ! j)) = unat fsize - back_size bs (drop j ps)" if "fb \<le> j \<and> j < fb + Suc n"
      using L'(6)[of j] at that by (cases "j = ?i") auto
    show "ecnt_parts (lay_g L') ! j = ecnt_parts (lay_g L) ! j" if "j < fb \<or> fb + Suc n \<le> j" using L'(7)[of j] that by (auto simp: L1_def)
  qed (use L' in auto)
qed

section \<open>The finished table\<close>

text \<open>
  The pieces follow one another: there are cut points such that the i-th partition lies
  between the i-th and the next one.
\<close>

definition cuts :: "mtd_conf \<Rightarrow> u32 \<Rightarrow> nat \<Rightarrow> mtd_partition list \<Rightarrow> nat \<Rightarrow> nat \<Rightarrow> nat" where
  "cuts K bs F ps fb i = (if i < fb then front K bs ps i else F - back_size bs (drop i ps))"

lemma front_mono: "i \<le> j \<Longrightarrow> front K bs ps i \<le> front K bs ps j"
  by (auto simp: le_iff_add take_add)

lemma back_size_mono: "i \<le> j \<Longrightarrow> back_size bs (drop j ps) \<le> back_size bs (drop i ps)"
proof -
  assume "i \<le> j"
  then have d: "drop j ps = drop (j - i) (drop i ps)" by simp
  have "back_size bs (take n xs @ drop n xs) = back_size bs (take n xs) + back_size bs (drop n xs)" for n xs
    by (simp add: back_size_def del: append_take_drop_id)
  then have "back_size bs xs = back_size bs (take n xs) + back_size bs (drop n xs)" for n xs by simp
  from this[of "drop i ps" "j - i"] show ?thesis unfolding d by linarith
qed

lemma front_back_fit:
  assumes "table_fits K bs F ps" "i \<le> j" shows "front K bs ps i + back_size bs (drop j ps) \<le> F"
proof -
  have "front K bs ps j + space K (unat bs) (drop j ps) = space K (unat bs) ps"
    using space_append[of K "unat bs" "take j ps" "drop j ps"] by simp
  then show ?thesis using assms front_mono[OF assms(2), of K bs ps] back_size_le[OF assms(1), of j] by (simp add: table_fits_def)
qed

lemma cuts_mono:
  assumes "table_fits K bs F ps" "i \<le> j" shows "cuts K bs F ps fb i \<le> cuts K bs F ps fb j"
  using front_mono[OF assms(2), of K bs ps] back_size_mono[OF assms(2), of bs ps] front_back_fit[OF assms] assms(2)
  unfolding cuts_def by auto

lemma front_cut: "table_fits K bs F ps \<Longrightarrow> j \<le> fb \<Longrightarrow> front K bs ps j \<le> cuts K bs F ps fb j"
  using front_back_fit[of K bs F ps j j] by (auto simp: cuts_def)

text \<open>What the finished table says about the partition at index j.\<close>

definition settled :: "mtd_conf \<Rightarrow> u32 \<Rightarrow> nat \<Rightarrow> mtd_partition list \<Rightarrow> nat \<Rightarrow> nat \<Rightarrow> mtd_partition \<Rightarrow> bool" where
  "settled K bs F ps fb j q \<longleftrightarrow> pname q = pname (ps ! j) \<and> (real_part (ps ! j) \<longrightarrow>
     unat (poffset q) = cuts K bs F ps fb j \<and> unat (poffset q) + unat (psize q) \<le> cuts K bs F ps fb (Suc j)
     \<and> (psize (ps ! j) \<noteq> SIZE_TO_GET \<and> psize (ps ! j) \<noteq> SIZE_REMAINING \<longrightarrow> unat (psize (ps ! j)) \<le> unat (psize q)))"

lemma layout_parts_settles:
  assumes fits: "table_fits K bs (unat fsize) (ecnt_parts g)"
  shows "\<exists>L fb. layout_parts K bs fsize g = Inr (True, L) \<and> length (ecnt_parts (lay_g L)) = length (ecnt_parts g)
     \<and> (\<forall>j < length (ecnt_parts g). settled K bs (unat fsize) (ecnt_parts g) fb j (ecnt_parts (lay_g L) ! j))"
proof -
  let ?ps = "ecnt_parts g" and ?F = "unat fsize"
  have F: "?F < 2 ^ 32" and ne: "0 < length ?ps" using fits by (auto simp: table_fits_def)
  have "fwd_inv K bs ?ps 0 (layout_start g)" by (simp add: fwd_inv_def layout_start_def space_def)
  then obtain L1 fb where 1: "fwd_loop K bs fsize (length ?ps) 0 (layout_start g) = Inr (True, L1)" and e: "fwd_end K bs ?ps fb L1"
    using fwd_loop_ok[OF fits, of 0 "layout_start g" "length ?ps"] ne by auto
  let ?L = "L1\<lparr>lay_off := ucast fsize\<rparr>"
  have fb: "fb < length ?ps" "fb + (length ?ps - fb) = length ?ps" using e by (auto simp: fwd_end_def)
  obtain L2 where 2: "back_loop bs fsize fb (length ?ps - fb) 0 ?L = (True, L2)" "length (ecnt_parts (lay_g L2)) = length ?ps"
     "unat (lay_off L2) = ?F - back_size bs (drop fb ?ps)"
     "size_remaining_index L2 = size_remaining_index L1" "size_remaining_offset_start L2 = size_remaining_offset_start L1"
     "\<And>j. fb \<le> j \<Longrightarrow> j < length ?ps \<Longrightarrow> pname (ecnt_parts (lay_g L2) ! j) = pname (?ps ! j)
          \<and> psize (ecnt_parts (lay_g L2) ! j) = ALIGN (psize (?ps ! j)) bs
          \<and> unat (poffset (ecnt_parts (lay_g L2) ! j)) = ?F - back_size bs (drop j ?ps)"
     "\<And>j. j < fb \<Longrightarrow> ecnt_parts (lay_g L2) ! j = ecnt_parts (lay_g L1) ! j"
    using back_loop_parts[of fsize bs fb ?ps "length ?ps - fb" ?L 0] F fb e front_back_fit[OF fits, of 0 fb] ucast_ucast_size[OF F]
    by (auto simp: fwd_end_def space_def back_size_def)
  have lay: "layout_parts K bs fsize g = Inr (True, set_remaining L2)"
    using 1 2(1) e by (simp add: layout_parts_def back_pass_def fwd_end_def Let_def)
  have bk: "settled K bs ?F ?ps fb j (ecnt_parts (lay_g L2) ! j)" if "fb \<le> j" "j < length ?ps" for j
    using 2(6)[OF that] back_size_drop[OF that(2), of bs] that align_need(2)[OF fits, of "?ps ! j"] front_back_fit[OF fits, of 0 j]
    by (auto simp: settled_def cuts_def space_def)
  have fr: "settled K bs ?F ?ps fb j q" if "placed K bs ?ps j q" "j < fb" for j q
    using that front_cut[OF fits, of "Suc j" fb] by (auto simp: settled_def placed_def cuts_def wanted_size_def)
  show ?thesis
  proof (cases "size_remaining_index L1")
    case None
    then have "settled K bs ?F ?ps fb j (ecnt_parts (lay_g L2) ! j)" if "j < length ?ps" for j
      using e 2(7)[of j] fr[of j] bk[of j] that by (cases "j < fb") (auto simp: fwd_end_def)
    moreover have "set_remaining L2 = L2" using None 2(4) by (simp add: set_remaining_def)
    ultimately show ?thesis using lay 2(2) by auto
  next
    case (Some r)
    then have r: "fb = Suc r" "psize (?ps ! r) = SIZE_REMAINING" "unat (size_remaining_offset_start L1) = front K bs ?ps r"
        "pname (ecnt_parts (lay_g L1) ! r) = pname (?ps ! r)" "unat (poffset (ecnt_parts (lay_g L1) ! r)) = front K bs ?ps r"
        "\<And>j. j < r \<Longrightarrow> placed K bs ?ps j (ecnt_parts (lay_g L1) ! j)"
      using e by (auto simp: fwd_end_def)
    define sz where "sz = lay_off L2 - size_remaining_offset_start L2"
    have parts: "ecnt_parts (lay_g (set_remaining L2)) = (ecnt_parts (lay_g L2))[r := (ecnt_parts (lay_g L2) ! r)\<lparr>psize := sz\<rparr>]"
      using Some 2(4) by (simp add: set_remaining_def Let_def sz_def)
    have fit: "front K bs ?ps r + back_size bs (drop fb ?ps) \<le> ?F" using front_back_fit[OF fits, of r fb] r(1) by simp
    have "unat sz = ?F - back_size bs (drop fb ?ps) - front K bs ?ps r"
      using 2(3,5) r(3) fit by (simp add: sz_def unat_sub_if')
    then have "settled K bs ?F ?ps fb r ((ecnt_parts (lay_g L2) ! r)\<lparr>psize := sz\<rparr>)"
      using r 2(7)[of r] fit by (simp add: settled_def cuts_def)
    then have "settled K bs ?F ?ps fb j (ecnt_parts (lay_g (set_remaining L2)) ! j)" if "j < length ?ps" for j
      using r(1) r(6)[of j] 2(2) 2(7)[of j] fr[of j] bk[of j] that unfolding parts by (cases j r rule: linorder_cases) auto
    then show ?thesis using lay 2(2) parts by auto
  qed
qed

lemma back_size_dvd: "block_bits bs k \<Longrightarrow> unat bs dvd back_size bs ps"
  by (induction ps) (auto simp: back_size_def ALIGN_unat block_bits_unat)

lemma cuts_dvd: "table_fits K bs F ps \<Longrightarrow> unat bs dvd cuts K bs F ps fb i"
  using back_size_dvd[of bs _ "drop i ps"] by (auto simp: cuts_def table_fits_def space_dvd dvd_diff_nat)

text \<open>
  C17 The layout gives every partition a piece of its own. For a table that ends with a partition
  counting from the end of the flash and whose partitions, rounded up to blocks, fit
  into the flash, the layout succeeds, keeps the names and their order, and every partition
  apart from the kernel and root file system entries starts at a block boundary behind the
  end of all earlier ones, ends inside the flash and has at least the size that was asked for.
\<close>

theorem layout_parts_disjoint:
  assumes "table_fits K bs (unat fsize) (ecnt_parts g)"
  shows "\<exists>L. layout_parts K bs fsize g = Inr (True, L) \<and> map pname (ecnt_parts (lay_g L)) = map pname (ecnt_parts g)
     \<and> (\<forall>i < length (ecnt_parts g). real_part (ecnt_parts g ! i) \<longrightarrow>
          unat bs dvd unat (poffset (ecnt_parts (lay_g L) ! i))
          \<and> unat (poffset (ecnt_parts (lay_g L) ! i)) + unat (psize (ecnt_parts (lay_g L) ! i)) \<le> unat fsize
          \<and> (psize (ecnt_parts g ! i) \<notin> {SIZE_TO_GET, SIZE_REMAINING} \<longrightarrow> unat (psize (ecnt_parts g ! i)) \<le> unat (psize (ecnt_parts (lay_g L) ! i)))
          \<and> (\<forall>j < length (ecnt_parts g). i < j \<and> real_part (ecnt_parts g ! j) \<longrightarrow>
               unat (poffset (ecnt_parts (lay_g L) ! i)) + unat (psize (ecnt_parts (lay_g L) ! i)) \<le> unat (poffset (ecnt_parts (lay_g L) ! j))))"
proof -
  let ?ps = "ecnt_parts g" and ?F = "unat fsize"
  obtain L fb where L: "layout_parts K bs fsize g = Inr (True, L)" "length (ecnt_parts (lay_g L)) = length ?ps"
    "\<And>j. j < length ?ps \<Longrightarrow> settled K bs ?F ?ps fb j (ecnt_parts (lay_g L) ! j)" using layout_parts_settles[OF assms] by blast
  have names: "map pname (ecnt_parts (lay_g L)) = map pname ?ps"
    using L(2,3) by (intro nth_equalityI) (auto simp: settled_def)
  have top: "cuts K bs ?F ?ps fb i \<le> ?F" if "i \<le> length ?ps" for i
    using cuts_mono[OF assms that, of fb] front_le[of K bs "length ?ps" ?ps] assms by (auto simp: cuts_def table_fits_def split: if_splits)
  show ?thesis
  proof (intro exI[of _ L] conjI L(1) names allI impI)
    fix i assume i: "i < length ?ps" and real: "real_part (?ps ! i)"
    note s = L(3)[OF i, unfolded settled_def, THEN conjunct2, rule_format, OF real]
    show "unat bs dvd unat (poffset (ecnt_parts (lay_g L) ! i))" using s cuts_dvd[OF assms] by simp
    show "unat (poffset (ecnt_parts (lay_g L) ! i)) + unat (psize (ecnt_parts (lay_g L) ! i)) \<le> ?F"
      using s top[of "Suc i"] i by (meson Suc_leI order_trans)
    show "unat (psize (?ps ! i)) \<le> unat (psize (ecnt_parts (lay_g L) ! i))" if "psize (?ps ! i) \<notin> {SIZE_TO_GET, SIZE_REMAINING}"
      using s that by simp
    fix j assume j: "j < length ?ps" and ij: "i < j \<and> real_part (?ps ! j)"
    then have "unat (poffset (ecnt_parts (lay_g L) ! j)) = cuts K bs ?F ?ps fb j" using L(3)[OF j] by (simp add: settled_def)
    moreover have "cuts K bs ?F ?ps fb (Suc i) \<le> cuts K bs ?F ?ps fb j" using ij by (intro cuts_mono[OF assms]) simp
    ultimately show "unat (poffset (ecnt_parts (lay_g L) ! i)) + unat (psize (ecnt_parts (lay_g L) ! i)) \<le> unat (poffset (ecnt_parts (lay_g L) ! j))"
      using s by simp
  qed
qed

text \<open>The table of the demonstration boards on a chip of 128 MiB with blocks of 128 KiB.\<close>

definition demo_table :: mtd_state where
  "demo_table = demo_mtd\<lparr>ecnt_parts := entry_of BOOTLOADER_PART SIZE_TO_GET OFFSET_CONTINUOUS
     # entry_of ROMFILE_PART SIZE_TO_GET OFFSET_CONTINUOUS # table_of demo_mtd_conf demo_specs\<rparr>"

lemma demo_table_parts: "ecnt_parts demo_table = [entry_of BOOTLOADER_PART SIZE_TO_GET OFFSET_CONTINUOUS, entry_of ROMFILE_PART SIZE_TO_GET OFFSET_CONTINUOUS,
   entry_of KERNEL_PART SIZE_TO_GET OFFSET_CONTINUOUS, entry_of ROOTFS_PART SIZE_TO_GET OFFSET_CONTINUOUS, entry_of TCLINUX 0x1900000 OFFSET_CONTINUOUS,
   entry_of KERNEL_SLAVE_PART SIZE_TO_GET OFFSET_CONTINUOUS, entry_of ROOTFS_SLAVE_PART SIZE_TO_GET OFFSET_CONTINUOUS, entry_of TCLINUX_SLAVE 0x1900000 OFFSET_CONTINUOUS,
   entry_of ''config'' 0x100000 OFFSET_CONTINUOUS, entry_of ''reservearea'' 0x240000 OFFSET_BACK_FORWARD]"
  by (simp add: demo_table_def demo_table_defs)

lemma demo_table_fits: "table_fits demo_mtd_conf 0x20000 (unat (0x8000000 :: u64)) (ecnt_parts demo_table)"
proof -
  have "block_bits 0x20000 17" by (simp add: block_bits_def)
  moreover have "space demo_mtd_conf (unat (0x20000 :: u32)) (ecnt_parts demo_table) \<le> unat (0x8000000 :: u64)"
    unfolding demo_table_parts by (simp add: space_def need_def real_part_def boot_part_def wanted_size_def entry_of_def SIZE_TO_GET_def
      SIZE_REMAINING_def ecnt_get_bootloader_romfile_size_def demo_mtd_conf_def round_up_def)
  moreover have "\<forall>p\<in>set (ecnt_parts demo_table). pname p \<noteq> None" "ecnt_parts demo_table \<noteq> []"
      "poffset (last (ecnt_parts demo_table)) = OFFSET_BACK_FORWARD"
    unfolding demo_table_parts by (simp_all add: entry_of_def)
  ultimately show ?thesis unfolding table_fits_def by auto
qed

theorem layout_parts_disjoint_witness:
  "\<exists>L. layout_parts demo_mtd_conf 0x20000 0x8000000 demo_table = Inr (True, L)
     \<and> unat (poffset (ecnt_parts (lay_g L) ! 4)) + 25 * 1024 * 1024 \<le> unat (poffset (ecnt_parts (lay_g L) ! 7))"
proof -
  have t: "length (ecnt_parts demo_table) = 10" "psize (ecnt_parts demo_table ! 4) = 0x1900000" "psize (ecnt_parts demo_table ! 7) = 0x1900000"
    unfolding demo_table_parts by (simp_all add: entry_of_def)
  have r: "real_part (ecnt_parts demo_table ! 4)" "real_part (ecnt_parts demo_table ! 7)"
    by (simp_all add: real_part_def t SIZE_TO_GET_def)
  obtain L where L: "layout_parts demo_mtd_conf 0x20000 0x8000000 demo_table = Inr (True, L)"
    "\<forall>i < 10. real_part (ecnt_parts demo_table ! i) \<longrightarrow>
          (psize (ecnt_parts demo_table ! i) \<notin> {SIZE_TO_GET, SIZE_REMAINING} \<longrightarrow> unat (psize (ecnt_parts demo_table ! i)) \<le> unat (psize (ecnt_parts (lay_g L) ! i)))
          \<and> (\<forall>j < 10. i < j \<and> real_part (ecnt_parts demo_table ! j) \<longrightarrow>
               unat (poffset (ecnt_parts (lay_g L) ! i)) + unat (psize (ecnt_parts (lay_g L) ! i)) \<le> unat (poffset (ecnt_parts (lay_g L) ! j)))"
    using layout_parts_disjoint[OF demo_table_fits] unfolding t(1) by blast
  have "0x1900000 \<le> unat (psize (ecnt_parts (lay_g L) ! 4))"
    using L(2)[rule_format, of 4] r(1) t(2) by (simp add: SIZE_TO_GET_def SIZE_REMAINING_def)
  moreover have "unat (poffset (ecnt_parts (lay_g L) ! 4)) + unat (psize (ecnt_parts (lay_g L) ! 4)) \<le> unat (poffset (ecnt_parts (lay_g L) ! 7))"
    using L(2)[rule_format, of 4, THEN conjunct2, rule_format, of 7] r by simp
  ultimately show ?thesis using L(1) by (intro exI[of _ L]) simp
qed

text \<open>
  The check of the second pass against the size of the flash cannot fail on a flash of less than
  4 GiB, whatever the table holds: a table whose partitions do not fit is accepted and its
  partitions overlap.
\<close>

lemma back_pass_never_fails:
  assumes "unat fsize < 2 ^ 32" shows "fst (back_pass bs fsize L)"
  using back_loop_succeeds[OF assms, of "L\<lparr>lay_off := ucast fsize\<rparr>" 0 bs]
  by (auto simp: back_pass_def Let_def split: option.splits)

definition overlap_table :: mtd_state where
  "overlap_table = demo_mtd\<lparr>ecnt_parts := [entry_of ''a'' 0xC00000 OFFSET_CONTINUOUS, entry_of ''b'' 0x800000 OFFSET_BACK_FORWARD]\<rparr>"

definition lay_demo :: "mtd_partition list \<Rightarrow> u32 \<Rightarrow> nat option \<Rightarrow> layout" where
  "lay_demo ps offs fb = \<lparr>lay_g = demo_mtd\<lparr>ecnt_parts := ps\<rparr>, lay_off = offs, size_remaining_index = None, size_remaining_offset_start = 0,
     first_back_forward_index = fb, is_tclinux_remaining_flag = False\<rparr>"

lemma lay_demo_simps:
  "lay_part (lay_demo ps x fb) i = ps ! i" "upd_part i f (lay_demo ps x fb) = lay_demo (ps[i := f (ps ! i)]) x fb"
  "lay_off (lay_demo ps x fb) = x" "(lay_demo ps x fb)\<lparr>lay_off := y\<rparr> = lay_demo ps y fb"
  "(lay_demo ps x fb)\<lparr>first_back_forward_index := z\<rparr> = lay_demo ps x z" "ecnt_parts (lay_g (lay_demo ps x fb)) = ps"
  "first_back_forward_index (lay_demo ps x fb) = fb" "set_remaining (lay_demo ps x fb) = lay_demo ps x fb"
  by (simp_all add: lay_demo_def lay_part_def upd_part_def set_remaining_def)

lemma overlap_layout:
  "layout_parts demo_mtd_conf 0x20000 0x1000000 overlap_table
   = Inr (True, lay_demo [entry_of ''a'' 0xC00000 0, entry_of ''b'' 0x800000 0x800000] 0x800000 (Some 1))"
proof -
  let ?b = "entry_of ''b'' 0x800000 OFFSET_BACK_FORWARD"
  have al: "ALIGN 0xC00000 0x20000 = 0xC00000" "ALIGN 0x800000 0x20000 = 0x800000" by (simp_all add: ALIGN_def)
  have st: "layout_start overlap_table = lay_demo [entry_of ''a'' 0xC00000 OFFSET_CONTINUOUS, ?b] 0 None" "length (ecnt_parts overlap_table) = Suc (Suc 0)"
    by (simp_all add: layout_start_def lay_demo_def overlap_table_def)
  have "fwd_step demo_mtd_conf 0x20000 0x1000000 0 (lay_demo [entry_of ''a'' 0xC00000 OFFSET_CONTINUOUS, ?b] 0 None)
      = Inr (Continue (lay_demo [entry_of ''a'' 0xC00000 0, ?b] 0xC00000 None))"
    by (simp add: fwd_step_def fwd_place_def fwd_advance_def lay_demo_simps al part_is_def entry_of_def
        SIZE_TO_GET_def SIZE_REMAINING_def OFFSET_BACK_FORWARD_def OFFSET_CONTINUOUS_def)
  moreover have "fwd_step demo_mtd_conf 0x20000 0x1000000 (Suc 0) (lay_demo [entry_of ''a'' 0xC00000 0, ?b] 0xC00000 None)
      = Inr (Break (lay_demo [entry_of ''a'' 0xC00000 0, ?b] 0xC00000 (Some 1)))"
    by (simp add: fwd_step_def lay_demo_simps entry_of_def)
  moreover have "back_pass 0x20000 0x1000000 (lay_demo [entry_of ''a'' 0xC00000 0, ?b] 0xC00000 (Some 1))
      = (True, lay_demo [entry_of ''a'' 0xC00000 0, entry_of ''b'' 0x800000 0x800000] 0x800000 (Some 1))"
    by (simp add: back_pass_def lay_demo_simps entry_of_def al Let_def)
  ultimately show ?thesis unfolding layout_parts_def st by (simp add: lay_demo_simps)
qed

lemma back_pass_never_fails_witness:
  "fst (back_pass 0x20000 0x1000000 ((layout_start overlap_table)\<lparr>first_back_forward_index := Some 1\<rparr>))
   \<and> (\<exists>L. layout_parts demo_mtd_conf 0x20000 0x1000000 overlap_table = Inr (True, L)
        \<and> poffset (ecnt_parts (lay_g L) ! 1) < poffset (ecnt_parts (lay_g L) ! 0) + psize (ecnt_parts (lay_g L) ! 0))"
  using back_pass_never_fails[of "0x1000000" "0x20000" "(layout_start overlap_table)\<lparr>first_back_forward_index := Some 1\<rparr>"] overlap_layout
  by (simp add: lay_demo_simps entry_of_def)

end
