(* ===== verification/Bootflag.thy ===== *)
theory Bootflag
  imports Mtd_Theorems Flashhal_Theorems
begin

text \<open>
  The boot flag (drivers/misc/ecnt/bootargs/ecnt\_bootargs.c): one byte in the reserve area,
  the character 0 or 1, says whether the main or the slave image is started.

  A char is an 8-bit word that wraps around. IMG\_BOOT\_FLAG\_OFFSET and the sizes come from
  headers outside the sources and are parameters; mem is the memory through which
  a SPI NOR flash is read.
\<close>

record boot_conf =
  IMG_BOOT_FLAG_OFFSET :: u32
  reservearea_size :: u32
  mtd_dev_size :: u32
  mtd_dev_erasesize :: u32
  mem :: "u32 \<Rightarrow> u8"

definition get_boot_flag_addr :: "mtd_conf \<Rightarrow> boot_conf \<Rightarrow> 'm hal_env \<Rightarrow> mtd_state \<Rightarrow> fault + u32" where
  "get_boot_flag_addr K B E g =
    (if IS_NANDFLASH E \<or> isEMMC E then
       res_bind (ecnt_get_reservearea_flash_offset K g) (\<lambda>offs.
         Inr (if TCSUPPORT_OPENWRT K then flash_base K + offs + reservearea_size B * (TCSUPPORT_RESERVEAREA_BLOCK K - 1)
              else flash_base K + offs + IMG_BOOT_FLAG_OFFSET B))
     else Inr (flash_base K + mtd_dev_size B - mtd_dev_erasesize B * TCSUPPORT_RESERVEAREA_BLOCK K + IMG_BOOT_FLAG_OFFSET B))"

definition CHAR_0 :: u8 where "CHAR_0 = 0x30"

text \<open>The interpretation of the byte: anything but 0 and 1 means the main image.\<close>

definition boot_flag_of :: "u8 \<Rightarrow> u8" where
  "boot_flag_of c = (let flag = c - CHAR_0 in if flag \<noteq> 0 \<and> flag \<noteq> 1 then 0 else flag)"

definition readBootFlagFromFlash :: "mtd_conf \<Rightarrow> boot_conf \<Rightarrow> 'm hal_env \<Rightarrow> mtd_state \<Rightarrow> 'm hal_state \<Rightarrow> fault + u8 \<times> 'm hal_state" where
  "readBootFlagFromFlash K B E g h =
    res_bind (get_boot_flag_addr K B E g) (\<lambda>addr.
      if IS_NANDFLASH E \<or> isEMMC E
      then let (r, buf, h1) = flash_read E addr 1 [0] h in Inr (boot_flag_of (buf ! 0), h1)
      else Inr (boot_flag_of (mem B addr), h))"

definition writeBootFlagtoFlash :: "mtd_conf \<Rightarrow> boot_conf \<Rightarrow> 'm hal_env \<Rightarrow> mtd_state \<Rightarrow> u8 \<Rightarrow> 'm hal_state \<Rightarrow> fault + int \<times> 'm hal_state" where
  "writeBootFlagtoFlash K B E g flag h =
    (if flag \<noteq> 0 \<and> flag \<noteq> 1 then Inr (-1, h)
     else res_bind (readBootFlagFromFlash K B E g h) (\<lambda>(old_flag, h1).
       if old_flag = flag then Inr (-1, h1)
       else res_bind (get_boot_flag_addr K B E g) (\<lambda>addr.
            res_bind (flash_partial_write E addr 1 [flag + CHAR_0] h1) (\<lambda>(retVal, h2).
            res_bind (readBootFlagFromFlash K B E g h2) (\<lambda>(new_flag, h3). Inr (retVal, h3))))))"

definition swap_bootflag :: "mtd_conf \<Rightarrow> boot_conf \<Rightarrow> 'm hal_env \<Rightarrow> mtd_state \<Rightarrow> 'm hal_state \<Rightarrow> fault + int \<times> 'm hal_state" where
  "swap_bootflag K B E g h =
    res_bind (readBootFlagFromFlash K B E g h) (\<lambda>(bootflag, h1).
      writeBootFlagtoFlash K B E g (if bootflag = 0 then 1 else 0) h1)"

section \<open>Reading and writing on the NAND flash\<close>

lemma boot_flag_cases: "boot_flag_of c = 0 \<or> boot_flag_of c = 1"
  by (simp add: boot_flag_of_def Let_def)

lemma boot_flag_roundtrip: "f = 0 \<or> f = 1 \<Longrightarrow> boot_flag_of (f + CHAR_0) = f"
  by (auto simp: boot_flag_of_def Let_def)

lemma read_flag_nand:
  assumes "hal_ok E h" "get_boot_flag_addr K B E g = Inr a" "unat a < hal_cap E h"
  shows "\<exists>h'. readBootFlagFromFlash K B E g h = Inr (boot_flag_of (hal_byte E h (unat a)), h') \<and> hal_ok E h'
     \<and> hal_byte E h' = hal_byte E h \<and> hal_cap E h' = hal_cap E h \<and> hal_frame h' = hal_frame h"
proof -
  have n: "IS_NANDFLASH E" using assms(1) by (simp add: hal_ok_def nand_env_def)
  obtain h' where h': "flash_read E a 1 [0] h = (0, memcpy [0] 0 (map (hal_byte E h) [unat a..<unat a + unat (1 :: u32)]), h')"
      "hal_ok E h'" "hal_byte E h' = hal_byte E h" "hal_cap E h' = hal_cap E h" "hal_frame h' = hal_frame h"
    using hal.rd_ok[OF assms(1), of a 1 "[0]"] assms(3) by auto
  then show ?thesis using assms(2) n by (simp add: readBootFlagFromFlash_def memcpy_def)
qed

lemma write_flag_nand:
  assumes "hal_ok E h" "get_boot_flag_addr K B E g = Inr a" "unat a < hal_cap E h" "erase_size (nand_conf E) \<le> length (block_buf h)"
    and f: "f = 0 \<or> f = 1" "boot_flag_of (hal_byte E h (unat a)) \<noteq> f"
  shows "\<exists>h'. writeBootFlagtoFlash K B E g f h = Inr (0, h') \<and> hal_ok E h' \<and> hal_cap E h' = hal_cap E h
     \<and> (\<forall>x < hal_cap E h. hal_byte E h' x = (if x = unat a then f + CHAR_0 else hal_byte E h x))"
proof -
  obtain h1 where h1: "readBootFlagFromFlash K B E g h = Inr (boot_flag_of (hal_byte E h (unat a)), h1)" "hal_ok E h1"
      "hal_byte E h1 = hal_byte E h" "hal_cap E h1 = hal_cap E h" "hal_frame h1 = hal_frame h"
    using read_flag_nand[OF assms(1-3)] by blast
  have bb: "length (block_buf h1) = length (block_buf h)" using h1(5) by (simp add: hal_frame_def)
  have "unat a mod erase_size (nand_conf E) < erase_size (nand_conf E)" by simp
  then have "unat a mod erase_size (nand_conf E) + unat (1 :: u32) \<le> erase_size (nand_conf E)" by (simp add: Suc_le_eq)
  then obtain h2 where h2: "flash_partial_write E a 1 [f + CHAR_0] h1 = Inr (0, h2)" "hal_ok E h2" "hal_cap E h2 = hal_cap E h"
      "\<And>x. x < hal_cap E h \<Longrightarrow> hal_byte E h2 x = (if x = unat a then f + CHAR_0 else hal_byte E h x)"
    using flash_partial_write_nand[OF h1(2), of a 1 "[f + CHAR_0]"] h1 assms(3,4) bb by (auto simp: less_Suc_eq le_less)
  obtain h3 where h3: "\<exists>v. readBootFlagFromFlash K B E g h2 = Inr (v, h3)" "hal_ok E h3" "hal_byte E h3 = hal_byte E h2" "hal_cap E h3 = hal_cap E h2"
    using read_flag_nand[OF h2(2) assms(2)] assms(3) h2(3) by auto
  have "writeBootFlagtoFlash K B E g f h = Inr (0, h3)"
    using f h1(1) h2(1) h3(1) assms(2) by (auto simp: writeBootFlagtoFlash_def)
  then show ?thesis using h2 h3 by auto
qed

text \<open>
  C24 swap\_bootflag switches between the two images and touches nothing else: on the NAND flash it
  returns 0, afterwards the flag reads as the other image, and every byte of
  the flash except the flag byte is unchanged, although a whole block was erased and rewritten.
\<close>

theorem swap_bootflag_toggles:
  assumes "hal_ok E h" and "get_boot_flag_addr K B E g = Inr a" and "unat a < hal_cap E h"
    and "erase_size (nand_conf E) \<le> length (block_buf h)" and "readBootFlagFromFlash K B E g h = Inr (flag, h0)"
  shows "\<exists>h' h''. swap_bootflag K B E g h = Inr (0, h') \<and> readBootFlagFromFlash K B E g h' = Inr (1 - flag, h'')
     \<and> (\<forall>x < hal_cap E h. x \<noteq> unat a \<longrightarrow> hal_byte E h' x = hal_byte E h x)"
proof -
  obtain h1 where h1: "readBootFlagFromFlash K B E g h = Inr (boot_flag_of (hal_byte E h (unat a)), h1)" "hal_ok E h1"
      "hal_byte E h1 = hal_byte E h" "hal_cap E h1 = hal_cap E h" "hal_frame h1 = hal_frame h"
    using read_flag_nand[OF assms(1-3)] by blast
  then have fl: "flag = boot_flag_of (hal_byte E h (unat a))" using assms(5) by simp
  then have c: "flag = 0 \<or> flag = 1" using boot_flag_cases by simp
  then have n: "(if flag = 0 then 1 else 0) = 1 - flag" "1 - flag = 0 \<or> 1 - flag = 1" "flag \<noteq> 1 - flag" by auto
  have bb: "erase_size (nand_conf E) \<le> length (block_buf h1)" using h1(5) assms(4) by (simp add: hal_frame_def)
  obtain h2 where h2: "writeBootFlagtoFlash K B E g (1 - flag) h1 = Inr (0, h2)" "hal_ok E h2" "hal_cap E h2 = hal_cap E h"
      "\<And>x. x < hal_cap E h \<Longrightarrow> hal_byte E h2 x = (if x = unat a then (1 - flag) + CHAR_0 else hal_byte E h x)"
    using write_flag_nand[OF h1(2) assms(2) _ bb n(2)] h1(3,4) assms(3) n(3) fl by auto
  obtain h3 where "readBootFlagFromFlash K B E g h2 = Inr (boot_flag_of (hal_byte E h2 (unat a)), h3)"
    using read_flag_nand[OF h2(2) assms(2)] h2(3) assms(3) by auto
  moreover have "boot_flag_of (hal_byte E h2 (unat a)) = 1 - flag"
    using h2(4)[OF assms(3)] boot_flag_roundtrip[OF n(2)] by simp
  moreover have "swap_bootflag K B E g h = Inr (0, h2)" using h1(1) h2(1) fl n(1) by (simp add: swap_bootflag_def)
  ultimately show ?thesis using h2(4) by auto
qed

definition demo_reserve :: mtd_state where
  "demo_reserve = demo_mtd\<lparr>ecnt_parts := [entry_of ''reservearea'' 0x1000 0]\<rparr>"

definition demo_boot_conf :: boot_conf where
  "demo_boot_conf = \<lparr>IMG_BOOT_FLAG_OFFSET = 2100, reservearea_size = 0, mtd_dev_size = 0, mtd_dev_erasesize = 0, mem = (\<lambda>_. 0)\<rparr>"

theorem swap_bootflag_toggles_witness:
  "\<exists>h' h''. swap_bootflag demo_mtd_conf demo_boot_conf demo_env demo_reserve demo_hal = Inr (0, h')
     \<and> readBootFlagFromFlash demo_mtd_conf demo_boot_conf demo_env demo_reserve h' = Inr (1, h'')"
proof -
  have a: "get_boot_flag_addr demo_mtd_conf demo_boot_conf demo_env demo_reserve = Inr 2100"
    by (simp add: get_boot_flag_addr_def demo_env_def ecnt_get_reservearea_flash_offset_def mtd_offset_or_0_def ecnt_get_mtd_offset_def
        demo_reserve_def part_is_def entry_of_def demo_mtd_conf_def RESERVEAREA_def OFFSET_NOT_FOUND_def demo_boot_conf_def)
  have "hal_byte demo_env demo_hal 2100 = 0xFF"
    by (simp add: hal_byte_def flash_byte_def demo_env_def demo_hal_def demo_globals_def demo_dev_def)
  then obtain h0 where r: "readBootFlagFromFlash demo_mtd_conf demo_boot_conf demo_env demo_reserve demo_hal = Inr (0, h0)"
    using read_flag_nand[OF demo_hal_ok(1) a] by (auto simp: demo_hal_ok(2) boot_flag_of_def CHAR_0_def)
  show ?thesis using swap_bootflag_toggles[OF demo_hal_ok(1) a _ _ r] by (auto simp: demo_hal_ok)
qed

end
