(* ===== verification/Multiupgrade.thy ===== *)
theory Multiupgrade
  imports Bootflag "HOL-Library.Signed_Division"
begin

text \<open>
  Upgrade by multicast (drivers/misc/ecnt/net/multiupgrade.c): a sender repeats the packets of an
  image in a cycle; a board that starts listening anywhere in the cycle
  collects one round, checks the image and writes it to the flash.

  The memory behind MULTI\_BUF\_BASE is a byte list; accesses outside it are the fault OutOfBounds.
  The sequence counters are C ints. The device-tree verification and the checksum are
  functions of U-Boot and parameters here. Indicator lamps and the rate limit of the
  switch are not part of the state. The model follows the build without secure boot, in which
  the size of the image is compared with getimagelen.
\<close>

section \<open>Environment and state\<close>

record 'm mu_env =
  mu_hal_env :: "'m hal_env"
  mu_conf :: mtd_conf
  mu_mtd :: mtd_state
  fit_all_image_verify :: "bytes \<Rightarrow> nat \<Rightarrow> int"
  crc32_no_comp :: "u32 \<Rightarrow> bytes \<Rightarrow> u32"
  get_fip_offset :: u32
  TCSUPPORT_LITTLE_ENDIAN :: bool
  mu_mtd_size :: u32
  emmc_capacity :: u32
  nand_chip_shift :: nat
  nand_avalable_size :: u32
  RESERVEAREA_ERASE_SIZE :: u32
  BACKUPROMFILE_RA_OFFSET :: u32

record 'm mu_state =
  startMultiUpgrade :: bool
  finishMultiUpgrade :: bool
  receive_len :: u32
  oldSeq :: int
  startSeq :: int
  maxSeq :: int
  recvSeq :: int
  badimg :: bool
  blink_tag :: bool
  Jiffiestmp :: u32
  multi_buf :: bytes
  mu_hal :: "'m hal_state"

record sk_buff =
  skb_data :: bytes
  skb_len :: nat

datatype IMGTYPE = IMG_TCLINUX | IMG_TCLINUXALLINONE | IMG_TCBOOT

definition PART_FDT_MAGIC :: u32 where "PART_FDT_MAGIC = 0xD00DFEED"
definition IMG_LEN_OFFSET :: nat where "IMG_LEN_OFFSET = 20"
definition LT_OFFSET :: nat where "LT_OFFSET = 8"
definition MULTI_UPGRADE_PKT_HEADLEN :: nat where "MULTI_UPGRADE_PKT_HEADLEN = 32"
definition MULTI_UPGRADE_DATA_LEN :: nat where "MULTI_UPGRADE_DATA_LEN = 1024"
definition FLASH_ERASE_SIZE :: u32 where "FLASH_ERASE_SIZE = 0x10000"
definition TCBOOT_BASE :: u32 where "TCBOOT_BASE = 0"
definition ENV_OFFSET :: u32 where "ENV_OFFSET = 0x7C000"
definition ENV_SIZE :: u32 where "ENV_SIZE = 0x4000"
definition MULTIPKT_TAG_OFFSET :: nat where "MULTIPKT_TAG_OFFSET = 12"
definition MULTI_UPGRADE_PKT_TAG :: bytes where "MULTI_UPGRADE_PKT_TAG = [0x54, 0x43, 0x42, 0x75, 0x6C, 0x6B, 0x46, 0x57]"
definition DEFAULT_CRC :: u32 where "DEFAULT_CRC = 0xFFFFFFFF"

section \<open>Where things go\<close>

definition get_rf_offset :: "'m mu_env \<Rightarrow> fault + u32" where
  "get_rf_offset M = ecnt_get_romfile_mtd_offset (mu_mtd M)"

definition get_reservearea_offset :: "'m mu_env \<Rightarrow> u32" where
  "get_reservearea_offset M =
    (let area = TCSUPPORT_RESERVEAREA_BLOCK (mu_conf M) * RESERVEAREA_ERASE_SIZE M
     in if IS_SPIFLASH (mu_hal_env M) then mu_mtd_size M - area
        else if IS_NANDFLASH (mu_hal_env M) \<or> isEMMC (mu_hal_env M) then nand_avalable_size M - area
        else 0)"

definition get_backuprf_offset :: "'m mu_env \<Rightarrow> u32" where
  "get_backuprf_offset M = get_reservearea_offset M + BACKUPROMFILE_RA_OFFSET M"

definition getimagelen :: "'m mu_env \<Rightarrow> fault + u32" where
  "getimagelen M =
    res_bind (ecnt_get_boot_size (mu_mtd M)) (\<lambda>boot. res_bind (ecnt_get_romfile_size (mu_mtd M)) (\<lambda>rom.
      let used = boot + rom + FLASH_ERASE_SIZE * TCSUPPORT_RESERVEAREA_BLOCK (mu_conf M)
      in Inr (if IS_SPIFLASH (mu_hal_env M) then mu_mtd_size M - used
              else if isEMMC (mu_hal_env M) then emmc_capacity M - used
              else if IS_NANDFLASH (mu_hal_env M) then push_bit (nand_chip_shift M) 1 - used
              else 0)))"

section \<open>Writing the image\<close>

text \<open>The results of the flash functions are ignored, as in the code.\<close>

definition mu_erase :: "'m mu_env \<Rightarrow> u32 \<Rightarrow> u32 \<Rightarrow> 'm mu_state \<Rightarrow> fault + 'm mu_state" where
  "mu_erase M a n s = res_bind (flash_erase (mu_hal_env M) a n (mu_hal s)) (\<lambda>(r, h). Inr (s\<lparr>mu_hal := h\<rparr>))"

definition multiupgrade_update_image :: "'m mu_env \<Rightarrow> u32 \<Rightarrow> u32 \<Rightarrow> 'm mu_state \<Rightarrow> fault + 'm mu_state" where
  "multiupgrade_update_image M to datalen s =
    res_bind (mu_erase M to datalen s) (\<lambda>s1.
      if length (multi_buf s1) < unat datalen then Inl OutOfBounds
      else res_bind (flash_write (mu_hal_env M) to datalen (multi_buf s1) (mu_hal s1)) (\<lambda>(r, h). Inr (s1\<lparr>mu_hal := h\<rparr>)))"

definition multiupgrade_erase_romfile :: "'m mu_env \<Rightarrow> bool \<Rightarrow> 'm mu_state \<Rightarrow> fault + 'm mu_state" where
  "multiupgrade_erase_romfile M isEraseRomfile s =
    res_bind (get_rf_offset M) (\<lambda>romfile_offset. res_bind (ecnt_get_romfile_size (mu_mtd M)) (\<lambda>ROMFILE_SIZE.
      res_bind (if isEraseRomfile then mu_erase M romfile_offset ROMFILE_SIZE s else Inr s)
        (mu_erase M (get_backuprf_offset M) ROMFILE_SIZE)))"

text \<open>The romfile functions are compiled only without the OpenWrt and RDK-B builds.\<close>

definition with_romfile :: "'m mu_env \<Rightarrow> bool" where
  "with_romfile M \<longleftrightarrow> \<not> TCSUPPORT_OPENWRT (mu_conf M) \<and> \<not> RDKB_BUILD (mu_conf M)"

definition MultiWriteImage :: "'m mu_env \<Rightarrow> u32 \<Rightarrow> IMGTYPE \<Rightarrow> 'm mu_state \<Rightarrow> fault + 'm mu_state" where
  "MultiWriteImage M datalen typ s =
    (case typ of
      IMG_TCBOOT \<Rightarrow> res_bind (ecnt_get_boot_size (mu_mtd M)) (\<lambda>boot. multiupgrade_update_image M TCBOOT_BASE boot s)
    | IMG_TCLINUX \<Rightarrow>
        res_bind (ecnt_get_tclinux_mtd_offset (mu_mtd M)) (\<lambda>tclinux_offset.
        res_bind (if with_romfile M then multiupgrade_erase_romfile M True s else Inr s)
          (multiupgrade_update_image M tclinux_offset datalen))
    | IMG_TCLINUXALLINONE \<Rightarrow>
        res_bind (multiupgrade_update_image M TCBOOT_BASE datalen s)
          (\<lambda>s1. if with_romfile M then multiupgrade_erase_romfile M False s1 else Inr s1))"

section \<open>Checking the image\<close>

definition mu_magic_at :: "nat \<Rightarrow> 'm mu_state \<Rightarrow> fault + u32" where
  "mu_magic_at p s = rd_at rd_be32 4 (multi_buf s) p"

text \<open>Lines 699 to 764: an image with bootloader and romfile; None is the error exit.\<close>

definition check_allinone :: "'m mu_env \<Rightarrow> u32 \<Rightarrow> 'm mu_state \<Rightarrow> fault + 'm mu_state option" where
  "check_allinone M imagelen s =
    res_bind (ecnt_get_boot_size (mu_mtd M)) (\<lambda>boot. res_bind (ecnt_get_romfile_size (mu_mtd M)) (\<lambda>rom.
      let q = unat (boot + rom + of_nat trx_header_size + get_fip_offset M)
      in res_bind (mu_magic_at q s) (\<lambda>magic.
        if magic \<noteq> PART_FDT_MAGIC then Inr None
        else if fit_all_image_verify M (multi_buf s) q = -1 then Inr None
        else let n = unat (imagelen - 4)
             in if length (multi_buf s) < n + 4 then Inl OutOfBounds
                else let cal_check_sum = crc32_no_comp M DEFAULT_CRC (take n (multi_buf s));
                         crc_ptr = slice n 4 (multi_buf s);
                         raw_check_sum = (if TCSUPPORT_LITTLE_ENDIAN M then rd_be32 crc_ptr else rd32 crc_ptr)
                     in if cal_check_sum \<noteq> raw_check_sum then Inr None
                        else if length (multi_buf s) < unat ENV_OFFSET + unat ENV_SIZE then Inl OutOfBounds
                        else let (r, dat, h) = flash_read (mu_hal_env M) (TCBOOT_BASE + ENV_OFFSET) ENV_SIZE
                                   (drop (unat ENV_OFFSET) (multi_buf s)) (mu_hal s)
                             in Inr (Some (s\<lparr>multi_buf := take (unat ENV_OFFSET) (multi_buf s) @ dat, mu_hal := h\<rparr>)))))"

text \<open>Lines 591 to 770, after the last packet of a complete round.\<close>

definition mu_finish :: "'m mu_env \<Rightarrow> u32 \<Rightarrow> 'm mu_state \<Rightarrow> fault + 'm mu_state option" where
  "mu_finish M imagelen s =
    (let p = trx_header_size + unat (get_fip_offset M)
     in res_bind (mu_magic_at p s) (\<lambda>magic.
        if magic = PART_FDT_MAGIC then
          if fit_all_image_verify M (multi_buf s) p = -1 then Inr None
          else res_bind (getimagelen M) (\<lambda>lim.
            if badimg s \<or> lim < imagelen then Inr None
            else res_bind (MultiWriteImage M imagelen IMG_TCLINUX s) (\<lambda>s1. Inr (Some (s1\<lparr>finishMultiUpgrade := True\<rparr>))))
        else res_bind (check_allinone M imagelen s) (\<lambda>r.
          case r of None \<Rightarrow> Inr None
          | Some s1 \<Rightarrow> res_bind (MultiWriteImage M imagelen IMG_TCLINUXALLINONE s1) (\<lambda>s2. Inr (Some (s2\<lparr>finishMultiUpgrade := True\<rparr>))))))"

section \<open>One packet\<close>

text \<open>The error exit of the handler.\<close>

definition mu_error :: "'m mu_state \<Rightarrow> 'm mu_state" where
  "mu_error s = s\<lparr>startSeq := -1, maxSeq := 0, recvSeq := 0, badimg := False\<rparr>"

text \<open>Lines 535 to 544: the first packet fixes where the round starts and how many packets it has.\<close>

definition mu_begin :: "u32 \<Rightarrow> u32 \<Rightarrow> u32 \<Rightarrow> 'm mu_state \<Rightarrow> 'm mu_state" where
  "mu_begin Jiffies pktseq imagelen s =
    (if startSeq s = -1
     then s\<lparr>startSeq := uint pktseq, oldSeq := uint pktseq - 1, receive_len := 0,
            maxSeq := uint imagelen div 1024 + (if uint imagelen mod 1024 \<noteq> 0 then 1 else 0), Jiffiestmp := Jiffies\<rparr>
     else s)"

definition seq_expected :: "u32 \<Rightarrow> 'm mu_state \<Rightarrow> bool" where
  "seq_expected pktseq s \<longleftrightarrow> uint pktseq = (oldSeq s + 1) mod 65536 \<or> (pktseq = 1 \<and> oldSeq s = maxSeq s mod 65536)"

text \<open>Lines 557 to 587: the data goes to its place in the image; the remainder is that of C.\<close>

definition mu_store :: "u32 \<Rightarrow> u32 \<Rightarrow> bytes \<Rightarrow> 'm mu_state \<Rightarrow> fault + 'm mu_state" where
  "mu_store Jiffies pktseq dat s =
    (if maxSeq s = 0 then Inl DivByZero
     else let s1 = s\<lparr>oldSeq := uint pktseq, recvSeq := recvSeq s + 1\<rparr>;
              pos = (((recvSeq s1 - 1) + (startSeq s1 - 1)) smod maxSeq s1) * 1024
          in if pos < 0 \<or> int (length (multi_buf s1)) < pos + 1024 then Inl OutOfBounds
             else let s2 = s1\<lparr>multi_buf := memcpy (multi_buf s1) (nat pos) dat, receive_len := receive_len s1 + 1024\<rparr>
                  in Inr (if 20 < Jiffies - Jiffiestmp s2 then s2\<lparr>Jiffiestmp := Jiffies, blink_tag := \<not> blink_tag s2\<rparr> else s2))"

definition MultiUpgradeHandle :: "'m mu_env \<Rightarrow> u32 \<Rightarrow> sk_buff \<Rightarrow> 'm mu_state \<Rightarrow> fault + 'm mu_state" where
  "MultiUpgradeHandle M Jiffies skb s =
    res_bind (rd_at rd32 4 (skb_data skb) LT_OFFSET) (\<lambda>LenAndType.
    res_bind (rd_at rd32 4 (skb_data skb) IMG_LEN_OFFSET) (\<lambda>imagelen.
      let pktseq = drop_bit 16 LenAndType AND 0xffff
      in if finishMultiUpgrade s then Inr s
         else let s1 = mu_begin Jiffies pktseq imagelen s
              in if \<not> seq_expected pktseq s1 then Inr (mu_error s1)
                 else res_bind (rd_at id MULTI_UPGRADE_DATA_LEN (skb_data skb) MULTI_UPGRADE_PKT_HEADLEN) (\<lambda>dat.
                   res_bind (mu_store Jiffies pktseq dat s1) (\<lambda>s2.
                     if startSeq s2 \<noteq> -1 \<and> maxSeq s2 = recvSeq s2
                     then if imagelen \<le> receive_len s2
                          then res_bind (mu_finish M imagelen s2) (\<lambda>r.
                                 case r of None \<Rightarrow> Inr (mu_error s2) | Some s3 \<Rightarrow> Inr s3)
                          else Inr (mu_error (s2\<lparr>receive_len := 0\<rparr>))
                     else Inr s2))))"

text \<open>The result tells whether the frame still has to be handled by the network stack.\<close>

definition multiupgrade_process :: "'m mu_env \<Rightarrow> u32 \<Rightarrow> sk_buff \<Rightarrow> bytes \<Rightarrow> 'm mu_state \<Rightarrow> fault + int \<times> 'm mu_state" where
  "multiupgrade_process M Jiffies skb mac s =
    (if mac ! 0 AND 1 \<noteq> 0 then
       res_bind (rd_at id (length MULTI_UPGRADE_PKT_TAG) (skb_data skb) MULTIPKT_TAG_OFFSET) (\<lambda>tag.
         if tag = MULTI_UPGRADE_PKT_TAG
         then if skb_len skb < 1048 then Inr (0, s)
              else res_bind (MultiUpgradeHandle M Jiffies skb (s\<lparr>startMultiUpgrade := True\<rparr>)) (\<lambda>s1. Inr (0, s1))
         else Inr (if startMultiUpgrade s then 0 else 1, s))
     else Inr (if startMultiUpgrade s then 0 else 1, s))"

end
