(* ===== verification/Multi_Theorems.thy ===== *)
theory Multi_Theorems
  imports Multiupgrade
begin

text \<open>
  Upgrade by multicast: one round of packets is put together wherever it starts, and a
  verified image arrives in the flash.
\<close>

section \<open>Chunks of the buffer\<close>

definition chunk :: "nat \<Rightarrow> 'a list \<Rightarrow> 'a list" where
  "chunk k buf = slice (k * 1024) 1024 buf"

lemma chunk_memcpy:
  assumes "length d = 1024" "(k + 1) * 1024 \<le> length buf" "(k' + 1) * 1024 \<le> length buf"
  shows "chunk k' (memcpy buf (k * 1024) d) = (if k' = k then d else chunk k' buf)"
proof (cases "k' = k")
  case True
  then show ?thesis using assms slice_memcpy_same[of "k * 1024" buf d] by (simp add: chunk_def)
next
  case False
  then have apart: "k' * 1024 + 1024 \<le> k * 1024 \<or> k * 1024 + 1024 \<le> k' * 1024" by (cases "k' < k") auto
  show ?thesis
  proof (rule nth_equalityI)
    show "length (chunk k' (memcpy buf (k * 1024) d)) = length (if k' = k then d else chunk k' buf)"
      using assms False by (simp add: chunk_def)
    fix i assume "i < length (chunk k' (memcpy buf (k * 1024) d))"
    then have i: "i < 1024" "k' * 1024 + i < length buf" using assms by (simp_all add: chunk_def)
    then show "chunk k' (memcpy buf (k * 1024) d) ! i = (if k' = k then d else chunk k' buf) ! i"
      using assms(1,2) False apart nth_memcpy[of "k * 1024" d buf "k' * 1024 + i"] by (auto simp: chunk_def nth_slice)
  qed
qed


section \<open>The cycle of packets\<close>

definition slot :: "nat \<Rightarrow> nat \<Rightarrow> nat \<Rightarrow> nat" where
  "slot n a i = (a + i) mod n"

lemma slot_lt: "i < n \<Longrightarrow> slot n a i < n"
  by (auto simp: slot_def intro: mod_less_divisor)

lemma slot_inj: "i < n \<Longrightarrow> j < n \<Longrightarrow> slot n a i = slot n a j \<Longrightarrow> i = j"
proof (rule ccontr)
  assume ij: "i < n" "j < n" "slot n a i = slot n a j" "i \<noteq> j"
  have "n dvd (a + max i j) - (a + min i j)"
    using ij(3) mod_eq_dvd_iff_nat[of "a + min i j" "a + max i j" n] by (cases "i < j") (auto simp: slot_def max_def min_def)
  then have "n \<le> max i j - min i j" using ij(4) by (intro dvd_imp_le) (auto simp: max_def min_def)
  then show False using ij(1,2) by (auto simp: max_def min_def split: if_splits)
qed


lemma slot_next:
  assumes "0 < n"
  shows "slot n a (Suc i) = (if slot n a i + 1 = n then 0 else slot n a i + 1)"
  using assms by (simp add: slot_def mod_Suc)

text \<open>A packet as the sender builds it.\<close>

definition mu_packet :: "bytes \<Rightarrow> u16 \<Rightarrow> u16 \<Rightarrow> u32 \<Rightarrow> bytes \<Rightarrow> bytes \<Rightarrow> sk_buff" where
  "mu_packet pre typ seqno imagelen post dat =
     (let d = pre @ le16 typ @ le16 seqno @ MULTI_UPGRADE_PKT_TAG @ le32 imagelen @ post @ dat
      in \<lparr>skb_data = d, skb_len = length d\<rparr>)"

lemma high_half: "drop_bit 16 (rd32 (le16 a @ le16 b)) AND 0xffff = (ucast b :: u32)"
proof -
  have m: "(0xffff :: u32) = mask 16" by (simp add: mask_eq_exp_minus_1)
  show ?thesis unfolding m
    by (rule bit_word_eqI) (auto simp: rd32_def le16_def bit_simps dest: bit_imp_le_length)
qed

lemma packet_fields:
  assumes "length pre = 8" "length post = 8" "length dat = 1024"
  shows "rd_at rd32 4 (skb_data (mu_packet pre typ seqno imagelen post dat)) LT_OFFSET = Inr (rd32 (le16 typ @ le16 seqno))"
    and "rd_at rd32 4 (skb_data (mu_packet pre typ seqno imagelen post dat)) IMG_LEN_OFFSET = Inr imagelen"
    and "rd_at id MULTI_UPGRADE_DATA_LEN (skb_data (mu_packet pre typ seqno imagelen post dat)) MULTI_UPGRADE_PKT_HEADLEN = Inr dat"
proof -
  show "rd_at rd32 4 (skb_data (mu_packet pre typ seqno imagelen post dat)) LT_OFFSET = Inr (rd32 (le16 typ @ le16 seqno))"
    using rd_at_append[of pre LT_OFFSET "le16 typ @ le16 seqno" 4] assms(1) by (simp add: mu_packet_def Let_def LT_OFFSET_def)
  show "rd_at rd32 4 (skb_data (mu_packet pre typ seqno imagelen post dat)) IMG_LEN_OFFSET = Inr imagelen"
    using rd_at_append[of "pre @ le16 typ @ le16 seqno @ MULTI_UPGRADE_PKT_TAG" IMG_LEN_OFFSET "le32 imagelen" 4 rd32 "post @ dat"] assms(1)
    by (simp add: mu_packet_def Let_def IMG_LEN_OFFSET_def MULTI_UPGRADE_PKT_TAG_def)
  show "rd_at id MULTI_UPGRADE_DATA_LEN (skb_data (mu_packet pre typ seqno imagelen post dat)) MULTI_UPGRADE_PKT_HEADLEN = Inr dat"
    using rd_at_append[of "pre @ le16 typ @ le16 seqno @ MULTI_UPGRADE_PKT_TAG @ le32 imagelen @ post" MULTI_UPGRADE_PKT_HEADLEN dat 1024 id "[]"] assms
    by (simp add: mu_packet_def Let_def MULTI_UPGRADE_PKT_HEADLEN_def MULTI_UPGRADE_DATA_LEN_def MULTI_UPGRADE_PKT_TAG_def)
qed

section \<open>Collecting a round\<close>

text \<open>After i packets of a round that started with packet a + 1.\<close>

definition mu_collected :: "bytes list \<Rightarrow> nat \<Rightarrow> nat \<Rightarrow> 'm mu_state \<Rightarrow> 'm mu_state \<Rightarrow> bool" where
  "mu_collected cs a i s0 s \<longleftrightarrow> startSeq s = int a + 1 \<and> maxSeq s = int (length cs) \<and> recvSeq s = int i
     \<and> (0 < i \<longrightarrow> oldSeq s = int (slot (length cs) a (i - 1)) + 1) \<and> (i = 0 \<longrightarrow> oldSeq s = int a)
     \<and> receive_len s = of_nat (i * 1024) \<and> \<not> finishMultiUpgrade s \<and> \<not> badimg s \<and> mu_hal s = mu_hal s0
     \<and> length (multi_buf s) = length (multi_buf s0) \<and> drop (length cs * 1024) (multi_buf s) = drop (length cs * 1024) (multi_buf s0)
     \<and> (\<forall>j<i. chunk (slot (length cs) a j) (multi_buf s) = cs ! slot (length cs) a j)"

definition mu_idle :: "'m mu_state \<Rightarrow> bool" where
  "mu_idle s \<longleftrightarrow> startSeq s = -1 \<and> recvSeq s = 0 \<and> \<not> finishMultiUpgrade s \<and> \<not> badimg s"

lemma packets_needed: "(m + 1023) div 1024 = m div 1024 + (if m mod 1024 \<noteq> 0 then 1 else 0)" for m :: nat
proof -
  define q r where "q = m div 1024" and "r = m mod 1024"
  have m: "m = q * 1024 + r" "r < 1024" by (simp_all add: q_def r_def)
  have "(q * 1024 + (r + 1023)) div 1024 = q + (r + 1023) div 1024" by simp
  moreover have "(r + 1023) div 1024 = (if r \<noteq> 0 then 1 else 0)"
  proof (cases r)
    case (Suc t)
    then have "r + 1023 = 1024 + t" "t < 1024" using m(2) by simp_all
    then show ?thesis using Suc by simp
  qed simp
  moreover have "m + 1023 = q * 1024 + (r + 1023)" using m(1) by simp
  ultimately show ?thesis unfolding q_def[symmetric] r_def[symmetric] by (simp only:)
qed

lemma mu_begin_collected:
  assumes "mu_idle s" "a < length cs" "length cs \<le> 65535" "(unat imagelen + 1023) div 1024 = length cs"
  shows "mu_collected cs a 0 s (mu_begin J (of_nat (a + 1)) imagelen s)"
proof -
  have "uint (of_nat (a + 1) :: u32) = int a + 1" using assms(2,3) by (subst uint_nat) (subst unat_of_nat_small, simp_all)
  moreover have "uint imagelen div 1024 + (if uint imagelen mod 1024 \<noteq> 0 then 1 else 0) = int (length cs)"
  proof -
    have "uint imagelen = int (unat imagelen)" by (rule uint_nat)
    then have "uint imagelen div 1024 = int (unat imagelen div 1024)" "uint imagelen mod 1024 = int (unat imagelen mod 1024)"
      by (simp_all only: zdiv_int zmod_int of_nat_numeral)
    then show ?thesis using assms(4) unfolding packets_needed by (simp only: of_nat_add of_nat_eq_0_iff) auto
  qed
  ultimately show ?thesis using assms(1) by (simp add: mu_begin_def mu_idle_def mu_collected_def)
qed

lemma mu_seq_ok:
  assumes "mu_collected cs a i s0 s" "i < length cs" "a < length cs" "length cs \<le> 65535"
  shows "seq_expected (of_nat (slot (length cs) a i + 1)) s"
proof -
  let ?n = "length cs"
  have lt: "slot ?n a i < ?n" using assms(2) by (auto intro: slot_lt)
  have u: "uint (of_nat (slot ?n a i + 1) :: u32) = int (slot ?n a i) + 1" using lt assms(4) by (subst uint_nat) (subst unat_of_nat_small, simp_all)
  show ?thesis
  proof (cases i)
    case 0
    then show ?thesis using assms u by (simp add: seq_expected_def mu_collected_def slot_def)
  next
    case (Suc k)
    have old: "oldSeq s = int (slot ?n a k) + 1" "maxSeq s = int ?n" using assms(1) Suc by (simp_all add: mu_collected_def)
    have ltk: "slot ?n a k < ?n" using assms(2) Suc by (auto intro: slot_lt)
    show ?thesis
    proof (cases "slot ?n a k + 1 = ?n")
      case True
      then have "slot ?n a i = 0" using slot_next[of ?n a k] lt Suc by (cases cs) auto
      moreover have "oldSeq s = maxSeq s mod 65536" using old True assms(4) by simp
      ultimately show ?thesis by (simp add: seq_expected_def)
    next
      case False
      then have "slot ?n a i = slot ?n a k + 1" using slot_next[of ?n a k] lt Suc by (cases cs) auto
      then have "int (slot ?n a i) + 1 = (oldSeq s + 1) mod 65536" using old ltk lt assms(4) by simp
      then show ?thesis using u by (simp add: seq_expected_def)
    qed
  qed
qed

lemma mu_store_collected:
  assumes "mu_collected cs a i s0 s" "i < length cs" "a < length cs" "length cs \<le> 65535"
    and "length cs * 1024 \<le> length (multi_buf s0)" "\<forall>c\<in>set cs. length c = 1024"
  shows "\<exists>s'. mu_store J (of_nat (slot (length cs) a i + 1)) (cs ! slot (length cs) a i) s = Inr s' \<and> mu_collected cs a (Suc i) s0 s'"
proof -
  let ?n = "length cs" and ?k = "slot (length cs) a i"
  have lt: "?k < ?n" using assms(2) by (auto intro: slot_lt)
  note c = assms(1)[unfolded mu_collected_def]
  have len: "length (multi_buf s) = length (multi_buf s0)" and cl: "length (cs ! ?k) = 1024" using c assms(6) lt by auto
  have fit: "(?k + 1) * 1024 \<le> length (multi_buf s)"
    using lt assms(5) len mult_le_mono1[of "?k + 1" ?n 1024] by simp
  have u: "uint (of_nat (?k + 1) :: u32) = int ?k + 1" using lt assms(4) by (subst uint_nat) (subst unat_of_nat_small, simp_all)
  have pos: "((recvSeq s + 1 - 1) + (startSeq s - 1)) smod maxSeq s = int ?k"
  proof -
    have "(recvSeq s + 1 - 1) + (startSeq s - 1) = int (a + i)" using c by simp
    moreover have "int (a + i) smod int ?n = int ((a + i) mod ?n)" by (cases "a + i") (simp_all add: smod_int_alt_def zmod_int del: of_nat_add)
    ultimately show ?thesis using c by (simp add: slot_def add.commute)
  qed
  have "recvSeq s + 1 - 1 + (startSeq s - 1) = recvSeq s + startSeq s - 1" by simp
  then have pos2: "(recvSeq s + startSeq s - 1) smod maxSeq s = int ?k" using pos by (simp only:)
  define s2 where "s2 = s\<lparr>oldSeq := int ?k + 1, recvSeq := recvSeq s + 1, multi_buf := memcpy (multi_buf s) (?k * 1024) (cs ! ?k),
     receive_len := receive_len s + 1024\<rparr>"
  have nz: "maxSeq s \<noteq> 0" using c assms(2) by auto
  have run: "mu_store J (of_nat (?k + 1)) (cs ! ?k) s
     = Inr (if 20 < J - Jiffiestmp s2 then s2\<lparr>Jiffiestmp := J, blink_tag := \<not> blink_tag s2\<rparr> else s2)"
    using nz pos2 fit u by (simp add: mu_store_def Let_def s2_def nat_mult_distrib)
  have ch: "chunk (slot ?n a j) (multi_buf s2) = cs ! slot ?n a j" if "j < Suc i" for j
  proof -
    have "slot ?n a j < ?n" using assms(2) that by (auto intro: slot_lt)
    then have "(slot ?n a j + 1) * 1024 \<le> length (multi_buf s)" using assms(5) len mult_le_mono1[of "slot ?n a j + 1" ?n 1024] by simp
    then show ?thesis using chunk_memcpy[OF cl fit, of "slot ?n a j"] c that slot_inj[of j ?n i a] assms(2)
      by (cases "j = i") (auto simp: s2_def)
  qed
  have dr: "drop (?n * 1024) (multi_buf s2) = drop (?n * 1024) (multi_buf s0)"
  proof -
    have "drop (?n * 1024) (memcpy (multi_buf s) (?k * 1024) (cs ! ?k)) = drop (?n * 1024) (multi_buf s)"
      using lt fit cl assms(5) len mult_le_mono1[of "?k + 1" ?n 1024] by (simp add: memcpy_def min_def)
    then show ?thesis using c by (simp add: s2_def)
  qed
  have "mu_collected cs a (Suc i) s0 s2"
    using c ch dr fit cl len by (simp add: mu_collected_def s2_def algebra_simps)
  then have "mu_collected cs a (Suc i) s0 (if 20 < J - Jiffiestmp s2 then s2\<lparr>Jiffiestmp := J, blink_tag := \<not> blink_tag s2\<rparr> else s2)"
    by (simp add: mu_collected_def)
  then show ?thesis using run by blast
qed

section \<open>A whole round\<close>


definition round_packet :: "(nat \<Rightarrow> u32) \<Rightarrow> bytes \<Rightarrow> u16 \<Rightarrow> u32 \<Rightarrow> bytes \<Rightarrow> bytes list \<Rightarrow> nat \<Rightarrow> nat \<Rightarrow> u32 \<times> sk_buff" where
  "round_packet J pre typ imagelen post cs a i =
     (J i, mu_packet pre typ (of_nat (slot (length cs) a i + 1)) imagelen post (cs ! slot (length cs) a i))"


definition image_chunks :: "bytes list \<Rightarrow> u32 \<Rightarrow> bool" where
  "image_chunks cs imagelen \<longleftrightarrow> (\<forall>c\<in>set cs. length c = 1024) \<and> length cs \<le> 65535 \<and> (unat imagelen + 1023) div 1024 = length cs"

definition mu_before :: "bytes list \<Rightarrow> nat \<Rightarrow> nat \<Rightarrow> 'm mu_state \<Rightarrow> 'm mu_state \<Rightarrow> bool" where
  "mu_before cs a i s0 s \<longleftrightarrow> (if i = 0 then mu_idle s \<and> s = s0 else mu_collected cs a i s0 s)"

definition mu_last :: "'m mu_env \<Rightarrow> u32 \<Rightarrow> 'm mu_state \<Rightarrow> fault + 'm mu_state" where
  "mu_last M imagelen s = res_bind (mu_finish M imagelen s) (\<lambda>r. case r of None \<Rightarrow> Inr (mu_error s) | Some s3 \<Rightarrow> Inr s3)"

lemma ucast_seq: "m < 65536 \<Longrightarrow> (ucast (of_nat m :: u16) :: u32) = of_nat m"
  by (simp add: unsigned_of_nat take_bit_nat_eq_self)

lemma image_chunks_le:
  assumes "image_chunks cs imagelen" shows "unat imagelen \<le> length cs * 1024"
proof (rule round_up_bounds(2))
    show "length cs = (unat imagelen + 1024 - 1) div 1024" using assms by (simp add: image_chunks_def add.commute)
qed simp


lemma image_le_received:
  assumes "image_chunks cs imagelen" shows "imagelen \<le> of_nat (length cs * 1024)"
proof -
  have "unat (of_nat (length cs * 1024) :: u32) = length cs * 1024" using assms by (subst unat_of_nat_small) (simp_all add: image_chunks_def)
  then show ?thesis using image_chunks_le[OF assms] by (simp add: word_le_nat_alt)
qed

lemma handle_collects:
  assumes ch: "image_chunks cs imagelen" and b: "mu_before cs a i s0 s" and i: "i < length cs" "a < length cs"
    and buf: "length cs * 1024 \<le> length (multi_buf s0)" and hdr: "length pre = 8" "length post = 8"
    and p: "round_packet J pre typ imagelen post cs a i = (Ji, skb)"
  shows "\<exists>s2. mu_collected cs a (Suc i) s0 s2 \<and> MultiUpgradeHandle M Ji skb s = (if Suc i = length cs then mu_last M imagelen s2 else Inr s2)"
proof -
  let ?n = "length cs" and ?k = "slot (length cs) a i"
  have n: "?n \<le> 65535" "\<forall>c\<in>set cs. length c = 1024" "(unat imagelen + 1023) div 1024 = ?n" using ch by (auto simp: image_chunks_def)
  have lt: "?k < ?n" using i(1) by (rule slot_lt)
  have skb: "skb = mu_packet pre typ (of_nat (?k + 1)) imagelen post (cs ! ?k)" using p by (simp add: round_packet_def)
  note pf = packet_fields[OF hdr, of "cs ! ?k" "typ" "of_nat (?k + 1)" imagelen, folded skb]
  have cl: "length (cs ! ?k) = 1024" using n(2) lt by simp
  have seqno: "drop_bit 16 (rd32 (le16 typ @ le16 (of_nat (?k + 1)))) AND 0xffff = (of_nat (?k + 1) :: u32)"
    unfolding high_half using lt n(1) by (intro ucast_seq) simp
  define s1 where "s1 = mu_begin Ji (of_nat (?k + 1)) imagelen s"
  have c1: "mu_collected cs a i s0 s1"
  proof (cases i)
    case 0
    then have "?k = a" using i(2) by (simp add: slot_def)
    then show ?thesis using mu_begin_collected[OF _ i(2) n(1,3), of s Ji] b 0 by (auto simp: mu_before_def s1_def)
  next
    case (Suc j)
    then have c: "mu_collected cs a i s0 s" using b by (simp add: mu_before_def)
    then have "startSeq s \<noteq> -1" by (auto simp: mu_collected_def)
    then show ?thesis using c by (simp add: s1_def mu_begin_def)
  qed
  have nf: "\<not> finishMultiUpgrade s" using b by (auto simp: mu_before_def mu_idle_def mu_collected_def split: if_splits)
  obtain s2 where s2: "mu_store Ji (of_nat (?k + 1)) (cs ! ?k) s1 = Inr s2" "mu_collected cs a (Suc i) s0 s2"
    using mu_store_collected[OF c1 i n(1) buf n(2)] by blast
  have "MultiUpgradeHandle M Ji skb s = (if startSeq s2 \<noteq> -1 \<and> maxSeq s2 = recvSeq s2
      then if imagelen \<le> receive_len s2 then mu_last M imagelen s2 else Inr (mu_error (s2\<lparr>receive_len := 0\<rparr>)) else Inr s2)"
    unfolding MultiUpgradeHandle_def pf(1)[OF cl] pf(2)[OF cl] pf(3)[OF cl] res_bind_simps Let_def seqno
    using nf mu_seq_ok[OF c1 i n(1)] s2(1) by (simp add: s1_def mu_last_def del: of_nat_add of_nat_Suc)
  moreover have "startSeq s2 \<noteq> -1" "maxSeq s2 = recvSeq s2 \<longleftrightarrow> Suc i = ?n" "receive_len s2 = of_nat (Suc i * 1024)"
    using s2(2) by (auto simp: mu_collected_def)
  moreover have "Suc i = ?n \<Longrightarrow> imagelen \<le> of_nat (Suc i * 1024)" using image_le_received[OF ch] by simp
  ultimately show ?thesis using s2(2) by (cases "Suc i = ?n") (auto simp del: of_nat_Suc of_nat_mult mult_Suc)
qed



section \<open>Any sequence of packets\<close>

inductive mu_reach :: "'m mu_env \<Rightarrow> 'm mu_state \<Rightarrow> 'm mu_state \<Rightarrow> bool" for M s where
  mu_refl: "mu_reach M s s"
| mu_step: "mu_reach M s s' \<Longrightarrow> MultiUpgradeHandle M J skb s' = Inr s'' \<Longrightarrow> mu_reach M s s''"

definition mu_running :: "'m mu_state \<Rightarrow> bool" where
  "mu_running s \<longleftrightarrow> 0 \<le> startSeq s \<and> 0 < recvSeq s \<and> recvSeq s < maxSeq s \<and> \<not> finishMultiUpgrade s \<and> \<not> badimg s"

lemma mu_finish_done: "mu_finish M imagelen s = Inr (Some s') \<Longrightarrow> finishMultiUpgrade s'"
  by (auto simp: mu_finish_def res_bind_eq_Inr Let_def split: if_splits option.splits)

lemma mu_error_idle: "\<not> finishMultiUpgrade s \<Longrightarrow> mu_idle (mu_error s)" "mu_hal (mu_error s) = mu_hal s"
  by (simp_all add: mu_error_def mu_idle_def)

lemma mu_begin_keeps:
  "mu_hal (mu_begin J q n s) = mu_hal s" "finishMultiUpgrade (mu_begin J q n s) = finishMultiUpgrade s" "badimg (mu_begin J q n s) = badimg s"
  "recvSeq (mu_begin J q n s) = recvSeq s"
  by (simp_all add: mu_begin_def)

lemma mu_begin_starts:
  assumes "mu_idle s \<or> mu_running s"
  shows "0 \<le> startSeq (mu_begin J q n s)" "0 \<le> recvSeq (mu_begin J q n s)" "recvSeq (mu_begin J q n s) \<le> maxSeq (mu_begin J q n s)"
    "recvSeq (mu_begin J q n s) = maxSeq (mu_begin J q n s) \<Longrightarrow> maxSeq (mu_begin J q n s) = 0"
proof -
  have "0 \<le> uint n div 1024" by (intro pos_imp_zdiv_nonneg_iff[THEN iffD2]) simp_all
  then show "0 \<le> startSeq (mu_begin J q n s)" "0 \<le> recvSeq (mu_begin J q n s)" "recvSeq (mu_begin J q n s) \<le> maxSeq (mu_begin J q n s)"
    "recvSeq (mu_begin J q n s) = maxSeq (mu_begin J q n s) \<Longrightarrow> maxSeq (mu_begin J q n s) = 0"
    using assms by (auto simp: mu_begin_def mu_idle_def mu_running_def)
qed

lemma mu_store_keeps:
  "mu_store J q d s = Inr s' \<Longrightarrow> maxSeq s \<noteq> 0 \<and> mu_hal s' = mu_hal s \<and> finishMultiUpgrade s' = finishMultiUpgrade s \<and> badimg s' = badimg s
     \<and> startSeq s' = startSeq s \<and> maxSeq s' = maxSeq s \<and> recvSeq s' = recvSeq s + 1"
  by (auto simp: mu_store_def Let_def split: if_splits)

lemma handle_invariant:
  assumes inv: "mu_idle s \<or> mu_running s" and h: "MultiUpgradeHandle M J skb s = Inr s'"
  shows "finishMultiUpgrade s' \<or> (mu_hal s' = mu_hal s \<and> (mu_idle s' \<or> mu_running s'))"
proof -
  have nf: "\<not> finishMultiUpgrade s" "\<not> badimg s" using inv by (auto simp: mu_idle_def mu_running_def)
  obtain q n where cases: "s' = mu_error (mu_begin J q n s) \<or> (\<exists>d s2. mu_store J q d (mu_begin J q n s) = Inr s2 \<and>
      (if startSeq s2 \<noteq> -1 \<and> maxSeq s2 = recvSeq s2
       then if n \<le> receive_len s2 then res_bind (mu_finish M n s2) (\<lambda>r. case r of None \<Rightarrow> Inr (mu_error s2) | Some s3 \<Rightarrow> Inr s3)
            else Inr (mu_error (s2\<lparr>receive_len := 0\<rparr>))
       else Inr s2) = Inr s')"
    using h nf(1) unfolding MultiUpgradeHandle_def by (fastforce simp: res_bind_eq_Inr Let_def split: if_splits)
  let ?b = "mu_begin J q n s"
  have nfb: "\<not> finishMultiUpgrade ?b" using nf(1) by (simp add: mu_begin_keeps)
  from cases show ?thesis
  proof (elim disjE exE conjE)
    assume "s' = mu_error ?b"
    then show ?thesis using mu_error_idle[of ?b] nfb by (simp add: mu_begin_keeps)
  next
    fix d s2 assume st: "mu_store J q d ?b = Inr s2" and r: "(if startSeq s2 \<noteq> -1 \<and> maxSeq s2 = recvSeq s2
       then if n \<le> receive_len s2 then res_bind (mu_finish M n s2) (\<lambda>r. case r of None \<Rightarrow> Inr (mu_error s2) | Some s3 \<Rightarrow> Inr s3)
            else Inr (mu_error (s2\<lparr>receive_len := 0\<rparr>))
       else Inr s2) = Inr s'"
    note k = mu_store_keeps[OF st]
    have s2: "mu_hal s2 = mu_hal s" "\<not> finishMultiUpgrade s2" "\<not> badimg s2" using k nf by (simp_all add: mu_begin_keeps)
    show ?thesis
    proof (cases "startSeq s2 \<noteq> -1 \<and> maxSeq s2 = recvSeq s2")
      case True
      then show ?thesis using r s2 mu_error_idle[of s2] mu_error_idle[of "s2\<lparr>receive_len := 0\<rparr>"] mu_finish_done[of M n s2]
        by (auto simp: res_bind_eq_Inr split: if_splits option.splits)
    next
      case False
      then have "s' = s2" using r by (simp only: if_False sum.inject)
      moreover have "recvSeq ?b < maxSeq ?b" using mu_begin_starts(3,4)[OF inv, of J q n] k by force
      then have "mu_running s2" using False k s2 mu_begin_starts(1,2)[OF inv, of J q n] by (auto simp: mu_running_def)
      ultimately show ?thesis using s2(1) by simp
    qed
  qed
qed

text \<open>
  C20 Whatever packets arrive, in whatever order: until an image has been accepted, the flash is
  exactly as it was, and the receiver is either idle or in the middle of a round, with
  fewer packets received than the round has.
\<close>

theorem multicast_invariant:
  assumes "mu_idle s" and "mu_reach M s s'"
  shows "finishMultiUpgrade s' \<or> (mu_hal s' = mu_hal s \<and>
     (startSeq s' = -1 \<and> recvSeq s' = 0 \<or> 0 \<le> startSeq s' \<and> 0 < recvSeq s' \<and> recvSeq s' < maxSeq s'))"
proof -
  have "finishMultiUpgrade s' \<or> (mu_hal s' = mu_hal s \<and> (mu_idle s' \<or> mu_running s'))"
    using assms(2)
  proof induction
    case mu_refl
    then show ?case using assms(1) by simp
  next
    case (mu_step s' J skb s'')
    show ?case
    proof (cases "finishMultiUpgrade s'")
      case True
      then have "s'' = s'" using mu_step.hyps(2) by (auto simp: MultiUpgradeHandle_def res_bind_eq_Inr Let_def)
      then show ?thesis using True by simp
    next
      case False
      then show ?thesis using mu_step.IH handle_invariant[OF _ mu_step.hyps(2)] by auto
    qed
  qed
  then show ?thesis by (auto simp: mu_idle_def mu_running_def)
qed

section \<open>The image in the flash\<close>










text \<open>Two packets, received in the order 2, 1, on the demonstration chip.\<close>

definition demo_mu_conf :: mtd_conf where
  "demo_mu_conf = demo_mtd_conf\<lparr>TCSUPPORT_OPENWRT := True, TCSUPPORT_RESERVEAREA_BLOCK := 0\<rparr>"

definition demo_mu :: "unit mu_env" where
  "demo_mu = \<lparr>mu_hal_env = demo_env, mu_conf = demo_mu_conf, mu_mtd = demo_mtd\<lparr>ecnt_parts := [entry_of TCLINUX 2048 2048]\<rparr>,
     fit_all_image_verify = (\<lambda>_ _. 0), crc32_no_comp = (\<lambda>_ _. 0), get_fip_offset = 0, TCSUPPORT_LITTLE_ENDIAN = True, mu_mtd_size = 0,
     emmc_capacity = 0, nand_chip_shift = 13, nand_avalable_size = 0, RESERVEAREA_ERASE_SIZE = 0, BACKUPROMFILE_RA_OFFSET = 0\<rparr>"

definition demo_mu_state :: "unit mu_state" where
  "demo_mu_state = \<lparr>startMultiUpgrade = False, finishMultiUpgrade = False, receive_len = 0, oldSeq = -1, startSeq = -1, maxSeq = 0, recvSeq = 0,
     badimg = False, blink_tag = False, Jiffiestmp = 0, multi_buf = replicate 4096 0, mu_hal = demo_hal\<rparr>"

definition demo_cs :: "bytes list" where
  "demo_cs = [replicate 256 0 @ [0xD0, 0x0D, 0xFE, 0xED] @ replicate 764 0, replicate 1024 7]"

lemma demo_mu_facts:
  "mu_idle demo_mu_state" "hal_ok (mu_hal_env demo_mu) (mu_hal demo_mu_state)" "image_chunks demo_cs 2000"
  "length demo_cs = 2" "length (multi_buf demo_mu_state) = 4096" "\<not> with_romfile demo_mu" "get_fip_offset demo_mu = 0"
  using demo_hal_ok(1)
  by (simp_all add: mu_idle_def demo_mu_state_def demo_mu_def image_chunks_def demo_cs_def with_romfile_def demo_mu_conf_def)


theorem multicast_invariant_witness:
  "\<exists>s'. MultiUpgradeHandle demo_mu 0 (mu_packet (replicate 8 0) 0 2 2000 (replicate 8 0) (replicate 1024 7)) demo_mu_state = Inr s'
     \<and> mu_hal s' = demo_hal \<and> 0 < recvSeq s' \<and> recvSeq s' < maxSeq s'"
proof -
  have p: "round_packet (\<lambda>_. 0) (replicate 8 0) 0 2000 (replicate 8 0) demo_cs 1 0
      = (0, mu_packet (replicate 8 0) 0 2 2000 (replicate 8 0) (replicate 1024 7))"
    by (simp add: round_packet_def slot_def demo_cs_def)
  have "mu_before demo_cs 1 0 demo_mu_state demo_mu_state" using demo_mu_facts(1) by (simp add: mu_before_def)
  from handle_collects[OF demo_mu_facts(3) this _ _ _ _ _ p, of demo_mu]
  obtain s' where s': "mu_collected demo_cs 1 1 demo_mu_state s'"
    "MultiUpgradeHandle demo_mu 0 (mu_packet (replicate 8 0) 0 2 2000 (replicate 8 0) (replicate 1024 7)) demo_mu_state = Inr s'"
    by (auto simp: demo_mu_facts)
  have "mu_reach demo_mu demo_mu_state s'" by (rule mu_step[OF mu_refl s'(2)])
  from multicast_invariant[OF demo_mu_facts(1) this] s'(1) have "mu_hal s' = mu_hal demo_mu_state \<and> 0 < recvSeq s' \<and> recvSeq s' < maxSeq s'"
    by (auto simp: mu_collected_def)
  then show ?thesis using s'(2) by (auto simp: demo_mu_state_def)
qed

end
