(* ===== verification/Ecnt_Verify.thy ===== *)
theory Ecnt_Verify
  imports Image_Theorems Mtd_Theorems
begin

text \<open>
  Verification of images (drivers/misc/ecnt/image/ecnt\_verify.c): before a kernel is started or
  a received file is written to the flash, its firmware package is read, the
  image in it is hashed, and the secure monitor is asked whether the
  digest is signed.

  The memory at the load address is the byte list ibuf; pointers into it are positions. The
  secure monitor and the hash functions are parameters. A call of the monitor gets the four registers
  and sees the memory; it answers with a word and may rewrite the memory at
  CONFIG\_RAMFS\_BASE, where a decrypted image goes. flush\_cache has no counterpart. Results of type
  int and long are 32-bit words: \<open>-1\<close> is the word with all bits set.
\<close>

section \<open>Environment and state\<close>

record 'm vf_env =
  vf_hal :: "'m hal_env"
  vf_conf :: mtd_conf
  vf_mtd :: mtd_state
  TCSUPPORT_ARM_SECURE_BOOT :: bool
  do_smc :: "u32 \<Rightarrow> u32 \<Rightarrow> u32 \<Rightarrow> u32 \<Rightarrow> bytes \<Rightarrow> bytes \<Rightarrow> (nat \<Rightarrow> u8) \<Rightarrow> u32 \<times> (nat \<Rightarrow> u8)"
  hash_func_ws :: "nat \<Rightarrow> bytes \<Rightarrow> bytes"
  buf_addr :: u32
  output_addr :: u32
  CONFIG_RAMFS_BASE :: u32

record 'm vf_state = "'m img_state" +
  output_buf :: bytes
  ramfs_mem :: "nat \<Rightarrow> u8"

definition FIP_MAX_HEADER_SIZE :: u32 where "FIP_MAX_HEADER_SIZE = 0x2000"
definition HASH_MODE_MASK :: u32 where "HASH_MODE_MASK = 1"
definition ENCRYPTED_FW :: u32 where "ENCRYPTED_FW = 1"
definition ENCRYPTED_OUTER_HEADER :: u32 where "ENCRYPTED_OUTER_HEADER = 2"

text \<open>The table of variable names; its last two rows are empty strings.\<close>

definition filename :: "string list" where
  "filename = [''uboot_filename'', ''kernel_filename'', ''singleImage_filename'', '''', '''']"

section \<open>The secure monitor\<close>

definition smc_call :: "'m vf_env \<Rightarrow> u32 \<Rightarrow> u32 \<Rightarrow> u32 \<Rightarrow> u32 \<Rightarrow> 'm vf_state \<Rightarrow> u32 \<times> 'm vf_state" where
  "smc_call V r0 r1 r2 r3 st =
    (let (r, ram) = do_smc V r0 r1 r2 r3 (ibuf st) (output_buf st) (ramfs_mem st) in (r, st\<lparr>ramfs_mem := ram\<rparr>))"

definition get_sha_alg :: "'m vf_env \<Rightarrow> 'm vf_state \<Rightarrow> u32 \<times> 'm vf_state" where
  "get_sha_alg V = smc_call V 0x82000003 0 0 0"

text \<open>
  The hash goes to the buffer output\_buf. Address arithmetic is that of 32-bit words; an image that
  does not lie in the memory is the fault OutOfBounds.
\<close>

definition hash_image :: "'m vf_env \<Rightarrow> nat \<Rightarrow> u32 \<Rightarrow> u32 \<Rightarrow> u32 \<Rightarrow> 'm vf_state \<Rightarrow> fault + 'm vf_state" where
  "hash_image V pos sha_alg offset sz st =
    (let addr = unat (of_nat pos + offset)
     in res_bind (rd_at (hash_func_ws V (unat sha_alg)) (unat sz) (ibuf st) addr)
          (\<lambda>digest. Inr (st\<lparr>output_buf := memcpy (output_buf st) 0 digest\<rparr>)))"

definition verify_img :: "'m vf_env \<Rightarrow> nat \<Rightarrow> u32 \<Rightarrow> u32 \<Rightarrow> u32 \<Rightarrow> u32 \<Rightarrow> u32 \<Rightarrow> 'm vf_state \<Rightarrow> fault + u32 \<times> 'm vf_state" where
  "verify_img V pos bsize sha_alg offset sz smc_id st =
    (let r2 = buf_addr V + of_nat pos;
         r3 = (if bsize = FIP_MAX_HEADER_SIZE then offset else bsize)
     in if smc_id = SIP_VERIFY_BL2 then Inr (smc_call V smc_id sz r2 r3 st)
        else res_bind (hash_image V pos sha_alg offset sz st) (\<lambda>st1. Inr (smc_call V smc_id (output_addr V) r2 r3 st1)))"

definition decrypt_and_verify_img :: "'m vf_env \<Rightarrow> nat \<Rightarrow> u32 \<Rightarrow> u32 \<Rightarrow> 'm vf_state \<Rightarrow> u32 \<times> 'm vf_state" where
  "decrypt_and_verify_img V pos sz smc_id st =
    smc_call V (smc_id OR 0x10) sz (buf_addr V + of_nat pos) (CONFIG_RAMFS_BASE V) st"

section \<open>Received files\<close>

text \<open>The loop over filename; env is the environment and name the value of its variable filename.\<close>

fun image_name_index :: "(string \<Rightarrow> string option) \<Rightarrow> string \<Rightarrow> nat \<Rightarrow> string list \<Rightarrow> nat option" where
  "image_name_index env name i [] = None"
| "image_name_index env name i (f # fs) =
    (case env f of
      Some valid_name \<Rightarrow> if name = valid_name then Some i else image_name_index env name (i + 1) fs
    | None \<Rightarrow> image_name_index env name (i + 1) fs)"

definition check_image_name :: "mtd_conf \<Rightarrow> (string \<Rightarrow> string option) \<Rightarrow> int" where
  "check_image_name K env =
    (case env ''filename'' of
      None \<Rightarrow> 0
    | Some name \<Rightarrow> (case image_name_index env name 0 filename of
        None \<Rightarrow> 0 | Some i \<Rightarrow> if TCSUPPORT_ARM_MULTIBOOT K \<and> i = 0 then 2 else 1))"

text \<open>parse\_fip on the memory of the state, with the variables of the caller.\<close>

definition fip_call :: "fip_vars \<Rightarrow> 'm vf_state \<Rightarrow> fault + u32 \<times> fip_vars \<times> 'm vf_state" where
  "fip_call v st = res_bind (parse_fip (ibuf st) (v\<lparr>fip_offset := ifip_offset st\<rparr>))
     (\<lambda>(smc_id, v1). Inr (smc_id, v1, st\<lparr>ifip_offset := fip_offset v1\<rparr>))"

definition fip_start :: "nat \<Rightarrow> fip_vars" where
  "fip_start pos = \<lparr>fip_buf = pos, buf_size = FIP_MAX_HEADER_SIZE, fip_off = 0, fip_size = 0, fip_flag = 0, fip_offset = 0\<rparr>"

text \<open>The branch for an image of the second stage: the algorithm comes from the fuses.\<close>

definition hash_and_verify :: "'m vf_env \<Rightarrow> u32 \<Rightarrow> fip_vars \<Rightarrow> 'm vf_state \<Rightarrow> fault + u32 \<times> 'm vf_state" where
  "hash_and_verify V smc_id v st =
    (let (alg, st1) = get_sha_alg V st
     in verify_img V (fip_buf v) (buf_size v) (alg AND HASH_MODE_MASK) (fip_off v) (fip_size v) smc_id st1)"

definition upgrade_verify :: "'m vf_env \<Rightarrow> nat \<Rightarrow> 'm vf_state \<Rightarrow> fault + u32 \<times> 'm vf_state" where
  "upgrade_verify V pos st =
    (if \<not> TCSUPPORT_ARM_SECURE_BOOT V then Inr (0, st)
     else let verify = check_image_name (vf_conf V) (uenv st)
          in if verify = 0 then Inr (0, st)
             else res_bind (fip_call (fip_start (if verify = 2 then pos + 32 else pos)) st) (\<lambda>(smc_id, v, st1).
               if smc_id = SIP_VERIFY_BL2 then Inr (decrypt_and_verify_img V (fip_buf v) (fip_size v) smc_id st1)
               else if smc_id \<noteq> 0
               then res_bind (hash_and_verify V smc_id v st1) (\<lambda>(ret, st2).
                      Inr (if ret = 0 \<and> fip_flag v = ENCRYPTED_OUTER_HEADER then ENCRYPTED_OUTER_HEADER else ret, st2))
               else Inr (-1, st1)))"

section \<open>Images on the flash\<close>

text \<open>flash\_read to position pos of the memory; the callers ignore its result.\<close>

definition load_flash :: "'m vf_env \<Rightarrow> u32 \<Rightarrow> u32 \<Rightarrow> nat \<Rightarrow> 'm vf_state \<Rightarrow> fault + 'm vf_state" where
  "load_flash V addr n pos st =
    (if length (ibuf st) < pos + unat n then Inl OutOfBounds
     else let (r, dat, h) = flash_read (vf_hal V) addr n (drop pos (ibuf st)) (ihal st)
          in Inr (st\<lparr>ihal := h, ibuf := take pos (ibuf st) @ dat\<rparr>))"

text \<open>The header of the package; behind an outer header lies the header of the encrypted image.\<close>

definition read_header :: "'m vf_env \<Rightarrow> u32 \<Rightarrow> nat \<Rightarrow> 'm vf_state \<Rightarrow> fault + u32 \<times> fip_vars \<times> 'm vf_state" where
  "read_header V addr pos st =
    res_bind (load_flash V addr FIP_MAX_HEADER_SIZE pos st) (\<lambda>st1.
    res_bind (fip_call (fip_start pos) st1) (\<lambda>(smc_id, v, st2).
      if fip_flag v = ENCRYPTED_OUTER_HEADER
      then res_bind (load_flash V (addr + FIP_MAX_HEADER_SIZE + 0x100) (buf_size v) (fip_buf v) st2) (fip_call v)
      else Inr (smc_id, v, st2)))"

definition read_flash_and_verify :: "'m vf_env \<Rightarrow> nat \<Rightarrow> u32 \<Rightarrow> 'm vf_state \<Rightarrow> fault + u32 \<times> 'm vf_state" where
  "read_flash_and_verify V pos addr st =
    (if \<not> TCSUPPORT_ARM_SECURE_BOOT V then Inr (0, st)
     else res_bind (read_header V addr pos st) (\<lambda>(smc_id, v, st1).
       if smc_id \<noteq> 0
       then if fip_flag v = ENCRYPTED_FW
            then res_bind (load_flash V (addr + FIP_MAX_HEADER_SIZE + 0x100) (fip_off v + fip_size v) (fip_buf v) st1) (\<lambda>st2.
                   Inr (decrypt_and_verify_img V (fip_buf v) (fip_size v) smc_id (st2\<lparr>image_read_mode := True\<rparr>)))
            else res_bind (load_flash V addr (fip_off v + fip_size v) (fip_buf v) st1) (hash_and_verify V smc_id v)
       else Inr (-1, st1)))"

definition kernel_addr :: "'m vf_env \<Rightarrow> u32 \<Rightarrow> fault + u32" where
  "kernel_addr V bootflag =
    (if bootflag = 0 then ecnt_get_tclinux_flash_offset (vf_conf V) (vf_mtd V)
     else ecnt_get_tclinux_slave_flash_offset (vf_conf V) (vf_mtd V))"

definition boot_verify :: "'m vf_env \<Rightarrow> nat \<Rightarrow> u32 \<Rightarrow> 'm vf_state \<Rightarrow> fault + u32 \<times> 'm vf_state" where
  "boot_verify V pos bootflag st =
    res_bind (kernel_addr V bootflag) (\<lambda>addr.
    res_bind (read_flash_and_verify V pos addr st) (\<lambda>(r, st1). Inr (if r \<noteq> 0 then -1 else 0, st1)))"

text \<open>The test command; buf\_size starts as 0, and parse\_fip then finds no entry behind a plain header.\<close>

definition fip_test_command :: "'m vf_env \<Rightarrow> nat \<Rightarrow> u32 \<Rightarrow> 'm vf_state \<Rightarrow> fault + u32 \<times> 'm vf_state" where
  "fip_test_command V pos flag st =
    (if \<not> TCSUPPORT_ARM_SECURE_BOOT V then Inr (0, st)
     else res_bind (fip_call (fip_start pos\<lparr>buf_size := 0, fip_flag := flag\<rparr>) st) (\<lambda>(smc_id, v, st1).
       if smc_id \<noteq> 0 then hash_and_verify V smc_id v st1 else Inr (0, st1)))"

end
