(* ===== verification/Verify_Theorems.thy ===== *)
theory Verify_Theorems
  imports Ecnt_Verify
begin

text \<open>
  What the verification of a kernel guarantees: a start is allowed only after the
  secure monitor accepted the digest of the bytes that lie on the flash.
\<close>

section \<open>Reading\<close>

definition flash_bytes :: "'m hal_env \<Rightarrow> 'm hal_state \<Rightarrow> nat \<Rightarrow> nat \<Rightarrow> bytes" where
  "flash_bytes E h a n = map (hal_byte E h) [a..<a + n]"

lemma length_flash_bytes [simp]: "length (flash_bytes E h a n) = n"
  by (simp add: flash_bytes_def)

lemma rd_at_eq: "off + n \<le> length mem \<Longrightarrow> rd_at rd n mem off = Inr (rd (slice off n mem))"
  by (simp add: rd_at_def)

lemma slice_flash_bytes: "off + k \<le> n \<Longrightarrow> slice off k (flash_bytes E h a n) = flash_bytes E h (a + off) k"
  by (rule nth_equalityI) (simp_all add: flash_bytes_def nth_slice add.assoc)

lemma slice_memcpy_flash:
  assumes "off + n \<le> k" "k \<le> length buf"
  shows "slice off n (memcpy buf 0 (flash_bytes E h a k)) = flash_bytes E h (a + off) n"
proof -
  have "slice off n (memcpy buf 0 (flash_bytes E h a k)) = slice off n (flash_bytes E h a k)"
    using assms by (simp add: memcpy_def slice_def)
  then show ?thesis using assms by (simp add: slice_flash_bytes)
qed

text \<open>The flash under the state is unchanged and still readable.\<close>

definition same_hal :: "'m hal_env \<Rightarrow> 'm vf_state \<Rightarrow> 'm vf_state \<Rightarrow> bool" where
  "same_hal E st st' \<longleftrightarrow> hal_ok E (ihal st') \<and> hal_byte E (ihal st') = hal_byte E (ihal st)
     \<and> hal_cap E (ihal st') = hal_cap E (ihal st) \<and> length (ibuf st') = length (ibuf st)"

lemma same_hal_trans: "same_hal E a b \<Longrightarrow> same_hal E b c \<Longrightarrow> same_hal E a c"
  by (simp add: same_hal_def)

lemma same_hal_bytes: "same_hal E st st' \<Longrightarrow> flash_bytes E (ihal st') = flash_bytes E (ihal st)"
  by (intro ext) (simp add: same_hal_def flash_bytes_def)

lemma load_flash_ok:
  assumes "hal_ok (vf_hal V) (ihal st)" "load_flash V a n pos st = Inr st'"
    and "unat a + length (ibuf st) \<le> hal_cap (vf_hal V) (ihal st)"
  shows "same_hal (vf_hal V) st st'" "pos + unat n \<le> length (ibuf st)" "image_read_mode st' = image_read_mode st"
    "ibuf st' = memcpy (ibuf st) pos (flash_bytes (vf_hal V) (ihal st) (unat a) (unat n))"
proof -
  let ?E = "vf_hal V" and ?buf = "drop pos (ibuf st)"
  show fit: "pos + unat n \<le> length (ibuf st)" using assms(2) by (auto simp: load_flash_def split: if_splits)
  obtain h' where h': "flash_read ?E a n ?buf (ihal st) = (0, memcpy ?buf 0 (flash_bytes ?E (ihal st) (unat a) (unat n)), h')" "hal_ok ?E h'"
      "hal_byte ?E h' = hal_byte ?E (ihal st)" "hal_cap ?E h' = hal_cap ?E (ihal st)"
    using hal.rd_ok[OF assms(1), of a n ?buf] assms(3) fit by (auto simp: flash_bytes_def le_diff_conv2)
  have st': "st' = st\<lparr>ihal := h', ibuf := memcpy (ibuf st) pos (flash_bytes ?E (ihal st) (unat a) (unat n))\<rparr>"
    using assms(2) fit h'(1) by (auto simp: load_flash_def memcpy_def add.commute)
  show "same_hal ?E st st'" using st' h' fit by (simp add: same_hal_def)
  show "image_read_mode st' = image_read_mode st" "ibuf st' = memcpy (ibuf st) pos (flash_bytes ?E (ihal st) (unat a) (unat n))"
    using st' by simp_all
qed

lemma load_flash_offset: "load_flash V a n pos st = Inr st' \<Longrightarrow> ifip_offset st' = ifip_offset st"
  by (auto simp: load_flash_def Let_def split: if_splits prod.splits)

lemma smc_call_offset: "smc_call V r0 r1 r2 r3 st = (r, st') \<Longrightarrow> ifip_offset st' = ifip_offset st"
  by (auto simp: smc_call_def split: prod.splits)

lemma smc_call_frame:
  assumes "smc_call V r0 r1 r2 r3 st = (r, st')"
  shows "same_hal E st st' \<longleftrightarrow> hal_ok E (ihal st)" "ibuf st' = ibuf st" "output_buf st' = output_buf st" "image_read_mode st' = image_read_mode st"
    "do_smc V r0 r1 r2 r3 (ibuf st') (output_buf st') (ramfs_mem st) = (r, ramfs_mem st')"
  using assms by (auto simp: smc_call_def same_hal_def split: prod.splits)

section \<open>Packages\<close>

lemma toc_walk_cases:
  "toc_walk tcboot mem e bufend v = Inr (r, v') \<Longrightarrow> fip_buf v' = fip_buf v \<and> buf_size v' = buf_size v
     \<and> (r = 0 \<or> r = img_smc tcboot \<and> fip_off v' = fip_offset v')"
proof (induction tcboot mem e bufend v rule: toc_walk.induct)
  case (1 tcboot mem e bufend v)
  show ?case
  proof (cases "e + toc_entry_size - 1 < bufend")
    case True
    then obtain entry where entry: "rd_at read_entry toc_entry_size mem e = Inr entry"
      using 1(2) by (subst (asm) toc_walk.simps) (auto simp: res_bind_eq_Inr)
    show ?thesis
    proof (cases "uuid entry = img_uuid tcboot")
      case same: True
      then show ?thesis using 1(2) True entry by (subst (asm) toc_walk.simps) auto
    next
      case other: False
      then have "toc_walk tcboot mem (e + toc_entry_size) bufend v = Inr (r, v')"
        using 1(2) True entry by (subst (asm) toc_walk.simps) auto
      then show ?thesis using 1(1)[OF True entry other] by simp
    qed
  next
    case False
    then show ?thesis using 1(2) by (subst (asm) toc_walk.simps) auto
  qed
qed

lemma parse_fip_cases:
  assumes "parse_fip mem v = Inr (r, v')"
  shows "r = 0 \<or> r = SIP_VERIFY_BL2 \<or> (r = SIP_VERIFY_BL33 \<and> fip_buf v' = fip_buf v \<and> buf_size v' = buf_size v \<and> fip_off v' = fip_offset v')"
    and "rd_at rd32 4 mem (fip_buf v) = Inr TOC_HEADER_NAME \<Longrightarrow> fip_buf v' = fip_buf v \<and> buf_size v' = buf_size v"
proof -
  show "r = 0 \<or> r = SIP_VERIFY_BL2 \<or> (r = SIP_VERIFY_BL33 \<and> fip_buf v' = fip_buf v \<and> buf_size v' = buf_size v \<and> fip_off v' = fip_offset v')"
    using assms unfolding parse_fip_def Let_def
    by (auto simp: res_bind_eq_Inr img_smc_def split: if_splits dest!: toc_walk_cases)
  show "fip_buf v' = fip_buf v \<and> buf_size v' = buf_size v" if "rd_at rd32 4 mem (fip_buf v) = Inr TOC_HEADER_NAME"
    using assms that unfolding parse_fip_def by (auto dest!: toc_walk_cases)
qed

lemma fip_call_ok:
  assumes "fip_call v st = Inr (smc_id, v', st')"
  shows "same_hal E st st' \<longleftrightarrow> hal_ok E (ihal st)" "ibuf st' = ibuf st" "image_read_mode st' = image_read_mode st"
    "smc_id = 0 \<or> smc_id = SIP_VERIFY_BL2 \<or> (smc_id = SIP_VERIFY_BL33 \<and> fip_buf v' = fip_buf v \<and> buf_size v' = buf_size v \<and> fip_off v' = ifip_offset st')"
    "rd_at rd32 4 (ibuf st) (fip_buf v) = Inr TOC_HEADER_NAME \<Longrightarrow> fip_buf v' = fip_buf v \<and> buf_size v' = buf_size v"
proof -
  obtain w where w: "parse_fip (ibuf st) (v\<lparr>fip_offset := ifip_offset st\<rparr>) = Inr (smc_id, w)"
      "v' = w" "st' = st\<lparr>ifip_offset := fip_offset w\<rparr>"
    using assms by (auto simp: fip_call_def res_bind_eq_Inr)
  then show "same_hal E st st' \<longleftrightarrow> hal_ok E (ihal st)" "ibuf st' = ibuf st" "image_read_mode st' = image_read_mode st"
    by (simp_all add: same_hal_def)
  show "smc_id = 0 \<or> smc_id = SIP_VERIFY_BL2 \<or> (smc_id = SIP_VERIFY_BL33 \<and> fip_buf v' = fip_buf v \<and> buf_size v' = buf_size v \<and> fip_off v' = ifip_offset st')"
    "rd_at rd32 4 (ibuf st) (fip_buf v) = Inr TOC_HEADER_NAME \<Longrightarrow> fip_buf v' = fip_buf v \<and> buf_size v' = buf_size v"
    using parse_fip_cases[OF w(1)] w(2,3) by simp_all
qed

section \<open>The start of a kernel\<close>

text \<open>The package of the kernel begins with a table of contents, and the memory fits into the flash behind it.\<close>

definition fip_on_flash :: "'m vf_env \<Rightarrow> u32 \<Rightarrow> 'm vf_state \<Rightarrow> bool" where
  "fip_on_flash V a st \<longleftrightarrow> hal_ok (vf_hal V) (ihal st) \<and> rd32 (flash_bytes (vf_hal V) (ihal st) (unat a) 4) = TOC_HEADER_NAME
     \<and> unat a + 0x2100 + length (ibuf st) \<le> hal_cap (vf_hal V) (ihal st)"

lemma fip_on_flash_addr:
  assumes "fip_on_flash V a st"
  shows "unat (a + FIP_MAX_HEADER_SIZE + 0x100) = unat a + 0x2100" "unat a + length (ibuf st) \<le> hal_cap (vf_hal V) (ihal st)"
    "unat (a + FIP_MAX_HEADER_SIZE + 0x100) + length (ibuf st) \<le> hal_cap (vf_hal V) (ihal st)"
    "length (ibuf st) < 2 ^ 31"
proof -
  have b: "unat a + 0x2100 + length (ibuf st) \<le> hal_cap (vf_hal V) (ihal st)" using assms by (simp add: fip_on_flash_def)
  have "hal_cap (vf_hal V) (ihal st) \<le> 2 ^ 30"
    using assms logic_size_30[of "nand_conf (vf_hal V)" "nand (ihal st)"] by (simp add: fip_on_flash_def hal_ok_def hal_cap_def)
  then have l: "unat a + 0x2100 + length (ibuf st) \<le> 2 ^ 30" using b by simp
  show u: "unat (a + FIP_MAX_HEADER_SIZE + 0x100) = unat a + 0x2100"
    using l by (simp add: FIP_MAX_HEADER_SIZE_def unat_word_ariths)
  show "unat a + length (ibuf st) \<le> hal_cap (vf_hal V) (ihal st)"
    "unat (a + FIP_MAX_HEADER_SIZE + 0x100) + length (ibuf st) \<le> hal_cap (vf_hal V) (ihal st)"
    "length (ibuf st) < 2 ^ 31" unfolding u using b l by simp_all
qed

lemma fip_on_flash_same: "same_hal (vf_hal V) st st' \<Longrightarrow> fip_on_flash V a st \<Longrightarrow> fip_on_flash V a st'"
  by (auto simp: fip_on_flash_def same_hal_bytes) (auto simp: same_hal_def)

lemma read_header_ok:
  assumes f: "fip_on_flash V a st" and "read_header V a 0 st = Inr (smc_id, v, st')"
  shows "same_hal (vf_hal V) st st' \<and> image_read_mode st' = image_read_mode st
     \<and> (smc_id = 0 \<or> smc_id = SIP_VERIFY_BL2 \<or> (smc_id = SIP_VERIFY_BL33 \<and> fip_buf v = 0 \<and> buf_size v = FIP_MAX_HEADER_SIZE \<and> fip_off v = ifip_offset st'))"
proof -
  have hal: "hal_ok (vf_hal V) (ihal st)" using f by (simp add: fip_on_flash_def)
  obtain st1 id1 v1 st2 where 1: "load_flash V a FIP_MAX_HEADER_SIZE 0 st = Inr st1" and 2: "fip_call (fip_start 0) st1 = Inr (id1, v1, st2)"
    and 3: "(if fip_flag v1 = ENCRYPTED_OUTER_HEADER
      then res_bind (load_flash V (a + FIP_MAX_HEADER_SIZE + 0x100) (buf_size v1) (fip_buf v1) st2) (fip_call v1)
      else Inr (id1, v1, st2)) = Inr (smc_id, v, st')"
    using assms(2) by (auto simp: read_header_def res_bind_eq_Inr)
  note l1 = load_flash_ok[OF hal 1 fip_on_flash_addr(2)[OF f]]
  have s12: "same_hal (vf_hal V) st1 st2" using fip_call_ok(1)[OF 2, of "vf_hal V"] l1(1) by (simp add: same_hal_def)
  have s2: "same_hal (vf_hal V) st st2" by (rule same_hal_trans[OF l1(1) s12])
  have "rd_at rd32 4 (ibuf st1) 0 = Inr TOC_HEADER_NAME"
    using l1(2) f slice_memcpy_flash[of 0 4 "unat FIP_MAX_HEADER_SIZE" "ibuf st" "vf_hal V" "ihal st" "unat a"]
    by (subst rd_at_eq) (simp_all add: l1(4) fip_on_flash_def FIP_MAX_HEADER_SIZE_def)
  then have v1: "fip_buf v1 = 0" "buf_size v1 = FIP_MAX_HEADER_SIZE" using fip_call_ok(5)[OF 2] by (simp_all add: fip_start_def)
  have m2: "image_read_mode st2 = image_read_mode st" using fip_call_ok(3)[OF 2] l1(3) by simp
  show ?thesis
  proof (cases "fip_flag v1 = ENCRYPTED_OUTER_HEADER")
    case True
    then obtain st3 where 4: "load_flash V (a + FIP_MAX_HEADER_SIZE + 0x100) (buf_size v1) (fip_buf v1) st2 = Inr st3"
      and 5: "fip_call v1 st3 = Inr (smc_id, v, st')" using 3 by (auto simp: res_bind_eq_Inr)
    have f2: "fip_on_flash V a st2" by (rule fip_on_flash_same[OF s2 f])
    then have hal2: "hal_ok (vf_hal V) (ihal st2)" by (simp add: fip_on_flash_def)
    note l3 = load_flash_ok[OF hal2 4 fip_on_flash_addr(3)[OF f2]]
    have "same_hal (vf_hal V) st3 st'" using fip_call_ok(1)[OF 5, of "vf_hal V"] l3(1) by (simp add: same_hal_def)
    then show ?thesis using same_hal_trans[OF s2 same_hal_trans[OF l3(1)]] fip_call_ok(3,4)[OF 5] l3(3) m2 v1 by auto
  next
    case False
    then show ?thesis using 3 s2 m2 fip_call_ok(4)[OF 2] v1 by auto
  qed
qed

text \<open>
  What the monitor has accepted when a kernel may be started: the digest of bytes of
  the flash, a decryption of bytes of the flash, or a first-stage package.
\<close>

definition digest_accepted :: "'m vf_env \<Rightarrow> u32 \<Rightarrow> 'm vf_state \<Rightarrow> 'm vf_state \<Rightarrow> bool" where
  "digest_accepted V a st st' \<longleftrightarrow> (\<exists>off (sz :: u32) alg ram d. alg \<le> 1 \<and> off = ifip_offset st'
     \<and> take (unat off + unat sz) (ibuf st') = flash_bytes (vf_hal V) (ihal st) (unat a) (unat off + unat sz)
     \<and> d = hash_func_ws V alg (flash_bytes (vf_hal V) (ihal st) (unat a + unat off) (unat sz)) \<and> take (length d) (output_buf st') = d
     \<and> fst (do_smc V SIP_VERIFY_BL33 (output_addr V) (buf_addr V) off (ibuf st') (output_buf st') ram) = 0)"

definition decryption_accepted :: "'m vf_env \<Rightarrow> u32 \<Rightarrow> 'm vf_state \<Rightarrow> 'm vf_state \<Rightarrow> bool" where
  "decryption_accepted V a st st' \<longleftrightarrow> (\<exists>smc_id pos n sz ram.
     slice pos n (ibuf st') = flash_bytes (vf_hal V) (ihal st) (unat a + 0x2100) n
     \<and> do_smc V (smc_id OR 0x10) sz (buf_addr V + of_nat pos) (CONFIG_RAMFS_BASE V) (ibuf st') (output_buf st') ram = (0, ramfs_mem st'))"

definition first_stage_accepted :: "'m vf_env \<Rightarrow> 'm vf_state \<Rightarrow> bool" where
  "first_stage_accepted V st' \<longleftrightarrow> (\<exists>r1 r2 r3 ram. fst (do_smc V SIP_VERIFY_BL2 r1 r2 r3 (ibuf st') (output_buf st') ram) = 0)"

lemma hash_and_verify_bl2:
  assumes "hash_and_verify V SIP_VERIFY_BL2 v st = Inr (r, st')" "hal_ok (vf_hal V) (ihal st)"
  shows "same_hal (vf_hal V) st st' \<and> image_read_mode st' = image_read_mode st \<and> (r = 0 \<longrightarrow> first_stage_accepted V st')"
proof -
  obtain alg st1 where 1: "get_sha_alg V st = (alg, st1)" by force
  obtain r2 r3 where 2: "smc_call V SIP_VERIFY_BL2 (fip_size v) r2 r3 st1 = (r, st')"
    using assms(1) 1 by (auto simp: hash_and_verify_def verify_img_def)
  have "same_hal (vf_hal V) st st1" "image_read_mode st1 = image_read_mode st"
    using smc_call_frame(1,4)[OF 1[unfolded get_sha_alg_def]] assms(2) by blast+
  moreover have "r = 0 \<Longrightarrow> first_stage_accepted V st'"
    unfolding first_stage_accepted_def using smc_call_frame(5)[OF 2] by (metis fst_conv)
  moreover have "same_hal (vf_hal V) st1 st'"
    using smc_call_frame(1)[OF 2, of "vf_hal V"] \<open>same_hal (vf_hal V) st st1\<close> by (simp add: same_hal_def)
  ultimately show ?thesis using smc_call_frame(4)[OF 2] same_hal_trans[of "vf_hal V" st st1 st'] by auto
qed

lemma hash_and_verify_bl33:
  assumes "hash_and_verify V SIP_VERIFY_BL33 v st = Inr (r, st')" "hal_ok (vf_hal V) (ihal st)"
    and "fip_buf v = 0" "buf_size v = FIP_MAX_HEADER_SIZE"
  obtains alg ram where "same_hal (vf_hal V) st st'" "image_read_mode st' = image_read_mode st" "alg \<le> 1"
    "unat (fip_off v) + unat (fip_size v) \<le> length (ibuf st)" "ibuf st' = ibuf st" "ifip_offset st' = ifip_offset st"
    "output_buf st' = memcpy (output_buf st) 0 (hash_func_ws V alg (slice (unat (fip_off v)) (unat (fip_size v)) (ibuf st)))"
    "fst (do_smc V SIP_VERIFY_BL33 (output_addr V) (buf_addr V) (fip_off v) (ibuf st') (output_buf st') ram) = r"
proof -
  obtain alg st1 where 1: "get_sha_alg V st = (alg, st1)" by force
  let ?alg = "alg AND HASH_MODE_MASK"
  have a1: "unat ?alg \<le> 1"
    using word_and_le1[of alg HASH_MODE_MASK] by (simp add: HASH_MODE_MASK_def word_le_nat_alt)
  have ne: "SIP_VERIFY_BL33 \<noteq> SIP_VERIFY_BL2" by (simp add: SIP_VERIFY_BL33_def SIP_VERIFY_BL2_def)
  obtain st2 where 2: "hash_image V 0 ?alg (fip_off v) (fip_size v) st1 = Inr st2"
    and 3: "smc_call V SIP_VERIFY_BL33 (output_addr V) (buf_addr V) (fip_off v) st2 = (r, st')"
    using assms(1,3,4) 1 ne by (auto simp: hash_and_verify_def verify_img_def res_bind_eq_Inr)
  note f1 = smc_call_frame[OF 1[unfolded get_sha_alg_def]] and f3 = smc_call_frame[OF 3]
  have h: "unat (fip_off v) + unat (fip_size v) \<le> length (ibuf st1)"
      "st2 = st1\<lparr>output_buf := memcpy (output_buf st1) 0 (hash_func_ws V (unat ?alg) (slice (unat (fip_off v)) (unat (fip_size v)) (ibuf st1)))\<rparr>"
    using 2 by (auto simp: hash_image_def Let_def res_bind_eq_Inr rd_at_def split: if_splits)
  have s: "same_hal (vf_hal V) st st'"
    using f1(1)[of "vf_hal V"] f3(1)[of "vf_hal V"] assms(2) h(2) by (auto simp: same_hal_def)
  show ?thesis
    by (rule that[OF s, of "unat ?alg" "ramfs_mem st2"]) (use a1 f1 f3 h smc_call_offset[OF 1[unfolded get_sha_alg_def]] smc_call_offset[OF 3] in simp_all)
qed

lemma decrypt_loaded:
  assumes f: "fip_on_flash V a st" and s1: "same_hal (vf_hal V) st st1"
    and load: "load_flash V (a + FIP_MAX_HEADER_SIZE + 0x100) n pos st1 = Inr st2"
    and run: "decrypt_and_verify_img V pos sz smc_id (st2\<lparr>image_read_mode := True\<rparr>) = (0, st')"
  shows "same_hal (vf_hal V) st st' \<and> image_read_mode st' \<and> decryption_accepted V a st st'"
proof -
  let ?E = "vf_hal V"
  have f1: "fip_on_flash V a st1" by (rule fip_on_flash_same[OF s1 f])
  then have hal1: "hal_ok ?E (ihal st1)" by (simp add: fip_on_flash_def)
  note l = load_flash_ok[OF hal1 load fip_on_flash_addr(3)[OF f1]] and c = smc_call_frame[OF run[unfolded decrypt_and_verify_img_def]]
  have "slice pos (unat n) (ibuf st') = flash_bytes ?E (ihal st) (unat a + 0x2100) (unat n)"
    using l(2,4) c(2) slice_memcpy_same[of pos "ibuf st1" "flash_bytes ?E (ihal st) (unat a + 0x2100) (unat n)"]
    by (simp add: fip_on_flash_addr(1)[OF f] same_hal_bytes[OF s1])
  then have "decryption_accepted V a st st'" unfolding decryption_accepted_def using c(5) by blast
  moreover have "same_hal ?E st2 st'" using c(1)[of ?E] l(1) by (simp add: same_hal_def)
  ultimately show ?thesis using c(4) same_hal_trans[OF s1 same_hal_trans[OF l(1)]] by simp
qed

lemma hash_loaded:
  assumes f: "fip_on_flash V a st" and s1: "same_hal (vf_hal V) st st1" and pos: "fip_buf v = 0" "buf_size v = FIP_MAX_HEADER_SIZE" "fip_off v = ifip_offset st1"
    and load: "load_flash V a (fip_off v + fip_size v) 0 st1 = Inr st2" and run: "hash_and_verify V SIP_VERIFY_BL33 v st2 = Inr (0, st')"
  shows "same_hal (vf_hal V) st st' \<and> image_read_mode st' = image_read_mode st1 \<and> digest_accepted V a st st'"
proof -
  let ?E = "vf_hal V" and ?off = "unat (fip_off v)" and ?sz = "unat (fip_size v)"
  have f1: "fip_on_flash V a st1" by (rule fip_on_flash_same[OF s1 f])
  then have hal1: "hal_ok ?E (ihal st1)" by (simp add: fip_on_flash_def)
  note l = load_flash_ok[OF hal1 load fip_on_flash_addr(2)[OF f1]]
  have s2: "same_hal ?E st st2" by (rule same_hal_trans[OF s1 l(1)])
  have len: "length (ibuf st2) = length (ibuf st1)" "hal_ok ?E (ihal st2)" using l(1) by (simp_all add: same_hal_def)
  from hash_and_verify_bl33[OF run len(2) pos(1,2)] obtain alg ram where r: "same_hal ?E st2 st'"
    "image_read_mode st' = image_read_mode st2" "alg \<le> 1" "?off + ?sz \<le> length (ibuf st2)" "ibuf st' = ibuf st2" "ifip_offset st' = ifip_offset st2"
    "output_buf st' = memcpy (output_buf st2) 0 (hash_func_ws V alg (slice ?off ?sz (ibuf st2)))"
    "fst (do_smc V SIP_VERIFY_BL33 (output_addr V) (buf_addr V) (fip_off v) (ibuf st') (output_buf st') ram) = 0" by blast
  have "?off + ?sz < 2 ^ 32" using r(4) fip_on_flash_addr(4)[OF f1] len by simp
  then have u: "unat (fip_off v + fip_size v) = ?off + ?sz" by (simp add: unat_word_ariths)
  have buf: "ibuf st2 = memcpy (ibuf st1) 0 (flash_bytes ?E (ihal st) (unat a) (?off + ?sz))"
    using l(4) by (simp add: u same_hal_bytes[OF s1])
  have t: "take (?off + ?sz) (ibuf st') = flash_bytes ?E (ihal st) (unat a) (?off + ?sz)" by (simp add: r(5) buf memcpy_def)
  have o: "fip_off v = ifip_offset st'" using pos(3) r(6) load_flash_offset[OF load] by simp
  have "slice ?off ?sz (ibuf st2) = flash_bytes ?E (ihal st) (unat a + ?off) ?sz"
    unfolding buf by (rule slice_memcpy_flash) (use r(4) len in simp_all)
  then have "digest_accepted V a st st'" unfolding digest_accepted_def
    using r(3,7,8) t o by (intro exI[of _ "fip_off v"] exI[of _ "fip_size v"] exI[of _ alg] exI[of _ ram]) (auto simp: memcpy_def)
  then show ?thesis using same_hal_trans[OF s2 r(1)] r(2) l(3) by simp
qed

lemma read_flash_and_verify_ok:
  assumes f: "fip_on_flash V a st" and m: "\<not> image_read_mode st" and sec: "TCSUPPORT_ARM_SECURE_BOOT V"
    and run: "read_flash_and_verify V 0 a st = Inr (0, st')"
  shows "same_hal (vf_hal V) st st' \<and>
     (if image_read_mode st' then decryption_accepted V a st st' else digest_accepted V a st st' \<or> first_stage_accepted V st')"
proof -
  let ?E = "vf_hal V"
  obtain smc_id v st1 where 1: "read_header V a 0 st = Inr (smc_id, v, st1)"
    and 2: "(if smc_id \<noteq> 0
       then if fip_flag v = ENCRYPTED_FW
            then res_bind (load_flash V (a + FIP_MAX_HEADER_SIZE + 0x100) (fip_off v + fip_size v) (fip_buf v) st1) (\<lambda>st2.
                   Inr (decrypt_and_verify_img V (fip_buf v) (fip_size v) smc_id (st2\<lparr>image_read_mode := True\<rparr>)))
            else res_bind (load_flash V a (fip_off v + fip_size v) (fip_buf v) st1) (hash_and_verify V smc_id v)
       else Inr (-1, st1)) = Inr (0, st')"
    using run sec by (auto simp: read_flash_and_verify_def res_bind_eq_Inr)
  note h = read_header_ok[OF f 1]
  have s1: "same_hal ?E st st1" and m1: "\<not> image_read_mode st1" using h m by auto
  have id0: "smc_id \<noteq> 0" using 2 by (auto split: if_splits)
  have f1: "fip_on_flash V a st1" by (rule fip_on_flash_same[OF s1 f])
  then have hal1: "hal_ok ?E (ihal st1)" by (simp add: fip_on_flash_def)
  show ?thesis
  proof (cases "fip_flag v = ENCRYPTED_FW")
    case True
    then show ?thesis using 2 id0 decrypt_loaded[OF f s1] by (auto simp: res_bind_eq_Inr)
  next
    case False
    then obtain st2 where 3: "load_flash V a (fip_off v + fip_size v) (fip_buf v) st1 = Inr st2"
      and 4: "hash_and_verify V smc_id v st2 = Inr (0, st')" using 2 id0 by (auto simp: res_bind_eq_Inr)
    note l = load_flash_ok[OF hal1 3 fip_on_flash_addr(2)[OF f1]]
    have s2: "same_hal ?E st st2" by (rule same_hal_trans[OF s1 l(1)])
    then have hal2: "hal_ok ?E (ihal st2)" by (simp add: same_hal_def)
    show ?thesis
    proof (cases "smc_id = SIP_VERIFY_BL2")
      case True
      show ?thesis using hash_and_verify_bl2[OF 4[unfolded True] hal2] same_hal_trans[OF s2] l(3) m1 by simp
    next
      case other: False
      then have b: "smc_id = SIP_VERIFY_BL33" "fip_buf v = 0" "buf_size v = FIP_MAX_HEADER_SIZE" "fip_off v = ifip_offset st1" using h id0 by auto
      show ?thesis using hash_loaded[OF f s1 b(2-4) 3[unfolded b(2)] 4[unfolded b(1)]] m1 by simp
    qed
  qed
qed

text \<open>
  With secure boot a kernel is started only if the secure monitor agreed. boot\_verify returns 0 only when
  the monitor accepted a digest that is the hash of the image bytes as they lie on the
  flash, in the range that the table of contents names, together with the package header from the flash; or it decrypted bytes of the flash into
  the memory that is then used instead of the flash; or it accepted a first-stage
  package. The index of the hash algorithm stays inside its table of two, and the flash is only read.
\<close>

lemma boot_verify_accepts_signed_only:
  assumes "TCSUPPORT_ARM_SECURE_BOOT V" and "kernel_addr V bootflag = Inr a" and "fip_on_flash V a st" and "\<not> image_read_mode st"
    and "boot_verify V 0 bootflag st = Inr (0, st')"
  shows "hal_byte (vf_hal V) (ihal st') = hal_byte (vf_hal V) (ihal st) \<and>
     (if image_read_mode st' then decryption_accepted V a st st' else digest_accepted V a st st' \<or> first_stage_accepted V st')"
proof -
  have "read_flash_and_verify V 0 a st = Inr (0, st')"
    using assms(2,5) by (auto simp: boot_verify_def res_bind_eq_Inr split: if_splits)
  from read_flash_and_verify_ok[OF assms(3,4,1) this] show ?thesis by (simp add: same_hal_def)
qed

section \<open>A signed package on a chip with blocks of 128 KiB\<close>

definition big_cfg :: nand_cfg where
  "big_cfg = demo_cfg\<lparr>erase_shift := 17, chip_shift := 19\<rparr>"

lemma big_sizes [simp]:
  "page_size big_cfg = 1024" "erase_size big_cfg = 131072" "oob_size big_cfg = 64" "pages_per_block big_cfg = 128"
  "block_total big_cfg = 4" "device_size big_cfg = 524288"
  by (simp_all add: page_size_def erase_size_def oob_size_def pages_per_block_def block_total_def device_size_def big_cfg_def demo_cfg_def)

text \<open>The chip with given contents, under an empty table and with an environment without faults.\<close>

definition big_hal :: "(nat \<Rightarrow> bytes) \<Rightarrow> unit hal_state" where
  "big_hal pages = demo_hal\<lparr>nand := demo_globals\<lparr>dev := demo_dev\<lparr>flash_data := pages\<rparr>\<rparr>\<rparr>"

definition big_env :: "unit hal_env" where
  "big_env = demo_env\<lparr>nand_conf := big_cfg\<rparr>"

lemma big_hal_ok:
  assumes "\<And>p. length (pages p) = 1024"
  shows "hal_ok big_env (big_hal pages)" "hal_cap big_env (big_hal pages) = 262144"
proof -
  let ?s = "demo_globals\<lparr>dev := demo_dev\<lparr>flash_data := pages\<rparr>\<rparr>"
  have "wf_cfg big_cfg" by (simp add: wf_cfg_def big_cfg_def demo_cfg_def)
  then have "wf_dev big_cfg (demo_dev\<lparr>flash_data := pages\<rparr>)"
    using assms by (simp add: wf_dev_defs wf_faults_def demo_dev_def) (simp add: big_cfg_def demo_cfg_def)
  moreover have "create_badblock_table_by_bbt 2 (init_bbt ?s) = [0, 1]"
    by (simp add: create_badblock_table_by_bbt_def demo_globals_def upt_rec)
  moreover have "ascending_bbt 2 (init_bbt ?s)" by (simp add: ascending_bbt_def demo_globals_def wf_bbt_def raw_bad_blocks_def)
  moreover have "bmt_inv 2 4 (bmt ?s)" by (simp add: bmt_inv_def live_entries_def demo_globals_def)
  ultimately have "rw_inv big_cfg ?s" by (simp add: rw_inv_def) (simp add: demo_globals_def)
  moreover have "reads_clean big_cfg" "writes_clean big_cfg" "erases_clean big_cfg"
    by (simp_all add: reads_clean_def reads_ok_def writes_clean_def erases_clean_def big_cfg_def demo_cfg_def)
  ultimately show "hal_ok big_env (big_hal pages)" by (simp add: hal_ok_def nand_env_def big_env_def big_hal_def demo_env_def)
  show "hal_cap big_env (big_hal pages) = 262144"
    by (simp add: hal_cap_def logic_size_def logic_blocks_def big_env_def big_hal_def) (simp add: demo_globals_def)
qed

lemma big_hal_byte: "k < 1024 \<Longrightarrow> hal_byte big_env (big_hal pages) k = pages 0 ! k"
  by (simp add: hal_byte_def flash_byte_def big_hal_def big_env_def phys_page_def map_block_def get_mapping_block_index_def
      get_mapping_block_index_by_bbt_def get_mapping_block_index_by_bmt_def live_entries_def demo_globals_def)

definition signed_toc :: "fip_toc_entry list" where
  "signed_toc = [\<lparr>uuid = UUID_NON_TRUSTED_FIRMWARE_BL33, offset_address = 0x100, toc_size = 0x300, toc_flags = 0\<rparr>]"

definition signed_pages :: "nat \<Rightarrow> bytes" where
  "signed_pages p = (if p = 0 then print_toc 7 0 signed_toc @ replicate 456 0xAB @ [0xD0, 0x0D, 0xFE, 0xED] @ replicate 508 0 else replicate 1024 0xFF)"

text \<open>A monitor that accepts every digest.\<close>

definition demo_vf :: "unit vf_env" where
  "demo_vf = \<lparr>vf_hal = big_env, vf_conf = demo_mtd_conf, vf_mtd = demo_mtd\<lparr>ecnt_parts := [entry_of TCLINUX 2048 0]\<rparr>, TCSUPPORT_ARM_SECURE_BOOT = True,
     do_smc = (\<lambda>_ _ _ _ _ _ ram. (0, ram)), hash_func_ws = (\<lambda>_ b. take 4 b), buf_addr = 0x81000000, output_addr = 0x80000000,
     CONFIG_RAMFS_BASE = 0x82000000\<rparr>"

definition demo_vf_state :: "unit vf_state" where
  "demo_vf_state = \<lparr>ihal = big_hal signed_pages, ibuf = replicate 0x2000 0, image_read_mode = False, ifip_offset = 0x2000, uenv = (\<lambda>_. None),
     output_buf = replicate 64 0, ramfs_mem = (\<lambda>_. 0)\<rparr>"

lemma length_signed_toc: "length (print_toc 7 0 signed_toc) = 56"
  by (simp add: print_toc_def print_entry_def signed_toc_def UUID_NON_TRUSTED_FIRMWARE_BL33_def)

lemma signed_byte: "k < 56 \<Longrightarrow> hal_byte big_env (big_hal signed_pages) k = print_toc 7 0 signed_toc ! k"
  by (simp add: big_hal_byte signed_pages_def nth_append length_signed_toc)

lemma demo_vf_facts:
  "TCSUPPORT_ARM_SECURE_BOOT demo_vf" "vf_hal demo_vf = big_env" "kernel_addr demo_vf 0 = Inr 0" "\<not> image_read_mode demo_vf_state"
  "length (ibuf demo_vf_state) = 0x2000" "fip_on_flash demo_vf 0 demo_vf_state"
proof -
  show "TCSUPPORT_ARM_SECURE_BOOT demo_vf" "vf_hal demo_vf = big_env" "\<not> image_read_mode demo_vf_state" "length (ibuf demo_vf_state) = 0x2000"
    by (simp_all add: demo_vf_def demo_vf_state_def)
  show "kernel_addr demo_vf 0 = Inr 0"
    by (simp add: kernel_addr_def ecnt_get_tclinux_flash_offset_def mtd_offset_or_0_def ecnt_get_mtd_offset_def demo_vf_def part_is_def
        entry_of_def OFFSET_NOT_FOUND_def demo_mtd_conf_def)
  have len: "length (signed_pages p) = 1024" for p by (simp add: signed_pages_def length_signed_toc)
  have "flash_bytes big_env (big_hal signed_pages) 0 4 = take 4 (print_toc 7 0 signed_toc)"
    by (rule nth_equalityI) (simp_all add: flash_bytes_def signed_byte length_signed_toc)
  also have "\<dots> = le32 TOC_HEADER_NAME" by (simp add: print_toc_def)
  finally show "fip_on_flash demo_vf 0 demo_vf_state"
    using big_hal_ok[OF len] by (simp add: fip_on_flash_def demo_vf_def demo_vf_state_def)
qed

lemma load_flash_total: "pos + unat n \<le> length (ibuf st) \<Longrightarrow> \<exists>st'. load_flash V a n pos st = Inr st'"
  by (simp add: load_flash_def split: prod.splits)

text \<open>Any environment over this chip whose monitor accepts the digest lets the kernel start.\<close>

lemma signed_fip_on_flash: "vf_hal V = big_env \<Longrightarrow> fip_on_flash V 0 demo_vf_state"
  using demo_vf_facts(2,6) by (simp add: fip_on_flash_def)

lemma demo_header:
  assumes "vf_hal V = big_env"
  shows "\<exists>v st'. read_header V 0 0 demo_vf_state = Inr (SIP_VERIFY_BL33, v, st') \<and> fip_off v = 0x100 \<and> fip_size v = 0x300 \<and> fip_flag v = 0"
proof -
  note F = demo_vf_facts
  obtain st1 where 1: "load_flash V 0 FIP_MAX_HEADER_SIZE 0 demo_vf_state = Inr st1"
    using load_flash_total[of 0 FIP_MAX_HEADER_SIZE demo_vf_state V 0] F(5) by (auto simp: FIP_MAX_HEADER_SIZE_def)
  have f: "fip_on_flash V 0 demo_vf_state" by (rule signed_fip_on_flash[OF assms])
  then have hal: "hal_ok (vf_hal V) (ihal demo_vf_state)" by (simp add: fip_on_flash_def)
  note l = load_flash_ok[OF hal 1 fip_on_flash_addr(2)[OF f]]
  have "take 56 (ibuf st1) = print_toc 7 0 signed_toc"
  proof (rule nth_equalityI)
    show "length (take 56 (ibuf st1)) = length (print_toc 7 0 signed_toc)" using l(1) F(5) by (simp add: same_hal_def length_signed_toc)
    show "take 56 (ibuf st1) ! i = print_toc 7 0 signed_toc ! i" if "i < length (take 56 (ibuf st1))" for i
      using that l(4) by (simp add: memcpy_def flash_bytes_def nth_append FIP_MAX_HEADER_SIZE_def assms demo_vf_state_def signed_byte)
  qed
  then have m: "ibuf st1 = [] @ print_toc 7 0 signed_toc @ drop 56 (ibuf st1)" by (metis append_Nil append_take_drop_id)
  let ?v = "fip_start 0\<lparr>fip_offset := ifip_offset st1\<rparr>"
  have "parse_fip (ibuf st1) ?v = Inr (SIP_VERIFY_BL33, ?v\<lparr>fip_off := 0x100, fip_size := 0x300, fip_flag := 0, fip_offset := 0x100\<rparr>)"
    using parse_fip_toc[of signed_toc "signed_toc ! 0" 7 0 ?v "[]" "drop 56 (ibuf st1)"] length_signed_toc unfolding m[symmetric]
    by (simp add: signed_toc_def UUID_NON_TRUSTED_FIRMWARE_BL33_def fip_start_def FIP_MAX_HEADER_SIZE_def)
  then show ?thesis using 1 by (simp add: read_header_def fip_call_def fip_start_def ENCRYPTED_OUTER_HEADER_def)
qed

lemma demo_boot_verify:
  assumes V: "vf_hal V = big_env" "TCSUPPORT_ARM_SECURE_BOOT V" "kernel_addr V 0 = Inr 0"
    and smc: "\<And>mem out ram. fst (do_smc V SIP_VERIFY_BL33 (output_addr V) (buf_addr V) 0x100 mem out ram) = 0"
  shows "\<exists>st'. boot_verify V 0 0 demo_vf_state = Inr (0, st') \<and> \<not> image_read_mode st' \<and> ifip_offset st' = 0x100"
proof -
  note F = demo_vf_facts and f = signed_fip_on_flash[OF V(1)]
  obtain v st1 where 1: "read_header V 0 0 demo_vf_state = Inr (SIP_VERIFY_BL33, v, st1)"
    and v: "fip_off v = 0x100" "fip_size v = 0x300" "fip_flag v = 0" using demo_header[OF V(1)] by blast
  have ne: "SIP_VERIFY_BL33 \<noteq> SIP_VERIFY_BL2" "SIP_VERIFY_BL33 \<noteq> 0" by (simp_all add: SIP_VERIFY_BL33_def SIP_VERIFY_BL2_def)
  note h = read_header_ok[OF f 1]
  have v0: "fip_buf v = 0" "buf_size v = FIP_MAX_HEADER_SIZE" and m1: "\<not> image_read_mode st1" "ifip_offset st1 = 0x100" using h ne F(4) v(1) by auto
  have len1: "length (ibuf st1) = 0x2000" using h F(5) by (simp add: same_hal_def)
  obtain st2 where 2: "load_flash V 0 0x400 0 st1 = Inr st2"
    using load_flash_total[of 0 "0x400" st1 V 0] len1 by auto
  have hal1: "hal_ok (vf_hal V) (ihal st1)" "0 + length (ibuf st1) \<le> hal_cap (vf_hal V) (ihal st1)"
    using h fip_on_flash_addr(2)[OF f] by (simp_all add: same_hal_def)
  have l: "same_hal (vf_hal V) st1 st2" "image_read_mode st2 = image_read_mode st1"
    using load_flash_ok(1,3)[OF hal1(1) 2] hal1(2) by simp_all
  have len2: "length (ibuf st2) = 0x2000" "hal_ok (vf_hal V) (ihal st2)" using l(1) len1 by (simp_all add: same_hal_def)
  obtain alg sta where g: "get_sha_alg V st2 = (alg, sta)" by force
  have la: "length (ibuf sta) = 0x2000" using smc_call_frame(2)[OF g[unfolded get_sha_alg_def]] len2(1) by simp
  obtain r st' where 3: "hash_and_verify V SIP_VERIFY_BL33 v st2 = Inr (r, st')"
    using that la v v0 ne g by (simp add: hash_and_verify_def verify_img_def hash_image_def rd_at_def) (metis surj_pair)
  from hash_and_verify_bl33[OF 3 len2(2) v0] obtain ram where
    r: "image_read_mode st' = image_read_mode st2 \<and> ifip_offset st' = ifip_offset st2" "fst (do_smc V SIP_VERIFY_BL33 (output_addr V) (buf_addr V) (fip_off v) (ibuf st') (output_buf st') ram) = r"
    by blast
  then have "r = 0" using smc v(1) by simp
  moreover have "boot_verify V 0 0 demo_vf_state = Inr (if r \<noteq> 0 then -1 else 0, st')"
    using V(2,3) 1 2 3 v v0 ne by (simp add: boot_verify_def read_flash_and_verify_def ENCRYPTED_FW_def)
  ultimately show ?thesis using r(1) l(2) m1 load_flash_offset[OF 2] by simp
qed

lemma boot_verify_accepts_signed_only_witness:
  "\<exists>st'. boot_verify demo_vf 0 0 demo_vf_state = Inr (0, st') \<and> (digest_accepted demo_vf 0 demo_vf_state st' \<or> first_stage_accepted demo_vf st')"
proof -
  note F = demo_vf_facts
  obtain st' where r: "boot_verify demo_vf 0 0 demo_vf_state = Inr (0, st')" "\<not> image_read_mode st'"
    using demo_boot_verify[OF F(2,1,3)] by (auto simp: demo_vf_def)
  then show ?thesis using boot_verify_accepts_signed_only[OF F(1,3,6,4) r(1)] by auto
qed

end
