(* ===== verification/Image_Upgrade.thy ===== *)
theory Image_Upgrade
  imports Verify_Theorems
begin

text \<open>
  Upgrade with a received file (ecnt\_ImageUpgrade in drivers/misc/ecnt/image/ecnt\_image.c): after a
  transfer the file in memory is verified, its kind is recognised by its name, its
  checksums are compared, and it is written to the partition of its kind.

  The file lies at the start of the memory ibuf. The device-tree verification and
  the checksum are functions of U-Boot and parameters. ecnt\_get\_ubootenv\_size and
  ecnt\_get\_factory\_size have no return statement; what their callers see is
  a parameter. The commands that end an upgrade (go, reset) are the result; the rate limit of the switch
  has no counterpart. Processors are little-endian, and the build has the upgrade by file name.
\<close>

record 'm up_env =
  up_vf :: "'m vf_env"
  fit_verify :: "bytes \<Rightarrow> nat \<Rightarrow> int"
  crc32_of :: "u32 \<Rightarrow> bytes \<Rightarrow> u32"
  ecnt_get_ubootenv_size :: u32
  ecnt_get_factory_size :: u32

definition CONFIG_TCBOOT_OFFSET :: u32 where "CONFIG_TCBOOT_OFFSET = 0"
definition CONFIG_MTK_ALLINONE_OFFSET :: u32 where "CONFIG_MTK_ALLINONE_OFFSET = 0"
definition CONFIG_ENV_SIZE :: u32 where "CONFIG_ENV_SIZE = 0x4000"
definition CRC_START :: u32 where "CRC_START = 0xFFFFFFFF"

definition mtk_get_fip_offset :: "'m vf_env \<Rightarrow> u32" where
  "mtk_get_fip_offset V = (if TCSUPPORT_ARM_SECURE_BOOT V then 0x2000 else 0)"

datatype file_kind = UBOOT_FILE | KERNEL_FILE | SINGLE_IMAGE_FILE | UNKNOWN_FILE

text \<open>strcmp(s, getenv(var)); a missing variable is a null pointer.\<close>

definition name_is :: "'m vf_state \<Rightarrow> string \<Rightarrow> fault + bool" where
  "name_is st var = (case (uenv st ''filename'', uenv st var) of (Some s, Some t) \<Rightarrow> Inr (s = t) | _ \<Rightarrow> Inl NullPointer)"

definition kind_of_file :: "'m vf_state \<Rightarrow> fault + file_kind" where
  "kind_of_file st =
    res_bind (name_is st ''uboot_filename'') (\<lambda>b. if b then Inr UBOOT_FILE
      else res_bind (name_is st ''kernel_filename'') (\<lambda>b. if b then Inr KERNEL_FILE
      else res_bind (name_is st ''singleImage_filename'') (\<lambda>b. Inr (if b then SINGLE_IMAGE_FILE else UNKNOWN_FILE))))"

section \<open>Checks\<close>

definition crc_of :: "'m up_env \<Rightarrow> u32 \<Rightarrow> u32 \<Rightarrow> 'm vf_state \<Rightarrow> fault + u32" where
  "crc_of U pos n st = rd_at (crc32_of U CRC_START) (unat n) (ibuf st) (unat pos)"

text \<open>Fields of the trx header at pos.\<close>

definition trx_header_len :: "u32 \<Rightarrow> 'm vf_state \<Rightarrow> fault + u32" where
  "trx_header_len pos st = rd_at rd32 4 (ibuf st) (unat (pos + 4))"
definition trx_len :: "u32 \<Rightarrow> 'm vf_state \<Rightarrow> fault + u32" where
  "trx_len pos st = rd_at rd32 4 (ibuf st) (unat (pos + 8))"
definition trx_crc32 :: "u32 \<Rightarrow> 'm vf_state \<Rightarrow> fault + u32" where
  "trx_crc32 pos st = rd_at rd32 4 (ibuf st) (unat (pos + 12))"

definition trx_hash_check :: "'m up_env \<Rightarrow> u32 \<Rightarrow> u32 \<Rightarrow> 'm vf_state \<Rightarrow> fault + u32" where
  "trx_hash_check U stat pos st =
    (if stat = 0 then res_bind (trx_header_len pos st) (\<lambda>hl. Inr (if fit_verify U (ibuf st) (unat (pos + hl)) \<noteq> 1 then -1 else 0))
     else Inr 0)"

definition trx_crc_check :: "'m up_env \<Rightarrow> u32 \<Rightarrow> 'm vf_state \<Rightarrow> fault + u32" where
  "trx_crc_check U pos st =
    res_bind (trx_header_len pos st) (\<lambda>hl. res_bind (trx_len pos st) (\<lambda>len.
    res_bind (crc_of U (pos + hl) (len - hl) st) (\<lambda>cal_check_sum. res_bind (trx_crc32 pos st) (\<lambda>crc.
      Inr (if cal_check_sum \<noteq> crc then -1 else 0)))))"

definition kernel_check :: "'m up_env \<Rightarrow> u32 \<Rightarrow> u32 \<Rightarrow> 'm vf_state \<Rightarrow> fault + u32" where
  "kernel_check U img_size stat st =
    (let pos = ifip_offset st
     in res_bind (trx_hash_check U stat pos st) (\<lambda>check_value. res_bind (trx_len pos st) (\<lambda>len.
          if img_size < len then Inr (-1)
          else res_bind (trx_crc_check U pos st) (\<lambda>c. Inr (if c \<noteq> 0 then c else check_value)))))"

definition part_check :: "'m up_env \<Rightarrow> u32 \<Rightarrow> u32 \<Rightarrow> 'm vf_state \<Rightarrow> fault + u32" where
  "part_check U stat pos st =
    res_bind (trx_hash_check U stat pos st) (\<lambda>h. res_bind (trx_crc_check U pos st) (\<lambda>c. Inr (if c \<noteq> 0 then c else h)))"

definition single_image_check :: "'m up_env \<Rightarrow> u32 \<Rightarrow> 'm vf_state \<Rightarrow> fault + u32" where
  "single_image_check U stat st =
    (let V = up_vf U
     in res_bind (ecnt_get_boot_size (vf_mtd V)) (\<lambda>mtk_tcboot_size. res_bind (ecnt_get_tclinux_size (vf_mtd V)) (\<lambda>tclinux.
        let mtk_main_image_offset = mtk_tcboot_size + ecnt_get_ubootenv_size U + ecnt_get_factory_size U;
            mtk_second_image_offset = mtk_main_image_offset + tclinux
        in res_bind (crc_of U 0 (mtk_tcboot_size - CONFIG_ENV_SIZE) st) (\<lambda>bl_check.
           res_bind (part_check U stat (mtk_main_image_offset + mtk_get_fip_offset V) st) (\<lambda>main_check.
           res_bind (part_check U stat (mtk_second_image_offset + mtk_get_fip_offset V) st) (\<lambda>second_check.
             Inr (if bl_check \<noteq> 0 \<or> main_check \<noteq> 0 \<or> second_check \<noteq> 0 then -1 else 0)))))))"

text \<open>The address the file goes to and the outcome of its check.\<close>

definition upgrade_target :: "'m up_env \<Rightarrow> u32 \<Rightarrow> u32 \<Rightarrow> file_kind \<Rightarrow> 'm vf_state \<Rightarrow> fault + u32 \<times> u32" where
  "upgrade_target U img_size stat kind st =
    (case kind of
      UBOOT_FILE \<Rightarrow> res_bind (crc_of U 0 (img_size - CONFIG_ENV_SIZE) st) (\<lambda>check_value. Inr (CONFIG_TCBOOT_OFFSET, check_value))
    | KERNEL_FILE \<Rightarrow> res_bind (ecnt_get_tclinux_flash_offset (vf_conf (up_vf U)) (vf_mtd (up_vf U))) (\<lambda>addr.
        res_bind (kernel_check U img_size stat st) (\<lambda>check_value. Inr (addr, check_value)))
    | SINGLE_IMAGE_FILE \<Rightarrow> res_bind (single_image_check U stat st) (\<lambda>check_value. Inr (CONFIG_MTK_ALLINONE_OFFSET, check_value))
    | UNKNOWN_FILE \<Rightarrow> Inr (0xFFFFFFFF, 0))"

section \<open>Writing\<close>

definition up_erase :: "'m vf_env \<Rightarrow> u32 \<Rightarrow> u32 \<Rightarrow> 'm vf_state \<Rightarrow> fault + 'm vf_state" where
  "up_erase V a n st = res_bind (flash_erase (vf_hal V) a n (ihal st)) (\<lambda>(r, h). Inr (st\<lparr>ihal := h\<rparr>))"

definition up_store :: "'m vf_env \<Rightarrow> u32 \<Rightarrow> u32 \<Rightarrow> 'm vf_state \<Rightarrow> fault + 'm vf_state" where
  "up_store V addr img_size st =
    res_bind (up_erase V addr img_size st) (\<lambda>st1.
      if length (ibuf st1) < unat img_size then Inl OutOfBounds
      else res_bind (flash_write (vf_hal V) addr img_size (ibuf st1) (ihal st1)) (\<lambda>(r, h). Inr (st1\<lparr>ihal := h\<rparr>)))"

text \<open>After a kernel the user data is erased and the board started; after a bootloader it is reset. The names are compared again.\<close>

definition after_store :: "'m vf_env \<Rightarrow> 'm vf_state \<Rightarrow> fault + string list \<times> 'm vf_state" where
  "after_store V st =
    res_bind (name_is st ''kernel_filename'') (\<lambda>kernel.
    res_bind (if kernel
              then res_bind (do_get_mtd_rootfsdata_info (vf_mtd V)) (\<lambda>info.
                     case info of None \<Rightarrow> Inr ([], st)
                     | Some (addr, sz) \<Rightarrow> res_bind (up_erase V addr sz st) (\<lambda>st1. Inr ([''go''], st1)))
              else Inr ([], st)) (\<lambda>(cmds, st1).
    res_bind (name_is st ''uboot_filename'') (\<lambda>uboot. Inr (if uboot then cmds @ [''reset''] else cmds, st1))))"

definition ecnt_ImageUpgrade :: "'m up_env \<Rightarrow> u32 \<Rightarrow> 'm vf_state \<Rightarrow> fault + string list \<times> 'm vf_state" where
  "ecnt_ImageUpgrade U img_size st =
    (let V = up_vf U
     in res_bind (ecnt_get_boot_size (vf_mtd V)) (\<lambda>_. res_bind (ecnt_get_tclinux_size (vf_mtd V)) (\<lambda>_.
        res_bind (upgrade_verify V 0 st) (\<lambda>(stat, st1).
          if stat \<noteq> 0 \<and> stat \<noteq> 2 then Inr ([], st1)
          else res_bind (kind_of_file st1) (\<lambda>kind.
               res_bind (upgrade_target U img_size stat kind st1) (\<lambda>(addr, check_value).
                 if addr = 0xFFFFFFFF then Inr ([], st1)
                 else if check_value \<noteq> 0 then Inr ([], st1)
                 else res_bind (up_store V addr img_size st1) (after_store V)))))))"

end
