(* ===== verification/Upgrade_Theorems.thy ===== *)
theory Upgrade_Theorems
  imports Image_Upgrade
begin

text \<open>
  What an upgrade with a received file guarantees: the flash is touched only after the secure monitor and
  the checksums agreed to the file, and then the file lies in its partition.
\<close>

section \<open>What the monitor has agreed to\<close>

text \<open>
  The package in memory at position pos, and the answer of the monitor to it: for a first-stage
  package the answer to the decryption call, otherwise to the digest of the image.
\<close>

definition digest_answer :: "'m vf_env \<Rightarrow> fip_vars \<Rightarrow> bytes \<Rightarrow> u32 \<Rightarrow> bool" where
  "digest_answer V v mem answer \<longleftrightarrow> (\<exists>alg out ram d r3. alg \<le> 1
     \<and> d = hash_func_ws V alg (slice (unat (of_nat (fip_buf v) + fip_off v)) (unat (fip_size v)) mem) \<and> take (length d) out = d
     \<and> fst (do_smc V SIP_VERIFY_BL33 (output_addr V) (buf_addr V + of_nat (fip_buf v)) r3 mem out ram) = answer)"

definition file_answer :: "'m vf_env \<Rightarrow> nat \<Rightarrow> 'm vf_state \<Rightarrow> u32 \<Rightarrow> bool" where
  "file_answer V pos st answer \<longleftrightarrow> (\<exists>smc_id v.
     parse_fip (ibuf st) (fip_start pos\<lparr>fip_offset := ifip_offset st\<rparr>) = Inr (smc_id, v) \<and>
     (if smc_id = SIP_VERIFY_BL2
      then \<exists>out ram. fst (do_smc V (smc_id OR 0x10) (fip_size v) (buf_addr V + of_nat (fip_buf v)) (CONFIG_RAMFS_BASE V) (ibuf st) out ram) = answer
      else smc_id = SIP_VERIFY_BL33 \<and> digest_answer V v (ibuf st) answer))"

definition file_start :: "'m vf_env \<Rightarrow> 'm vf_state \<Rightarrow> nat" where
  "file_start V st = (if check_image_name (vf_conf V) (uenv st) = 2 then 32 else 0)"

lemma hash_and_verify_answer:
  assumes "hash_and_verify V SIP_VERIFY_BL33 v st = Inr (r, st')"
  shows "digest_answer V v (ibuf st) r \<and> ibuf st' = ibuf st \<and> ihal st' = ihal st \<and> uenv st' = uenv st"
proof -
  obtain alg st1 where 1: "get_sha_alg V st = (alg, st1)" by force
  let ?alg = "alg AND HASH_MODE_MASK" and ?r3 = "if buf_size v = FIP_MAX_HEADER_SIZE then fip_off v else buf_size v"
  have a1: "unat ?alg \<le> 1" using word_and_le1[of alg HASH_MODE_MASK] by (simp add: HASH_MODE_MASK_def word_le_nat_alt)
  have ne: "SIP_VERIFY_BL33 \<noteq> SIP_VERIFY_BL2" by (simp add: SIP_VERIFY_BL33_def SIP_VERIFY_BL2_def)
  have f1: "ibuf st1 = ibuf st" "ihal st1 = ihal st" "uenv st1 = uenv st" "ifip_offset st1 = ifip_offset st"
    using 1 by (auto simp: get_sha_alg_def smc_call_def split: prod.splits)
  let ?d = "hash_func_ws V (unat ?alg) (slice (unat (of_nat (fip_buf v) + fip_off v)) (unat (fip_size v)) (ibuf st))"
  have 2: "smc_call V SIP_VERIFY_BL33 (output_addr V) (buf_addr V + of_nat (fip_buf v)) ?r3
       (st1\<lparr>output_buf := memcpy (output_buf st1) 0 ?d\<rparr>) = (r, st')"
    using assms 1 ne f1(1) by (auto simp: hash_and_verify_def verify_img_def res_bind_eq_Inr hash_image_def Let_def rd_at_def split: if_splits)
  have d: "take (length ?d) (memcpy (output_buf st1) 0 ?d) = ?d" by (simp add: memcpy_def)
  have "fst (do_smc V SIP_VERIFY_BL33 (output_addr V) (buf_addr V + of_nat (fip_buf v)) ?r3 (ibuf st) (memcpy (output_buf st1) 0 ?d) (ramfs_mem st1)) = r"
    using smc_call_frame(2,3,5)[OF 2] f1(1) by simp
  then have "digest_answer V v (ibuf st) r" unfolding digest_answer_def using a1 d by blast
  then show ?thesis using 2 f1 by (auto simp: smc_call_def split: prod.splits)
qed

lemma upgrade_verify_answer:
  assumes sec: "TCSUPPORT_ARM_SECURE_BOOT V" and name: "check_image_name (vf_conf V) (uenv st) \<noteq> 0"
    and run: "upgrade_verify V 0 st = Inr (stat, st')"
  shows "ibuf st' = ibuf st \<and> ihal st' = ihal st \<and> uenv st' = uenv st
     \<and> (stat = 0 \<or> stat = 2 \<longrightarrow> (\<exists>answer. file_answer V (file_start V st) st answer \<and> (answer = 0 \<or> answer = 2)))"
proof -
  let ?v = "fip_start (file_start V st)\<lparr>fip_offset := ifip_offset st\<rparr>"
  obtain smc_id v where 1: "parse_fip (ibuf st) ?v = Inr (smc_id, v)"
    and 2: "(let st1 = st\<lparr>ifip_offset := fip_offset v\<rparr> in
       if smc_id = SIP_VERIFY_BL2 then Inr (decrypt_and_verify_img V (fip_buf v) (fip_size v) smc_id st1)
       else if smc_id \<noteq> 0
       then res_bind (hash_and_verify V smc_id v st1) (\<lambda>(ret, st2).
              Inr (if ret = 0 \<and> fip_flag v = ENCRYPTED_OUTER_HEADER then ENCRYPTED_OUTER_HEADER else ret, st2))
       else Inr (-1, st1)) = Inr (stat, st')"
    using run sec name unfolding upgrade_verify_def fip_call_def file_start_def add_0 by (auto simp: Let_def res_bind_eq_Inr[of "res_bind _ _"] res_bind_eq_Inr[of "parse_fip _ _"])
  let ?st1 = "st\<lparr>ifip_offset := fip_offset v\<rparr>"
  consider "smc_id = SIP_VERIFY_BL2" | "smc_id = 0" | "smc_id = SIP_VERIFY_BL33" using parse_fip_cases(1)[OF 1] by blast
  then show ?thesis
  proof cases
    case bl2: 1
    then have c: "smc_call V (smc_id OR 0x10) (fip_size v) (buf_addr V + of_nat (fip_buf v)) (CONFIG_RAMFS_BASE V) ?st1 = (stat, st')"
      using 2 by (simp add: decrypt_and_verify_img_def)
    then have "file_answer V (file_start V st) st stat"
      unfolding file_answer_def using 1 bl2 by (intro exI[of _ smc_id] exI[of _ v]) (auto simp: smc_call_def split: prod.splits intro!: exI[of _ "output_buf st"] exI[of _ "ramfs_mem st"])
    then show ?thesis using c by (auto simp: smc_call_def split: prod.splits)
  next
    case none: 2
    then have "stat = -1" "st' = ?st1" using 2 by (auto simp: SIP_VERIFY_BL2_def)
    then show ?thesis by simp
  next
    case 3
    then obtain r where c: "hash_and_verify V SIP_VERIFY_BL33 v ?st1 = Inr (r, st')"
      and s: "stat = (if r = 0 \<and> fip_flag v = ENCRYPTED_OUTER_HEADER then ENCRYPTED_OUTER_HEADER else r)"
      using 2 by (auto simp: res_bind_eq_Inr SIP_VERIFY_BL2_def SIP_VERIFY_BL33_def)
    have k: "digest_answer V v (ibuf st) r" "ibuf st' = ibuf st" "ihal st' = ihal st" "uenv st' = uenv st"
      using hash_and_verify_answer[OF c] by simp_all
    then have "file_answer V (file_start V st) st r"
      unfolding file_answer_def using 1 3 by (auto simp: SIP_VERIFY_BL2_def SIP_VERIFY_BL33_def)
    then show ?thesis using k s by (auto split: if_splits)
  qed
qed

lemma upgrade_verify_frame:
  assumes "upgrade_verify V 0 st = Inr (stat, st')"
  shows "ibuf st' = ibuf st \<and> ihal st' = ihal st \<and> uenv st' = uenv st"
proof (cases "TCSUPPORT_ARM_SECURE_BOOT V \<and> check_image_name (vf_conf V) (uenv st) \<noteq> 0")
  case True
  then show ?thesis using upgrade_verify_answer[OF _ _ assms] by blast
next
  case False
  then show ?thesis using assms by (auto simp: upgrade_verify_def Let_def split: if_splits)
qed

section \<open>File names\<close>

lemma image_name_index_None: "image_name_index env name i fs = None \<longleftrightarrow> (\<forall>f\<in>set fs. env f \<noteq> Some name)"
  by (induction fs arbitrary: i) (auto split: option.splits)

lemma known_name_checked:
  assumes "kind_of_file st = Inr kind" "kind \<noteq> UNKNOWN_FILE"
  shows "check_image_name K (uenv st) \<noteq> 0"
proof -
  obtain var where var: "var \<in> set filename" "name_is st var = Inr True"
    using assms by (auto simp: kind_of_file_def res_bind_eq_Inr filename_def split: if_splits)
  then obtain s where s: "uenv st ''filename'' = Some s" "uenv st var = Some s" by (auto simp: name_is_def split: option.splits)
  then have "image_name_index (uenv st) s 0 filename \<noteq> None" using var(1) by (auto simp: image_name_index_None)
  then show ?thesis using s(1) by (auto simp: check_image_name_def split: if_splits)
qed

lemma file_names_cong:
  assumes "uenv st1 = uenv st" shows "name_is st1 = name_is st" "kind_of_file st1 = kind_of_file st"
proof -
  show n: "name_is st1 = name_is st" using assms by (simp add: name_is_def fun_eq_iff)
  show "kind_of_file st1 = kind_of_file st" unfolding kind_of_file_def n ..
qed

text \<open>What has been decided when the file is written.\<close>

lemma upgrade_decided:
  assumes "ecnt_ImageUpgrade U n st = Inr (cmds, st')" "ihal st' \<noteq> ihal st"
  obtains stat st1 kind addr where "upgrade_verify (up_vf U) 0 st = Inr (stat, st1)" "stat = 0 \<or> stat = 2" "kind_of_file st1 = Inr kind"
    "upgrade_target U n stat kind st1 = Inr (addr, 0)" "addr \<noteq> 0xFFFFFFFF"
    "res_bind (up_store (up_vf U) addr n st1) (after_store (up_vf U)) = Inr (cmds, st')"
proof -
  obtain stat st1 where v: "upgrade_verify (up_vf U) 0 st = Inr (stat, st1)"
    and 2: "(if stat \<noteq> 0 \<and> stat \<noteq> 2 then Inr ([], st1)
          else res_bind (kind_of_file st1) (\<lambda>kind.
               res_bind (upgrade_target U n stat kind st1) (\<lambda>(addr, check_value).
                 if addr = 0xFFFFFFFF then Inr ([], st1)
                 else if check_value \<noteq> 0 then Inr ([], st1)
                 else res_bind (up_store (up_vf U) addr n st1) (after_store (up_vf U))))) = Inr (cmds, st')"
    using assms(1) unfolding ecnt_ImageUpgrade_def Let_def
    by (auto simp: res_bind_eq_Inr[of "ecnt_get_boot_size _"] res_bind_eq_Inr[of "ecnt_get_tclinux_size _"] res_bind_eq_Inr[of "upgrade_verify _ _ _"])
  have f: "ihal st1 = ihal st" using upgrade_verify_frame[OF v] by simp
  then have s: "stat = 0 \<or> stat = 2" using 2 assms(2) by (auto split: if_splits)
  then obtain kind where k: "kind_of_file st1 = Inr kind"
    and 3: "res_bind (upgrade_target U n stat kind st1) (\<lambda>(addr, check_value).
                 if addr = 0xFFFFFFFF then Inr ([], st1)
                 else if check_value \<noteq> 0 then Inr ([], st1)
                 else res_bind (up_store (up_vf U) addr n st1) (after_store (up_vf U))) = Inr (cmds, st')"
    using 2 by (auto simp: res_bind_eq_Inr[of "kind_of_file _"])
  then obtain addr c where t: "upgrade_target U n stat kind st1 = Inr (addr, c)"
    and 4: "(if addr = 0xFFFFFFFF then Inr ([], st1) else if c \<noteq> 0 then Inr ([], st1)
                 else res_bind (up_store (up_vf U) addr n st1) (after_store (up_vf U))) = Inr (cmds, st')"
    by (auto simp: res_bind_eq_Inr[of "upgrade_target _ _ _ _ _"])
  have "addr \<noteq> 0xFFFFFFFF" "c = 0" using 4 f assms(2) by (auto split: if_splits)
  then show ?thesis using that[OF v s k] t 4 by simp
qed

text \<open>
  C33 With secure boot an upgrade touches the flash only for files that the secure monitor agreed to and
  whose checksums match. When ecnt\_ImageUpgrade has changed the flash, the name of the file was one of the three known
  ones, the monitor answered 0 or 2 to the package as it lies in memory (2 is taken for the code of an encrypted
  package), the check of its kind succeeded, and the memory that was written still is the memory that was verified.
\<close>

theorem upgrade_writes_verified_only:
  assumes "TCSUPPORT_ARM_SECURE_BOOT (up_vf U)" and "ecnt_ImageUpgrade U n st = Inr (cmds, st')" and "ihal st' \<noteq> ihal st"
  shows "\<exists>stat st1 kind addr answer. upgrade_verify (up_vf U) 0 st = Inr (stat, st1) \<and> kind_of_file st1 = Inr kind \<and> kind \<noteq> UNKNOWN_FILE
     \<and> upgrade_target U n stat kind st1 = Inr (addr, 0) \<and> ibuf st1 = ibuf st
     \<and> file_answer (up_vf U) (file_start (up_vf U) st) st answer \<and> (answer = 0 \<or> answer = 2)"
proof -
  obtain stat st1 kind addr where d: "upgrade_verify (up_vf U) 0 st = Inr (stat, st1)" "stat = 0 \<or> stat = 2" "kind_of_file st1 = Inr kind"
    "upgrade_target U n stat kind st1 = Inr (addr, 0)" "addr \<noteq> 0xFFFFFFFF" by (rule upgrade_decided[OF assms(2,3)])
  have known: "kind \<noteq> UNKNOWN_FILE" using d(4,5) by (auto simp: upgrade_target_def)
  have f: "ibuf st1 = ibuf st" "uenv st1 = uenv st" using upgrade_verify_frame[OF d(1)] by auto
  have "check_image_name (vf_conf (up_vf U)) (uenv st) \<noteq> 0" using known_name_checked[OF d(3) known] f(2) by simp
  from upgrade_verify_answer[OF assms(1) this d(1)] d(2)
  obtain answer where "file_answer (up_vf U) (file_start (up_vf U) st) st answer" "answer = 0 \<or> answer = 2" by blast
  then show ?thesis using d(1,3,4) known f(1) by blast
qed

section \<open>What is written\<close>

definition fits_blocks :: "'m hal_env \<Rightarrow> 'm hal_state \<Rightarrow> u32 \<Rightarrow> u32 \<Rightarrow> bool" where
  "fits_blocks E h a n \<longleftrightarrow> unat a mod erase_size (nand_conf E) = 0 \<and> unat a + round_up (erase_size (nand_conf E)) (unat n) \<le> hal_cap E h"

definition of_blocks :: "'m hal_env \<Rightarrow> u32 \<Rightarrow> u32 \<Rightarrow> nat \<Rightarrow> bool" where
  "of_blocks E a n x \<longleftrightarrow> unat a \<le> x \<and> x < unat a + round_up (erase_size (nand_conf E)) (unat n)"

definition of_file :: "u32 \<Rightarrow> u32 \<Rightarrow> nat \<Rightarrow> bool" where
  "of_file a n x \<longleftrightarrow> unat a \<le> x \<and> x < unat a + unat n"

lemma up_erase_ok:
  assumes "hal_ok (vf_hal V) (ihal st)" "fits_blocks (vf_hal V) (ihal st) a n"
  shows "\<exists>h. up_erase V a n st = Inr (st\<lparr>ihal := h\<rparr>) \<and> hal_ok (vf_hal V) h \<and> hal_cap (vf_hal V) h = hal_cap (vf_hal V) (ihal st)
     \<and> (\<forall>x < hal_cap (vf_hal V) (ihal st). hal_byte (vf_hal V) h x = (if of_blocks (vf_hal V) a n x then 0xFF else hal_byte (vf_hal V) (ihal st) x))"
  using hal.er_ok[OF assms(1), of a n] assms(2) by (fastforce simp: up_erase_def fits_blocks_def of_blocks_def)

lemma up_store_ok:
  assumes "hal_ok (vf_hal V) (ihal st)" "fits_blocks (vf_hal V) (ihal st) a n" "unat n \<le> length (ibuf st)"
  shows "\<exists>h. up_store V a n st = Inr (st\<lparr>ihal := h\<rparr>) \<and> hal_ok (vf_hal V) h \<and> hal_cap (vf_hal V) h = hal_cap (vf_hal V) (ihal st)
     \<and> (\<forall>x < hal_cap (vf_hal V) (ihal st). hal_byte (vf_hal V) h x =
          (if of_file a n x then ibuf st ! (x - unat a) else if of_blocks (vf_hal V) a n x then 0xFF else hal_byte (vf_hal V) (ihal st) x))"
proof -
  obtain h1 h2 where "flash_erase (vf_hal V) a n (ihal st) = Inr (0, h1)" "flash_write (vf_hal V) a n (ibuf st) h1 = Inr (0, h2)"
      "hal_ok (vf_hal V) h2" "hal_cap (vf_hal V) h2 = hal_cap (vf_hal V) (ihal st)"
      "\<forall>x < hal_cap (vf_hal V) (ihal st). hal_byte (vf_hal V) h2 x =
          (if of_file a n x then ibuf st ! (x - unat a) else if of_blocks (vf_hal V) a n x then 0xFF else hal_byte (vf_hal V) (ihal st) x)"
    using hal.store_image[OF assms(1), of a n "ibuf st"] assms(2,3) by (auto simp: fits_blocks_def of_blocks_def of_file_def)
  then show ?thesis using assms(3) by (auto simp: up_store_def up_erase_def)
qed

definition user_data :: "'m vf_env \<Rightarrow> nat \<Rightarrow> bool" where
  "user_data V x \<longleftrightarrow> (case do_get_mtd_rootfsdata_info (vf_mtd V) of Inr (Some (a, n)) \<Rightarrow> of_blocks (vf_hal V) a n x | _ \<Rightarrow> False)"

lemma after_kernel_ok:
  assumes "hal_ok (vf_hal V) (ihal st)" "name_is st ''kernel_filename'' = Inr True" "name_is st ''uboot_filename'' = Inr False"
    and "do_get_mtd_rootfsdata_info (vf_mtd V) = Inr info" "\<forall>a n. info = Some (a, n) \<longrightarrow> fits_blocks (vf_hal V) (ihal st) a n"
  shows "\<exists>h. after_store V st = Inr (if info = None then [] else [''go''], st\<lparr>ihal := h\<rparr>)
     \<and> (\<forall>x < hal_cap (vf_hal V) (ihal st). hal_byte (vf_hal V) h x = (if user_data V x then 0xFF else hal_byte (vf_hal V) (ihal st) x))"
proof (cases info)
  case None
  then show ?thesis using assms by (intro exI[of _ "ihal st"]) (simp add: after_store_def user_data_def)
next
  case (Some p)
  obtain a n where p: "p = (a, n)" by force
  obtain h where "up_erase V a n st = Inr (st\<lparr>ihal := h\<rparr>)"
    "\<forall>x < hal_cap (vf_hal V) (ihal st). hal_byte (vf_hal V) h x = (if of_blocks (vf_hal V) a n x then 0xFF else hal_byte (vf_hal V) (ihal st) x)"
    using up_erase_ok[OF assms(1)] assms(5) Some p by blast
  then show ?thesis using assms Some p by (auto simp: after_store_def user_data_def)
qed

lemma kernel_upgrade:
  assumes "hal_ok (vf_hal (up_vf U)) (ihal st)" and "upgrade_verify (up_vf U) 0 st = Inr (stat, st1)" and "stat = 0 \<or> stat = 2"
    and "kind_of_file st = Inr KERNEL_FILE" and "kernel_check U n stat st1 = Inr 0" and "unat n \<le> length (ibuf st)"
    and "ecnt_get_boot_size (vf_mtd (up_vf U)) = Inr boot" and "ecnt_get_tclinux_size (vf_mtd (up_vf U)) = Inr tcl"
    and "ecnt_get_tclinux_flash_offset (vf_conf (up_vf U)) (vf_mtd (up_vf U)) = Inr t" and "fits_blocks (vf_hal (up_vf U)) (ihal st) t n"
    and "do_get_mtd_rootfsdata_info (vf_mtd (up_vf U)) = Inr info" and "\<forall>a m. info = Some (a, m) \<longrightarrow> fits_blocks (vf_hal (up_vf U)) (ihal st) a m"
  shows "\<exists>st'. ecnt_ImageUpgrade U n st = Inr (if info = None then [] else [''go''], st')
     \<and> (\<forall>x < hal_cap (vf_hal (up_vf U)) (ihal st). hal_byte (vf_hal (up_vf U)) (ihal st') x =
          (if user_data (up_vf U) x then 0xFF else if of_file t n x then ibuf st ! (x - unat t)
           else if of_blocks (vf_hal (up_vf U)) t n x then 0xFF else hal_byte (vf_hal (up_vf U)) (ihal st) x))"
proof -
  let ?V = "up_vf U" and ?E = "vf_hal (up_vf U)"
  have f: "ibuf st1 = ibuf st" "ihal st1 = ihal st" "uenv st1 = uenv st" using upgrade_verify_frame[OF assms(2)] by auto
  then have k: "kind_of_file st1 = Inr KERNEL_FILE" using assms(4) file_names_cong(2)[OF f(3)] by simp
  have "unat t < 2 ^ 31"
    using assms(1,10) logic_size_30[of "nand_conf ?E" "nand (ihal st)"] by (auto simp: fits_blocks_def hal_ok_def hal_cap_def)
  then have t: "t \<noteq> 0xFFFFFFFF" by auto
  obtain h1 where h1: "up_store ?V t n st1 = Inr (st1\<lparr>ihal := h1\<rparr>)" "hal_ok ?E h1" "hal_cap ?E h1 = hal_cap ?E (ihal st)"
    "\<forall>x < hal_cap ?E (ihal st). hal_byte ?E h1 x =
       (if of_file t n x then ibuf st ! (x - unat t) else if of_blocks ?E t n x then 0xFF else hal_byte ?E (ihal st) x)"
    using up_store_ok[of ?V st1 t n] assms(1,6,10) f by auto
  let ?st2 = "st1\<lparr>ihal := h1\<rparr>"
  have names: "name_is ?st2 ''kernel_filename'' = Inr True" "name_is ?st2 ''uboot_filename'' = Inr False"
    using k by (auto simp: kind_of_file_def name_is_def res_bind_eq_Inr split: if_splits option.splits)
  have "\<forall>a n. info = Some (a, n) \<longrightarrow> fits_blocks ?E (ihal ?st2) a n" using assms(12) h1(3) by (simp add: fits_blocks_def)
  then obtain h2 where h2: "after_store ?V ?st2 = Inr (if info = None then [] else [''go''], ?st2\<lparr>ihal := h2\<rparr>)"
    "\<forall>x < hal_cap ?E (ihal st). hal_byte ?E h2 x = (if user_data ?V x then 0xFF else hal_byte ?E h1 x)"
    using after_kernel_ok[of ?V ?st2 info] h1(2,3) names assms(11) by auto
  have "ecnt_ImageUpgrade U n st = Inr (if info = None then [] else [''go''], ?st2\<lparr>ihal := h2\<rparr>)"
    using assms(2,3,5,7-9) k t h1(1) h2(1) by (auto simp: ecnt_ImageUpgrade_def upgrade_target_def)
  then show ?thesis using h1(4) h2(2) by auto
qed

text \<open>
  C34 An upgrade with a kernel file ends with the file in the system partition. When the
  verification and the checks of the file succeed, ecnt\_ImageUpgrade returns, and then every byte of the flash is known: the blocks of the user data
  partition are erased, the file lies from the start of the system partition on, the
  rest of its last block is erased, and everything else is as it was. The board is
  started if and only if there is a user data partition.
\<close>

theorem kernel_upgrade_stores_file:
  assumes "hal_ok (vf_hal (up_vf U)) (ihal st)" and "upgrade_verify (up_vf U) 0 st = Inr (stat, st1)" and "stat = 0 \<or> stat = 2"
    and "kind_of_file st = Inr KERNEL_FILE" and "kernel_check U n stat st1 = Inr 0" and "unat n \<le> length (ibuf st)"
    and "ecnt_get_boot_size (vf_mtd (up_vf U)) = Inr boot" and "ecnt_get_tclinux_size (vf_mtd (up_vf U)) = Inr tcl"
    and "ecnt_get_tclinux_flash_offset (vf_conf (up_vf U)) (vf_mtd (up_vf U)) = Inr t" and "fits_blocks (vf_hal (up_vf U)) (ihal st) t n"
    and "do_get_mtd_rootfsdata_info (vf_mtd (up_vf U)) = Inr info" and "\<forall>a m. info = Some (a, m) \<longrightarrow> fits_blocks (vf_hal (up_vf U)) (ihal st) a m"
  shows "\<exists>st'. ecnt_ImageUpgrade U n st = Inr (if info = None then [] else [''go''], st')
     \<and> (\<forall>x < hal_cap (vf_hal (up_vf U)) (ihal st). hal_byte (vf_hal (up_vf U)) (ihal st') x =
          (if user_data (up_vf U) x then 0xFF else if of_file t n x then ibuf st ! (x - unat t)
           else if of_blocks (vf_hal (up_vf U)) t n x then 0xFF else hal_byte (vf_hal (up_vf U)) (ihal st) x))"
  using assms by (rule kernel_upgrade)

section \<open>A kernel file on the demonstration chip\<close>

definition up_toc :: "fip_toc_entry list" where
  "up_toc = [\<lparr>uuid = UUID_NON_TRUSTED_FIRMWARE_BL33, offset_address = 0x100, toc_size = 16, toc_flags = 0\<rparr>]"

definition demo_up :: "unit up_env" where
  "demo_up = \<lparr>up_vf = demo_vf\<lparr>vf_mtd := demo_mtd\<lparr>ecnt_parts := [entry_of TCLINUX 0x20000 0x20000]\<rparr>\<rparr>, fit_verify = (\<lambda>_ _. 1), crc32_of = (\<lambda>_ _. 0),
     ecnt_get_ubootenv_size = 0, ecnt_get_factory_size = 0\<rparr>"

definition demo_file :: bytes where
  "demo_file = print_toc 7 0 up_toc @ replicate 8136 0"

definition demo_up_state :: "unit vf_state" where
  "demo_up_state = demo_vf_state\<lparr>ihal := big_hal (\<lambda>_. replicate 1024 0xFF), ibuf := demo_file,
     uenv := [''filename'' \<mapsto> ''k.bin'', ''uboot_filename'' \<mapsto> ''u.bin'', ''kernel_filename'' \<mapsto> ''k.bin'']\<rparr>"

lemma length_up_toc: "length (print_toc 7 0 up_toc) = 56"
  by (simp add: print_toc_def print_entry_def up_toc_def UUID_NON_TRUSTED_FIRMWARE_BL33_def)

lemma length_demo_file: "length demo_file = 8192"
  by (simp add: demo_file_def length_up_toc)

lemma demo_file_zero: "56 \<le> off \<Longrightarrow> off + 4 \<le> 8192 \<Longrightarrow> rd_at rd32 4 demo_file off = Inr 0"
  by (simp add: rd_at_def length_demo_file slice_def demo_file_def length_up_toc rd32_def)

lemma demo_up_facts:
  "TCSUPPORT_ARM_SECURE_BOOT (up_vf demo_up)" "vf_hal (up_vf demo_up) = big_env" "kind_of_file demo_up_state = Inr KERNEL_FILE"
  "hal_ok big_env (ihal demo_up_state)" "hal_cap big_env (ihal demo_up_state) = 262144" "ibuf demo_up_state = demo_file"
  "ecnt_get_boot_size (vf_mtd (up_vf demo_up)) = Inr 0" "ecnt_get_tclinux_size (vf_mtd (up_vf demo_up)) = Inr 0x20000"
  "ecnt_get_tclinux_flash_offset (vf_conf (up_vf demo_up)) (vf_mtd (up_vf demo_up)) = Inr 0x20000"
  "do_get_mtd_rootfsdata_info (vf_mtd (up_vf demo_up)) = Inr None" "fits_blocks big_env (ihal demo_up_state) 0x20000 0x200"
proof -
  have m: "vf_mtd (up_vf demo_up) = demo_mtd\<lparr>ecnt_parts := [entry_of TCLINUX 0x20000 0x20000]\<rparr>" "vf_conf (up_vf demo_up) = demo_mtd_conf"
    by (simp_all add: demo_up_def demo_vf_def)
  show "TCSUPPORT_ARM_SECURE_BOOT (up_vf demo_up)" "vf_hal (up_vf demo_up) = big_env" by (simp_all add: demo_up_def demo_vf_def)
  show "ecnt_get_boot_size (vf_mtd (up_vf demo_up)) = Inr 0" "ecnt_get_tclinux_size (vf_mtd (up_vf demo_up)) = Inr 0x20000"
    by (simp_all add: m ecnt_get_boot_size_def ecnt_get_tclinux_size_def ecnt_get_mtd_part_size_def ecnt_get_mtd_size_def part_is_def entry_of_def SIZE_TO_GET_def)
  show "ecnt_get_tclinux_flash_offset (vf_conf (up_vf demo_up)) (vf_mtd (up_vf demo_up)) = Inr 0x20000"
    by (simp add: m ecnt_get_tclinux_flash_offset_def mtd_offset_or_0_def ecnt_get_mtd_offset_def part_is_def entry_of_def OFFSET_NOT_FOUND_def demo_mtd_conf_def)
  show "do_get_mtd_rootfsdata_info (vf_mtd (up_vf demo_up)) = Inr None"
    by (simp add: m do_get_mtd_rootfsdata_info_def part_is_def entry_of_def)
  show "ibuf demo_up_state = demo_file" by (simp add: demo_up_state_def)
  show "kind_of_file demo_up_state = Inr KERNEL_FILE" by (simp add: kind_of_file_def name_is_def demo_up_state_def)
  show h: "hal_ok big_env (ihal demo_up_state)" "hal_cap big_env (ihal demo_up_state) = 262144"
    using big_hal_ok[of "\<lambda>_. replicate 1024 0xFF"] by (simp_all add: demo_up_state_def)
  show "fits_blocks big_env (ihal demo_up_state) 0x20000 0x200"
    by (simp add: fits_blocks_def h) (simp add: big_env_def round_up_def)
qed

lemma demo_up_verified:
  "\<exists>st1. upgrade_verify (up_vf demo_up) 0 demo_up_state = Inr (0, st1) \<and> ibuf st1 = demo_file \<and> ifip_offset st1 = 0x100"
proof -
  let ?V = "up_vf demo_up" and ?v = "fip_start 0\<lparr>fip_offset := ifip_offset demo_up_state\<rparr>"
  let ?v1 = "?v\<lparr>fip_off := 0x100, fip_size := 16, fip_flag := 0, fip_offset := 0x100\<rparr>"
  have p: "parse_fip demo_file ?v = Inr (SIP_VERIFY_BL33, ?v1)"
    using parse_fip_toc[of up_toc "up_toc ! 0" 7 0 ?v "[]" "replicate 8136 0"] length_up_toc unfolding demo_file_def
    by (simp add: up_toc_def UUID_NON_TRUSTED_FIRMWARE_BL33_def fip_start_def FIP_MAX_HEADER_SIZE_def)
  have n: "check_image_name (vf_conf ?V) (uenv demo_up_state) = 1"
    by (simp add: check_image_name_def demo_up_state_def filename_def demo_up_def demo_vf_def demo_mtd_conf_def)
  obtain st1 where h: "hash_and_verify ?V SIP_VERIFY_BL33 ?v1 (demo_up_state\<lparr>ifip_offset := 0x100\<rparr>) = Inr (0, st1)"
    and st1: "ibuf st1 = demo_file" "ifip_offset st1 = 0x100"
    by (simp add: hash_and_verify_def verify_img_def get_sha_alg_def smc_call_def hash_image_def rd_at_def fip_start_def demo_up_def demo_vf_def
        SIP_VERIFY_BL33_def SIP_VERIFY_BL2_def demo_up_state_def length_demo_file)
  have "fip_call (fip_start 0) demo_up_state = Inr (SIP_VERIFY_BL33, ?v1, demo_up_state\<lparr>ifip_offset := 0x100\<rparr>)"
    using p by (simp add: fip_call_def demo_up_facts(6))
  then have "upgrade_verify ?V 0 demo_up_state = Inr (0, st1)"
    using demo_up_facts(1) n h by (simp add: upgrade_verify_def ENCRYPTED_OUTER_HEADER_def) (simp add: SIP_VERIFY_BL33_def SIP_VERIFY_BL2_def)
  then show ?thesis using st1 by blast
qed

lemma demo_up_check: "ibuf st1 = demo_file \<Longrightarrow> ifip_offset st1 = 0x100 \<Longrightarrow> kernel_check demo_up 0x200 0 st1 = Inr 0"
  using demo_file_zero[of "0x104"] demo_file_zero[of "0x108"] demo_file_zero[of "0x10C"]
  by (simp add: kernel_check_def trx_hash_check_def trx_crc_check_def trx_header_len_def trx_len_def trx_crc32_def crc_of_def
      rd_at_def[of _ 0] demo_up_def length_demo_file)

theorem kernel_upgrade_stores_file_witness:
  "\<exists>st'. ecnt_ImageUpgrade demo_up 0x200 demo_up_state = Inr ([], st') \<and> hal_byte big_env (ihal st') 0x20000 = 1"
proof -
  note F = demo_up_facts
  obtain st1 where st1: "upgrade_verify (up_vf demo_up) 0 demo_up_state = Inr (0, st1)" "ibuf st1 = demo_file" "ifip_offset st1 = 0x100"
    using demo_up_verified by blast
  have z: "demo_file ! 0 = 1" by (simp add: demo_file_def print_toc_def le32_def TOC_HEADER_NAME_def)
  show ?thesis
    using kernel_upgrade_stores_file[of demo_up demo_up_state 0 st1 "0x200" 0 "0x20000" "0x20000" None] F st1 demo_up_check[OF st1(2,3)] z
    by (auto simp: length_demo_file of_file_def user_data_def)
qed

theorem upgrade_writes_verified_only_witness:
  "\<exists>stat st1 kind addr answer. upgrade_verify (up_vf demo_up) 0 demo_up_state = Inr (stat, st1) \<and> kind_of_file st1 = Inr kind \<and> kind \<noteq> UNKNOWN_FILE
     \<and> upgrade_target demo_up 0x200 stat kind st1 = Inr (addr, 0) \<and> ibuf st1 = ibuf demo_up_state
     \<and> file_answer (up_vf demo_up) (file_start (up_vf demo_up) demo_up_state) demo_up_state answer \<and> (answer = 0 \<or> answer = 2)"
proof -
  note F = demo_up_facts
  obtain st1 where st1: "upgrade_verify (up_vf demo_up) 0 demo_up_state = Inr (0, st1)" "ibuf st1 = demo_file" "ifip_offset st1 = 0x100"
    using demo_up_verified by blast
  have z: "demo_file ! 0 = 1" by (simp add: demo_file_def print_toc_def le32_def TOC_HEADER_NAME_def)
  obtain st' where r: "ecnt_ImageUpgrade demo_up 0x200 demo_up_state = Inr ([], st')" "hal_byte big_env (ihal st') 0x20000 = 1"
    using kernel_upgrade[of demo_up demo_up_state 0 st1 "0x200" 0 "0x20000" "0x20000" None] F st1 demo_up_check[OF st1(2,3)] z
    by (auto simp: length_demo_file of_file_def user_data_def)
  have "hal_byte big_env (ihal demo_up_state) 0x20000 = 0xFF"
    by (simp add: hal_byte_def flash_byte_def demo_up_state_def big_hal_def big_env_def)
  then have "ihal st' \<noteq> ihal demo_up_state" using r(2) by auto
  then show ?thesis by (rule upgrade_writes_verified_only[OF F(1) r(1)])
qed

end
