(* ===== verification/Auth_Load.thy ===== *)
theory Auth_Load
  imports Prelude
begin

text \<open>
  Loading and authenticating images in the secure monitor, the Econet build of the runtime firmware BL31: load\_image and
  load\_auth\_image of common/bl\_common.c, the flags and the chain of trust of drivers/auth/auth\_mod.c, and the
  platform counters of plat/ecnt/en7523/ecnt\_trusted\_boot.c, in the trusted firmware.

  The storage layer and the cryptography are parameters that act on a world of
  their own; it includes the memory. The descriptors of the chain of trust are a function from an image to
  its parent. Cache maintenance has no counterpart.
\<close>

section \<open>Environment and state\<close>

record image_info =
  image_base :: u64
  image_size :: u32
  image_max_size :: u32

record 'w auth_env =
  cot_parent :: "u32 \<Rightarrow> u32 option"
  plat_get_image_source :: "u32 \<Rightarrow> 'w \<Rightarrow> int \<times> nat \<times> 'w"
  io_open :: "nat \<Rightarrow> 'w \<Rightarrow> int \<times> nat \<times> 'w"
  io_size :: "nat \<Rightarrow> 'w \<Rightarrow> int \<times> u64 \<times> 'w"
  io_read :: "nat \<Rightarrow> u64 \<Rightarrow> u64 \<Rightarrow> 'w \<Rightarrow> int \<times> u64 \<times> 'w"
  io_close_all :: "nat \<Rightarrow> 'w \<Rightarrow> 'w"
  auth_methods :: "u32 \<Rightarrow> u64 \<Rightarrow> u32 \<Rightarrow> 'w \<Rightarrow> int \<times> 'w"
  zero_normalmem :: "u64 \<Rightarrow> u32 \<Rightarrow> 'w \<Rightarrow> 'w"
  plat_try_next_boot_source :: "'w \<Rightarrow> bool \<times> 'w"
  disable_auth :: bool
  TZRAM2_BASE :: u64
  TZRAM2_SIZE :: u32

record 'w auth_state =
  auth_img_flags :: "u32 \<Rightarrow> bool"
  world :: 'w

definition BL2_IMAGE_ID :: u32 where "BL2_IMAGE_ID = 1"
definition BL33_IMAGE_ID :: u32 where "BL33_IMAGE_ID = 5"
definition EFBIG :: int where "EFBIG = 27"
definition EAUTH :: int where "EAUTH = 80"

section \<open>Loading\<close>

definition dyn_is_auth_disabled :: "'w auth_env \<Rightarrow> bool" where
  "dyn_is_auth_disabled E = disable_auth E"

text \<open>
  An image that is only to be verified is not read; its size becomes 0. A size of 0
  and a short read leave through the exit with the result of the storage layer, which may be 0.
\<close>

definition skips_load :: "'w auth_env \<Rightarrow> u32 \<Rightarrow> image_info \<Rightarrow> bool" where
  "skips_load E image_id d \<longleftrightarrow> (image_id = BL2_IMAGE_ID \<or> image_id = BL33_IMAGE_ID) \<and> (image_base d = TZRAM2_BASE E \<or> dyn_is_auth_disabled E)"

definition read_image :: "'w auth_env \<Rightarrow> nat \<Rightarrow> image_info \<Rightarrow> 'w \<Rightarrow> int \<times> image_info \<times> 'w" where
  "read_image E image_handle d w =
    (let (r, sz, w1) = io_size E image_handle w
     in if r \<noteq> 0 \<or> sz = 0 then (r, d, io_close_all E image_handle w1)
        else if ucast (image_max_size d) < sz then (- EFBIG, d, io_close_all E image_handle w1)
        else let (r2, bytes_read, w2) = io_read E image_handle (image_base d) sz w1
             in (r2, d\<lparr>image_size := ucast sz\<rparr>, io_close_all E image_handle w2))"

definition load_image :: "'w auth_env \<Rightarrow> u32 \<Rightarrow> image_info \<Rightarrow> 'w auth_state \<Rightarrow> int \<times> image_info \<times> 'w auth_state" where
  "load_image E image_id d s =
    (if skips_load E image_id d then (0, d\<lparr>image_size := 0\<rparr>, s)
     else let (r, image_spec, w1) = plat_get_image_source E image_id (world s)
          in if r \<noteq> 0 then (r, d, s\<lparr>world := w1\<rparr>)
             else let (r2, image_handle, w2) = io_open E image_spec w1
                  in if r2 \<noteq> 0 then (r2, d, s\<lparr>world := w2\<rparr>)
                     else let (r3, d1, w3) = read_image E image_handle d w2 in (r3, d1, s\<lparr>world := w3\<rparr>))"

definition load_image_flush :: "'w auth_env \<Rightarrow> u32 \<Rightarrow> image_info \<Rightarrow> 'w auth_state \<Rightarrow> int \<times> image_info \<times> 'w auth_state" where
  "load_image_flush E image_id d s = load_image E image_id d s"

section \<open>Authentication\<close>

text \<open>None stands for the return value 1: there is no parent, or it has already been authenticated.\<close>

definition auth_mod_get_parent_id :: "'w auth_env \<Rightarrow> u32 \<Rightarrow> 'w auth_state \<Rightarrow> u32 option" where
  "auth_mod_get_parent_id E img_id s =
    (case cot_parent E img_id of None \<Rightarrow> None | Some parent \<Rightarrow> if auth_img_flags s parent then None else Some parent)"

definition auth_mod_verify_img :: "'w auth_env \<Rightarrow> u32 \<Rightarrow> u64 \<Rightarrow> u32 \<Rightarrow> 'w auth_state \<Rightarrow> int \<times> 'w auth_state" where
  "auth_mod_verify_img E img_id img_ptr img_len s =
    (let (rc, w) = auth_methods E img_id img_ptr img_len (world s)
     in (rc, if rc = 0 then s\<lparr>world := w, auth_img_flags := (auth_img_flags s)(img_id := True)\<rparr> else s\<lparr>world := w\<rparr>))"

text \<open>What follows the loading of an image: verification, the cleared flag, and wiping an image that was rejected.\<close>

definition verify_loaded :: "'w auth_env \<Rightarrow> u32 \<Rightarrow> image_info \<Rightarrow> 'w auth_state \<Rightarrow> int \<times> 'w auth_state" where
  "verify_loaded E image_id d s =
    (let (rc, s1) = auth_mod_verify_img E image_id (image_base d) (image_size d) s;
         s2 = s1\<lparr>auth_img_flags := (auth_img_flags s1)(image_id := False)\<rparr>
     in if image_size d = 0 then (if rc \<noteq> 0 then - EAUTH else 0, s2)
        else if rc \<noteq> 0 then (- EAUTH, s2\<lparr>world := zero_normalmem E (image_base d) (image_size d) (world s2)\<rparr>)
        else (0, s2))"

text \<open>The recursion over the parents; fuel bounds the length of the chain.\<close>

fun load_auth_image_recursive :: "nat \<Rightarrow> 'w auth_env \<Rightarrow> u32 \<Rightarrow> image_info \<Rightarrow> 'w auth_state \<Rightarrow> fault + int \<times> image_info \<times> 'w auth_state" where
  "load_auth_image_recursive 0 E image_id d s = Inl OutOfFuel"
| "load_auth_image_recursive (Suc n) E image_id d s =
    res_bind (case auth_mod_get_parent_id E image_id s of
        None \<Rightarrow> Inr (0, d, s)
      | Some parent_id \<Rightarrow> load_auth_image_recursive n E parent_id d s) (\<lambda>(rc, d1, s1).
      if rc \<noteq> 0 then Inr (rc, d1, s1)
      else let (rc2, d2, s2) = load_image E image_id d1 s1
           in if rc2 \<noteq> 0 then Inr (rc2, d2, s2)
              else let (rc3, s3) = verify_loaded E image_id d2 s2 in Inr (rc3, d2, s3))"

definition load_auth_image_internal :: "nat \<Rightarrow> 'w auth_env \<Rightarrow> u32 \<Rightarrow> image_info \<Rightarrow> 'w auth_state \<Rightarrow> fault + int \<times> image_info \<times> 'w auth_state" where
  "load_auth_image_internal n E image_id d s =
    (if \<not> dyn_is_auth_disabled E then load_auth_image_recursive n E image_id d s
     else Inr (load_image_flush E image_id d s))"

text \<open>The loop over the boot sources; k bounds their number.\<close>

fun load_auth_image :: "nat \<Rightarrow> nat \<Rightarrow> 'w auth_env \<Rightarrow> u32 \<Rightarrow> image_info \<Rightarrow> 'w auth_state \<Rightarrow> fault + int \<times> image_info \<times> 'w auth_state" where
  "load_auth_image 0 n E image_id d s = Inl OutOfFuel"
| "load_auth_image (Suc k) n E image_id d s =
    res_bind (load_auth_image_internal n E image_id d s) (\<lambda>(err, d1, s1).
      if err = 0 then Inr (err, d1, s1)
      else let (again, w) = plat_try_next_boot_source E (world s1)
           in if again then load_auth_image k n E image_id d1 (s1\<lparr>world := w\<rparr>) else Inr (err, d1, s1\<lparr>world := w\<rparr>))"

section \<open>Counters against rollback\<close>

definition ASN1_INTEGER :: u8 where "ASN1_INTEGER = 2"

definition plat_get_nv_ctr :: u32 where "plat_get_nv_ctr = 0"

definition plat_set_nv_ctr :: "u32 \<Rightarrow> int" where "plat_set_nv_ctr nv_ctr = 1"

text \<open>data is what the image parser returned for the counter, a DER-encoded integer.\<close>

definition auth_nvctr :: "int \<Rightarrow> bytes \<Rightarrow> fault + int" where
  "auth_nvctr rc dat =
    (if rc \<noteq> 0 then Inr rc
     else if length dat < 3 then Inl OutOfBounds
     else if dat ! 0 \<noteq> ASN1_INTEGER then Inr 1
     else let len = dat ! 1 AND 0x7F
          in if dat ! 1 AND 0x80 \<noteq> 0 \<or> 4 < len then Inr 1
             else if dat ! 2 AND 0x80 \<noteq> 0 then Inr 1
             else if length dat < 2 + unat len then Inl OutOfBounds
             else let cert_nv_ctr = foldl (\<lambda>c b. push_bit 8 c OR ucast b) 0 (slice 2 (unat len) dat) :: u32
                  in Inr (if cert_nv_ctr < plat_get_nv_ctr then 1
                          else if plat_get_nv_ctr < cert_nv_ctr then plat_set_nv_ctr cert_nv_ctr else 0))"

end
