(* ===== verification/Sip_Svc.thy ===== *)
theory Sip_Svc
  imports Auth_Load
begin

text \<open>
  The services of the secure monitor (plat/ecnt/common/ecnt\_sip\_svc.c and ecnt\_plat\_common.c of the
  trusted firmware): the dispatch of the calls from the normal world, and the handlers that
  verify or decrypt an image.

  The dynamic mappings, the place of the package (fip\_block\_spec) and of the digest (image\_hash\_base) and
  the descriptions of the images are the state. The storage and crypto layers read the place of the package and of
  the digest, so the environment of Auth\_Load depends on them. Translation tables, fuses and
  clocks are parameters. plat\_error\_handler does not return: the fault Halted.
\<close>

section \<open>Environment and state\<close>

record 'w sip_env =
  auth_layer :: "u64 \<times> u64 \<Rightarrow> u64 \<Rightarrow> 'w auth_env"
  chain_len :: nat
  boot_sources :: nat
  mmap_add :: "(u64 \<times> u64 \<times> bool) list \<Rightarrow> u64 \<times> u64 \<times> bool \<Rightarrow> int"
  hash_mode :: u32
  efuse_write_pkgid :: "u8 \<Rightarrow> u8 \<Rightarrow> 'w \<Rightarrow> int \<times> 'w"
  efuse_write_secure_key :: "u64 \<Rightarrow> 'w \<Rightarrow> int \<times> 'w"
  efuse_test :: "u8 \<Rightarrow> u8 \<Rightarrow> 'w \<Rightarrow> int \<times> 'w"
  efuse_check_secure_key :: "u8 \<Rightarrow> 'w \<Rightarrow> int \<times> 'w"
  read_iddq :: "'w \<Rightarrow> u8"
  curr_armpll_clk_get :: "'w \<Rightarrow> u32"
  en7523_armpll_set :: "u32 \<Rightarrow> 'w \<Rightarrow> u32 \<times> 'w"
  cpu_freq_enum_get :: "u32 \<Rightarrow> u32"
  cpu_freq_500M :: u32
  CPU_FREQ_OP :: bool
  tzram2_base :: u64
  tzram2_size :: u32

record 'w sip_state =
  sauth :: "'w auth_state"
  regions :: "(u64 \<times> u64 \<times> bool) list"
  fip_block_spec :: "u64 \<times> u64"
  image_hash_base :: u64
  mem_params :: "u32 \<Rightarrow> image_info option"
  oriarmpll :: u32

definition ECNT_SIP_EFUSE_HANDLE :: u32 where "ECNT_SIP_EFUSE_HANDLE = 0x82000001"
definition ECNT_SIP_TEST_HANDLE :: u32 where "ECNT_SIP_TEST_HANDLE = 0x82000002"
definition ECNT_SIP_GET_ALG_HANDLE :: u32 where "ECNT_SIP_GET_ALG_HANDLE = 0x82000003"
definition ECNT_SIP_VERIFY_BL2_HANDLE :: u32 where "ECNT_SIP_VERIFY_BL2_HANDLE = 0x82000201"
definition ECNT_SIP_VERIFY_BL33_HANDLE :: u32 where "ECNT_SIP_VERIFY_BL33_HANDLE = 0x82000205"
definition ECNT_SIP_DCRYPT_VERIFY_BL2_HANDLE :: u32 where "ECNT_SIP_DCRYPT_VERIFY_BL2_HANDLE = 0x82000211"
definition ECNT_SIP_DCRYPT_VERIFY_BL33_HANDLE :: u32 where "ECNT_SIP_DCRYPT_VERIFY_BL33_HANDLE = 0x82000215"
definition ECNT_SIP_AVS_HANDLE :: u32 where "ECNT_SIP_AVS_HANDLE = 0x82000301"
definition SMC_AARCH64_BIT :: u32 where "SMC_AARCH64_BIT = 0x40000000"
definition SMC32_PARAM_MASK :: u64 where "SMC32_PARAM_MASK = 0xFFFFFFFF"
definition SMC_UNK :: u64 where "SMC_UNK = -1"
definition ECNT_SIP_E_SUCCESS :: u64 where "ECNT_SIP_E_SUCCESS = 0"
definition ECNT_SIP_E_INVALID_PARAM :: u64 where "ECNT_SIP_E_INVALID_PARAM = -1"
definition ECNT_SIP_E_NOT_SUPPORTED :: u64 where "ECNT_SIP_E_NOT_SUPPORTED = -2"

section \<open>Mappings\<close>

text \<open>PAGE\_SIZE is a 32-bit constant, so the mask clears the upper half of the value.\<close>

definition page_align :: "u64 \<Rightarrow> bool \<Rightarrow> u64" where
  "page_align v up = (if v AND 0xFFF \<noteq> 0 then (v AND 0xFFFFF000) + (if up then 0x1000 else 0) else v)"

definition mmap_add_dynamic_region :: "'w sip_env \<Rightarrow> u64 \<Rightarrow> u64 \<Rightarrow> bool \<Rightarrow> 'w sip_state \<Rightarrow> int \<times> 'w sip_state" where
  "mmap_add_dynamic_region N base sz rw s =
    (let r = mmap_add N (regions s) (base, sz, rw) in (r, if r = 0 then s\<lparr>regions := (base, sz, rw) # regions s\<rparr> else s))"

text \<open>A region is removed by its base and size; removing one that is not mapped does nothing.\<close>

fun unmap :: "u64 \<Rightarrow> u64 \<Rightarrow> (u64 \<times> u64 \<times> bool) list \<Rightarrow> (u64 \<times> u64 \<times> bool) list" where
  "unmap base sz [] = []"
| "unmap base sz ((b, n, rw) # rs) = (if b = base \<and> n = sz then rs else (b, n, rw) # unmap base sz rs)"

definition mmap_remove_dynamic_region :: "u64 \<Rightarrow> u64 \<Rightarrow> 'w sip_state \<Rightarrow> 'w sip_state" where
  "mmap_remove_dynamic_region base sz s = s\<lparr>regions := unmap base sz (regions s)\<rparr>"

definition set_fip_block_spec :: "u64 \<Rightarrow> u64 \<Rightarrow> 'w sip_state \<Rightarrow> 'w sip_state" where
  "set_fip_block_spec off len s = s\<lparr>fip_block_spec := (off, len)\<rparr>"

text \<open>load\_auth\_image on the description of image id; the description is updated.\<close>

definition auth_call :: "'w sip_env \<Rightarrow> u32 \<Rightarrow> image_info \<Rightarrow> 'w sip_state \<Rightarrow> fault + int \<times> 'w sip_state" where
  "auth_call N image_id d s =
    res_bind (load_auth_image (boot_sources N) (chain_len N) (auth_layer N (fip_block_spec s) (image_hash_base s)) image_id d (sauth s))
      (\<lambda>(err, d1, a). Inr (err, s\<lparr>sauth := a, mem_params := (mem_params s)(image_id \<mapsto> d1)\<rparr>))"

section \<open>The handlers\<close>

text \<open>The sums of the 32-bit parameters are 32-bit sums.\<close>

definition ecnt_verify_handler :: "'w sip_env \<Rightarrow> u32 \<Rightarrow> u32 \<Rightarrow> u32 \<Rightarrow> u32 \<Rightarrow> 'w sip_state \<Rightarrow> fault + u64 \<times> 'w sip_state" where
  "ecnt_verify_handler N image_id r1 r2 r3 s =
    (case mem_params s image_id of
      None \<Rightarrow> Inr (ECNT_SIP_E_INVALID_PARAM, s)
    | Some d \<Rightarrow>
        if r1 = 0 \<or> r2 = 0 then Inr (ECNT_SIP_E_INVALID_PARAM, s)
        else let base = page_align (ucast r2) False;
                 sz = page_align (ucast (r2 + r3)) True - base;
                 (err, s1) = mmap_add_dynamic_region N base sz False s
             in if err \<noteq> 0 then Inr (ECNT_SIP_E_INVALID_PARAM, s1)
                else let s2 = set_fip_block_spec (ucast r2) (ucast r3) s1;
                         hash_base = page_align (ucast r1) False;
                         hash_size = page_align (ucast (r1 + 0x1000)) True - hash_base;
                         (err2, s3) = mmap_add_dynamic_region N hash_base hash_size False s2
                     in res_bind (if err2 = 0
                          then res_bind (auth_call N image_id d (s3\<lparr>image_hash_base := ucast r1\<rparr>)) (\<lambda>(err3, s4).
                                 Inr (err3, mmap_remove_dynamic_region hash_base hash_size s4))
                          else Inr (err2, s3)) (\<lambda>(err4, s5).
                        Inr (if err4 \<noteq> 0 then ECNT_SIP_E_INVALID_PARAM else ECNT_SIP_E_SUCCESS,
                             mmap_remove_dynamic_region base sz (set_fip_block_spec 0 0 s5))))"

definition ecnt_decrypt_handler :: "'w sip_env \<Rightarrow> u32 \<Rightarrow> u32 \<Rightarrow> u32 \<Rightarrow> u32 \<Rightarrow> 'w sip_state \<Rightarrow> fault + u64 \<times> 'w sip_state" where
  "ecnt_decrypt_handler N image_id r1 r2 r3 s =
    (case mem_params s image_id of
      None \<Rightarrow> Inr (ECNT_SIP_E_INVALID_PARAM, s)
    | Some d \<Rightarrow>
        if r1 = 0 \<or> r2 = 0 then Inr (ECNT_SIP_E_INVALID_PARAM, s)
        else let base = page_align (ucast r2) False;
                 sz = page_align (ucast (0x2000 + r2 + r1)) True - base;
                 (err, s1) = mmap_add_dynamic_region N base sz False s
             in if err \<noteq> 0 then Inl Halted
                else let img_base = page_align (ucast r3) False;
                         img_size = page_align (ucast (r1 + r3)) True - img_base;
                         (err2, s2) = mmap_add_dynamic_region N img_base img_size True s1
                     in if err2 \<noteq> 0 then Inl Halted
                        else let d1 = \<lparr>image_base = ucast r3, image_size = r1, image_max_size = 0x10000000\<rparr>
                             in res_bind (auth_call N image_id d1 (set_fip_block_spec (ucast r2) 0x2000 s2)) (\<lambda>(err3, s3).
                                  let s4 = set_fip_block_spec 0 0 s3;
                                      s5 = s4\<lparr>mem_params := (mem_params s4)(image_id \<mapsto>
                                             \<lparr>image_base = tzram2_base N, image_size = 0, image_max_size = tzram2_size N\<rparr>)\<rparr>;
                                      s6 = mmap_remove_dynamic_region base sz (mmap_remove_dynamic_region img_base img_size s5)
                                  in Inr (if err3 \<noteq> 0 then ECNT_SIP_E_INVALID_PARAM else ECNT_SIP_E_SUCCESS, s6)))"

text \<open>Effects on the world that the authentication does not see.\<close>

definition sip_world :: "('w \<Rightarrow> int \<times> 'w) \<Rightarrow> 'w sip_state \<Rightarrow> u64 \<times> 'w sip_state" where
  "sip_world f s = (let (r, w) = f (world (sauth s)) in (of_int r, s\<lparr>sauth := (sauth s)\<lparr>world := w\<rparr>\<rparr>))"

definition ecnt_efuse_handler :: "'w sip_env \<Rightarrow> u32 \<Rightarrow> u32 \<Rightarrow> u32 \<Rightarrow> 'w sip_state \<Rightarrow> u64 \<times> 'w sip_state" where
  "ecnt_efuse_handler N r1 r2 r3 s =
    (if r1 = 0x44494B50 then sip_world (efuse_write_pkgid N (ucast r2) (ucast r3)) s
     else if r1 = 0x59454B53 then
       let sz = ucast (r3 + (0x1000 - r3 mod 0x1000));
           (status, s1) = mmap_add_dynamic_region N (ucast r2) sz False s
       in if status \<noteq> 0 then (of_int status, s1)
          else let (r, s2) = sip_world (efuse_write_secure_key N (ucast r2)) s1
               in (r, mmap_remove_dynamic_region (ucast r2) sz s2)
     else if r1 = 0x54534554 then sip_world (efuse_test N (ucast r2) (ucast r3)) s
     else if r1 = 0x59454B43 then sip_world (efuse_check_secure_key N (ucast r2)) s
     else (ECNT_SIP_E_NOT_SUPPORTED, s))"

definition ecnt_test_handler :: "u32 \<Rightarrow> u32 \<Rightarrow> u32 \<Rightarrow> u64" where
  "ecnt_test_handler r1 r2 r3 = ECNT_SIP_E_INVALID_PARAM"

definition set_armpll :: "'w sip_env \<Rightarrow> u32 \<Rightarrow> 'w sip_state \<Rightarrow> u64 \<times> 'w sip_state" where
  "set_armpll N freq s = (let (r, w) = en7523_armpll_set N freq (world (sauth s)) in (ucast r, s\<lparr>sauth := (sauth s)\<lparr>world := w\<rparr>\<rparr>))"

definition ecnt_avs_handler :: "'w sip_env \<Rightarrow> u32 \<Rightarrow> u32 \<Rightarrow> u32 \<Rightarrow> 'w sip_state \<Rightarrow> u64 \<times> 'w sip_state" where
  "ecnt_avs_handler N r1 r2 r3 s =
    (let iddq64 = ucast (read_iddq N (world (sauth s))) :: u64
     in if \<not> CPU_FREQ_OP N \<and> iddq64 \<le> ucast r2 then (iddq64, s)
        else if r1 = 0 then
          let s1 = s\<lparr>oriarmpll := curr_armpll_clk_get N (world (sauth s))\<rparr>; (ret, s2) = set_armpll N (cpu_freq_500M N) s1
          in (iddq64 OR ret, s2)
        else if r1 = 1 then
          if oriarmpll s = 0 then (ECNT_SIP_E_NOT_SUPPORTED, s)
          else let (ret, s1) = set_armpll N (cpu_freq_enum_get N (oriarmpll s)) s in (iddq64 OR ret, s1)
        else if r1 = 0xddddddd1 then (ECNT_SIP_E_NOT_SUPPORTED, snd (set_armpll N r3 s))
        else if r1 = 0xddddddd2 then
          let s1 = s\<lparr>oriarmpll := curr_armpll_clk_get N (world (sauth s))\<rparr> in (ucast (oriarmpll s1), s1)
        else (ECNT_SIP_E_NOT_SUPPORTED, s))"

section \<open>Dispatch\<close>

definition clean_top_32b_of_param :: "u32 \<Rightarrow> u64 \<Rightarrow> u64" where
  "clean_top_32b_of_param smc_fid x = (if smc_fid AND SMC_AARCH64_BIT = 0 then x AND SMC32_PARAM_MASK else x)"

definition ecnt_plat_sip_handler :: u64 where
  "ecnt_plat_sip_handler = SMC_UNK"

definition ecnt_sip_handler :: "'w sip_env \<Rightarrow> bool \<Rightarrow> u32 \<Rightarrow> u64 \<Rightarrow> u64 \<Rightarrow> u64 \<Rightarrow> 'w sip_state \<Rightarrow> fault + u64 \<times> 'w sip_state" where
  "ecnt_sip_handler N non_secure smc_fid x1 x2 x3 s =
    (let r1 = ucast (clean_top_32b_of_param smc_fid x1); r2 = ucast (clean_top_32b_of_param smc_fid x2);
         r3 = ucast (clean_top_32b_of_param smc_fid x3); image_id = smc_fid AND 0xF
     in if \<not> non_secure then Inr (ecnt_plat_sip_handler, s)
        else if smc_fid = ECNT_SIP_EFUSE_HANDLE then Inr (ecnt_efuse_handler N r1 r2 r3 s)
        else if smc_fid = ECNT_SIP_TEST_HANDLE then Inr (ecnt_test_handler r1 r2 r3, s)
        else if smc_fid = ECNT_SIP_GET_ALG_HANDLE then Inr (ucast (hash_mode N), s)
        else if smc_fid = ECNT_SIP_VERIFY_BL2_HANDLE \<or> smc_fid = ECNT_SIP_VERIFY_BL33_HANDLE then ecnt_verify_handler N image_id r1 r2 r3 s
        else if smc_fid = ECNT_SIP_DCRYPT_VERIFY_BL2_HANDLE \<or> smc_fid = ECNT_SIP_DCRYPT_VERIFY_BL33_HANDLE
        then ecnt_decrypt_handler N image_id r1 r2 r3 s
        else if smc_fid = ECNT_SIP_AVS_HANDLE then Inr (ecnt_avs_handler N r1 r2 r3 s)
        else Inr (ecnt_plat_sip_handler, s))"

end
