(* ===== verification/Monitor_Theorems.thy ===== *)
theory Monitor_Theorems
  imports Sip_Svc
begin

text \<open>
  What the secure monitor guarantees: an image is accepted only when every certificate from the root of
  trust down to it has been loaded and verified in this call, and a call leaves neither a mapping of
  normal-world memory nor a mark of an authenticated image behind.
\<close>

section \<open>The chain of trust\<close>

inductive trust_chain :: "'w auth_env \<Rightarrow> u32 \<Rightarrow> u32 list \<Rightarrow> bool" for E where
  chain_root: "cot_parent E i = None \<Longrightarrow> trust_chain E i [i]"
| chain_child: "cot_parent E i = Some p \<Longrightarrow> trust_chain E p is \<Longrightarrow> trust_chain E i (is @ [i])"

definition no_flags :: "'w auth_state \<Rightarrow> bool" where
  "no_flags s \<longleftrightarrow> (\<forall>i. \<not> auth_img_flags s i)"

text \<open>Image i is loaded, and its authentication methods succeed on it.\<close>

definition authenticated :: "'w auth_env \<Rightarrow> u32 \<Rightarrow> image_info \<Rightarrow> 'w auth_state \<Rightarrow> image_info \<Rightarrow> 'w auth_state \<Rightarrow> bool" where
  "authenticated E i d s d' s' \<longleftrightarrow> (\<exists>s1 w. load_image E i d s = (0, d', s1)
     \<and> auth_methods E i (image_base d') (image_size d') (world s1) = (0, w) \<and> s' = s1\<lparr>world := w\<rparr>)"

fun all_authenticated :: "'w auth_env \<Rightarrow> u32 list \<Rightarrow> image_info \<Rightarrow> 'w auth_state \<Rightarrow> image_info \<Rightarrow> 'w auth_state \<Rightarrow> bool" where
  "all_authenticated E [] d s d' s' \<longleftrightarrow> d' = d \<and> s' = s"
| "all_authenticated E (i # is) d s d' s' \<longleftrightarrow> (\<exists>d1 s1. authenticated E i d s d1 s1 \<and> all_authenticated E is d1 s1 d' s')"

lemma all_authenticated_snoc:
  "all_authenticated E (is @ [i]) d s d' s' \<longleftrightarrow> (\<exists>d1 s1. all_authenticated E is d s d1 s1 \<and> authenticated E i d1 s1 d' s')"
  by (induction "is" arbitrary: d s) (simp, fastforce)

lemma load_image_flags: "load_image E i d s = (r, d', s') \<Longrightarrow> auth_img_flags s' = auth_img_flags s"
  by (auto simp: load_image_def split: if_splits prod.splits)

lemma verify_loaded_ok:
  assumes "no_flags s" "verify_loaded E i d s = (rc, s')"
  shows "no_flags s' \<and> (rc = 0 \<longleftrightarrow> (\<exists>w. auth_methods E i (image_base d) (image_size d) (world s) = (0, w) \<and> s' = s\<lparr>world := w\<rparr>))"
proof -
  obtain r w where m: "auth_methods E i (image_base d) (image_size d) (world s) = (r, w)" by force
  have f: "(auth_img_flags s)(i := False) = auth_img_flags s" using assms(1) by (auto simp: no_flags_def fun_eq_iff)
  show ?thesis
    using assms m f by (auto simp: verify_loaded_def auth_mod_verify_img_def Let_def EAUTH_def no_flags_def split: if_splits)
qed

lemma load_recursive_chain:
  assumes "trust_chain E i is" "no_flags s" "length is \<le> n"
  shows "\<exists>rc d' s'. load_auth_image_recursive n E i d s = Inr (rc, d', s') \<and> no_flags s' \<and> (rc = 0 \<longrightarrow> all_authenticated E is d s d' s')"
  using assms
proof (induction arbitrary: n s rule: trust_chain.induct)
  case (chain_root i)
  then obtain m where n: "n = Suc m" by (cases n) auto
  have p: "auth_mod_get_parent_id E i s = None" using chain_root(1) by (simp add: auth_mod_get_parent_id_def)
  obtain rc2 d2 s2 where l: "load_image E i d s = (rc2, d2, s2)" using prod_cases3 by blast
  obtain rc3 s3 where v: "verify_loaded E i d2 s2 = (rc3, s3)" by force
  have f2: "no_flags s2" using load_image_flags[OF l] chain_root(2) by (simp add: no_flags_def)
  show ?case using n p l v f2 verify_loaded_ok[OF f2 v] by (auto simp: authenticated_def)
next
  case (chain_child i p "is")
  then obtain m where n: "n = Suc m" "length is \<le> m" by (cases n) auto
  have p: "auth_mod_get_parent_id E i s = Some p"
    using chain_child(1,4) by (simp add: auth_mod_get_parent_id_def no_flags_def)
  obtain rc1 d1 s1 where r: "load_auth_image_recursive m E p d s = Inr (rc1, d1, s1)" "no_flags s1"
    "rc1 = 0 \<longrightarrow> all_authenticated E is d s d1 s1" using chain_child.IH[OF chain_child(4) n(2)] by blast
  obtain rc2 d2 s2 where l: "load_image E i d1 s1 = (rc2, d2, s2)" using prod_cases3 by blast
  obtain rc3 s3 where v: "verify_loaded E i d2 s2 = (rc3, s3)" by force
  have f2: "no_flags s2" using load_image_flags[OF l] r(2) by (simp add: no_flags_def)
  show ?case
  proof (cases "rc1 = 0 \<and> rc2 = 0")
    case True
    then have "load_auth_image_recursive n E i d s = Inr (rc3, d2, s3)" using n p r(1) l v by simp
    moreover have "rc3 = 0 \<Longrightarrow> authenticated E i d1 s1 d2 s3"
      using True l verify_loaded_ok[OF f2 v] by (auto simp: authenticated_def)
    ultimately show ?thesis using True r(3) verify_loaded_ok[OF f2 v] all_authenticated_snoc by blast
  next
    case False
    then show ?thesis using n p r l f2 by auto
  qed
qed

text \<open>Without another boot source a single attempt decides.\<close>

lemma load_auth_image_chain:
  assumes "trust_chain E i is" "no_flags s" "length is \<le> n" "0 < k" "\<not> disable_auth E" "\<And>w. \<not> fst (plat_try_next_boot_source E w)"
  shows "\<exists>rc d' s'. load_auth_image k n E i d s = Inr (rc, d', s') \<and> no_flags s' \<and> (rc = 0 \<longrightarrow> all_authenticated E is d s d' s')"
proof -
  obtain rc d' s' where r: "load_auth_image_recursive n E i d s = Inr (rc, d', s')" "no_flags s'" "rc = 0 \<longrightarrow> all_authenticated E is d s d' s'"
    using load_recursive_chain[OF assms(1-3)] by blast
  obtain m where "k = Suc m" using assms(4) by (cases k) auto
  then show ?thesis
    using r assms(5) assms(6)[of "world s'"]
    by (auto simp: load_auth_image_internal_def dyn_is_auth_disabled_def no_flags_def split: prod.splits)
qed

section \<open>Calls of the monitor\<close>

text \<open>
  The monitor between two calls: no image counts as authenticated, no package is selected, and
  the layers below follow chains of trust that are short enough, authenticate, and have one boot source.
\<close>

definition layers_ok :: "'w sip_env \<Rightarrow> bool" where
  "layers_ok N \<longleftrightarrow> 0 < boot_sources N \<and> (\<forall>spec h. let E = auth_layer N spec h in
     \<not> disable_auth E \<and> (\<forall>w. \<not> fst (plat_try_next_boot_source E w)) \<and> (\<forall>i. \<exists>is. trust_chain E i is \<and> length is \<le> chain_len N))"

definition idle :: "'w sip_state \<Rightarrow> bool" where
  "idle s \<longleftrightarrow> no_flags (sauth s) \<and> fip_block_spec s = (0, 0)"

lemma layers_chain:
  assumes "layers_ok N"
  obtains "is" where "trust_chain (auth_layer N spec h) i is" "length is \<le> chain_len N"
    "0 < boot_sources N" "\<not> disable_auth (auth_layer N spec h)" "\<And>w. \<not> fst (plat_try_next_boot_source (auth_layer N spec h) w)"
proof -
  have a: "0 < boot_sources N" "\<not> disable_auth (auth_layer N spec h)" "\<And>w. \<not> fst (plat_try_next_boot_source (auth_layer N spec h) w)"
    "\<exists>is. trust_chain (auth_layer N spec h) i is \<and> length is \<le> chain_len N" using assms unfolding layers_ok_def Let_def by blast+
  then show ?thesis using that by blast
qed

lemma auth_call_ok:
  assumes "layers_ok N" "no_flags (sauth s)"
  shows "\<exists>rc s'. auth_call N i d s = Inr (rc, s') \<and> no_flags (sauth s') \<and> regions s' = regions s
     \<and> (rc = 0 \<longrightarrow> (\<forall>is. trust_chain (auth_layer N (fip_block_spec s) (image_hash_base s)) i is \<longrightarrow> length is \<le> chain_len N \<longrightarrow>
          (\<exists>d' a'. all_authenticated (auth_layer N (fip_block_spec s) (image_hash_base s)) is d (sauth s) d' a')))"
proof -
  let ?E = "auth_layer N (fip_block_spec s) (image_hash_base s)"
  obtain "is" where c: "trust_chain ?E i is" "length is \<le> chain_len N" "0 < boot_sources N" "\<not> disable_auth ?E"
    "\<And>w. \<not> fst (plat_try_next_boot_source ?E w)" using layers_chain[OF assms(1)] by blast
  obtain rc d' a' where r: "load_auth_image (boot_sources N) (chain_len N) ?E i d (sauth s) = Inr (rc, d', a')" "no_flags a'"
    using load_auth_image_chain[OF c(1) assms(2) c(2-5)] by blast
  have "\<exists>d' a'. all_authenticated ?E js d (sauth s) d' a'" if "rc = 0" "trust_chain ?E i js" "length js \<le> chain_len N" for js
    using load_auth_image_chain[OF that(2) assms(2) that(3) c(3-5), of d] r(1) that(1) by auto
  then show ?thesis using r by (auto simp: auth_call_def)
qed

lemma unmap_added [simp]: "unmap b n ((b, n, rw) # rs) = rs"
  by simp

lemma verify_handler_ok:
  assumes "layers_ok N" "idle s"
  shows "\<exists>r s'. ecnt_verify_handler N i r1 r2 r3 s = Inr (r, s') \<and> (r = 0 \<or> r = -1) \<and> idle s' \<and> regions s' = regions s
     \<and> (r = 0 \<longrightarrow> (\<exists>d. mem_params s i = Some d \<and> (\<forall>is. trust_chain (auth_layer N (ucast r2, ucast r3) (ucast r1)) i is \<longrightarrow> length is \<le> chain_len N \<longrightarrow>
          (\<exists>d' a'. all_authenticated (auth_layer N (ucast r2, ucast r3) (ucast r1)) is d (sauth s) d' a'))))"
proof (cases "mem_params s i")
  case None
  then show ?thesis using assms(2) by (simp add: ecnt_verify_handler_def ECNT_SIP_E_INVALID_PARAM_def)
next
  case (Some d)
  let ?b = "page_align (ucast r2) False" and ?hb = "page_align (ucast r1) False"
  let ?sz = "page_align (ucast (r2 + r3)) True - ?b" and ?hs = "page_align (ucast (r1 + 0x1000)) True - ?hb"
  let ?s3 = "s\<lparr>fip_block_spec := (ucast r2, ucast r3), regions := (?hb, ?hs, False) # (?b, ?sz, False) # regions s, image_hash_base := ucast r1\<rparr>"
  obtain rc s4 where a: "auth_call N i d ?s3 = Inr (rc, s4)" "no_flags (sauth s4)" "regions s4 = regions ?s3"
    "rc = 0 \<longrightarrow> (\<forall>is. trust_chain (auth_layer N (ucast r2, ucast r3) (ucast r1)) i is \<longrightarrow> length is \<le> chain_len N \<longrightarrow>
          (\<exists>d' a'. all_authenticated (auth_layer N (ucast r2, ucast r3) (ucast r1)) is d (sauth s) d' a'))"
    using auth_call_ok[OF assms(1), of ?s3 i d] assms(2) by (auto simp: idle_def)
  note defs = ecnt_verify_handler_def mmap_add_dynamic_region_def mmap_remove_dynamic_region_def set_fip_block_spec_def
    ECNT_SIP_E_INVALID_PARAM_def ECNT_SIP_E_SUCCESS_def
  consider "r1 = 0 \<or> r2 = 0 \<or> mmap_add N (regions s) (?b, ?sz, False) \<noteq> 0"
    | "r1 \<noteq> 0" "r2 \<noteq> 0" "mmap_add N (regions s) (?b, ?sz, False) = 0" "mmap_add N ((?b, ?sz, False) # regions s) (?hb, ?hs, False) \<noteq> 0"
    | "r1 \<noteq> 0" "r2 \<noteq> 0" "mmap_add N (regions s) (?b, ?sz, False) = 0" "mmap_add N ((?b, ?sz, False) # regions s) (?hb, ?hs, False) = 0" by blast
  then show ?thesis
  proof cases
    case 1
    then have "ecnt_verify_handler N i r1 r2 r3 s = Inr (-1, s)" using Some by (auto simp: defs Let_def)
    then show ?thesis using assms(2) by simp
  next
    case 2
    then have "\<exists>s'. ecnt_verify_handler N i r1 r2 r3 s = Inr (-1, s') \<and> sauth s' = sauth s \<and> fip_block_spec s' = (0, 0) \<and> regions s' = regions s"
      using Some by (simp add: defs Let_def)
    then show ?thesis using assms(2) by (auto simp: idle_def)
  next
    case 3
    then have "\<exists>s'. ecnt_verify_handler N i r1 r2 r3 s = Inr (if rc \<noteq> 0 then -1 else 0, s') \<and> sauth s' = sauth s4 \<and> fip_block_spec s' = (0, 0) \<and> regions s' = regions s"
      using Some a(1,3) by (simp add: defs Let_def)
    then show ?thesis using a(2,4) Some by (auto simp: idle_def)
  qed
qed

lemma decrypt_handler_ok:
  assumes "layers_ok N" "idle s" "ecnt_decrypt_handler N i r1 r2 r3 s = Inr (r, s')"
  shows "(r = 0 \<or> r = -1) \<and> idle s' \<and> regions s' = regions s"
proof (cases "mem_params s i")
  case None
  then show ?thesis using assms(2,3) by (simp add: ecnt_decrypt_handler_def ECNT_SIP_E_INVALID_PARAM_def)
next
  case (Some d)
  let ?b = "page_align (ucast r2) False" and ?ib = "page_align (ucast r3) False"
  let ?sz = "page_align (ucast (0x2000 + r2 + r1)) True - ?b" and ?is = "page_align (ucast (r1 + r3)) True - ?ib"
  let ?s2 = "s\<lparr>regions := (?ib, ?is, True) # (?b, ?sz, False) # regions s, fip_block_spec := (ucast r2, 0x2000)\<rparr>"
  let ?d1 = "\<lparr>image_base = ucast r3, image_size = r1, image_max_size = 0x10000000\<rparr>"
  obtain rc s3 where a: "auth_call N i ?d1 ?s2 = Inr (rc, s3)" "no_flags (sauth s3)" "regions s3 = regions ?s2"
    using auth_call_ok[OF assms(1), of ?s2 i ?d1] assms(2) by (auto simp: idle_def)
  note defs = ecnt_decrypt_handler_def mmap_add_dynamic_region_def mmap_remove_dynamic_region_def set_fip_block_spec_def
    ECNT_SIP_E_INVALID_PARAM_def ECNT_SIP_E_SUCCESS_def
  show ?thesis
  proof (cases "r1 = 0 \<or> r2 = 0")
    case True
    then show ?thesis using assms(2,3) Some by (auto simp: defs)
  next
    case False
    then have m: "mmap_add N (regions s) (?b, ?sz, False) = 0" "mmap_add N ((?b, ?sz, False) # regions s) (?ib, ?is, True) = 0"
      using assms(3) Some by (auto simp: defs Let_def split: if_splits)
    then show ?thesis using assms(3) Some False a by (auto simp: defs Let_def idle_def split: if_splits)
  qed
qed

lemma efuse_handler_ok:
  assumes "idle s" "ecnt_efuse_handler N r1 r2 r3 s = (r, s')"
  shows "idle s' \<and> regions s' = regions s"
  using assms
  by (auto simp: ecnt_efuse_handler_def sip_world_def mmap_add_dynamic_region_def mmap_remove_dynamic_region_def idle_def no_flags_def Let_def
      split: if_splits prod.splits)

lemma avs_handler_ok:
  assumes "idle s" "ecnt_avs_handler N r1 r2 r3 s = (r, s')"
  shows "idle s' \<and> regions s' = regions s"
  using assms by (auto simp: ecnt_avs_handler_def set_armpll_def idle_def no_flags_def Let_def split: if_splits prod.splits)

text \<open>
  C35 The secure monitor keeps nothing from a call: whatever function identifier and parameters the normal
  or the secure world passes, when the call returns, the dynamic mappings are those from before it, no package is selected, and no image is
  marked as authenticated, so that the next call authenticates the whole chain of trust again.
\<close>

theorem sip_call_keeps_idle:
  assumes "layers_ok N" and "idle s" and "ecnt_sip_handler N non_secure smc_fid x1 x2 x3 s = Inr (r, s')"
  shows "idle s' \<and> regions s' = regions s"
proof -
  let ?r = "\<lambda>x. ucast (clean_top_32b_of_param smc_fid x)" and ?i = "smc_fid AND 0xF"
  consider "Inr (ecnt_efuse_handler N (?r x1) (?r x2) (?r x3) s) = (Inr (r, s') :: fault + u64 \<times> _)"
    | "Inr (ecnt_avs_handler N (?r x1) (?r x2) (?r x3) s) = (Inr (r, s') :: fault + u64 \<times> _)"
    | "ecnt_verify_handler N ?i (?r x1) (?r x2) (?r x3) s = Inr (r, s')" | "ecnt_decrypt_handler N ?i (?r x1) (?r x2) (?r x3) s = Inr (r, s')"
    | "s' = s"
    using assms(3) by (auto simp: ecnt_sip_handler_def Let_def split: if_splits)
  then show ?thesis
  proof cases
    case 1
    then show ?thesis using efuse_handler_ok[OF assms(2)] by blast
  next
    case 2
    then show ?thesis using avs_handler_ok[OF assms(2)] by blast
  next
    case 3
    then show ?thesis using verify_handler_ok[OF assms(1,2), of ?i "?r x1" "?r x2" "?r x3"] by auto
  next
    case 4
    then show ?thesis using decrypt_handler_ok[OF assms(1,2)] by blast
  qed (use assms(2) in simp)
qed

section \<open>A monitor whose certificates are all valid\<close>

definition demo_auth :: "'w auth_env" where
  "demo_auth = \<lparr>cot_parent = (\<lambda>i. if i = BL33_IMAGE_ID then Some 2 else None), plat_get_image_source = (\<lambda>_ w. (0, 0, w)), io_open = (\<lambda>_ w. (0, 0, w)),
     io_size = (\<lambda>_ w. (0, 16, w)), io_read = (\<lambda>_ _ n w. (0, n, w)), io_close_all = (\<lambda>_ w. w), auth_methods = (\<lambda>_ _ _ w. (0, w)),
     zero_normalmem = (\<lambda>_ _ w. w), plat_try_next_boot_source = (\<lambda>w. (False, w)), disable_auth = False, TZRAM2_BASE = 0x80000000, TZRAM2_SIZE = 0x10000\<rparr>"

definition demo_sip :: "'w sip_env" where
  "demo_sip = \<lparr>auth_layer = (\<lambda>_ _. demo_auth), chain_len = 2, boot_sources = 1, mmap_add = (\<lambda>_ _. 0), hash_mode = 0,
     efuse_write_pkgid = (\<lambda>_ _ w. (0, w)), efuse_write_secure_key = (\<lambda>_ w. (0, w)), efuse_test = (\<lambda>_ _ w. (0, w)), efuse_check_secure_key = (\<lambda>_ w. (0, w)),
     read_iddq = (\<lambda>_. 0), curr_armpll_clk_get = (\<lambda>_. 500), en7523_armpll_set = (\<lambda>_ w. (0, w)), cpu_freq_enum_get = (\<lambda>_. 0), cpu_freq_500M = 0,
     CPU_FREQ_OP = False, tzram2_base = 0x80000000, tzram2_size = 0x10000\<rparr>"

definition demo_sip_state :: "'w \<Rightarrow> 'w sip_state" where
  "demo_sip_state w = \<lparr>sauth = \<lparr>auth_img_flags = (\<lambda>_. False), world = w\<rparr>, regions = [], fip_block_spec = (0, 0), image_hash_base = 0,
     mem_params = [BL33_IMAGE_ID \<mapsto> \<lparr>image_base = 0x80000000, image_size = 0, image_max_size = 0x10000\<rparr>], oriarmpll = 0\<rparr>"

lemma demo_chain: "\<exists>is. trust_chain (demo_auth :: 'w auth_env) i is \<and> length is \<le> 2"
proof -
  have r: "trust_chain (demo_auth :: 'w auth_env) j [j]" if "j \<noteq> BL33_IMAGE_ID" for j using that by (intro chain_root) (simp add: demo_auth_def)
  show ?thesis
  proof (cases "i = BL33_IMAGE_ID")
    case True
    have "trust_chain (demo_auth :: 'w auth_env) i ([2] @ [i])" using True r[of 2] by (intro chain_child) (simp_all add: demo_auth_def BL33_IMAGE_ID_def)
    then show ?thesis by (intro exI[of _ "[2] @ [i]"]) simp
  next
    case False
    then show ?thesis using r[of i] by (intro exI[of _ "[i]"]) simp
  qed
qed

lemma demo_auth_simps [simp]:
  "disable_auth demo_auth = False" "plat_try_next_boot_source demo_auth w = (False, w)" "auth_methods demo_auth i b n w = (0, w)"
  "cot_parent demo_auth i = (if i = BL33_IMAGE_ID then Some 2 else None)" "auth_layer demo_sip spec h = demo_auth" "chain_len demo_sip = 2"
  "boot_sources demo_sip = 1" "mmap_add demo_sip rs r = 0"
  by (simp_all add: demo_auth_def demo_sip_def)

lemma demo_sip_ok: "layers_ok demo_sip" "idle (demo_sip_state w)"
  using demo_chain by (auto simp: layers_ok_def idle_def no_flags_def demo_sip_state_def)

lemma demo_loads:
  "load_image demo_auth 2 \<lparr>image_base = 0x80000000, image_size = 0, image_max_size = 0x10000\<rparr> s
     = (0, \<lparr>image_base = 0x80000000, image_size = 16, image_max_size = 0x10000\<rparr>, s)"
  "load_image demo_auth BL33_IMAGE_ID \<lparr>image_base = 0x80000000, image_size = 16, image_max_size = 0x10000\<rparr> s
     = (0, \<lparr>image_base = 0x80000000, image_size = 0, image_max_size = 0x10000\<rparr>, s)"
  by (simp_all add: load_image_def skips_load_def read_image_def demo_auth_def BL33_IMAGE_ID_def BL2_IMAGE_ID_def)

lemma demo_recursion:
  assumes "no_flags s"
  shows "\<exists>d'. load_auth_image 1 2 demo_auth BL33_IMAGE_ID \<lparr>image_base = 0x80000000, image_size = 0, image_max_size = 0x10000\<rparr> s = Inr (0, d', s)"
proof -
  have f: "\<And>i. \<not> auth_img_flags s i" "\<And>i. (auth_img_flags s)(i := False) = auth_img_flags s" using assms by (auto simp: no_flags_def fun_eq_iff)
  have v: "verify_loaded demo_auth i d s = (0, s)" for i d by (simp add: verify_loaded_def auth_mod_verify_img_def f)
  have p: "auth_mod_get_parent_id demo_auth BL33_IMAGE_ID s = Some 2" "auth_mod_get_parent_id demo_auth 2 s = None"
    by (simp_all add: auth_mod_get_parent_id_def f BL33_IMAGE_ID_def)
  have "load_auth_image_recursive (Suc (Suc 0)) demo_auth BL33_IMAGE_ID \<lparr>image_base = 0x80000000, image_size = 0, image_max_size = 0x10000\<rparr> s
      = Inr (0, \<lparr>image_base = 0x80000000, image_size = 0, image_max_size = 0x10000\<rparr>, s)"
    by (simp add: p demo_loads v)
  then show ?thesis by (simp add: load_auth_image_internal_def dyn_is_auth_disabled_def numeral_2_eq_2)
qed

lemma demo_sip_accepts:
  assumes "r1 \<noteq> 0" "r2 \<noteq> 0"
  shows "\<exists>s'. ecnt_verify_handler demo_sip BL33_IMAGE_ID r1 r2 r3 (demo_sip_state w) = Inr (0, s')"
proof -
  let ?d = "\<lparr>image_base = 0x80000000, image_size = 0, image_max_size = 0x10000\<rparr>"
  have p: "mem_params (demo_sip_state w) BL33_IMAGE_ID = Some ?d" and n: "no_flags (sauth (demo_sip_state w))"
    by (simp_all add: demo_sip_state_def no_flags_def)
  obtain d' where d': "load_auth_image 1 2 demo_auth BL33_IMAGE_ID ?d (sauth (demo_sip_state w)) = Inr (0, d', sauth (demo_sip_state w))"
    using demo_recursion[OF n] by blast
  then have "\<exists>s'. auth_call demo_sip BL33_IMAGE_ID ?d s = Inr (0, s')" if "sauth s = sauth (demo_sip_state w)" for s
    using that by (simp add: auth_call_def)
  then obtain f where f: "\<And>s. sauth s = sauth (demo_sip_state w) \<Longrightarrow> auth_call demo_sip BL33_IMAGE_ID ?d s = Inr (0, f s)" by metis
  show ?thesis using assms p
    by (simp add: ecnt_verify_handler_def mmap_add_dynamic_region_def set_fip_block_spec_def Let_def f ECNT_SIP_E_SUCCESS_def)
qed

theorem sip_call_keeps_idle_witness:
  "\<exists>s'. ecnt_sip_handler demo_sip True ECNT_SIP_VERIFY_BL33_HANDLE 0x80000000 0x81000000 0x100 (demo_sip_state ()) = Inr (0, s') \<and> idle s' \<and> regions s' = []"
proof -
  obtain s' where v: "ecnt_verify_handler demo_sip BL33_IMAGE_ID 0x80000000 0x81000000 0x100 (demo_sip_state ()) = Inr (0, s')"
    using demo_sip_accepts[of "0x80000000" "0x81000000" "0x100" "()"] by auto
  have "ecnt_sip_handler demo_sip True ECNT_SIP_VERIFY_BL33_HANDLE 0x80000000 0x81000000 0x100 (demo_sip_state ()) = Inr (0, s')"
    using v by (simp add: ecnt_sip_handler_def clean_top_32b_of_param_def SMC_AARCH64_BIT_def SMC32_PARAM_MASK_def BL33_IMAGE_ID_def ECNT_SIP_EFUSE_HANDLE_def
        ECNT_SIP_TEST_HANDLE_def ECNT_SIP_GET_ALG_HANDLE_def ECNT_SIP_VERIFY_BL2_HANDLE_def ECNT_SIP_VERIFY_BL33_HANDLE_def)
  then show ?thesis using sip_call_keeps_idle[OF demo_sip_ok] by (fastforce simp: demo_sip_state_def)
qed

end
