(* ===== verification/Secure_Boot.thy ===== *)
theory Secure_Boot
  imports Upgrade_Theorems Monitor_Theorems
begin








section \<open>Starting a kernel\<close>





end
