(* ===== verification/Bootargs.thy ===== *)
theory Bootargs
  imports Ecnt_Mtd
begin

text \<open>
  The kernel command line (drivers/misc/ecnt/bootargs/ecnt\_bootargs.c): bootargs\_init publishes the places of
  the two images and the boot flag in the environment, collects the configured variables into one string and
  puts it in front of the variable bootargs.

  The environment is a map from names to values. The character arrays have their C sizes, and a string
  function that would write behind one is the fault OutOfBounds. AUTOBENCH is the test-bench build for
  the EN7581, which also sets up pins and SerDes variants by the package of the chip; the pin registers are a
  map from addresses. dram\_size is the bit field of that name in the saved system parameters.
\<close>

section \<open>State\<close>

type_synonym ubenv = "string \<Rightarrow> string option"

record board =
  benv :: ubenv
  pins :: "u32 \<Rightarrow> u32"
  dram_size :: u32

record boot_build =
  AUTOBENCH :: bool
  package_id :: u32

definition BOOTARGS_STR_MAX_LEN :: nat where "BOOTARGS_STR_MAX_LEN = 1024"

definition mi_conf :: "string list" where
  "mi_conf = [''sdram_conf'', ''vendor_name'', ''product_name'', ''ethaddr'', ''snmp_sysobjid'', ''country_code'',
     ''ether_gpio'', ''power_gpio'', ''username'', ''password'', ''dsl_gpio'', ''internet_gpio'',
     ''multi_upgrade_gpio'', ''onu_type'', ''qdma_init'', ''root'', ''console'', ''bootflag'', ''serdes_sel'',
     ''iommu'', ''mem'', ''swiotlb'', ''dram_limit'', ''iommu.passthrough'', ''serdes_pon'', ''serdes_ethernet'',
     ''serdes_wifi1'', ''serdes_wifi2'', ''serdes_usb1'', ''serdes_usb2'', ''sn_test'', ''board_args'', ''tclinux_info'']"

section \<open>Strings\<close>

definition strncat :: "string \<Rightarrow> string \<Rightarrow> nat \<Rightarrow> fault + string" where
  "strncat dst src n = strcat dst (take n src)"

fun strncat_all :: "nat \<Rightarrow> string list \<Rightarrow> string \<Rightarrow> fault + string" where
  "strncat_all n [] dst = Inr dst"
| "strncat_all n (s # ss) dst = res_bind (strncat dst s n) (strncat_all n ss)"

definition hex_digit :: "nat \<Rightarrow> char" where
  "hex_digit d = char_of (if d < 10 then 48 + d else 87 + d)"

fun hex_string :: "nat \<Rightarrow> string" where
  "hex_string n = (if n < 16 then [hex_digit n] else hex_string (n div 16) @ [hex_digit (n mod 16)])"

declare hex_string.simps [simp del]

text \<open>sprintf with the format 0x\%x.\<close>

definition sprintf_0x :: "string \<Rightarrow> u32 \<Rightarrow> fault + string" where
  "sprintf_0x dst v = strcpy dst (''0x'' @ hex_string (unat v))"

section \<open>The packages of the EN7581\<close>

definition isAN7581GT :: "u32 \<Rightarrow> bool" where "isAN7581GT p \<longleftrightarrow> p = 0x0"
definition isAN7566GT :: "u32 \<Rightarrow> bool" where "isAN7566GT p \<longleftrightarrow> p = 0x1"
definition isAN7581PT :: "u32 \<Rightarrow> bool" where "isAN7581PT p \<longleftrightarrow> p = 0x2"
definition isAN7581ST :: "u32 \<Rightarrow> bool" where "isAN7581ST p \<longleftrightarrow> p = 0x3 \<or> p = 0xd"
definition isAN7551PT :: "u32 \<Rightarrow> bool" where "isAN7551PT p \<longleftrightarrow> p = 0x4"
definition isAN7581CT :: "u32 \<Rightarrow> bool" where "isAN7581CT p \<longleftrightarrow> p = 0x5"
definition isAN7581DT :: "u32 \<Rightarrow> bool" where "isAN7581DT p \<longleftrightarrow> p = 0x6"
definition isAN7581FG :: "u32 \<Rightarrow> bool" where "isAN7581FG p \<longleftrightarrow> p = 0x7"
definition isAN7581FP :: "u32 \<Rightarrow> bool" where "isAN7581FP p \<longleftrightarrow> p = 0x8"
definition isAN7581FD :: "u32 \<Rightarrow> bool" where "isAN7581FD p \<longleftrightarrow> p = 0x9"
definition isAN7551GT :: "u32 \<Rightarrow> bool" where "isAN7551GT p \<longleftrightarrow> p = 0xa"
definition isAN7566PT :: "u32 \<Rightarrow> bool" where "isAN7566PT p \<longleftrightarrow> p = 0xb"
definition isAN7581IT :: "u32 \<Rightarrow> bool" where "isAN7581IT p \<longleftrightarrow> p = 0xc"

lemmas package_defs = isAN7581GT_def isAN7566GT_def isAN7581PT_def isAN7581ST_def isAN7551PT_def isAN7581CT_def
  isAN7581DT_def isAN7581FG_def isAN7581FP_def isAN7581FD_def isAN7551GT_def isAN7566PT_def isAN7581IT_def

text \<open>
  The pins: each step reads a register, changes bits and writes it back. A step is the address, the bits that
  are set and the bits that are cleared; in no step do the two overlap.
\<close>

type_synonym pin_step = "u32 \<times> u32 \<times> u32"

definition usb_pins :: "u32 \<Rightarrow> pin_step list" where
  "usb_pins p =
    (if isAN7581PT p \<or> isAN7581FP p \<or> isAN7581FD p \<or> isAN7581CT p \<or> isAN7581ST p \<or> isAN7581IT p \<or> isAN7566PT p \<or> isAN7551PT p
     then [(0x1fbf0260, 0x14000000, 0), (0x1fbf0278, 0x6000, 0), (0x1fbf0270, 0x2000, 0x4000)]
     else if isAN7581DT p
     then [(0x1fbf0260, 0x14000000, 0), (0x1fbf0278, 0x6000, 0), (0x1fbf0270, 0x6000, 0)]
     else if isAN7581GT p \<or> isAN7581FG p \<or> isAN7551GT p \<or> isAN7566GT p
     then [(0x1fbf0260, 0x14000000, 0), (0x1fbf0278, 0x6000, 0), (0x1fbf0270, 0x2000, 0x4000),
           (0x1fbf0200, 0x40000000, 0), (0x1fbf0220, 0x1, 0), (0x1fbf0214, 0x18000, 0), (0x1fbf0204, 0x10000, 0x8000)]
     else [])"

definition pon_pins :: "u32 \<Rightarrow> pin_step list" where
  "pon_pins p =
    (if isAN7581PT p \<or> isAN7581FP p \<or> isAN7581FD p \<or> isAN7581CT p \<or> isAN7581ST p \<or> isAN7581IT p \<or> isAN7581DT p
        \<or> isAN7581GT p \<or> isAN7581FG p \<or> isAN7551PT p \<or> isAN7551GT p
     then [(0x1fbf0260, 0x100040, 0), (0x1fbf0278, 0x408, 0), (0x1fbf0270, 0x408, 0)]
     else if isAN7566PT p \<or> isAN7566GT p
     then [(0x1fbf0260, 0x100040, 0), (0x1fbf0278, 0x408, 0), (0x1fbf0270, 0x400, 0x8)]
     else [])"

definition pcie_pins :: "u32 \<Rightarrow> pin_step list" where
  "pcie_pins p =
    (let two = (\<lambda>s0 c0 s1 c1. [(0x1fbf0200, 0x140, 0), (0x1fbf0214, 0x18, 0), (0x1fbf0204, s0, c0),
                                (0x1fbf0200, 0x14000000, 0), (0x1fbf0214, 0x6000, 0), (0x1fbf0204, s1, c1)])
     in if isAN7581PT p \<or> isAN7581FP p \<or> isAN7581IT p \<or> isAN7566PT p \<or> isAN7551PT p \<or> isAN7581CT p then two 0x10 0x8 0x4000 0x2000
        else if isAN7581DT p then two 0 0x18 0 0x6000
        else if isAN7581FD p \<or> isAN7581ST p then two 0x18 0 0x6000 0
        else if isAN7581GT p \<or> isAN7581FG p \<or> isAN7551GT p \<or> isAN7566GT p then two 0x10 0x8 0x4000 0x2000
        else [])"

definition pin_write :: "pin_step \<Rightarrow> (u32 \<Rightarrow> u32) \<Rightarrow> (u32 \<Rightarrow> u32)" where
  "pin_write s regs = (case s of (a, set_bits, clear_bits) \<Rightarrow>
     regs(a := or (and (regs a) (not clear_bits)) set_bits))"

definition set_serdes_gpio :: "u32 \<Rightarrow> board \<Rightarrow> board" where
  "set_serdes_gpio p b = b\<lparr>pins := fold pin_write (usb_pins p @ pon_pins p @ pcie_pins p) (pins b)\<rparr>"

text \<open>
  The SerDes variants that the package asks for, in the order in which the body of the loop
  tests for them.
\<close>

definition wifi_rules :: "u32 \<Rightarrow> (string \<times> string) list" where
  "wifi_rules p =
    (if isAN7581PT p \<or> isAN7581CT p \<or> isAN7551PT p \<or> isAN7566PT p \<or> isAN7581FP p
     then [(''serdes_wifi1'', ''01''), (''serdes_wifi2'', ''01'')]
     else if isAN7581DT p then [(''serdes_wifi1'', ''05''), (''serdes_wifi2'', ''05'')]
     else if isAN7581ST p \<or> isAN7581FD p then [(''serdes_wifi1'', ''13''), (''serdes_wifi2'', ''13'')]
     else if isAN7581GT p \<or> isAN7581FG p \<or> isAN7551GT p \<or> isAN7566GT p
     then [(''serdes_wifi1'', ''00''), (''serdes_wifi2'', ''00'')]
     else [])"

definition usb_rules :: "u32 \<Rightarrow> (string \<times> string) list" where
  "usb_rules p =
    (if isAN7581DT p then [(''serdes_usb1'', ''11'')]
     else if isAN7581GT p \<or> isAN7581FG p \<or> isAN7551GT p \<or> isAN7566GT p then [(''serdes_usb2'', ''01'')]
     else [])"

definition pon_rules :: "u32 \<Rightarrow> (string \<times> string) list" where
  "pon_rules p = (if isAN7566PT p \<or> isAN7566GT p then [(''serdes_pon'', ''13'')] else [])"

definition ethernet_rules :: "u32 \<Rightarrow> (string \<times> string) list" where
  "ethernet_rules p =
    (if isAN7581CT p \<or> isAN7581DT p \<or> isAN7551PT p \<or> isAN7551GT p then [(''serdes_ethernet'', ''12'')]
     else if isAN7581FP p \<or> isAN7581PT p \<or> isAN7581IT p \<or> isAN7581GT p \<or> isAN7581ST p \<or> isAN7566PT p \<or> isAN7581FD p
        \<or> isAN7581FG p \<or> isAN7566GT p
     then [(''serdes_ethernet'', ''11'')] else [])"

definition serdes_rules :: "u32 \<Rightarrow> (string \<times> string) list" where
  "serdes_rules p = wifi_rules p @ usb_rules p @ pon_rules p @ ethernet_rules p"

text \<open>A rule compares the variable, which strcmp takes to be set, and sets it when it differs.\<close>

fun serdes_apply :: "(string \<times> string) list \<Rightarrow> string \<Rightarrow> ubenv \<Rightarrow> fault + ubenv" where
  "serdes_apply [] name e = Inr e"
| "serdes_apply ((n, v) # rs) name e =
    (if name = n
     then case e n of None \<Rightarrow> Inl NullPointer
          | Some val \<Rightarrow> serdes_apply rs name (if val \<noteq> v then e(n \<mapsto> v) else e)
     else serdes_apply rs name e)"

fun serdes_loop :: "(string \<times> string) list \<Rightarrow> string list \<Rightarrow> ubenv \<Rightarrow> fault + ubenv" where
  "serdes_loop rs [] e = Inr e"
| "serdes_loop rs (name # names) e = res_bind (serdes_apply rs name e) (serdes_loop rs names)"

definition set_serdes_config :: "u32 \<Rightarrow> board \<Rightarrow> fault + board" where
  "set_serdes_config p b = res_bind (serdes_loop (serdes_rules p) mi_conf (benv b)) (\<lambda>e. Inr (b\<lparr>benv := e\<rparr>))"

section \<open>Collecting the variables\<close>

fun parse_env_loop :: "ubenv \<Rightarrow> string list \<Rightarrow> u32 \<Rightarrow> string \<Rightarrow> fault + int \<times> string" where
  "parse_env_loop e [] totalLen var = Inr (0, var)"
| "parse_env_loop e (name # names) totalLen var =
    (case e name of
      None \<Rightarrow> parse_env_loop e names totalLen var
    | Some val \<Rightarrow>
        let totalLen1 = totalLen + of_nat (length name + 1 + length val + 1)
        in if totalLen1 \<ge> of_nat (BOOTARGS_STR_MAX_LEN - 1) then Inr (-1, var)
           else res_bind (strncat_all (BOOTARGS_STR_MAX_LEN - 1) [name, ''='', val, '' ''] var)
                  (parse_env_loop e names totalLen1))"

definition parse_env_config :: "ubenv \<Rightarrow> string \<Rightarrow> fault + int \<times> string" where
  "parse_env_config e var = parse_env_loop e mi_conf (of_nat (length (c_str var))) var"

section \<open>Publishing the images and the flag\<close>

text \<open>The five numbers of an image, each printed into an array of 16 characters.\<close>

fun print_all :: "u32 list \<Rightarrow> fault + string list" where
  "print_all [] = Inr []"
| "print_all (v # vs) = res_bind (sprintf_0x (replicate 16 NUL) v) (\<lambda>s. res_bind (print_all vs) (\<lambda>ss. Inr (c_str s # ss)))"

definition img_numbers :: "u32 \<Rightarrow> u32 \<Rightarrow> u32 \<Rightarrow> u32 \<Rightarrow> u32 \<Rightarrow> u32 \<Rightarrow> u32 list" where
  "img_numbers offs tsize koff ksize roff rsize = [tsize, koff + offs, ksize, roff + offs, rsize]"

fun with_commas :: "string list \<Rightarrow> string list" where
  "with_commas [] = []"
| "with_commas [s] = [s]"
| "with_commas (s # ss) = s # '','' # with_commas ss"

definition add_img :: "u32 list \<Rightarrow> string \<Rightarrow> fault + string" where
  "add_img nums info_str = res_bind (print_all nums) (\<lambda>ss. strncat_all 171 (with_commas ss) info_str)"

definition set_tclinux_img_env :: "u32 \<Rightarrow> tclinux_imginfo option \<Rightarrow> tclinux_imginfo option \<Rightarrow> ubenv \<Rightarrow> fault + ubenv" where
  "set_tclinux_img_env offs firstInfo secondInfo e =
    (let nums = (\<lambda>i. img_numbers offs (tclinux_size i) (kernel_off i) (kernel_size i) (rootfs_off i) (rootfs_size i))
     in res_bind (case firstInfo of None \<Rightarrow> Inr (replicate 172 NUL) | Some i \<Rightarrow> add_img (nums i) (replicate 172 NUL)) (\<lambda>s1.
        res_bind (case secondInfo of None \<Rightarrow> Inr s1 | Some i \<Rightarrow> res_bind (strncat s1 '','' 171) (add_img (nums i))) (\<lambda>s2.
        Inr (e(''tclinux_info'' \<mapsto> c_str s2)))))"

definition set_bootflag_env :: "u32 \<Rightarrow> ubenv \<Rightarrow> ubenv" where
  "set_bootflag_env bootflag e = (if bootflag = 0 then e(''bootflag'' \<mapsto> ''0'') else e(''bootflag'' \<mapsto> ''1''))"

text \<open>The size is kept in units of 16 MiB in a field of ten bits.\<close>

definition GET_DRAM_SIZE :: "board \<Rightarrow> u32" where "GET_DRAM_SIZE b = push_bit 4 (dram_size b)"
definition SET_DRAM_SIZE :: "u64 \<Rightarrow> board \<Rightarrow> board" where
  "SET_DRAM_SIZE x b = b\<lparr>dram_size := ucast (drop_bit 4 (and x 0x3FFF))\<rparr>"

definition check_dram_limit :: "board \<Rightarrow> board" where
  "check_dram_limit b =
    (case benv b ''dram_limit'' of
      None \<Rightarrow> b
    | Some val \<Rightarrow>
        let cal_size = ucast (GET_DRAM_SIZE b) * 0x100000 :: u64; sz = fst (ecnt_memparse val 0)
        in if cal_size \<ge> sz then SET_DRAM_SIZE (drop_bit 20 sz) b else b)"

definition bootargs_init :: "boot_build \<Rightarrow> u32 \<Rightarrow> tclinux_imginfo option \<Rightarrow> tclinux_imginfo option \<Rightarrow> u32 \<Rightarrow> board
    \<Rightarrow> fault + int \<times> board" where
  "bootargs_init A offs first_imginfo second_imginfo bootflag b =
    res_bind (set_tclinux_img_env offs first_imginfo second_imginfo (benv b)) (\<lambda>e1.
    let b1 = b\<lparr>benv := set_bootflag_env bootflag e1\<rparr>
    in res_bind (if AUTOBENCH A then set_serdes_config (package_id A) (set_serdes_gpio (package_id A) b1) else Inr b1) (\<lambda>b2.
       res_bind (parse_env_config (benv b2) (replicate BOOTARGS_STR_MAX_LEN NUL)) (\<lambda>(r, var).
         if r \<noteq> 0 then Inr (-1, b2)
         else let b3 = check_dram_limit b2
              in res_bind (case benv b3 ''bootargs'' of None \<Rightarrow> Inr var
                           | Some bootargs \<Rightarrow> strncat var bootargs (BOOTARGS_STR_MAX_LEN - 1)) (\<lambda>var1.
                 Inr (0, b3\<lparr>benv := (benv b3)(''bootargs'' \<mapsto> c_str var1)\<rparr>)))))"

end
