(* ===== verification/Cmd_Flash.thy ===== *)
theory Cmd_Flash
  imports Verify_Theorems Bootargs Bootflag
begin

text \<open>
  The flash and bootflag commands (common/ecnt/cmd\_flash.c and cmd\_bootflag.c), of which imgread is what the boot
  command runs: it verifies the kernel image, loads it, and prepares the command line.

  The arguments are a list of strings, argv; reading the entry behind the last one gives a null pointer. Memory
  is the byte list ibuf from CONFIG\_SYS\_LOAD\_ADDR (buf\_addr) on; an address outside of it is the fault OutOfBounds.
  Results of the flash functions are ignored where the code ignores them. flash\_init sets up the chip and is a
  parameter. Stopping the Ethernet controller and console output have no counterpart.
\<close>

section \<open>Environment and state\<close>

record 'm cmd_env =
  cvf :: "'m vf_env"
  cfdt :: fdt_lib
  cboot :: boot_conf
  cbuild :: boot_build
  CONFIG_DUAL_IMAGE :: bool
  flash_init :: "'m hal_state \<Rightarrow> 'm hal_state"

record 'm cmd_state =
  vfs :: "'m vf_state"
  cpins :: "u32 \<Rightarrow> u32"
  cdram :: u32

definition CMD_RET_USAGE :: int where "CMD_RET_USAGE = -1"
definition CONFIG_ENV_ROOT :: string where "CONFIG_ENV_ROOT = ''/dev/mtdblock5 ro''"
definition CONFIG_ENV_ROOT_SLAVE :: string where "CONFIG_ENV_ROOT_SLAVE = ''/dev/mtdblock8 ro''"

definition cmd_hal :: "('m hal_state \<Rightarrow> 'm hal_state) \<Rightarrow> 'm cmd_state \<Rightarrow> 'm cmd_state" where
  "cmd_hal f s = s\<lparr>vfs := (vfs s)\<lparr>ihal := f (ihal (vfs s))\<rparr>\<rparr>"

section \<open>Arguments\<close>

definition arg :: "string list \<Rightarrow> nat \<Rightarrow> fault + string" where
  "arg argv i = (if i < length argv then Inr (argv ! i) else if i = length argv then Inl NullPointer else Inl OutOfBounds)"

text \<open>simple\_strtoul with base 16; the product and sum wrap around at 32 bits.\<close>

definition simple_strtoul16 :: "string \<Rightarrow> u32" where
  "simple_strtoul16 cp =
    ucast (fst (strtoull_loop 16 0
      (if take 2 cp = ''0x'' \<and> drop 2 cp \<noteq> [] \<and> isxdigit (hd (drop 2 cp)) then drop 2 cp else cp)))"

definition num_arg :: "string list \<Rightarrow> nat \<Rightarrow> fault + u32" where
  "num_arg argv i = res_bind (arg argv i) (\<lambda>s. Inr (simple_strtoul16 s))"

text \<open>The optional buffer address and its position in memory.\<close>

definition buf_arg :: "'m cmd_env \<Rightarrow> string list \<Rightarrow> bool \<Rightarrow> nat \<Rightarrow> 'm cmd_state \<Rightarrow> fault + nat" where
  "buf_arg X argv given i s =
    res_bind (if given then num_arg argv i else Inr (buf_addr (cvf X))) (\<lambda>a.
      let pos = unat (a - buf_addr (cvf X))
      in if buf_addr (cvf X) \<le> a \<and> pos \<le> length (ibuf (vfs s)) then Inr pos else Inl OutOfBounds)"

text \<open>strncmp(argv[1], name, n) = 0 for a name of at least n - 1 characters.\<close>

definition cmd_is :: "string \<Rightarrow> string \<Rightarrow> nat \<Rightarrow> bool" where
  "cmd_is a name n \<longleftrightarrow> (if length name < n then a = name else take n a = take n name)"

section \<open>Erasing, reading and writing\<close>

definition cmd_erase :: "'m cmd_env \<Rightarrow> u32 \<Rightarrow> u32 \<Rightarrow> 'm cmd_state \<Rightarrow> fault + 'm cmd_state" where
  "cmd_erase X addr len s =
    res_bind (flash_erase (vf_hal (cvf X)) addr len (ihal (vfs s))) (\<lambda>(r, h). Inr (cmd_hal (\<lambda>_. h) s))"

definition cmd_write :: "'m cmd_env \<Rightarrow> u32 \<Rightarrow> u32 \<Rightarrow> nat \<Rightarrow> 'm cmd_state \<Rightarrow> fault + 'm cmd_state" where
  "cmd_write X addr len pos s =
    (if length (ibuf (vfs s)) < pos + unat len then Inl OutOfBounds
     else res_bind (flash_write (vf_hal (cvf X)) addr len (drop pos (ibuf (vfs s))) (ihal (vfs s))) (\<lambda>(r, h).
            Inr (cmd_hal (\<lambda>_. h) s)))"

definition force_erase_all :: "nand_cfg \<Rightarrow> 'm hal_state \<Rightarrow> 'm hal_state" where
  "force_erase_all C h =
    h\<lparr>nand := (nand h)\<lparr>dev := fold (\<lambda>b d. snd (spi_nand_erase_block C b d)) [0..<device_size C div erase_size C] (dev (nand h))\<rparr>\<rparr>"

section \<open>Loading the image for a start\<close>

definition no_info :: tclinux_imginfo where
  "no_info = \<lparr>kernel_off = 0, kernel_size = 0, rootfs_off = 0, rootfs_size = 0, tclinux_size = 0\<rparr>"

text \<open>get\_tclinux\_imginfo on the state of the command, with the buffer at position pos.\<close>

definition imginfo_call :: "'m cmd_env \<Rightarrow> nat \<Rightarrow> u32 \<Rightarrow> IMG_BOOT_STATUS \<Rightarrow> 'm vf_state \<Rightarrow> fault + int \<times> tclinux_imginfo \<times> 'm vf_state" where
  "imginfo_call X pos addr boot st =
    res_bind (get_tclinux_imginfo \<lparr>hal_of = vf_hal (cvf X), fdt = cfdt X, ramfs = ramfs_mem st\<rparr> addr no_info boot
                (img_state.truncate (st\<lparr>ibuf := drop pos (ibuf st)\<rparr>))) (\<lambda>(r, info, im).
      Inr (r, info, (img_state.extend im (img_state.more st))\<lparr>ibuf := take pos (ibuf st) @ ibuf im\<rparr>))"

definition boot_flag_read :: "'m cmd_env \<Rightarrow> 'm vf_state \<Rightarrow> fault + u32 \<times> 'm vf_state" where
  "boot_flag_read X st =
    (if CONFIG_DUAL_IMAGE X
     then res_bind (readBootFlagFromFlash (vf_conf (cvf X)) (cboot X) (vf_hal (cvf X)) (vf_mtd (cvf X)) (ihal st)) (\<lambda>(f, h).
            Inr (ucast f, st\<lparr>ihal := h\<rparr>))
     else Inr (0, st))"

text \<open>
  The two images in the order of the code: the one that is not started is looked at first, and
  its failure is only reported. Returns None when the image to be started cannot be read.
\<close>

definition load_images :: "'m cmd_env \<Rightarrow> nat \<Rightarrow> u32 \<Rightarrow> u32 \<Rightarrow> u32 \<Rightarrow> 'm vf_state
    \<Rightarrow> fault + ((tclinux_imginfo \<times> tclinux_imginfo) option \<times> 'm vf_state)" where
  "load_images X pos bootflag first_imgAddr second_imgAddr st =
    (if bootflag = 0
     then let st1 = st\<lparr>uenv := (uenv st)(''root'' \<mapsto> CONFIG_ENV_ROOT)\<rparr>
          in res_bind (if CONFIG_DUAL_IMAGE X then imginfo_call X pos second_imgAddr NOT_BOOT_IMG st1 else Inr (0, no_info, st1)) (\<lambda>(r2, i2, st2).
             res_bind (imginfo_call X pos first_imgAddr BOOT_IMG st2) (\<lambda>(r1, i1, st3).
               Inr (if r1 \<noteq> 0 then None else Some (i1, i2), st3)))
     else let st1 = st\<lparr>uenv := (uenv st)(''root'' \<mapsto> CONFIG_ENV_ROOT_SLAVE)\<rparr>
          in res_bind (imginfo_call X pos first_imgAddr NOT_BOOT_IMG st1) (\<lambda>(r1, i1, st2).
             res_bind (imginfo_call X pos second_imgAddr BOOT_IMG st2) (\<lambda>(r2, i2, st3).
               Inr (if r2 \<noteq> 0 then None else Some (i1, i2), st3))))"

definition imgread :: "'m cmd_env \<Rightarrow> nat \<Rightarrow> 'm cmd_state \<Rightarrow> fault + int \<times> 'm cmd_state" where
  "imgread X pos s =
    (let V = cvf X; K = vf_conf V; g = vf_mtd V; hdr = of_nat trx_header_size
     in res_bind (ecnt_get_tclinux_flash_offset K g) (\<lambda>a1.
        res_bind (ecnt_get_tclinux_slave_flash_offset K g) (\<lambda>a2.
        res_bind (boot_flag_read X (vfs s)) (\<lambda>(bootflag, st1).
        res_bind (boot_verify V pos bootflag st1) (\<lambda>(r, st2).
          if r \<noteq> 0 then Inr (-1, s\<lparr>vfs := st2\<rparr>)
          else res_bind (load_images X pos bootflag (a1 + hdr) (a2 + hdr) st2) (\<lambda>(infos, st3).
            case infos of None \<Rightarrow> Inr (-1, s\<lparr>vfs := st3\<rparr>)
            | Some (i1, i2) \<Rightarrow>
                res_bind (bootargs_init (cbuild X) (ifip_offset st3) (Some i1) (Some i2) bootflag
                            \<lparr>benv = uenv st3, pins = cpins s, dram_size = cdram s\<rparr>) (\<lambda>(rb, b).
                  Inr (if rb \<noteq> 0 then -1 else 0,
                       s\<lparr>vfs := st3\<lparr>uenv := benv b\<rparr>, cpins := pins b, cdram := dram_size b\<rparr>))))))))"

section \<open>The commands\<close>

text \<open>imgwrite looks at the header of the image only for its messages; readId and dumpbmt only print.\<close>

definition flash_command :: "'m cmd_env \<Rightarrow> string list \<Rightarrow> 'm cmd_state \<Rightarrow> fault + int \<times> 'm cmd_state" where
  "flash_command X argv s =
    (let argc = length argv; a = argv ! 1; ok = (\<lambda>s'. Inr (0, s'));
         num2 = (\<lambda>f. res_bind (num_arg argv 2) (\<lambda>addr. res_bind (num_arg argv 3) (\<lambda>len. f addr len)))
     in if argc < 2 then Inr (CMD_RET_USAGE, s)
        else if cmd_is a ''init'' 5 then ok (cmd_hal (flash_init X) s)
        else if cmd_is a ''erase'' 6 then num2 (\<lambda>addr len. res_bind (cmd_erase X addr len s) ok)
        else if cmd_is a ''forceeraseall'' 6 then ok (cmd_hal (force_erase_all (nand_conf (vf_hal (cvf X)))) s)
        else if cmd_is a ''read'' 5 then num2 (\<lambda>addr len. res_bind (buf_arg X argv (argc = 5) 4 s) (\<lambda>pos.
               res_bind (load_flash (cvf X) addr len pos (vfs s)) (\<lambda>st. ok (s\<lparr>vfs := st\<rparr>))))
        else if cmd_is a ''write'' 6 then num2 (\<lambda>addr len. res_bind (buf_arg X argv (argc = 5) 4 s) (\<lambda>pos.
               res_bind (cmd_erase X addr len s) (\<lambda>s1. res_bind (cmd_write X addr len pos s1) ok)))
        else if cmd_is a ''imgread'' 6 then res_bind (num_arg argv 2) (\<lambda>len.
               res_bind (buf_arg X argv (5 \<le> argc) 3 s) (\<lambda>pos. imgread X pos s))
        else if cmd_is a ''imgwrite'' 6 then num2 (\<lambda>addr len. res_bind (buf_arg X argv (argc = 5) 4 s) (\<lambda>pos.
               res_bind (cmd_erase X addr len s) (\<lambda>s1. res_bind (cmd_write X addr len pos s1) ok)))
        else if cmd_is a ''upgrade'' 6 then num2 (\<lambda>addr len. res_bind (buf_arg X argv (argc = 5) 4 s) (\<lambda>pos.
               res_bind (flash_erase_non_block (vf_hal (cvf X)) addr len (ihal (vfs s))) (\<lambda>(r, h).
               res_bind (cmd_write X addr len pos (cmd_hal (\<lambda>_. h) s)) ok)))
        else if cmd_is a ''readId'' 6 then ok s
        else if cmd_is a ''dumpbmt'' 6 then ok s
        else Inr (CMD_RET_USAGE, s))"

text \<open>imginfo reads the versions of both images; it fails when one of them has no header.\<close>

definition img_version_call :: "'m cmd_env \<Rightarrow> u32 \<Rightarrow> 'm cmd_state \<Rightarrow> int \<times> 'm cmd_state" where
  "img_version_call X addr s =
    (let st = vfs s;
         (r, hdr, im) = get_tclinux_img_version \<lparr>hal_of = vf_hal (cvf X), fdt = cfdt X, ramfs = ramfs_mem st\<rparr> addr (img_state.truncate st)
     in (r, s\<lparr>vfs := img_state.extend im (img_state.more st)\<rparr>))"

definition imginfo_command :: "'m cmd_env \<Rightarrow> 'm cmd_state \<Rightarrow> fault + int \<times> 'm cmd_state" where
  "imginfo_command X s =
    res_bind (ecnt_get_tclinux_flash_offset (vf_conf (cvf X)) (vf_mtd (cvf X))) (\<lambda>a1.
    res_bind (ecnt_get_tclinux_slave_flash_offset (vf_conf (cvf X)) (vf_mtd (cvf X))) (\<lambda>a2.
      let (r1, s1) = img_version_call X a1 s; (r2, s2) = img_version_call X a2 s1
      in Inr (if r1 = 0 \<and> r2 = 0 then 0 else -1, s2)))"

definition bootflag_command :: "'m cmd_env \<Rightarrow> string list \<Rightarrow> 'm cmd_state \<Rightarrow> fault + int \<times> 'm cmd_state" where
  "bootflag_command X argv s =
    (let V = cvf X; K = vf_conf V; h = ihal (vfs s)
     in if length argv < 2 then Inr (CMD_RET_USAGE, s)
        else if cmd_is (argv ! 1) ''read'' 4
        then res_bind (readBootFlagFromFlash K (cboot X) (vf_hal V) (vf_mtd V) h) (\<lambda>(f, h1). Inr (0, cmd_hal (\<lambda>_. h1) s))
        else if cmd_is (argv ! 1) ''swap'' 4
        then res_bind (swap_bootflag K (cboot X) (vf_hal V) (vf_mtd V) h) (\<lambda>(r, h1). Inr (r, cmd_hal (\<lambda>_. h1) s))
        else Inr (CMD_RET_USAGE, s))"

end
