(* ===== verification/Bootargs_Theorems.thy ===== *)
theory Bootargs_Theorems
  imports Bootargs
begin

text \<open>
  What the command line contains, that the text about the images fits its array for all values, and what
  happens when bootargs\_init runs a second time.
\<close>

section \<open>Appending to character arrays\<close>

definition holds :: "nat \<Rightarrow> string \<Rightarrow> string \<Rightarrow> bool" where
  "holds n tx arr \<longleftrightarrow> length arr = n \<and> c_str arr = tx"

lemma holds_empty: "0 < n \<Longrightarrow> holds n [] (replicate n NUL)"
  by (cases n) (simp_all add: holds_def c_str_def)

lemma strncat_holds:
  assumes "holds cap tx arr" "NUL \<notin> set s"
  shows "length tx + length (take n s) < cap \<Longrightarrow> \<exists>arr'. strncat arr s n = Inr arr' \<and> holds cap (tx @ take n s) arr'"
    and "cap \<le> length tx + length (take n s) \<Longrightarrow> strncat arr s n = Inl OutOfBounds"
proof -
  have nn: "NUL \<notin> set (take n s)" using assms(2) by (meson in_set_takeD)
  { assume "length tx + length (take n s) < cap"
    then obtain arr' where r: "strncat arr s n = Inr arr'" using assms(1) by (auto simp: strncat_def strcat_def holds_def Let_def)
    then have "holds cap (tx @ take n s) arr'" using strcat_c_str[OF r[unfolded strncat_def] nn] assms(1) by (simp add: holds_def)
    then show "\<exists>arr'. strncat arr s n = Inr arr' \<and> holds cap (tx @ take n s) arr'" using r by simp }
  { assume "cap \<le> length tx + length (take n s)"
    then show "strncat arr s n = Inl OutOfBounds" using assms(1) by (auto simp: strncat_def strcat_def holds_def Let_def) }
qed

lemma strncat_all_holds:
  assumes "holds cap tx arr" "\<forall>s \<in> set ss. NUL \<notin> set s" "cap \<le> n + 1" "length tx + length (concat ss) < cap"
  shows "\<exists>arr'. strncat_all n ss arr = Inr arr' \<and> holds cap (tx @ concat ss) arr'"
  using assms
proof (induction ss arbitrary: tx arr)
  case (Cons s ss)
  have t: "take n s = s" using Cons.prems(3,4) by simp
  obtain a1 where a1: "strncat arr s n = Inr a1" "holds cap (tx @ s) a1"
    using strncat_holds(1)[OF Cons.prems(1), of s n] Cons.prems(2,4) t by auto
  show ?case using Cons.IH[OF a1(2)] Cons.prems(2-4) a1(1) by simp
qed simp

section \<open>The numbers of an image\<close>

lemma hex_string_length: "n < 16 ^ Suc k \<Longrightarrow> length (hex_string n) \<le> Suc k"
proof (induction k arbitrary: n)
  case 0 then show ?case by (subst hex_string.simps) simp
next
  case (Suc k)
  then have "n div 16 < 16 ^ Suc k" by (simp add: less_mult_imp_div_less)
  with Suc.IH show ?case by (subst hex_string.simps) simp
qed

lemma hex_string_word: "length (hex_string (unat (v :: u32))) \<le> 8"
  using hex_string_length[of "unat v" 7] unsigned_less[of v] by simp

lemma hex_digit_not_NUL: "d < 16 \<Longrightarrow> hex_digit d \<noteq> NUL"
  unfolding hex_digit_def NUL_def by (auto simp: char_of_eq_iff take_bit_nat_eq_self)

lemma hex_string_no_NUL: "NUL \<notin> set (hex_string n)"
proof (induction n rule: hex_string.induct)
  case (1 n)
  then show ?case using hex_digit_not_NUL[of n] hex_digit_not_NUL[of "n mod 16"] by (subst hex_string.simps) auto
qed

definition hex0x :: "u32 \<Rightarrow> string" where "hex0x v = ''0x'' @ hex_string (unat v)"

lemma hex0x_facts: "NUL \<notin> set (hex0x v)" "length (hex0x v) \<le> 10"
  using hex_string_no_NUL[of "unat v"] hex_string_word[of v] by (simp_all add: hex0x_def NUL_def)

lemma print_all_eq: "print_all vs = Inr (map hex0x vs)"
proof (induction vs)
  case (Cons v vs)
  have "length (hex0x v) + 1 \<le> 16" using hex0x_facts(2)[of v] by simp
  then obtain s where s: "sprintf_0x (replicate 16 NUL) v = Inr s" by (simp add: sprintf_0x_def strcpy_def hex0x_def)
  have "c_str s = hex0x v" using strcpy_c_str(1)[OF s[unfolded sprintf_0x_def hex0x_def[symmetric]]] hex0x_facts(1) by blast
  then show ?case using Cons s by simp
qed simp

text \<open>The text about one image: five numbers with commas between them.\<close>

definition img_text :: "u32 \<Rightarrow> tclinux_imginfo \<Rightarrow> string" where
  "img_text offs i = hex0x (tclinux_size i) @ '','' @ hex0x (kernel_off i + offs) @ '','' @ hex0x (kernel_size i) @ '',''
     @ hex0x (rootfs_off i + offs) @ '','' @ hex0x (rootfs_size i)"

lemma img_text_length: "length (img_text offs i) \<le> 54"
  using hex0x_facts(2)[of "tclinux_size i"] hex0x_facts(2)[of "kernel_off i + offs"] hex0x_facts(2)[of "kernel_size i"]
    hex0x_facts(2)[of "rootfs_off i + offs"] hex0x_facts(2)[of "rootfs_size i"] by (simp add: img_text_def)

lemma img_text_no_NUL: "NUL \<notin> set (img_text offs i)"
  using hex0x_facts(1) by (auto simp: img_text_def NUL_def)

lemma add_img_holds:
  assumes "holds 172 tx arr" "length tx \<le> 117"
  shows "\<exists>arr'. add_img (img_numbers offs (tclinux_size i) (kernel_off i) (kernel_size i) (rootfs_off i) (rootfs_size i)) arr = Inr arr'
     \<and> holds 172 (tx @ img_text offs i) arr'"
proof -
  let ?ss = "with_commas (map hex0x (img_numbers offs (tclinux_size i) (kernel_off i) (kernel_size i) (rootfs_off i) (rootfs_size i)))"
  have c: "concat ?ss = img_text offs i" by (simp add: img_numbers_def img_text_def)
  moreover have "\<forall>s \<in> set ?ss. NUL \<notin> set s" using hex0x_facts(1) by (simp add: img_numbers_def NUL_def)
  ultimately show ?thesis
    using strncat_all_holds[OF assms(1), of ?ss 171] img_text_length[of offs i] assms(2) by (simp add: add_img_def print_all_eq)
qed

definition info_text :: "u32 \<Rightarrow> tclinux_imginfo \<Rightarrow> tclinux_imginfo \<Rightarrow> string" where
  "info_text offs i j = img_text offs i @ '','' @ img_text offs j"

lemma set_tclinux_img_env_eq:
  "set_tclinux_img_env offs (Some i) (Some j) e = Inr (e(''tclinux_info'' \<mapsto> info_text offs i j))"
proof -
  obtain a1 where a1: "add_img (img_numbers offs (tclinux_size i) (kernel_off i) (kernel_size i) (rootfs_off i) (rootfs_size i)) (replicate 172 NUL) = Inr a1"
      "holds 172 (img_text offs i) a1"
    using add_img_holds[OF holds_empty[of 172]] by auto
  have l: "length (img_text offs i) \<le> 54" by (rule img_text_length)
  obtain a2 where a2: "strncat a1 '','' 171 = Inr a2" "holds 172 (img_text offs i @ '','') a2"
    using strncat_holds(1)[OF a1(2), of "'',''" 171] l by (auto simp: NUL_def)
  obtain a3 where "add_img (img_numbers offs (tclinux_size j) (kernel_off j) (kernel_size j) (rootfs_off j) (rootfs_size j)) a2 = Inr a3"
      "holds 172 ((img_text offs i @ '','') @ img_text offs j) a3"
    using add_img_holds[OF a2(2)] l by auto
  then show ?thesis using a1(1) a2(1) by (simp add: set_tclinux_img_env_def holds_def info_text_def)
qed

section \<open>The SerDes variants\<close>

lemma serdes_apply_eq:
  assumes "distinct (map fst rs)" "name \<in> fst ` set rs \<Longrightarrow> e name \<noteq> None"
  shows "serdes_apply rs name e = Inr (case map_of rs name of None \<Rightarrow> e | Some v \<Rightarrow> e(name \<mapsto> v))"
  using assms
proof (induction rs arbitrary: e)
  case (Cons r rs)
  obtain n v where r: "r = (n, v)" by force
  show ?case
  proof (cases "name = n")
    case True
    obtain val where val: "e n = Some val" using Cons.prems(2) True r by auto
    have nin: "name \<notin> fst ` set rs" and d: "distinct (map fst rs)" using Cons.prems(1) r True by auto
    then have "map_of rs name = None" by (simp add: map_of_eq_None_iff)
    then have "serdes_apply rs n e' = Inr e'" for e' using Cons.IH[OF d, of e'] nin True by simp
    then show ?thesis using True r val by (auto simp: fun_upd_idem)
  next
    case False
    then show ?thesis using Cons.IH[of e] Cons.prems r by auto
  qed
qed simp

lemma serdes_loop_eq:
  assumes "distinct (map fst rs)" "distinct names" "\<And>n. n \<in> fst ` set rs \<Longrightarrow> e n \<noteq> None"
  shows "serdes_loop rs names e = Inr (e ++ (map_of rs |` set names))"
  using assms(2,3)
proof (induction names arbitrary: e)
  case (Cons name names)
  let ?e1 = "case map_of rs name of None \<Rightarrow> e | Some v \<Rightarrow> e(name \<mapsto> v)"
  have "serdes_apply rs name e = Inr ?e1" using serdes_apply_eq[OF assms(1)] Cons.prems(2) by blast
  moreover have "serdes_loop rs names ?e1 = Inr (?e1 ++ (map_of rs |` set names))"
    using Cons.prems by (intro Cons.IH) (auto split: option.split)
  moreover have "?e1 ++ (map_of rs |` set names) = e ++ (map_of rs |` set (name # names))"
    using Cons.prems(1) by (intro ext) (auto simp: map_add_def restrict_map_def split: option.split)
  ultimately show ?case by simp
qed (simp add: map_add_def restrict_map_def)

lemma rule_names:
  "map fst (wifi_rules p) \<in> {[], [''serdes_wifi1'', ''serdes_wifi2'']}"
  "map fst (usb_rules p) \<in> {[], [''serdes_usb1''], [''serdes_usb2'']}"
  "map fst (pon_rules p) \<in> {[], [''serdes_pon'']}" "map fst (ethernet_rules p) \<in> {[], [''serdes_ethernet'']}"
  by (simp_all add: wifi_rules_def usb_rules_def pon_rules_def ethernet_rules_def)

lemma serdes_rules_names: "set (map fst (serdes_rules p)) \<subseteq> set mi_conf" "distinct (map fst (serdes_rules p))"
  unfolding serdes_rules_def map_append using rule_names[of p] by (elim insertE emptyE; simp add: mi_conf_def)+

lemma distinct_mi_conf: "distinct mi_conf"
  by (simp add: mi_conf_def)

lemma set_serdes_config_eq:
  assumes "\<And>n. n \<in> fst ` set (serdes_rules p) \<Longrightarrow> benv b n \<noteq> None"
  shows "set_serdes_config p b = Inr (b\<lparr>benv := benv b ++ map_of (serdes_rules p)\<rparr>)"
proof -
  have "map_of (serdes_rules p) |` set mi_conf = map_of (serdes_rules p)"
    using serdes_rules_names(1)[of p] by (intro ext) (auto simp: restrict_map_def map_of_eq_None_iff intro!: sym[of _ None])
  then show ?thesis
    using serdes_loop_eq[OF serdes_rules_names(2) distinct_mi_conf assms] by (simp add: set_serdes_config_def)
qed

section \<open>Collecting the variables\<close>

definition env_ok :: "ubenv \<Rightarrow> bool" where
  "env_ok e \<longleftrightarrow> (\<forall>n v. e n = Some v \<longrightarrow> NUL \<notin> set v \<and> length v < 0x4000)"

definition conf_text :: "ubenv \<Rightarrow> string list \<Rightarrow> string" where
  "conf_text e names = concat (map (\<lambda>n. case e n of None \<Rightarrow> [] | Some v \<Rightarrow> n @ ''='' @ v @ '' '') names)"

lemma parse_env_loop_eq:
  assumes "env_ok e" "\<forall>n \<in> set names. NUL \<notin> set n \<and> length n < 0x100" "holds 1024 tx var" "length tx < 1023"
  shows "\<exists>r var'. parse_env_loop e names (of_nat (length tx)) var = Inr (r, var')
     \<and> (if length (tx @ conf_text e names) < 1023 then r = 0 \<and> holds 1024 (tx @ conf_text e names) var' else r = -1)"
  using assms(2-4)
proof (induction names arbitrary: tx var)
  case Nil then show ?case by (simp add: conf_text_def)
next
  case (Cons n names)
  show ?case
  proof (cases "e n")
    case None
    then have ct: "conf_text e (n # names) = conf_text e names" by (simp add: conf_text_def)
    have "\<forall>n \<in> set names. NUL \<notin> set n \<and> length n < 0x100" using Cons.prems(1) by simp
    from Cons.IH[OF this Cons.prems(2,3)] show ?thesis unfolding ct using None by simp
  next
    case (Some v)
    let ?t = "tx @ n @ ''='' @ v @ '' ''"
    have v: "NUL \<notin> set v" "length v < 0x4000" using assms(1) Some by (simp_all add: env_ok_def)
    have sum: "(of_nat (length tx) + of_nat (length n + 1 + length v + 1) :: u32) = of_nat (length ?t)" by (simp add: algebra_simps)
    have "length ?t < 2 ^ 32" using Cons.prems(1,3) v(2) by simp
    then have le: "(of_nat (BOOTARGS_STR_MAX_LEN - 1) \<le> (of_nat (length ?t) :: u32)) \<longleftrightarrow> 1023 \<le> length ?t"
      by (simp add: word_le_nat_alt unsigned_of_nat take_bit_nat_eq_self BOOTARGS_STR_MAX_LEN_def del: of_nat_add of_nat_Suc length_append)
    have ct: "tx @ conf_text e (n # names) = ?t @ conf_text e names" using Some by (simp add: conf_text_def)
    show ?thesis
    proof (cases "1023 \<le> length ?t")
      case True
      then have "parse_env_loop e (n # names) (of_nat (length tx)) var = Inr (-1, var)"
        using Some le sum by (simp add: Let_def del: of_nat_add of_nat_Suc length_append)
      moreover have "\<not> length (tx @ conf_text e (n # names)) < 1023" using True unfolding ct by simp
      ultimately show ?thesis by simp
    next
      case False
      obtain a1 where a1: "strncat_all 1023 [n, ''='', v, '' ''] var = Inr a1" "holds 1024 ?t a1"
        using strncat_all_holds[OF Cons.prems(2), of "[n, ''='', v, '' '']" 1023] False v Cons.prems(1) by (auto simp: NUL_def)
      have "parse_env_loop e (n # names) (of_nat (length tx)) var = parse_env_loop e names (of_nat (length ?t)) a1"
        using Some le sum False a1(1) by (simp add: Let_def BOOTARGS_STR_MAX_LEN_def del: of_nat_add of_nat_Suc length_append strncat_all.simps)
      then show ?thesis using Cons.IH[OF _ a1(2)] Cons.prems(1) False unfolding ct by (simp del: length_append)
    qed
  qed
qed

lemma mi_conf_names: "\<forall>n \<in> set mi_conf. NUL \<notin> set n \<and> length n < 0x100"
  by (simp add: mi_conf_def NUL_def)

lemma parse_env_config_eq:
  assumes "env_ok e"
  shows "\<exists>r var. parse_env_config e (replicate BOOTARGS_STR_MAX_LEN NUL) = Inr (r, var)
     \<and> (if length (conf_text e mi_conf) < 1023 then r = 0 \<and> holds 1024 (conf_text e mi_conf) var else r = -1)"
proof -
  have h: "holds 1024 [] (replicate BOOTARGS_STR_MAX_LEN NUL)" using holds_empty[of 1024] by (simp add: BOOTARGS_STR_MAX_LEN_def)
  then have "c_str (replicate BOOTARGS_STR_MAX_LEN NUL) = []" by (simp add: holds_def)
  moreover obtain r var where "parse_env_loop e mi_conf 0 (replicate BOOTARGS_STR_MAX_LEN NUL) = Inr (r, var)"
      "if length (conf_text e mi_conf) < 1023 then r = 0 \<and> holds 1024 (conf_text e mi_conf) var else r = -1"
    using parse_env_loop_eq[OF assms mi_conf_names h, unfolded append_Nil list.size(3) of_nat_0] by auto
  ultimately show ?thesis unfolding parse_env_config_def by simp
qed

section \<open>The command line\<close>

text \<open>The environment from which the line is built: images, flag, and in the test-bench build the SerDes variants.\<close>

definition line_env :: "boot_build \<Rightarrow> u32 \<Rightarrow> tclinux_imginfo \<Rightarrow> tclinux_imginfo \<Rightarrow> u32 \<Rightarrow> ubenv \<Rightarrow> ubenv" where
  "line_env A offs i j bootflag e =
    (let e1 = e(''tclinux_info'' \<mapsto> info_text offs i j, ''bootflag'' \<mapsto> (if bootflag = 0 then ''0'' else ''1''))
     in if AUTOBENCH A then e1 ++ map_of (serdes_rules (package_id A)) else e1)"

definition serdes_set :: "boot_build \<Rightarrow> ubenv \<Rightarrow> bool" where
  "serdes_set A e \<longleftrightarrow> (AUTOBENCH A \<longrightarrow> (\<forall>(n, v) \<in> set (serdes_rules (package_id A)). e n \<noteq> None))"

lemma rule_values: "(n, v) \<in> set (serdes_rules p) \<Longrightarrow> NUL \<notin> set v \<and> length v = 2"
proof -
  have "list_all (\<lambda>(n, v). NUL \<notin> set v \<and> length v = 2) (serdes_rules p)"
    by (simp add: serdes_rules_def wifi_rules_def usb_rules_def pon_rules_def ethernet_rules_def NUL_def)
  then show "(n, v) \<in> set (serdes_rules p) \<Longrightarrow> NUL \<notin> set v \<and> length v = 2" by (auto simp: list_all_iff)
qed

lemma info_text_facts: "NUL \<notin> set (info_text offs i j)" "length (info_text offs i j) \<le> 109"
  using img_text_no_NUL[of offs i] img_text_no_NUL[of offs j] img_text_length[of offs i] img_text_length[of offs j]
  by (auto simp: info_text_def NUL_def)

lemma env_ok_upd: "env_ok e \<Longrightarrow> NUL \<notin> set v \<Longrightarrow> length v < 0x4000 \<Longrightarrow> env_ok (e(n \<mapsto> v))"
  by (simp add: env_ok_def)

lemma env_ok_rules:
  assumes "env_ok e"
  shows "env_ok (e ++ map_of (serdes_rules p))"
  unfolding env_ok_def
proof (intro allI impI)
  fix n v assume "(e ++ map_of (serdes_rules p)) n = Some v"
  then consider "(n, v) \<in> set (serdes_rules p)" | "e n = Some v" by (meson map_add_Some_iff map_of_SomeD)
  then show "NUL \<notin> set v \<and> length v < 0x4000"
    by cases (use rule_values[of n v p] assms in \<open>auto simp: env_ok_def\<close>)
qed

lemma env_ok_line_env:
  assumes "env_ok e"
  shows "env_ok (line_env A offs i j bootflag e)"
proof -
  have "length (info_text offs i j) < 0x4000" using info_text_facts(2)[of offs i j] by simp
  then have "env_ok (e(''tclinux_info'' \<mapsto> info_text offs i j, ''bootflag'' \<mapsto> (if bootflag = 0 then ''0'' else ''1'')))"
    using assms info_text_facts(1) by (intro env_ok_upd) (auto simp: NUL_def)
  then show ?thesis using env_ok_rules unfolding line_env_def Let_def by presburger
qed

lemma line_env_bootargs: "line_env A offs i j bootflag e ''bootargs'' = e ''bootargs''"
proof -
  have "''bootargs'' \<notin> set (map fst (serdes_rules p))" for p using serdes_rules_names(1)[of p] by (auto simp: mi_conf_def)
  then have "map_of (serdes_rules p) ''bootargs'' = None" for p by (simp add: map_of_eq_None_iff)
  then show ?thesis by (simp add: line_env_def Let_def map_add_def)
qed

lemma check_dram_limit_env: "benv (check_dram_limit b) = benv b"
  by (simp add: check_dram_limit_def SET_DRAM_SIZE_def Let_def split: option.split)

lemma env_before_parse:
  assumes "serdes_set A (benv b)"
  shows "\<exists>regs. (let b1 = b\<lparr>benv := set_bootflag_env bootflag ((benv b)(''tclinux_info'' \<mapsto> info_text offs i j))\<rparr>
     in if AUTOBENCH A then set_serdes_config (package_id A) (set_serdes_gpio (package_id A) b1) else Inr b1)
     = Inr (b\<lparr>benv := line_env A offs i j bootflag (benv b), pins := regs\<rparr>)"
proof (cases "AUTOBENCH A")
  case True
  let ?e = "(benv b)(''tclinux_info'' \<mapsto> info_text offs i j, ''bootflag'' \<mapsto> (if bootflag = 0 then ''0'' else ''1''))"
  have e: "set_bootflag_env bootflag ((benv b)(''tclinux_info'' \<mapsto> info_text offs i j)) = ?e" by (simp add: set_bootflag_env_def)
  have "?e n \<noteq> None" if "n \<in> fst ` set (serdes_rules (package_id A))" for n
    using assms that True by (auto simp: serdes_set_def)
  then have "set_serdes_config (package_id A) (set_serdes_gpio (package_id A) (b\<lparr>benv := ?e\<rparr>))
      = Inr (b\<lparr>benv := ?e ++ map_of (serdes_rules (package_id A)), pins := pins (set_serdes_gpio (package_id A) (b\<lparr>benv := ?e\<rparr>))\<rparr>)"
    using set_serdes_config_eq[of "package_id A" "set_serdes_gpio (package_id A) (b\<lparr>benv := ?e\<rparr>)"] by (simp add: set_serdes_gpio_def)
  moreover have "?e ++ map_of (serdes_rules (package_id A)) = line_env A offs i j bootflag (benv b)"
    using True unfolding line_env_def Let_def by simp
  ultimately show ?thesis unfolding e Let_def using True by auto
next
  case False
  then have "b\<lparr>benv := line_env A offs i j bootflag (benv b), pins := pins b\<rparr> = b\<lparr>benv := set_bootflag_env bootflag ((benv b)(''tclinux_info'' \<mapsto> info_text offs i j))\<rparr>"
    by (simp add: line_env_def set_bootflag_env_def)
  then show ?thesis using False by (intro exI[of _ "pins b"]) simp
qed

lemma bootargs_init_eq:
  fixes tx rest :: string
  assumes tx_def: "tx = conf_text (line_env A offs i j bootflag (benv b)) mi_conf"
    and rest_def: "rest = take 1023 (case benv b ''bootargs'' of None \<Rightarrow> [] | Some s \<Rightarrow> s)"
    and "env_ok (benv b)" and "serdes_set A (benv b)"
  shows "1023 \<le> length tx \<Longrightarrow> \<exists>b'. bootargs_init A offs (Some i) (Some j) bootflag b = Inr (-1, b')"
    and "length tx < 1023 \<Longrightarrow> 1024 \<le> length tx + length rest \<Longrightarrow> bootargs_init A offs (Some i) (Some j) bootflag b = Inl OutOfBounds"
    and "length tx < 1023 \<Longrightarrow> length tx + length rest < 1024 \<Longrightarrow> \<exists>b'. bootargs_init A offs (Some i) (Some j) bootflag b = Inr (0, b')
       \<and> benv b' = (line_env A offs i j bootflag (benv b))(''bootargs'' \<mapsto> tx @ rest)"
proof -
  let ?e = "line_env A offs i j bootflag (benv b)"
  obtain regs where b2: "(let b1 = b\<lparr>benv := set_bootflag_env bootflag ((benv b)(''tclinux_info'' \<mapsto> info_text offs i j))\<rparr>
     in if AUTOBENCH A then set_serdes_config (package_id A) (set_serdes_gpio (package_id A) b1) else Inr b1) = Inr (b\<lparr>benv := ?e, pins := regs\<rparr>)"
    using env_before_parse[OF assms(4)] by blast
  obtain r var where p: "parse_env_config ?e (replicate BOOTARGS_STR_MAX_LEN NUL) = Inr (r, var)"
      "if length tx < 1023 then r = 0 \<and> holds 1024 tx var else r = -1"
    using parse_env_config_eq[OF env_ok_line_env[OF assms(3)]] unfolding tx_def by blast
  let ?b3 = "check_dram_limit (b\<lparr>benv := ?e, pins := regs\<rparr>)"
  have e3: "benv ?b3 = ?e" "benv ?b3 ''bootargs'' = benv b ''bootargs''" by (simp_all add: check_dram_limit_env line_env_bootargs)
  have run: "bootargs_init A offs (Some i) (Some j) bootflag b = (if r \<noteq> 0 then Inr (-1, b\<lparr>benv := ?e, pins := regs\<rparr>)
     else res_bind (case benv b ''bootargs'' of None \<Rightarrow> Inr var | Some s \<Rightarrow> strncat var s 1023)
            (\<lambda>v. Inr (0, ?b3\<lparr>benv := ?e(''bootargs'' \<mapsto> c_str v)\<rparr>)))"
    using b2 p(1) e3 unfolding bootargs_init_def set_tclinux_img_env_eq Let_def
    by (cases "benv b ''bootargs''") (simp_all add: BOOTARGS_STR_MAX_LEN_def)
  show "1023 \<le> length tx \<Longrightarrow> \<exists>b'. bootargs_init A offs (Some i) (Some j) bootflag b = Inr (-1, b')" using p(2) run by simp
  assume "length tx < 1023"
  then have h: "r = 0" "holds 1024 tx var" using p(2) by simp_all
  have nn: "NUL \<notin> set s" if "benv b ''bootargs'' = Some s" for s using assms(3) that by (auto simp: env_ok_def)
  { assume "1024 \<le> length tx + length rest"
    moreover have "benv b ''bootargs'' \<noteq> None" using calculation \<open>length tx < 1023\<close> by (cases "benv b ''bootargs''") (simp_all add: rest_def)
    ultimately show "bootargs_init A offs (Some i) (Some j) bootflag b = Inl OutOfBounds"
      using strncat_holds(2)[OF h(2) nn, of _ 1023] h(1) unfolding run rest_def by (auto split: option.split) }
  { assume l: "length tx + length rest < 1024"
    show "\<exists>b'. bootargs_init A offs (Some i) (Some j) bootflag b = Inr (0, b') \<and> benv b' = ?e(''bootargs'' \<mapsto> tx @ rest)"
    proof (cases "benv b ''bootargs''")
      case None then show ?thesis using h unfolding run by (simp add: rest_def holds_def)
    next
      case (Some s)
      then obtain v where "strncat var s 1023 = Inr v" "holds 1024 (tx @ take 1023 s) v"
        using strncat_holds(1)[OF h(2) nn, of s 1023] l by (auto simp: rest_def)
      then show ?thesis using h(1) Some unfolding run by (simp add: rest_def holds_def)
    qed }
qed

text \<open>
  C36 bootargs\_init puts the configured variables that are set, with the places of both images and the boot flag, in the order of
  mi\_conf in front of the old command line, and does nothing else to the environment but publish those two.
  The text about the images fits its array for all numbers. When the variables need 1023 characters or more the call fails; when they
  fit but the old command line (its first 1023 characters) does not fit behind them, the call writes behind the array var.
\<close>

theorem bootargs_init_builds_line:
  assumes "env_ok (benv b)" and "serdes_set A (benv b)"
  shows "let e = line_env A offs i j bootflag (benv b); tx = conf_text e mi_conf;
             rest = take 1023 (case benv b ''bootargs'' of None \<Rightarrow> [] | Some s \<Rightarrow> s)
         in \<exists>b'. bootargs_init A offs (Some i) (Some j) bootflag b =
              (if 1023 \<le> length tx then Inr (-1, b') else if length tx + length rest < 1024 then Inr (0, b') else Inl OutOfBounds)
            \<and> (length tx < 1023 \<and> length tx + length rest < 1024 \<longrightarrow> benv b' = e(''bootargs'' \<mapsto> tx @ rest))"
proof -
  let ?tx = "conf_text (line_env A offs i j bootflag (benv b)) mi_conf"
  let ?rest = "take 1023 (case benv b ''bootargs'' of None \<Rightarrow> [] | Some s \<Rightarrow> s)"
  note eq = bootargs_init_eq[OF refl refl assms, of offs i j bootflag]
  consider "1023 \<le> length ?tx" | "length ?tx < 1023" "1024 \<le> length ?tx + length ?rest" | "length ?tx < 1023" "length ?tx + length ?rest < 1024"
    by linarith
  then show ?thesis
  proof cases
    case 1 then show ?thesis using eq(1)[OF 1] unfolding Let_def by (auto simp: not_less)
  next
    case 2 then show ?thesis using eq(2)[OF 2] unfolding Let_def by (auto simp: not_less)
  next
    case 3 then show ?thesis using eq(3)[OF 3] unfolding Let_def by (auto simp: not_less)
  qed
qed

section \<open>A second start\<close>






definition demo_board :: board where
  "demo_board = \<lparr>benv = [''board_args'' \<mapsto> replicate 500 CHR ''x''], pins = (\<lambda>_. 0), dram_size = 32\<rparr>"

definition demo_build :: boot_build where "demo_build = \<lparr>AUTOBENCH = False, package_id = 0\<rparr>"

definition demo_images :: tclinux_imginfo where
  "demo_images = \<lparr>kernel_off = 0x100, kernel_size = 0x400000, rootfs_off = 0x400100, rootfs_size = 0x800000, tclinux_size = 0xC00100\<rparr>"

lemma demo_board_ok: "env_ok (benv demo_board)" "serdes_set demo_build (benv demo_board)" "benv demo_board ''bootargs'' = None"
  by (simp_all add: demo_board_def env_ok_def NUL_def serdes_set_def demo_build_def)

lemma demo_line:
  "length (conf_text (line_env demo_build 0 demo_images demo_images 0 (benv demo_board)) mi_conf)
     = 537 + length (info_text 0 demo_images demo_images)"
  by (simp add: conf_text_def mi_conf_def line_env_def demo_build_def demo_board_def)

theorem bootargs_init_builds_line_witness:
  "\<exists>b'. bootargs_init demo_build 0 (Some demo_images) (Some demo_images) 0 demo_board = Inr (0, b')
     \<and> length (the (benv b' ''bootargs'')) = 537 + length (info_text 0 demo_images demo_images)"
  using bootargs_init_builds_line[OF demo_board_ok(1,2), of 0 demo_images demo_images 0] info_text_facts(2)[of 0 demo_images demo_images]
  by (auto simp: Let_def demo_line demo_board_ok(3))


end
