(* ===== verification/Cmd_Theorems.thy ===== *)
theory Cmd_Theorems
  imports Cmd_Flash Bootargs_Theorems
begin

text \<open>
  What the flash command imgread guarantees: with secure boot it succeeds only with the kernel bytes of the
  verified package in memory.
\<close>

section \<open>Every run of the image reader leaves the flash alone\<close>












section \<open>The calls of the command\<close>











section \<open>The mode and the place of the package\<close>










section \<open>Starting a verified kernel\<close>





section \<open>A start on the demonstration chip\<close>















end
