(* ===== verification/Env_Flash.thy ===== *)
theory Env_Flash
  imports Bootflag Bootargs
begin

text \<open>
  The environment in the flash (common/ecnt/env\_flash.c with board/ecnt/en7523\_evb/en7523\_evb\_mtk\_env\_parser.c): it is
  saved to the partition u-boot-env, and on the first start it is moved there from its old place at
  CONFIG\_ENV\_AIROHA\_OFFSET behind the boot loader, if the variable MTK\_MOVE\_ENV there says so.

  The hash table of the environment is a map. Its textual form (hexport\_r, himport\_r), the checksum crc32 and the default
  environment belong to U-Boot and are parameters. The arrays on the stack of the parser are not initialised; their
  old contents are parameters too. free of such an array, which the error exit of mtk\_check\_first\_boot does, is the fault
  AssertFailed, and an access outside an array OutOfBounds. The number that is passed to flash\_read in place of a pointer
  to the length read is not used by the NAND and eMMC paths; a SPI NOR driver, which writes through it, is outside the model.
  setenv is an update of the map: env\_import has made the hash table ready before.
\<close>

section \<open>Environment and state\<close>

record 'm env_env =
  ev_hal :: "'m hal_env"
  ev_mtd :: mtd_state
  hexport_r :: "ubenv \<Rightarrow> bytes option"
  himport_r :: "bytes \<Rightarrow> ubenv option"
  crc32 :: "bytes \<Rightarrow> u32"
  default_environment :: ubenv
  stack_buf :: bytes
  stack_config :: bytes

record 'm env_state =
  ehal :: "'m hal_state"
  env_htab :: ubenv
  env_valid :: bool

definition CONFIG_ENV_SIZE :: u32 where "CONFIG_ENV_SIZE = 0x4000"
definition CONFIG_ENV_AIROHA_OFFSET :: u32 where "CONFIG_ENV_AIROHA_OFFSET = 0x7C000"
definition ENV_READ_LEN :: u32 where "ENV_READ_LEN = 0xA00"
definition ENV_MOVE_DISABLE :: string where "ENV_MOVE_DISABLE = ''0''"
definition MTK_MOVE_ENV :: string where "MTK_MOVE_ENV = ''MTK_MOVE_ENV''"

definition CONFIG_ENV_MTK_OFFSET :: "'m env_env \<Rightarrow> fault + u32" where
  "CONFIG_ENV_MTK_OFFSET X = ecnt_get_ubootenv_mtd_offset (ev_mtd X)"

section \<open>Parsing the old environment\<close>

definition isDigit :: "u8 \<Rightarrow> bool" where "isDigit c \<longleftrightarrow> 0x30 \<le> c \<and> c \<le> 0x39"

text \<open>The digits; running off the end of the array is OutOfBounds. Results are 32-bit words that wrap around.\<close>

fun atoi_digits :: "u32 \<Rightarrow> bytes \<Rightarrow> fault + u32" where
  "atoi_digits r [] = Inl OutOfBounds"
| "atoi_digits r (c # cs) = (if isDigit c then atoi_digits (r * 10 + ucast (c - 0x30)) cs else Inr r)"

fun atoi :: "bytes \<Rightarrow> fault + u32" where
  "atoi [] = Inl OutOfBounds"
| "atoi (c # cs) =
    (if c = 0x20 then atoi cs
     else if c = 0x2D then res_bind (atoi_digits 0 cs) (\<lambda>r. Inr (- r))
     else if c = 0x2B then atoi_digits 0 cs
     else atoi_digits 0 (c # cs))"

fun last_used :: "bytes \<Rightarrow> nat \<Rightarrow> nat" where
  "last_used str 0 = 0"
| "last_used str (Suc e) = (if str ! Suc e = 0 then last_used str e else Suc e)"

text \<open>The last used character is overwritten with the terminating zero (sic).\<close>

definition mtk_transfer_config :: "bytes \<Rightarrow> nat \<Rightarrow> bytes" where
  "mtk_transfer_config str n =
    (let e = last_used str (n - 1)
     in (map (\<lambda>c. if c = 0 then 0x3B else c) (take (e + 1) str) @ drop (e + 1) str)[e := 0])"

text \<open>
  The list is what lies from p to the end of the array; the search for the semicolon does not stop at the end of
  the text. None stands for the result 0: not found, or an empty value.
\<close>

function env_linear :: "bytes \<Rightarrow> bytes \<Rightarrow> fault + bytes option" where
  "env_linear name [] = Inl OutOfBounds"
| "env_linear name (c # cs) =
    (if c = 0 then Inr None
     else let line = takeWhile (\<lambda>x. x \<noteq> 0x3B) (c # cs); rest = dropWhile (\<lambda>x. x \<noteq> 0x3B) (c # cs)
          in if rest = [] then Inl OutOfBounds
             else if take (length name + 1) line = name @ [0x3D]
                  then Inr (if drop (length name + 1) line = [] then None else Some (drop (length name + 1) line))
                  else env_linear name (tl rest))"
  by pat_completeness auto
termination
proof (relation "measure (\<lambda>(_, cs). length cs)")
  fix name cs line rest and c :: u8
  assume "rest = dropWhile (\<lambda>x. x \<noteq> 0x3B) (c # cs)"
  then have "length rest \<le> length (c # cs)" using length_dropWhile_le[of "\<lambda>x. x \<noteq> 0x3B" "c # cs"] by simp
  then show "((name, tl rest), (name, c # cs)) \<in> measure (\<lambda>(_, cs). length cs)" by simp
qed simp

declare env_linear.simps(2) [simp del]

text \<open>The result is the length of the value, which is copied to buf.\<close>

definition env_get_from_linear :: "bytes \<Rightarrow> bytes \<Rightarrow> fault + bytes option" where
  "env_get_from_linear env name = (if name = [] then Inr None else env_linear name env)"

text \<open>
  The value, which ends with a zero, has to consist of digits. It is copied without the zero into an array of ten characters, which
  atoi then reads up to the first character that is not a digit. For an empty value the function ends without a return value: AssertFailed.
\<close>

definition mtk_parse_config_to_bool :: "bytes \<Rightarrow> bytes \<Rightarrow> fault + u32" where
  "mtk_parse_config_to_bool stack str =
    (let s = takeWhile (\<lambda>c. c \<noteq> 0) str
     in if s = [] then Inl AssertFailed
        else if \<not> list_all isDigit s then Inr 0
        else if 10 < length s then Inl OutOfBounds
        else atoi (memcpy stack 0 s))"

section \<open>The first start\<close>

definition c_bytes :: "string \<Rightarrow> bytes" where "c_bytes s = map of_char s"

text \<open>
  Windows of ENV\_READ\_LEN - 1 bytes are read, one every ENV\_READ\_LEN bytes. The loop ends because the address grows; its bound is
  the number of windows. Returns the result of the check.
\<close>

fun first_boot_loop :: "nat \<Rightarrow> 'm env_env \<Rightarrow> u32 \<Rightarrow> bytes \<Rightarrow> u32 \<Rightarrow> u32 \<Rightarrow> bytes \<Rightarrow> 'm hal_state \<Rightarrow> fault + u32 \<times> 'm hal_state" where
  "first_boot_loop 0 X stop sig addr read_len buf h = Inl OutOfFuel"
| "first_boot_loop (Suc n) X stop sig addr read_len buf h =
    (if addr < stop
     then let rl = (if addr + read_len > stop then stop - addr else read_len);
              (r, buf1, h1) = flash_read (ev_hal X) addr rl buf h
          in if r \<noteq> 0 then Inl AssertFailed
             else let buf2 = mtk_transfer_config buf1 (unat rl)
                  in res_bind (env_get_from_linear buf2 sig) (\<lambda>found.
                       case found of
                         Some config \<Rightarrow> res_bind (mtk_parse_config_to_bool (stack_config X) config) (\<lambda>v. Inr (v, h1))
                       | None \<Rightarrow> first_boot_loop n X stop sig (addr + ENV_READ_LEN) rl buf2 h1)
     else Inr (0, h))"

definition mtk_check_first_boot :: "'m env_env \<Rightarrow> bytes \<Rightarrow> 'm hal_state \<Rightarrow> fault + u32 \<times> 'm hal_state" where
  "mtk_check_first_boot X sig h =
    res_bind (CONFIG_ENV_MTK_OFFSET X) (\<lambda>stop.
      first_boot_loop (unat stop div unat ENV_READ_LEN + 2) X stop sig (CONFIG_ENV_AIROHA_OFFSET + 4) (ENV_READ_LEN - 1) (stack_buf X) h)"

section \<open>Saving and loading\<close>

text \<open>The image of the environment: the checksum and the exported text.\<close>

definition env_image :: "'m env_env \<Rightarrow> ubenv \<Rightarrow> bytes option" where
  "env_image X e = (case hexport_r X e of None \<Rightarrow> None | Some dat \<Rightarrow> Some (le32 (crc32 X dat) @ dat))"

definition set_default_env :: "'m env_env \<Rightarrow> 'm env_state \<Rightarrow> 'm env_state" where
  "set_default_env X s = s\<lparr>env_htab := default_environment X\<rparr>"

definition env_import :: "'m env_env \<Rightarrow> bytes \<Rightarrow> 'm env_state \<Rightarrow> bool \<times> 'm env_state" where
  "env_import X buf s =
    (if crc32 X (drop 4 buf) \<noteq> rd32 buf then (False, set_default_env X s)
     else case himport_r X (drop 4 buf) of None \<Rightarrow> (False, set_default_env X s) | Some e \<Rightarrow> (True, s\<lparr>env_htab := e\<rparr>))"

definition saveenv :: "'m env_env \<Rightarrow> 'm env_state \<Rightarrow> fault + int \<times> 'm env_state" where
  "saveenv X s =
    (case env_image X (env_htab s) of
      None \<Rightarrow> Inr (1, s)
    | Some env_new \<Rightarrow>
        res_bind (CONFIG_ENV_MTK_OFFSET X) (\<lambda>off.
        res_bind (flash_erase (ev_hal X) off CONFIG_ENV_SIZE (ehal s)) (\<lambda>(r1, h1).
          if r1 \<noteq> 0 then Inr (1, s\<lparr>ehal := h1\<rparr>)
          else res_bind (flash_write (ev_hal X) off CONFIG_ENV_SIZE env_new h1) (\<lambda>(r2, h2).
            Inr (if r2 \<noteq> 0 then 1 else 0, s\<lparr>ehal := h2\<rparr>)))))"

definition mtk_save_miconf :: "'m env_env \<Rightarrow> 'm env_state \<Rightarrow> fault + int \<times> 'm env_state" where
  "mtk_save_miconf X s =
    (case env_image X (env_htab s) of
      None \<Rightarrow> Inr (1, s)
    | Some env_new \<Rightarrow>
        res_bind (flash_erase_non_block (ev_hal X) CONFIG_ENV_AIROHA_OFFSET CONFIG_ENV_SIZE (ehal s)) (\<lambda>(r1, h1).
          if r1 \<noteq> 0 then Inr (1, s\<lparr>ehal := h1\<rparr>)
          else res_bind (flash_write (ev_hal X) CONFIG_ENV_AIROHA_OFFSET CONFIG_ENV_SIZE env_new h1) (\<lambda>(r2, h2).
            Inr (if r2 \<noteq> 0 then 1 else 0, s\<lparr>ehal := h2\<rparr>))))"

text \<open>flash\_read of CONFIG\_ENV\_SIZE bytes into a fresh buffer.\<close>

definition read_env :: "'m env_env \<Rightarrow> u32 \<Rightarrow> 'm env_state \<Rightarrow> int \<times> bytes \<times> 'm env_state" where
  "read_env X off s =
    (let (r, buf, h) = flash_read (ev_hal X) off CONFIG_ENV_SIZE (replicate (unat CONFIG_ENV_SIZE) 0) (ehal s) in (r, buf, s\<lparr>ehal := h\<rparr>))"

definition mtk_move_miconf :: "'m env_env \<Rightarrow> 'm env_state \<Rightarrow> fault + 'm env_state" where
  "mtk_move_miconf X s =
    (let (r, buf, s1) = read_env X CONFIG_ENV_AIROHA_OFFSET s
     in if r \<noteq> 0 then Inr s1
        else res_bind (CONFIG_ENV_MTK_OFFSET X) (\<lambda>off.
             res_bind (flash_erase (ev_hal X) off CONFIG_ENV_SIZE (ehal s1)) (\<lambda>(r1, h1).
               if r1 \<noteq> 0 then Inr (s1\<lparr>ehal := h1\<rparr>)
               else res_bind (flash_write (ev_hal X) off CONFIG_ENV_SIZE buf h1) (\<lambda>(r2, h2). Inr (s1\<lparr>ehal := h2\<rparr>)))))"

text \<open>Reading and importing the environment; env\_valid is set on success.\<close>

definition load_env :: "'m env_env \<Rightarrow> u32 \<Rightarrow> 'm env_state \<Rightarrow> bool \<times> 'm env_state" where
  "load_env X off s =
    (let (r, buf, s1) = read_env X off s
     in if r \<noteq> 0 then (False, set_default_env X s1)
        else let (ok, s2) = env_import X buf s1 in (True, if ok then s2\<lparr>env_valid := True\<rparr> else s2))"

definition disable_mtk_move_env :: "'m env_env \<Rightarrow> 'm env_state \<Rightarrow> fault + 'm env_state" where
  "disable_mtk_move_env X s =
    (let (readable, s1) = load_env X CONFIG_ENV_AIROHA_OFFSET s
     in if \<not> readable then Inr s1
        else res_bind (mtk_save_miconf X (s1\<lparr>env_htab := (env_htab s1)(MTK_MOVE_ENV \<mapsto> ENV_MOVE_DISABLE)\<rparr>)) (\<lambda>(r, s2). Inr s2))"

definition env_relocate_spec :: "'m env_env \<Rightarrow> 'm env_state \<Rightarrow> fault + 'm env_state" where
  "env_relocate_spec X s =
    res_bind (CONFIG_ENV_MTK_OFFSET X) (\<lambda>env_addr.
    res_bind (mtk_check_first_boot X (c_bytes MTK_MOVE_ENV) (ehal s)) (\<lambda>(first, h).
    res_bind (if first \<noteq> 0
              then res_bind (disable_mtk_move_env X (s\<lparr>ehal := h\<rparr>)) (mtk_move_miconf X)
              else Inr (s\<lparr>ehal := h\<rparr>)) (\<lambda>s1.
    Inr (snd (load_env X env_addr s1)))))"

text \<open>Before relocation variables are read from the text of the default environment, which is not part of the state.\<close>

definition env_init :: "'m env_state \<Rightarrow> 'm env_state" where
  "env_init s = s\<lparr>env_valid := True\<rparr>"

end
