(* ===== verification/Gpio_Pins.thy ===== *)
theory Gpio_Pins
  imports Env_Flash
begin

text \<open>
  The pins that the first stage of the trusted firmware sets (plat/ecnt/en7523/mtk\_an7563\_gpio.c, mtk\_an7563\_pinmux.c and
  mtk\_an7563\_gpioconfig\_parser.c): the variables MTK\_GPIO\_LOW and MTK\_GPIO\_HIGH of the old environment list the pins that
  are driven low and high.

  The registers are a function from addresses to words. isDigit, atoi and the loop of env\_get\_from\_linear are the same text as in
  the boot loader and are shared with Env\_Flash. A message that prints an array without a terminating zero is
  the fault OutOfBounds, as every access outside an array.
\<close>

section \<open>Registers\<close>

type_synonym regs = "u32 \<Rightarrow> u32"

definition MAX_GPIO_PIN :: u32 where "MAX_GPIO_PIN = 36"
definition GPIO_CTRL_BITS :: nat where "GPIO_CTRL_BITS = 2"
definition GPIO_DATA_BITS :: nat where "GPIO_DATA_BITS = 1"
definition GPIO_OE_BITS :: nat where "GPIO_OE_BITS = 1"
definition GPIO_FORCE_BITS :: nat where "GPIO_FORCE_BITS = 1"
definition GPIO_BASE :: u32 where "GPIO_BASE = 0x1FBF0200"
definition PINMUX_FORCE_GPIO_BASE :: u32 where "PINMUX_FORCE_GPIO_BASE = 0x1FA20000"
definition CTRL_OUTPUT :: u32 where "CTRL_OUTPUT = 1"
definition OE_ENABLE :: u32 where "OE_ENABLE = 1"
definition ENBALE_FORCE_GPIO_MODE :: u32 where "ENBALE_FORCE_GPIO_MODE = 1"

text \<open>The register of a pin; None stands for the invalid register -1.\<close>

definition gpio_get_ctrl_cr :: "u32 \<Rightarrow> u32 option" where
  "gpio_get_ctrl_cr pin =
    (let pos = pin div 16
     in if pos = 0 then Some (GPIO_BASE + 0x00) else if pos = 1 then Some (GPIO_BASE + 0x20)
        else if pos = 2 then Some (GPIO_BASE + 0x60) else if pos = 3 then Some (GPIO_BASE + 0x64) else None)"

definition gpio_get_data_cr :: "u32 \<Rightarrow> u32 option" where
  "gpio_get_data_cr pin =
    (let pos = pin div 32 in if pos = 0 then Some (GPIO_BASE + 0x04) else if pos = 1 then Some (GPIO_BASE + 0x70) else None)"

definition gpio_get_oe_cr :: "u32 \<Rightarrow> u32 option" where
  "gpio_get_oe_cr pin =
    (let pos = pin div 32 in if pos = 0 then Some (GPIO_BASE + 0x14) else if pos = 1 then Some (GPIO_BASE + 0x78) else None)"

definition an_pinmux_get_force_gpio_cr :: "u32 \<Rightarrow> u32 option" where
  "an_pinmux_get_force_gpio_cr pin =
    (let pos = pin div 32
     in if pos = 0 then Some (PINMUX_FORCE_GPIO_BASE + 0x228) else if pos = 1 then Some (PINMUX_FORCE_GPIO_BASE + 0x22C) else None)"

text \<open>The part that the four functions below have in common: a field of the register is read, compared and, if it differs, written.\<close>

definition update_field :: "nat \<Rightarrow> u32 \<Rightarrow> u32 \<Rightarrow> u32 \<Rightarrow> regs \<Rightarrow> regs" where
  "update_field bits cr i v R =
    (let mask = push_bit bits 1 - 1; v' = v AND mask; sh = unat i * bits; val = R cr
     in if (drop_bit sh val AND mask) = v' then R
        else R(cr := (val AND NOT (push_bit sh mask)) OR push_bit sh v'))"

definition an_pinmux_force_gpio :: "u32 \<Rightarrow> regs \<Rightarrow> regs" where
  "an_pinmux_force_gpio pin R =
    (if pin \<ge> MAX_GPIO_PIN then R
     else case an_pinmux_get_force_gpio_cr pin of None \<Rightarrow> R
          | Some cr \<Rightarrow> update_field GPIO_FORCE_BITS cr (pin mod 32) ENBALE_FORCE_GPIO_MODE R)"

definition an_gpio_set_ctrl :: "u32 \<Rightarrow> u32 \<Rightarrow> regs \<Rightarrow> regs" where
  "an_gpio_set_ctrl pin ctrl R =
    (case gpio_get_ctrl_cr pin of None \<Rightarrow> R | Some cr \<Rightarrow> update_field GPIO_CTRL_BITS cr (pin mod 16) ctrl R)"

definition an_gpio_set_data :: "u32 \<Rightarrow> u32 \<Rightarrow> regs \<Rightarrow> regs" where
  "an_gpio_set_data pin dat R =
    (case gpio_get_data_cr pin of None \<Rightarrow> R | Some cr \<Rightarrow> update_field GPIO_DATA_BITS cr (pin mod 32) dat R)"

definition an_gpio_set_oe :: "u32 \<Rightarrow> u32 \<Rightarrow> regs \<Rightarrow> regs" where
  "an_gpio_set_oe pin oe R =
    (case gpio_get_oe_cr pin of None \<Rightarrow> R | Some cr \<Rightarrow> update_field GPIO_OE_BITS cr (pin mod 32) oe R)"

definition an_gpio_set_dir :: "u32 \<Rightarrow> u32 \<Rightarrow> regs \<Rightarrow> regs" where
  "an_gpio_set_dir pin gpio_dir R =
    (let R1 = an_gpio_set_ctrl pin gpio_dir R
     in if gpio_dir = CTRL_OUTPUT then an_gpio_set_oe pin OE_ENABLE R1 else R1)"

definition an_gpio_set_value :: "u32 \<Rightarrow> u32 \<Rightarrow> regs \<Rightarrow> regs" where
  "an_gpio_set_value pin val R =
    (if pin < MAX_GPIO_PIN
     then an_gpio_set_data pin val (an_gpio_set_dir pin CTRL_OUTPUT (an_pinmux_force_gpio pin R))
     else R)"

section \<open>The list of pins\<close>

definition MAX_PIN_BIT :: nat where "MAX_PIN_BIT = 4"

text \<open>
  The list is what lies from p to the end of the array. A number with MAX\_PIN\_BIT digits passes the check, but its terminating zero lies
  behind the array. After the last number the search goes on behind the terminating zero. The result is the count and the array of pins.
\<close>

function parse_pins :: "bytes \<Rightarrow> nat \<Rightarrow> u32 list \<Rightarrow> fault + nat \<times> u32 list" where
  "parse_pins [] count pin = Inl OutOfBounds"
| "parse_pins (c # cs) count pin =
    (if c = 0 then Inr (count, pin)
     else let num = takeWhile isDigit (c # cs); rest = dropWhile isDigit (c # cs)
          in if rest = [] then Inl OutOfBounds
             else if hd rest \<noteq> 0x2C \<and> hd rest \<noteq> 0 then Inr (if count > 0 then 1 else 0, pin)
             else if length num > MAX_PIN_BIT then parse_pins (tl rest) count pin
             else if length num = MAX_PIN_BIT \<or> count \<ge> length pin then Inl OutOfBounds
             else case atoi (num @ [0]) of
                    Inl e \<Rightarrow> Inl e
                  | Inr v \<Rightarrow> parse_pins (tl rest) (count + 1) (pin[count := v]))"
  by pat_completeness auto
termination
proof (relation "measure (\<lambda>(cs, _, _). length cs)")
  have tl_less: "length (tl (dropWhile isDigit (c # cs))) < length (c # cs)" for c cs
    using length_dropWhile_le[of isDigit "c # cs"] by simp
  show "((tl rest, count, pin), (c # cs, count, pin)) \<in> measure (\<lambda>(cs, _, _). length cs)"
    if "rest = dropWhile isDigit (c # cs)" for c cs rest count pin using tl_less that by simp
  show "((tl rest, count + 1, pin[count := v]), (c # cs, count, pin)) \<in> measure (\<lambda>(cs, _, _). length cs)"
    if "rest = dropWhile isDigit (c # cs)" for c cs rest count pin v using tl_less that by simp
qed simp

declare parse_pins.simps(2) [simp del]

definition an_parse_config :: "bytes \<Rightarrow> u32 list \<Rightarrow> fault + nat \<times> u32 list" where
  "an_parse_config str pin = parse_pins str 0 pin"

definition an_gpio_set :: "bytes \<Rightarrow> u32 \<Rightarrow> regs \<Rightarrow> fault + regs" where
  "an_gpio_set config mode R =
    res_bind (an_parse_config config (replicate (unat MAX_GPIO_PIN) 0)) (\<lambda>(count, gpio_list).
      Inr (fold (\<lambda>pin. an_gpio_set_value pin mode) (take count gpio_list) R))"

section \<open>Finding the variables\<close>

definition MTK_FIP_BASE :: u32 where "MTK_FIP_BASE = 0x7C004"
definition MTK_FIP_END :: u32 where "MTK_FIP_END = 0x80000"
definition MTK_FIP_READ_LEN :: u32 where "MTK_FIP_READ_LEN = 0xA00"
definition MTK_GPIO_CONFIG_MAXSIZE :: nat where "MTK_GPIO_CONFIG_MAXSIZE = 0xA0"
definition MKT_GPIO_LOW_SIG :: string where "MKT_GPIO_LOW_SIG = ''MTK_GPIO_LOW''"
definition MKT_GPIO_HIGH_SIG :: string where "MKT_GPIO_HIGH_SIG = ''MTK_GPIO_HIGH''"

text \<open>flash\_read of the trusted firmware, built without eMMC; the result says whether the read was correct.\<close>

definition bl2_flash_read :: "'m hal_env \<Rightarrow> u32 \<Rightarrow> u32 \<Rightarrow> bytes \<Rightarrow> 'm hal_state \<Rightarrow> bool \<times> bytes \<times> 'm hal_state" where
  "bl2_flash_read E from len p_buf h =
    (if IS_NANDFLASH E
     then let (r, st, buf, s) = nandflash_read (nand_conf E) from len p_buf RTN_NO_ERROR (nand h) in (r = 0, buf, h\<lparr>nand := s\<rparr>)
     else let (r, dat, m) = spiflash_read E from len (other_dev h) in (True, memcpy p_buf 0 dat, h\<lparr>other_dev := m\<rparr>))"

definition transfer_config :: "bytes \<Rightarrow> nat \<Rightarrow> bytes" where
  "transfer_config str n =
    (if n = 0 then str
     else let e = last_used str (n - 1) in map (\<lambda>c. if c = 0 then 0x3B else c) (take (e + 1) str) @ drop (e + 1) str)"

text \<open>The loop over the windows; seven windows reach the end, and the address only grows.\<close>

fun find_config_loop :: "nat \<Rightarrow> 'm hal_env \<Rightarrow> bytes \<Rightarrow> u32 \<Rightarrow> u32 \<Rightarrow> bytes \<Rightarrow> 'm hal_state \<Rightarrow> fault + bytes option \<times> 'm hal_state" where
  "find_config_loop 0 E sig fip_addr read_len fip h = Inl OutOfFuel"
| "find_config_loop (Suc n) E sig fip_addr read_len fip h =
    (if fip_addr \<le> MTK_FIP_END
     then let rl = (if fip_addr + read_len > MTK_FIP_END then MTK_FIP_END - fip_addr else read_len);
              (ok, fip1, h1) = bl2_flash_read E fip_addr rl fip h
          in if \<not> ok then Inr (None, h1)
             else let fip2 = transfer_config fip1 (unat rl)
                  in res_bind (env_get_from_linear fip2 sig) (\<lambda>found.
                       case found of
                         Some v \<Rightarrow> Inr (Some v, h1)
                       | None \<Rightarrow> find_config_loop n E sig (fip_addr + MTK_FIP_READ_LEN) rl fip2 h1)
     else Inr (None, h))"

text \<open>The value is copied to config, which is filled with zeros, and printed. fip is the old content of the array on the stack.\<close>

definition an_gpio_find_config :: "'m hal_env \<Rightarrow> bytes \<Rightarrow> bytes \<Rightarrow> bytes \<Rightarrow> 'm hal_state \<Rightarrow> fault + bytes option \<times> 'm hal_state" where
  "an_gpio_find_config E fip config sig h =
    res_bind (find_config_loop 8 E sig MTK_FIP_BASE MTK_FIP_READ_LEN fip h) (\<lambda>(found, h1).
      case found of
        None \<Rightarrow> Inr (None, h1)
      | Some v \<Rightarrow> if length v > length config \<or> 0 \<notin> set (memcpy config 0 v) then Inl OutOfBounds else Inr (Some (memcpy config 0 v), h1))"

definition LOW :: u32 where "LOW = 0"
definition HIGH :: u32 where "HIGH = 1"

definition set_from_config :: "'m hal_env \<Rightarrow> bytes \<Rightarrow> string \<Rightarrow> u32 \<Rightarrow> 'm hal_state \<times> regs \<Rightarrow> fault + 'm hal_state \<times> regs" where
  "set_from_config E fip sig mode = (\<lambda>(h, R).
    res_bind (an_gpio_find_config E fip (replicate MTK_GPIO_CONFIG_MAXSIZE 0) (c_bytes sig) h) (\<lambda>(found, h1).
      case found of
        None \<Rightarrow> Inr (h1, R)
      | Some config \<Rightarrow> res_bind (an_gpio_set config mode R) (\<lambda>R1. Inr (h1, R1))))"

text \<open>fip1 and fip2 are what the stack holds at the two calls.\<close>

definition init_gpio :: "'m hal_env \<Rightarrow> bytes \<Rightarrow> bytes \<Rightarrow> 'm hal_state \<times> regs \<Rightarrow> fault + 'm hal_state \<times> regs" where
  "init_gpio E fip1 fip2 s =
    res_bind (set_from_config E fip1 MKT_GPIO_LOW_SIG LOW s) (set_from_config E fip2 MKT_GPIO_HIGH_SIG HIGH)"

end
