(* ===== verification/Env_Theorems.thy ===== *)
theory Env_Theorems
  imports Env_Flash
begin

text \<open>
  What saving, loading and moving the environment guarantee, and what the search for the variable that asks for the
  move does at the end of the text.
\<close>

section \<open>Reading and writing an image\<close>









section \<open>Saving and loading again\<close>


section \<open>The check for the first start only reads\<close>

lemma length_transfer: "last_used str n \<le> n"
  by (induction str n rule: last_used.induct) auto

lemma length_mtk_transfer [simp]: "n - 1 < length str \<Longrightarrow> length (mtk_transfer_config str n) = length str"
  using length_transfer[of str "n - 1"] by (simp add: mtk_transfer_config_def Let_def)



text \<open>The number of windows is a sufficient bound: the loop never runs out of fuel.\<close>

lemma atoi_digits_fuel: "atoi_digits r cs \<noteq> Inl OutOfFuel"
  by (induction r cs rule: atoi_digits.induct) auto

lemma atoi_fuel: "atoi cs \<noteq> Inl OutOfFuel"
  by (induction cs) (auto simp: atoi_digits_fuel res_bind_def split: sum.splits)

lemma parse_fuel: "mtk_parse_config_to_bool stack str \<noteq> Inl OutOfFuel"
  by (simp add: mtk_parse_config_to_bool_def Let_def atoi_fuel)

lemma env_linear_fuel: "env_linear name cs \<noteq> Inl OutOfFuel"
proof (induction name cs rule: env_linear.induct)
  case (2 name c cs)
  show ?case unfolding env_linear.simps(2)[of name c cs] Let_def using 2[OF _ refl refl] by auto
qed simp

lemma first_boot_loop_fuel:
  assumes "unat stop + 0xA00 \<le> unat addr + n * 0xA00" "0 < n" "unat stop < 2 ^ 31"
  shows "first_boot_loop n X stop sig addr read_len buf h \<noteq> Inl OutOfFuel"
  using assms
proof (induction n arbitrary: addr read_len buf h)
  case (Suc n)
  show ?case
  proof (cases "addr < stop")
    case True
    then have "unat (addr + ENV_READ_LEN) = unat addr + 0xA00"
      using Suc.prems(3) by (simp add: unat_word_ariths ENV_READ_LEN_def word_less_nat_alt)
    moreover have "0 < n" using Suc.prems(1) True by (cases n) (simp_all add: word_less_nat_alt)
    ultimately have IH: "first_boot_loop n X stop sig (addr + ENV_READ_LEN) rl buf h \<noteq> Inl OutOfFuel" for rl buf h
      using Suc.prems by (intro Suc.IH) simp_all
    have get: "env_get_from_linear b sig \<noteq> Inl OutOfFuel" for b by (simp add: env_get_from_linear_def env_linear_fuel)
    show ?thesis using IH get parse_fuel by (auto simp: Let_def res_bind_def split: sum.splits option.splits prod.splits)
  qed simp
qed simp

lemma check_first_boot_fuel:
  assumes "CONFIG_ENV_MTK_OFFSET X = Inr a" "unat a < 2 ^ 31"
  shows "mtk_check_first_boot X sig h \<noteq> Inl OutOfFuel"
proof -
  have "unat a + 0xA00 \<le> (unat a div 0xA00 + 2) * 0xA00" using mod_less_divisor[of "0xA00" "unat a"] div_mult_mod_eq[of "unat a" "0xA00"] by simp
  then have "first_boot_loop (unat a div 0xA00 + 2) X a sig (CONFIG_ENV_AIROHA_OFFSET + 4) rl buf h \<noteq> Inl OutOfFuel" for rl buf
    using assms(2) by (intro first_boot_loop_fuel) simp_all
  then show ?thesis by (simp add: mtk_check_first_boot_def assms(1) ENV_READ_LEN_def del: first_boot_loop.simps)
qed


section \<open>The search for the variable\<close>

definition plain_var :: "bytes \<Rightarrow> bool" where
  "plain_var v \<longleftrightarrow> v \<noteq> [] \<and> 0 \<notin> set v \<and> 0x3B \<notin> set v"

definition env_text :: "u8 \<Rightarrow> bytes list \<Rightarrow> bytes" where
  "env_text sep vs = concat (map (\<lambda>v. v @ [sep]) vs)"

lemma last_used_eq: "str ! e \<noteq> 0 \<Longrightarrow> e \<le> n \<Longrightarrow> (\<And>i. e < i \<Longrightarrow> i \<le> n \<Longrightarrow> str ! i = 0) \<Longrightarrow> last_used str n = e"
  by (induction str n rule: last_used.induct) (auto simp: le_Suc_eq)

lemma map_sep:
  assumes "\<forall>v \<in> set vs. plain_var v"
  shows "map (\<lambda>c. if c = 0 then 0x3B else c) (env_text 0 vs) = env_text 0x3B vs"
proof -
  have "map (\<lambda>c. if c = 0 then 0x3B else c) v = v" if "plain_var v" for v :: bytes
    using that by (intro map_idI) (auto simp: plain_var_def)
  then show ?thesis using assms by (induction vs) (auto simp: env_text_def)
qed

text \<open>In a text that ends with the variable u and is padded with zeros, the last used character is the last of u.\<close>

lemma last_used_text:
  assumes "plain_var u"
  shows "last_used (p @ u @ replicate (Suc k) 0 @ t) (length (p @ u) + Suc k - 1) = length (p @ u) - 1"
proof (rule last_used_eq)
  let ?p = "p @ u" and ?z = "replicate (Suc k) 0 @ t"
  have u: "u \<noteq> []" "0 \<notin> set u" using assms by (simp_all add: plain_var_def)
  then have n: "last u \<noteq> 0" using last_in_set[of u] by metis
  have lp: "0 < length ?p" "?p \<noteq> []" using u(1) by simp_all
  have "(?p @ ?z) ! (length ?p - 1) = last ?p" using nth_append[of ?p ?z "length ?p - 1"] last_conv_nth[of ?p] lp by simp
  then show "(p @ u @ ?z) ! (length ?p - 1) \<noteq> 0" using u n by simp
  show "(p @ u @ ?z) ! i = 0" if "length ?p - 1 < i" "i \<le> length ?p + Suc k - 1" for i
  proof -
    define m where "m = i - length ?p"
    have i: "i = length ?p + m" "m < Suc k" using that lp by (simp_all add: m_def)
    have "(?p @ ?z) ! i = ?z ! m" unfolding i(1) by (rule nth_append_length_plus)
    then show ?thesis using i(2) by (simp add: nth_append del: replicate_Suc)
  qed
qed simp

lemma map_sep_text:
  assumes "\<forall>v \<in> set vs. plain_var v" "plain_var u"
  shows "map (\<lambda>c. if c = 0 then 0x3B else c) (env_text 0 vs @ u) = env_text 0x3B vs @ u"
  using map_sep[OF assms(1)] assms(2) by (auto simp: plain_var_def intro!: map_idI)

lemma take_drop_text:
  "u \<noteq> [] \<Longrightarrow> take (length (p @ u) - 1 + 1) (p @ u @ z) = p @ u \<and> drop (length (p @ u) - 1 + 1) (p @ u @ z) = z"
  by (cases u) simp_all

lemma transfer_text:
  assumes "\<forall>v \<in> set vs. plain_var v" "plain_var u"
  shows "mtk_transfer_config (env_text 0 vs @ u @ replicate (Suc k) 0 @ t) (length (env_text 0 vs @ u) + Suc k)
     = env_text 0x3B vs @ butlast u @ replicate (Suc (Suc k)) 0 @ t"
proof -
  let ?p = "env_text 0 vs @ u" and ?q = "env_text 0x3B vs @ u" and ?z = "replicate (Suc k) 0 @ t"
  let ?e = "length ?p - 1"
  have u: "u \<noteq> []" using assms(2) by (simp add: plain_var_def)
  have l: "length (env_text 0x3B vs) = length (env_text 0 vs)" by (simp add: env_text_def length_concat comp_def)
  have "u[length u - 1 := 0] = butlast u @ [0]" using u by (metis append_butlast_last_id length_butlast list_update_length)
  moreover have "?e - length (env_text 0x3B vs) = length u - 1" "\<not> ?e < length (env_text 0x3B vs)" using l u by (cases u; simp)+
  ultimately have up: "?q[?e := 0] = env_text 0x3B vs @ butlast u @ [0]" by (simp add: list_update_append)
  have "?e < length ?q" using l u by simp
  then have "(?q @ ?z)[?e := 0] = env_text 0x3B vs @ butlast u @ replicate (Suc (Suc k)) 0 @ t"
    using list_update_append1[of ?e ?q ?z 0] up by simp
  then show ?thesis unfolding mtk_transfer_config_def Let_def last_used_text[OF assms(2)] take_drop_text[OF u, THEN conjunct1]
      take_drop_text[OF u, THEN conjunct2] map_sep_text[OF assms] by simp
qed

text \<open>The variables before the last one are found; the search for the end of the last one runs on.\<close>

lemma env_linear_text:
  assumes "\<forall>v \<in> set vs. plain_var v" "plain_var u" "0x3B \<notin> set rest" "rest \<noteq> []" "hd rest = 0"
  shows "env_linear name (env_text 0x3B vs @ butlast u @ rest) =
     (case find (\<lambda>v. take (length name + 1) v = name @ [0x3D]) vs of
        Some v \<Rightarrow> Inr (if drop (length name + 1) v = [] then None else Some (drop (length name + 1) v))
      | None \<Rightarrow> if butlast u = [] then Inr None else Inl OutOfBounds)"
  using assms(1)
proof (induction vs)
  case Nil
  have nb: "0x3B \<notin> set (butlast u)" "0 \<notin> set (butlast u)" using assms(2) by (auto simp: plain_var_def dest: in_set_butlastD)
  show ?case
  proof (cases "butlast u")
    case Nil
    then show ?thesis using assms(4,5) by (cases rest) (simp_all add: env_text_def env_linear.simps(2))
  next
    case (Cons c cs)
    then have "dropWhile (\<lambda>x. x \<noteq> 0x3B) (c # cs @ rest) = []" using nb assms(3) by (auto simp: dropWhile_eq_Nil_conv)
    then show ?thesis using Cons nb by (simp add: env_text_def env_linear.simps(2))
  qed
next
  case (Cons v vs)
  have v: "plain_var v" using Cons.prems by simp
  then obtain c cs where c: "v = c # cs" "c \<noteq> 0" by (cases v) (auto simp: plain_var_def)
  let ?r = "env_text 0x3B vs @ butlast u @ rest"
  have "takeWhile (\<lambda>x. x \<noteq> 0x3B) (v @ 0x3B # ?r) = v" "dropWhile (\<lambda>x. x \<noteq> 0x3B) (v @ 0x3B # ?r) = 0x3B # ?r"
    using v by (auto simp: plain_var_def takeWhile_append dropWhile_append)
  then have "env_linear name (v @ 0x3B # ?r) = (if take (length name + 1) v = name @ [0x3D]
      then Inr (if drop (length name + 1) v = [] then None else Some (drop (length name + 1) v)) else env_linear name ?r)"
    using c env_linear.simps(2)[of name c "cs @ 0x3B # ?r"] by (simp add: Let_def)
  then show ?case using Cons by (simp add: env_text_def)
qed

lemma first_window:
  assumes "hal_ok (ev_hal X) h" "CONFIG_ENV_MTK_OFFSET X = Inr a" "0x7CA03 \<le> unat a" "unat a \<le> hal_cap (ev_hal X) h" "length (stack_buf X) = 0xA00"
    and "map (hal_byte (ev_hal X) h) [0x7C004..<0x7CA03] = w"
  obtains n b2 h1 where "b2 = mtk_transfer_config (w @ [stack_buf X ! 0x9FF]) 0x9FF"
    "mtk_check_first_boot X sig h = res_bind (env_get_from_linear b2 sig) (\<lambda>found. case found of
         Some config \<Rightarrow> res_bind (mtk_parse_config_to_bool (stack_config X) config) (\<lambda>v. Inr (v, h1))
       | None \<Rightarrow> first_boot_loop n X a sig (CONFIG_ENV_AIROHA_OFFSET + 4 + ENV_READ_LEN) (ENV_READ_LEN - 1) b2 h1)"
proof -
  let ?E = "ev_hal X" and ?addr = "CONFIG_ENV_AIROHA_OFFSET + 4" and ?rl = "ENV_READ_LEN - 1"
  have u: "unat ?addr = 0x7C004" "unat ?rl = 0x9FF" "unat (?addr + ?rl) = 0x7CA03" by (simp_all add: CONFIG_ENV_AIROHA_OFFSET_def ENV_READ_LEN_def)
  then have c: "?addr < a" "\<not> ?addr + ?rl > a" using assms(3) by (simp_all add: word_less_nat_alt not_less)
  have le: "unat ?addr + unat ?rl \<le> hal_cap ?E h" "unat ?rl \<le> length (stack_buf X)" using u assms(3-5) by simp_all
  obtain h1 where r: "flash_read ?E ?addr ?rl (stack_buf X) h = (0, memcpy (stack_buf X) 0 w, h1)"
    using hal.rd_ok[OF assms(1) le] unfolding u assms(6)[symmetric] by (auto simp del: upt_rec_numeral)
  have lw: "length w = 0x9FF" unfolding assms(6)[symmetric] by (simp only: length_map length_upt)
  have "drop 0x9FF (stack_buf X) = [stack_buf X ! 0x9FF]" using assms(5) by (simp add: Cons_nth_drop_Suc[symmetric])
  then have m: "memcpy (stack_buf X) 0 w = w @ [stack_buf X ! 0x9FF]" using lw by (simp add: memcpy_def)
  have fuel: "unat a div unat ENV_READ_LEN + 2 = Suc (Suc (unat a div unat ENV_READ_LEN))" by simp
  have "mtk_check_first_boot X sig h = res_bind (env_get_from_linear (mtk_transfer_config (w @ [stack_buf X ! 0x9FF]) 0x9FF) sig) (\<lambda>found. case found of
         Some config \<Rightarrow> res_bind (mtk_parse_config_to_bool (stack_config X) config) (\<lambda>v. Inr (v, h1))
       | None \<Rightarrow> first_boot_loop (Suc (unat a div unat ENV_READ_LEN)) X a sig (?addr + ENV_READ_LEN) ?rl (mtk_transfer_config (w @ [stack_buf X ! 0x9FF]) 0x9FF) h1)"
    unfolding mtk_check_first_boot_def assms(2) res_bind_simps fuel first_boot_loop.simps(2) Let_def if_not_P[OF c(2)] if_P[OF c(1)] r prod.case m u(2) by (simp del: first_boot_loop.simps)
  then show ?thesis using that by blast
qed

lemma first_boot_check_text:
  assumes "hal_ok (ev_hal X) h" and "CONFIG_ENV_MTK_OFFSET X = Inr a" and "0x7CA03 \<le> unat a" and "unat a \<le> hal_cap (ev_hal X) h"
    and "length (stack_buf X) = 0xA00" and "stack_buf X ! 0x9FF \<noteq> 0x3B" and "\<forall>v \<in> set vs. plain_var v" and "plain_var u" and "sig \<noteq> []"
    and "map (hal_byte (ev_hal X) h) [0x7C004..<0x7CA03] = env_text 0 vs @ u @ replicate (Suc k) 0"
  shows "\<exists>n b2 h1. mtk_check_first_boot X sig h = (case find (\<lambda>v. take (length sig + 1) v = sig @ [0x3D]) vs of
        None \<Rightarrow> if butlast u = [] then first_boot_loop n X a sig (CONFIG_ENV_AIROHA_OFFSET + 4 + ENV_READ_LEN) (ENV_READ_LEN - 1) b2 h1 else Inl OutOfBounds
      | Some v \<Rightarrow> if drop (length sig + 1) v = [] then first_boot_loop n X a sig (CONFIG_ENV_AIROHA_OFFSET + 4 + ENV_READ_LEN) (ENV_READ_LEN - 1) b2 h1
                  else res_bind (mtk_parse_config_to_bool (stack_config X) (drop (length sig + 1) v)) (\<lambda>r. Inr (r, h1)))"
proof -
  let ?w = "env_text 0 vs @ u @ replicate (Suc k) 0" and ?t = "[stack_buf X ! 0x9FF]"
  obtain n b2 h1 where b2: "b2 = mtk_transfer_config (?w @ ?t) 0x9FF"
    and run: "mtk_check_first_boot X sig h = res_bind (env_get_from_linear b2 sig) (\<lambda>found. case found of
         Some config \<Rightarrow> res_bind (mtk_parse_config_to_bool (stack_config X) config) (\<lambda>v. Inr (v, h1))
       | None \<Rightarrow> first_boot_loop n X a sig (CONFIG_ENV_AIROHA_OFFSET + 4 + ENV_READ_LEN) (ENV_READ_LEN - 1) b2 h1)"
    by (rule first_window[OF assms(1-5,10), of sig])
  have "length (map (hal_byte (ev_hal X) h) [0x7C004..<0x7CA03]) = 0x9FF" by (simp only: length_map length_upt)
  then have "length ?w = 0x9FF" unfolding assms(10) .
  then have "length (env_text 0 vs @ u) + Suc k = 0x9FF" by simp
  then have "b2 = env_text 0x3B vs @ butlast u @ (replicate (Suc (Suc k)) 0 @ ?t)"
    using transfer_text[OF assms(7,8), of k ?t] b2 by simp
  moreover have "0x3B \<notin> set (replicate (Suc (Suc k)) 0 @ ?t)" "replicate (Suc (Suc k)) 0 @ ?t \<noteq> []" "hd (replicate (Suc (Suc k)) 0 @ ?t) = 0"
    using assms(6) by auto
  ultimately have lin: "env_get_from_linear b2 sig = (case find (\<lambda>v. take (length sig + 1) v = sig @ [0x3D]) vs of
        Some v \<Rightarrow> Inr (if drop (length sig + 1) v = [] then None else Some (drop (length sig + 1) v))
      | None \<Rightarrow> if butlast u = [] then Inr None else Inl OutOfBounds)"
    using env_linear_text[OF assms(7,8), of "replicate (Suc (Suc k)) 0 @ ?t" sig] assms(9) by (simp add: env_get_from_linear_def del: replicate_Suc)
  show ?thesis unfolding run lin
    by (intro exI[of _ n] exI[of _ b2] exI[of _ h1]) (auto simp del: first_boot_loop.simps split: option.split)
qed

text \<open>
  The check for the first start reads the variable only when another variable follows it. For an old environment that fits into the first
  window, mtk\_check\_first\_boot gives the value of the first matching variable among all but the last one. When there is none, whether
  the variable is missing or comes last, the search for the end of the last variable runs over the end of the array on the
  stack, because mtk\_transfer\_config has put the terminating zero on its last character and the search only stops at a semicolon.
\<close>

lemma first_boot_check_overruns:
  assumes "hal_ok (ev_hal X) h" and "CONFIG_ENV_MTK_OFFSET X = Inr a" and "0x7CA03 \<le> unat a" and "unat a \<le> hal_cap (ev_hal X) h"
    and "length (stack_buf X) = 0xA00" and "stack_buf X ! 0x9FF \<noteq> 0x3B" and "\<forall>v \<in> set vs. plain_var v" and "plain_var u" and "sig \<noteq> []"
    and "map (hal_byte (ev_hal X) h) [0x7C004..<0x7CA03] = env_text 0 vs @ u @ replicate (Suc k) 0"
  shows "(find (\<lambda>v. take (length sig + 1) v = sig @ [0x3D]) vs = None \<and> 2 \<le> length u \<longrightarrow> mtk_check_first_boot X sig h = Inl OutOfBounds)
     \<and> (\<forall>v. find (\<lambda>v. take (length sig + 1) v = sig @ [0x3D]) vs = Some v \<and> length sig + 1 < length v \<longrightarrow>
          (\<exists>h1. mtk_check_first_boot X sig h = res_bind (mtk_parse_config_to_bool (stack_config X) (drop (length sig + 1) v)) (\<lambda>r. Inr (r, h1))))"
proof -
  have "butlast u \<noteq> []" if "2 \<le> length u" using that length_butlast[of u] by (metis Suc_1 diff_is_0_eq not_less_eq_eq list.size(3) One_nat_def)
  then show ?thesis using first_boot_check_text[OF assms] by (auto simp del: first_boot_loop.simps)
qed

section \<open>Moving the environment\<close>

lemma airoha [simp]: "unat CONFIG_ENV_AIROHA_OFFSET = 0x7C000"
  by (simp add: CONFIG_ENV_AIROHA_OFFSET_def)





section \<open>A chip with a boot loader and an old environment\<close>

text \<open>Eight blocks of 128 KiB, of which six hold data, and the partition u-boot-env at 0x80000.\<close>

definition chip_cfg :: nand_cfg where
  "chip_cfg = demo_cfg\<lparr>erase_shift := 17, chip_shift := 20\<rparr>"

lemma chip_sizes [simp]:
  "page_size chip_cfg = 1024" "erase_size chip_cfg = 131072" "oob_size chip_cfg = 64" "pages_per_block chip_cfg = 128"
  "block_total chip_cfg = 8" "device_size chip_cfg = 1048576"
  by (simp_all add: page_size_def erase_size_def oob_size_def pages_per_block_def block_total_def device_size_def chip_cfg_def demo_cfg_def)

definition chip_page :: "(nat \<Rightarrow> u8) \<Rightarrow> nat \<Rightarrow> bytes" where
  "chip_page content p = map (\<lambda>i. content (p * 1024 + i)) [0..<1024]"

lemma chip_page_simps [simp]: "length (chip_page content p) = 1024" "i < 1024 \<Longrightarrow> chip_page content p ! i = content (p * 1024 + i)"
  by (simp_all add: chip_page_def del: upt_rec_numeral)

definition chip_globals :: "(nat \<Rightarrow> u8) \<Rightarrow> bmt_globals" where
  "chip_globals content = demo_globals\<lparr>total_block_count := 8, system_block_count := 6, pBbt := [0, 1, 2, 3, 4, 5],
     dev := demo_dev\<lparr>flash_data := chip_page content\<rparr>\<rparr>"

definition chip_hal :: "(nat \<Rightarrow> u8) \<Rightarrow> unit hal_state" where
  "chip_hal content = demo_hal\<lparr>nand := chip_globals content\<rparr>"

definition chip_env :: "unit hal_env" where
  "chip_env = demo_env\<lparr>nand_conf := chip_cfg, erase_bound := 9\<rparr>"

lemma chip_rw_inv: "rw_inv chip_cfg (chip_globals content)"
proof -
  let ?s = "chip_globals content"
  have "wf_cfg chip_cfg" by (simp add: wf_cfg_def chip_cfg_def demo_cfg_def)
  then have "wf_dev chip_cfg (dev ?s)"
    by (simp add: wf_dev_defs wf_faults_def demo_dev_def chip_globals_def) (simp add: chip_cfg_def demo_cfg_def)
  moreover have "create_badblock_table_by_bbt 6 (init_bbt ?s) = [0, 1, 2, 3, 4, 5]"
    by (simp add: create_badblock_table_by_bbt_def demo_globals_def chip_globals_def upt_rec)
  moreover have "ascending_bbt 6 (init_bbt ?s)" by (simp add: ascending_bbt_def demo_globals_def chip_globals_def wf_bbt_def raw_bad_blocks_def)
  moreover have "bmt_inv 6 8 (bmt ?s)" by (simp add: bmt_inv_def live_entries_def demo_globals_def chip_globals_def)
  ultimately show ?thesis by (simp add: rw_inv_def) (simp add: demo_globals_def chip_globals_def)
qed

lemma chip_hal_ok: "hal_ok chip_env (chip_hal content)" "hal_cap chip_env (chip_hal content) = 0xC0000"
proof -
  have "reads_clean chip_cfg" "writes_clean chip_cfg" "erases_clean chip_cfg"
    by (simp_all add: reads_clean_def reads_ok_def writes_clean_def erases_clean_def chip_cfg_def demo_cfg_def)
  then show "hal_ok chip_env (chip_hal content)"
    using chip_rw_inv by (simp add: hal_ok_def nand_env_def chip_env_def chip_hal_def demo_env_def)
  show "hal_cap chip_env (chip_hal content) = 0xC0000"
    by (simp add: hal_cap_def logic_size_def logic_blocks_def chip_env_def chip_hal_def) (simp add: demo_globals_def chip_globals_def)
qed

lemma chip_byte:
  assumes "x < 0xC0000"
  shows "hal_byte chip_env (chip_hal content) x = content x"
proof -
  have "x div 131072 < 6" using assms by (simp add: less_mult_imp_div_less)
  then have "x div 131072 \<in> {0, 1, 2, 3, 4, 5}" by auto
  then have m: "fst (map_block (chip_globals content) (x div 131072)) = x div 131072"
    by (auto simp: map_block_def get_mapping_block_index_def chip_globals_def
      get_mapping_block_index_by_bbt_def get_mapping_block_index_by_bmt_def live_entries_def demo_globals_def)
  have "x mod 131072 = 1024 * (x div 1024 mod 128) + x mod 1024" "x div 131072 = x div 1024 div 128"
    using mod_mult2_eq[of x 1024 128] div_mult2_eq[of x 1024 128] by simp_all
  then have "x div 131072 * 128 + x mod 131072 div 1024 = x div 1024" by simp
  then show ?thesis using m
    by (simp add: hal_byte_def flash_byte_def phys_page_def chip_env_def chip_hal_def) (simp add: chip_globals_def)
qed

text \<open>
  The old environment: MTK\_MOVE\_ENV with the digit d, and x=1. The codec knows the two environments that occur, and its
  checksum is constant.
\<close>

definition chip_vars :: "string \<Rightarrow> ubenv" where
  "chip_vars v = [MTK_MOVE_ENV \<mapsto> v, ''x'' \<mapsto> ''1'']"

definition move_var :: "u8 \<Rightarrow> bytes" where
  "move_var d = c_bytes MTK_MOVE_ENV @ [0x3D, d]"

definition chip_text :: "u8 \<Rightarrow> bytes" where
  "chip_text d = env_text 0 [move_var d] @ [0x78, 0x3D, 0x31] @ replicate 16362 0"

definition chip_content :: "u8 \<Rightarrow> nat \<Rightarrow> u8" where
  "chip_content d x = (if 0x7C000 \<le> x \<and> x < 0x80000 then (le32 0 @ chip_text d) ! (x - 0x7C000) else 0xFF)"

definition chip_X :: "unit env_env" where
  "chip_X = \<lparr>ev_hal = chip_env, ev_mtd = demo_mtd\<lparr>ecnt_parts := [entry_of ''u-boot-env'' 0x20000 0x80000]\<rparr>,
     hexport_r = (\<lambda>e. if e = chip_vars ''1'' then Some (chip_text 0x31) else if e = chip_vars ''0'' then Some (chip_text 0x30) else None),
     himport_r = (\<lambda>t. if t = chip_text 0x31 then Some (chip_vars ''1'') else if t = chip_text 0x30 then Some (chip_vars ''0'') else None),
     crc32 = (\<lambda>_. 0), default_environment = (\<lambda>_. None), stack_buf = replicate 0xA00 0, stack_config = replicate 10 0\<rparr>"

definition chip_state :: "u8 \<Rightarrow> ubenv \<Rightarrow> unit env_state" where
  "chip_state d e = \<lparr>ehal = chip_hal (chip_content d), env_htab = e, env_valid = False\<rparr>"

lemma move_var_bytes: "move_var d = [0x4D, 0x54, 0x4B, 0x5F, 0x4D, 0x4F, 0x56, 0x45, 0x5F, 0x45, 0x4E, 0x56, 0x3D, d]"
  by (simp add: move_var_def c_bytes_def MTK_MOVE_ENV_def)

lemma length_chip_text [simp]: "length (chip_text d) = 16380"
  by (simp add: chip_text_def env_text_def move_var_bytes)






lemma chip_X_simps [simp]: "ev_hal chip_X = chip_env" "length (stack_buf chip_X) = 0xA00" "stack_buf chip_X ! 0x9FF \<noteq> 0x3B" "stack_config chip_X = replicate 10 0"
    "nand_conf chip_env = chip_cfg" "malloc_ok chip_env n" "ehal (chip_state d e) = chip_hal (chip_content d)" "env_htab (chip_state d e) = e"
  by (simp_all add: chip_X_def chip_env_def demo_env_def chip_state_def)

lemma chip_offset: "CONFIG_ENV_MTK_OFFSET chip_X = Inr 0x80000"
  by (simp add: CONFIG_ENV_MTK_OFFSET_def ecnt_get_ubootenv_mtd_offset_def mtd_offset_or_0_def ecnt_get_mtd_offset_def chip_X_def part_is_def
      entry_of_def OFFSET_NOT_FOUND_def)

lemma chip_window:
  assumes "\<And>x. x < 0x80000 \<Longrightarrow> hal_byte chip_env h x = chip_content d x"
  shows "map (hal_byte chip_env h) [0x7C004..<0x7CA03] = env_text 0 [move_var d] @ [0x78, 0x3D, 0x31] @ replicate (Suc 2540) 0"
proof -
  have l: "length (le32 0) = 4" by (simp add: le32_def)
  have "map (hal_byte chip_env h) [0x7C004..<0x7CA03] = take 0x9FF (chip_text d)"
    using assms by (intro nth_equalityI) (simp_all add: chip_content_def nth_append l del: upt_rec_numeral)
  also have "\<dots> = env_text 0 [move_var d] @ [0x78, 0x3D, 0x31] @ replicate (Suc 2540) 0"
    by (simp add: chip_text_def env_text_def move_var_bytes min_def del: replicate_Suc)
  finally show ?thesis .
qed

lemma chip_parse: "isDigit d \<Longrightarrow> mtk_parse_config_to_bool (replicate 10 0) [d] = Inr (ucast (d - 0x30))"
proof -
  assume d: "isDigit d"
  then have n: "d \<noteq> 0" "d \<noteq> 0x20" "d \<noteq> 0x2D" "d \<noteq> 0x2B" by (auto simp: isDigit_def)
  have "memcpy (replicate 10 0) 0 [d] = d # 0 # replicate 8 0" by (simp add: memcpy_def replicate_Suc[symmetric] del: replicate_Suc)
  moreover have "\<not> isDigit 0" by (simp add: isDigit_def)
  ultimately show ?thesis using d n by (simp add: mtk_parse_config_to_bool_def)
qed



lemma first_boot_check_overruns_witness:
  "mtk_check_first_boot chip_X (c_bytes ''y'') (chip_hal (chip_content 0x31)) = Inl OutOfBounds
     \<and> (\<exists>h1. mtk_check_first_boot chip_X (c_bytes MTK_MOVE_ENV) (chip_hal (chip_content 0x31)) = Inr (1, h1))"
proof -
  let ?h = "chip_hal (chip_content 0x31)"
  have v: "\<forall>v \<in> set [move_var 0x31]. plain_var v" by (simp add: plain_var_def move_var_bytes)
  have u: "plain_var [0x78, 0x3D, 0x31]" by (simp add: plain_var_def)
  have c: "0x7CA03 \<le> unat (0x80000 :: u32)" "unat (0x80000 :: u32) \<le> hal_cap (ev_hal chip_X) ?h" "hal_ok (ev_hal chip_X) ?h"
    and n: "c_bytes MTK_MOVE_ENV \<noteq> []" "c_bytes ''y'' = [0x79]"
    using chip_hal_ok[of "chip_content 0x31"] by (simp_all add: c_bytes_def MTK_MOVE_ENV_def)
  have w: "map (hal_byte (ev_hal chip_X) ?h) [0x7C004..<0x7CA03] = env_text 0 [move_var 0x31] @ [0x78, 0x3D, 0x31] @ replicate (Suc 2540) 0"
    unfolding chip_X_simps by (rule chip_window) (simp add: chip_byte)
  note T = first_boot_check_overruns[OF c(3) chip_offset c(1,2) chip_X_simps(2,3) v u _ w]
  have p: "mtk_parse_config_to_bool (replicate 10 0) [0x31] = Inr 1" using chip_parse[of "0x31"] by (simp add: isDigit_def)
  have "mtk_check_first_boot chip_X (c_bytes ''y'') ?h = Inl OutOfBounds"
    using T[of "c_bytes ''y''"] by (simp add: n(2) move_var_bytes)
  moreover have "\<exists>h1. mtk_check_first_boot chip_X (c_bytes MTK_MOVE_ENV) ?h = Inr (1, h1)"
    using T[OF n(1)] p by (auto simp: move_var_def)
  ultimately show ?thesis ..
qed


end
