(* ===== verification/Gpio_Theorems.thy ===== *)
theory Gpio_Theorems
  imports Gpio_Pins Env_Theorems
begin

text \<open>
  What the pin configuration of the first stage does to the pins: the registers refine a table of pins, and the two variables of the old
  environment determine which pins are driven.
\<close>

section \<open>The registers as a table of pins\<close>

lemma mask_word: "push_bit n 1 - 1 = (mask n :: u32)"
  by (simp add: mask_eq_exp_minus_1 push_bit_eq_mult)

lemma update_field_bit:
  assumes "unat i * bits + bits \<le> 32"
  shows "bit (update_field bits cr i v R a) k =
    (if a = cr \<and> unat i * bits \<le> k \<and> k < unat i * bits + bits then bit v (k - unat i * bits) else bit (R a) k)"
proof (cases "(drop_bit (unat i * bits) (R cr) AND mask bits) = v AND mask bits")
  case True
  have "bit (R cr) (unat i * bits + j) = bit v j" if "j < bits" for j
  proof -
    have "j < 32" using that assms by simp
    moreover from True have "bit (drop_bit (unat i * bits) (R cr) AND mask bits) j = bit (v AND mask bits) j" by simp
    ultimately show ?thesis using that by (simp add: bit_simps)
  qed
  then have "bit (R cr) k = bit v (k - unat i * bits)" if "unat i * bits \<le> k" "k < unat i * bits + bits"
    using that by (metis add_diff_inverse_nat less_diff_conv2 not_less add.commute)
  then show ?thesis using True unfolding update_field_def Let_def mask_word by auto
next
  case False
  then show ?thesis unfolding update_field_def Let_def mask_word using assms by (auto simp: bit_simps dest: bit_imp_le_length)
qed

lemma update_field_1:
  "unat i < 32 \<Longrightarrow> bit (update_field (Suc 0) cr i v R a) k = (if a = cr \<and> k = unat i then bit v 0 else bit (R a) k)"
  using update_field_bit[of i "Suc 0" cr v R a k] by auto

lemma update_field_2:
  assumes "unat i < 16"
  shows "bit (update_field 2 cr i v R a) k = (if a = cr \<and> k div 2 = unat i then bit v (k mod 2) else bit (R a) k)"
proof -
  have "(unat i * 2 \<le> k \<and> k < unat i * 2 + 2) = (k div 2 = unat i)" by auto
  moreover have "k - unat i * 2 = k mod 2" if "k div 2 = unat i" using that by (auto simp: modulo_nat_def)
  ultimately show ?thesis using update_field_bit[of i 2 cr v R a k] assms by auto
qed

record pin_view =
  forced :: bool
  ctrl_hi :: bool
  ctrl_lo :: bool
  out_enabled :: bool
  level :: bool

text \<open>Index of a pin in a register with one bit, and with two bits per pin, and the registers.\<close>

definition idx32 :: "nat \<Rightarrow> nat" where "idx32 p = (if p < 32 then p else p - 32)"
definition idx16 :: "nat \<Rightarrow> nat" where "idx16 p = (if p < 16 then p else if p < 32 then p - 16 else p - 32)"
definition force_reg :: "nat \<Rightarrow> u32" where "force_reg p = (if p < 32 then 0x1FA20228 else 0x1FA2022C)"
definition data_reg :: "nat \<Rightarrow> u32" where "data_reg p = (if p < 32 then 0x1FBF0204 else 0x1FBF0270)"
definition oe_reg :: "nat \<Rightarrow> u32" where "oe_reg p = (if p < 32 then 0x1FBF0214 else 0x1FBF0278)"
definition ctrl_reg :: "nat \<Rightarrow> u32" where "ctrl_reg p = (if p < 16 then 0x1FBF0200 else if p < 32 then 0x1FBF0220 else 0x1FBF0260)"

definition pin_registers :: "u32 set" where
  "pin_registers = {0x1FA20228, 0x1FA2022C, 0x1FBF0204, 0x1FBF0270, 0x1FBF0214, 0x1FBF0278, 0x1FBF0200, 0x1FBF0220, 0x1FBF0260}"

definition view_pin :: "regs \<Rightarrow> nat \<Rightarrow> pin_view" where
  "view_pin R p = \<lparr>forced = bit (R (force_reg p)) (idx32 p), ctrl_hi = bit (R (ctrl_reg p)) (2 * idx16 p + 1),
     ctrl_lo = bit (R (ctrl_reg p)) (2 * idx16 p), out_enabled = bit (R (oe_reg p)) (idx32 p), level = bit (R (data_reg p)) (idx32 p)\<rparr>"

definition pins :: "regs \<Rightarrow> nat \<rightharpoonup> pin_view" where
  "pins R = (\<lambda>p. if p < 36 then Some (view_pin R p) else None)"

text \<open>A pin that is switched to the GPIO function and driven.\<close>

definition driven :: "bool \<Rightarrow> pin_view" where
  "driven b = \<lparr>forced = True, ctrl_hi = False, ctrl_lo = True, out_enabled = True, level = b\<rparr>"

lemma pin_cr:
  assumes "unat pin < 36"
  shows "an_pinmux_get_force_gpio_cr pin = Some (force_reg (unat pin))" "gpio_get_data_cr pin = Some (data_reg (unat pin))"
    "gpio_get_oe_cr pin = Some (oe_reg (unat pin))" "gpio_get_ctrl_cr pin = Some (ctrl_reg (unat pin))"
    "unat (pin mod 32) = idx32 (unat pin)" "unat (pin mod 16) = idx16 (unat pin)"
proof -
  have d: "(pin div 32 = w) = (unat pin div 32 = unat w)" "(pin div 16 = w) = (unat pin div 16 = unat w)" for w
    by (simp_all add: word_unat_eq_iff unat_div)
  show "unat (pin mod 32) = idx32 (unat pin)" "unat (pin mod 16) = idx16 (unat pin)"
    using assms by (auto simp: unat_mod idx32_def idx16_def mod_if)
  consider "unat pin < 16" | "16 \<le> unat pin" "unat pin < 32" | "32 \<le> unat pin" by linarith
  then show "an_pinmux_get_force_gpio_cr pin = Some (force_reg (unat pin))" "gpio_get_data_cr pin = Some (data_reg (unat pin))"
    "gpio_get_oe_cr pin = Some (oe_reg (unat pin))" "gpio_get_ctrl_cr pin = Some (ctrl_reg (unat pin))"
    using assms by (cases; auto simp: an_pinmux_get_force_gpio_cr_def gpio_get_data_cr_def gpio_get_oe_cr_def gpio_get_ctrl_cr_def d Let_def
      force_reg_def data_reg_def oe_reg_def ctrl_reg_def GPIO_BASE_def PINMUX_FORCE_GPIO_BASE_def div_if)+
qed

lemma idx_bounds: "p < 36 \<Longrightarrow> idx32 p < 32" "p < 36 \<Longrightarrow> idx16 p < 16"
  by (auto simp: idx32_def idx16_def)

lemma reg_inj:
  "force_reg p = force_reg q \<Longrightarrow> p < 36 \<Longrightarrow> q < 36 \<Longrightarrow> idx32 p = idx32 q \<longleftrightarrow> p = q"
  "data_reg p = data_reg q \<Longrightarrow> p < 36 \<Longrightarrow> q < 36 \<Longrightarrow> idx32 p = idx32 q \<longleftrightarrow> p = q"
  "oe_reg p = oe_reg q \<Longrightarrow> p < 36 \<Longrightarrow> q < 36 \<Longrightarrow> idx32 p = idx32 q \<longleftrightarrow> p = q"
  "ctrl_reg p = ctrl_reg q \<Longrightarrow> p < 36 \<Longrightarrow> q < 36 \<Longrightarrow> idx16 p = idx16 q \<longleftrightarrow> p = q"
  by (auto simp: force_reg_def data_reg_def oe_reg_def ctrl_reg_def idx32_def idx16_def split: if_splits)

lemma reg_distinct:
  "force_reg p \<noteq> data_reg q" "force_reg p \<noteq> oe_reg q" "force_reg p \<noteq> ctrl_reg q" "data_reg p \<noteq> oe_reg q" "data_reg p \<noteq> ctrl_reg q" "oe_reg p \<noteq> ctrl_reg q"
  by (simp_all add: force_reg_def data_reg_def oe_reg_def ctrl_reg_def)

text \<open>Each of the four steps sets its part of one pin.\<close>

lemmas steps_bits = GPIO_CTRL_BITS_def GPIO_DATA_BITS_def GPIO_OE_BITS_def GPIO_FORCE_BITS_def

lemma step_pins:
  assumes "unat pin < 36" "q < 36"
  shows "view_pin (an_pinmux_force_gpio pin R) q = (if q = unat pin then (view_pin R q)\<lparr>forced := True\<rparr> else view_pin R q)"
    and "view_pin (an_gpio_set_data pin v R) q = (if q = unat pin then (view_pin R q)\<lparr>level := bit v 0\<rparr> else view_pin R q)"
    and "view_pin (an_gpio_set_oe pin v R) q = (if q = unat pin then (view_pin R q)\<lparr>out_enabled := bit v 0\<rparr> else view_pin R q)"
    and "view_pin (an_gpio_set_ctrl pin v R) q = (if q = unat pin then (view_pin R q)\<lparr>ctrl_hi := bit v 1, ctrl_lo := bit v 0\<rparr> else view_pin R q)"
proof -
  note r = pin_cr[OF assms(1)] and i = idx_bounds[OF assms(1)]
  have lt: "pin < MAX_GPIO_PIN" using assms(1) by (simp add: MAX_GPIO_PIN_def word_less_nat_alt)
  note u1 = update_field_1[of "pin mod 32", unfolded r(5), OF i(1)] and u2 = update_field_2[of "pin mod 16", unfolded r(6), OF i(2)]
  note D = reg_distinct reg_distinct[symmetric]
  show "view_pin (an_pinmux_force_gpio pin R) q = (if q = unat pin then (view_pin R q)\<lparr>forced := True\<rparr> else view_pin R q)"
    using lt r(1) reg_inj(1)[OF _ assms(2,1)] by (simp add: an_pinmux_force_gpio_def view_pin_def u1 steps_bits D ENBALE_FORCE_GPIO_MODE_def bit_0 not_le[symmetric]) blast
  show "view_pin (an_gpio_set_data pin v R) q = (if q = unat pin then (view_pin R q)\<lparr>level := bit v 0\<rparr> else view_pin R q)"
    using r(2) reg_inj(2)[OF _ assms(2,1)] by (simp add: an_gpio_set_data_def view_pin_def u1 steps_bits D) blast
  show "view_pin (an_gpio_set_oe pin v R) q = (if q = unat pin then (view_pin R q)\<lparr>out_enabled := bit v 0\<rparr> else view_pin R q)"
    using r(3) reg_inj(3)[OF _ assms(2,1)] by (simp add: an_gpio_set_oe_def view_pin_def u1 steps_bits D) blast
  show "view_pin (an_gpio_set_ctrl pin v R) q = (if q = unat pin then (view_pin R q)\<lparr>ctrl_hi := bit v 1, ctrl_lo := bit v 0\<rparr> else view_pin R q)"
    using r(4) reg_inj(4)[OF _ assms(2,1)] by (simp add: an_gpio_set_ctrl_def view_pin_def u2 steps_bits D) blast
qed

lemma update_field_other: "a \<noteq> cr \<Longrightarrow> update_field bits cr i v R a = R a"
  by (simp add: update_field_def Let_def)

lemma step_registers:
  assumes "unat pin < 36" "a \<notin> pin_registers"
  shows "an_pinmux_force_gpio pin R a = R a" "an_gpio_set_data pin v R a = R a" "an_gpio_set_oe pin v R a = R a" "an_gpio_set_ctrl pin v R a = R a"
proof -
  have "a \<noteq> force_reg (unat pin)" "a \<noteq> data_reg (unat pin)" "a \<noteq> oe_reg (unat pin)" "a \<noteq> ctrl_reg (unat pin)"
    using assms(2) by (auto simp: pin_registers_def force_reg_def data_reg_def oe_reg_def ctrl_reg_def)
  then show "an_pinmux_force_gpio pin R a = R a" "an_gpio_set_data pin v R a = R a" "an_gpio_set_oe pin v R a = R a" "an_gpio_set_ctrl pin v R a = R a"
    by (simp_all add: an_pinmux_force_gpio_def an_gpio_set_data_def an_gpio_set_oe_def an_gpio_set_ctrl_def pin_cr[OF assms(1)] update_field_other)
qed

lemma set_value_pins:
  "pins (an_gpio_set_value pin v R) = (if unat pin < 36 then (pins R)(unat pin \<mapsto> driven (odd v)) else pins R)"
proof (cases "unat pin < 36")
  case True
  then have lt: "pin < MAX_GPIO_PIN" by (simp add: MAX_GPIO_PIN_def word_less_nat_alt)
  have "view_pin (an_gpio_set_value pin v R) q = (if q = unat pin then driven (odd v) else view_pin R q)" if "q < 36" for q
    using lt that True
    by (simp add: step_pins[OF True] an_gpio_set_value_def an_gpio_set_dir_def driven_def CTRL_OUTPUT_def OE_ENABLE_def bit_0 bit_simps)
  then show ?thesis using True by (auto simp: pins_def fun_eq_iff)
next
  case False
  then show ?thesis by (simp add: an_gpio_set_value_def MAX_GPIO_PIN_def word_less_nat_alt)
qed

lemma set_value_registers: "a \<notin> pin_registers \<Longrightarrow> an_gpio_set_value pin v R a = R a"
  using step_registers[of pin a]
  by (simp add: an_gpio_set_value_def an_gpio_set_dir_def MAX_GPIO_PIN_def word_less_nat_alt)

text \<open>The effect of a list of pins: those that exist are driven.\<close>

definition drive :: "nat list \<Rightarrow> bool \<Rightarrow> (nat \<rightharpoonup> pin_view) \<Rightarrow> nat \<rightharpoonup> pin_view" where
  "drive ps b P = (\<lambda>q. if q \<in> set ps \<and> q < 36 then Some (driven b) else P q)"

lemma fold_set_value:
  shows "pins (fold (\<lambda>pin. an_gpio_set_value pin v) ws R) = drive (map unat ws) (odd v) (pins R)"
    and "a \<notin> pin_registers \<Longrightarrow> fold (\<lambda>pin. an_gpio_set_value pin v) ws R a = R a"
  by (induction ws arbitrary: R) (auto simp: set_value_pins set_value_registers drive_def fun_eq_iff)

section \<open>Parsing the list\<close>

text \<open>A list of decimal numbers, separated by commas.\<close>

fun dec_bytes :: "nat \<Rightarrow> bytes" where
  "dec_bytes n = (if n < 10 then [0x30 + of_nat n] else dec_bytes (n div 10) @ [0x30 + of_nat (n mod 10)])"

declare dec_bytes.simps [simp del]

definition numbers :: "nat list \<Rightarrow> bytes" where
  "numbers ns = concat (map (\<lambda>n. dec_bytes n @ [0x2C]) ns)"

definition list_bytes :: "nat list \<Rightarrow> bytes" where
  "list_bytes ns = numbers (butlast ns) @ dec_bytes (last ns)"

lemma digit_byte: "n < 10 \<Longrightarrow> isDigit (0x30 + of_nat n) \<and> ucast ((0x30 + of_nat n :: u8) - 0x30) = (of_nat n :: u32)"
proof -
  assume "n < 10"
  then have "n \<in> {0, 1, 2, 3, 4, 5, 6, 7, 8, 9}" by auto
  then show ?thesis by (auto simp: isDigit_def)
qed

lemma digits_dec_bytes: "dec_bytes n \<noteq> [] \<and> list_all isDigit (dec_bytes n)"
proof (induction n rule: dec_bytes.induct)
  case (1 n)
  then show ?case using digit_byte[of n] digit_byte[of "n mod 10"] by (subst (1 2) dec_bytes.simps) auto
qed

lemma atoi_digits_append:
  "list_all isDigit xs \<Longrightarrow> atoi_digits r (xs @ c # ys) = atoi_digits (foldl (\<lambda>r c. r * 10 + ucast (c - 0x30)) r xs) (c # ys)"
  by (induction xs arbitrary: r) auto

lemma foldl_dec_bytes: "foldl (\<lambda>r c. r * 10 + ucast (c - 0x30)) 0 (dec_bytes n) = (of_nat n :: u32)"
proof (induction n rule: dec_bytes.induct)
  case (1 n)
  show ?case
  proof (cases "n < 10")
    case True
    then show ?thesis using digit_byte[of n] by (simp add: dec_bytes.simps)
  next
    case False
    have "of_nat (n div 10) * 10 + of_nat (n mod 10) = (of_nat n :: u32)"
      by (metis div_mult_mod_eq of_nat_add of_nat_mult of_nat_numeral)
    then show ?thesis using False 1 digit_byte[of "n mod 10"] by (simp add: dec_bytes.simps[of n])
  qed
qed

lemma atoi_dec_bytes: "atoi (dec_bytes n @ [0]) = Inr (of_nat n)"
proof -
  obtain c cs where c: "dec_bytes n = c # cs" using digits_dec_bytes[of n] by (cases "dec_bytes n") auto
  then have "isDigit c" using digits_dec_bytes[of n] by simp
  then have "c \<noteq> 0x20" "c \<noteq> 0x2D" "c \<noteq> 0x2B" by (auto simp: isDigit_def)
  then have "atoi (dec_bytes n @ [0]) = atoi_digits 0 (dec_bytes n @ [0])" using c by simp
  also have "\<dots> = Inr (of_nat n)" using digits_dec_bytes[of n] by (simp add: atoi_digits_append foldl_dec_bytes isDigit_def)
  finally show ?thesis .
qed

lemma length_dec_bytes: "n < 1000 \<Longrightarrow> length (dec_bytes n) < 4"
  by (simp add: dec_bytes.simps[of n] dec_bytes.simps[of "n div 10"] dec_bytes.simps[of "n div 10 div 10"])

lemma parse_pins_step:
  assumes "list_all isDigit ds" "ds \<noteq> []" "\<not> isDigit c"
  shows "parse_pins (ds @ c # rest) count pin =
    (if c \<noteq> 0x2C \<and> c \<noteq> 0 then Inr (if count > 0 then 1 else 0, pin)
     else if length ds > 4 then parse_pins rest count pin
     else if length ds = 4 \<or> count \<ge> length pin then Inl OutOfBounds
     else case atoi (ds @ [0]) of Inl e \<Rightarrow> Inl e | Inr v \<Rightarrow> parse_pins rest (count + 1) (pin[count := v]))"
proof -
  obtain d ds' where ds: "ds = d # ds'" using assms(2) by (cases ds) auto
  have d0: "d \<noteq> 0" using assms(1) by (auto simp: ds isDigit_def)
  have lhs: "ds @ c # rest = d # ds' @ c # rest" by (simp add: ds)
  have t: "takeWhile isDigit (d # ds' @ c # rest) = ds" "dropWhile isDigit (d # ds' @ c # rest) = c # rest"
    using assms(1,3) unfolding lhs[symmetric] by (simp_all add: list_all_iff takeWhile_append dropWhile_append)
  show ?thesis unfolding lhs parse_pins.simps(2) Let_def t if_not_P[OF d0] MAX_PIN_BIT_def list.sel by simp
qed

lemma parse_one:
  assumes "n < 1000" "c = 0x2C \<or> c = 0" "count < length pin"
  shows "parse_pins (dec_bytes n @ c # rest) count pin = parse_pins rest (count + 1) (pin[count := of_nat n])"
proof -
  have "\<not> isDigit c" using assms(2) by (auto simp: isDigit_def)
  then show ?thesis using parse_pins_step[of "dec_bytes n" c rest count pin] digits_dec_bytes[of n] length_dec_bytes[OF assms(1)] assms(2,3)
    by (auto simp: atoi_dec_bytes)
qed

lemma parse_numbers:
  assumes "\<forall>n \<in> set ns. n < 1000" "count + length ns \<le> length pin"
  shows "parse_pins (numbers ns @ rest) count pin = parse_pins rest (count + length ns) (take count pin @ map of_nat ns @ drop (count + length ns) pin)"
  using assms
proof (induction ns arbitrary: count pin)
  case (Cons n ns)
  have "parse_pins (numbers (n # ns) @ rest) count pin = parse_pins (numbers ns @ rest) (count + 1) (pin[count := of_nat n])"
    using parse_one[of n "0x2C" count pin "numbers ns @ rest"] Cons.prems by (simp add: numbers_def)
  also have "\<dots> = parse_pins rest (count + 1 + length ns) (take (count + 1) (pin[count := of_nat n]) @ map of_nat ns @ drop (count + 1 + length ns) (pin[count := of_nat n]))"
    using Cons.prems by (intro Cons.IH) simp_all
  also have "take (count + 1) (pin[count := of_nat n]) = take count pin @ [of_nat n]"
    using Cons.prems by (simp add: take_Suc_conv_app_nth)
  finally show ?case by (simp add: drop_update_cancel)
qed (simp add: numbers_def)

lemma parse_list:
  assumes "\<forall>n \<in> set ns. n < 1000" "ns \<noteq> []" "length ns \<le> length pin"
  shows "an_parse_config (list_bytes ns @ 0 # 0 # rest) pin = Inr (length ns, map of_nat ns @ drop (length ns) pin)"
proof -
  obtain ms m where ns: "ns = ms @ [m]" using assms(2) by (cases ns rule: rev_cases) auto
  have "an_parse_config (list_bytes ns @ 0 # 0 # rest) pin
      = parse_pins (dec_bytes m @ 0 # 0 # rest) (length ms) (map of_nat ms @ drop (length ms) pin)"
    using parse_numbers[of ms 0 pin "dec_bytes m @ 0 # 0 # rest"] assms by (simp add: an_parse_config_def list_bytes_def ns)
  also have "\<dots> = parse_pins (0 # rest) (length ms + 1) ((map of_nat ms @ drop (length ms) pin)[length ms := of_nat m])"
    using assms by (intro parse_one) (auto simp: ns)
  also have "(map of_nat ms @ drop (length ms) pin)[length ms := of_nat m] = map of_nat ns @ drop (length ns) pin"
    using assms(3) by (simp add: ns list_update_append Cons_nth_drop_Suc[symmetric])
  finally show ?thesis by (simp add: parse_pins.simps(2) ns)
qed

lemma set_list:
  assumes "\<forall>n \<in> set ns. n < 1000" "ns \<noteq> []" "length ns \<le> 36"
  shows "\<exists>R'. an_gpio_set (list_bytes ns @ 0 # 0 # rest) mode R = Inr R' \<and> pins R' = drive ns (odd mode) (pins R) \<and> (\<forall>a. a \<notin> pin_registers \<longrightarrow> R' a = R a)"
proof -
  have "map unat (map of_nat ns :: u32 list) = ns" using assms(1) by (auto intro!: map_idI)
  then show ?thesis using parse_list[OF assms(1,2), of "replicate 36 0" rest] assms(3)
    by (simp add: an_gpio_set_def MAX_GPIO_PIN_def fold_set_value)
qed

section \<open>Finding the variables\<close>

lemma bl2_flash_read_ok:
  assumes "hal_ok E h" "unat a + unat n \<le> hal_cap E h" "unat n \<le> length buf"
  shows "\<exists>h'. bl2_flash_read E a n buf h = (True, memcpy buf 0 (map (hal_byte E h) [unat a..<unat a + unat n]), h')
     \<and> hal_ok E h' \<and> hal_byte E h' = hal_byte E h \<and> hal_cap E h' = hal_cap E h"
  using flash_read_nand[OF assms] assms(1)
  by (auto simp: bl2_flash_read_def flash_read_def hal_ok_def nand_env_def split: prod.splits)

lemma transfer_config_text:
  assumes "\<forall>v \<in> set vs. plain_var v" "plain_var u"
  shows "transfer_config (env_text 0 vs @ u @ replicate (Suc k) 0) (length (env_text 0 vs @ u) + Suc k) = env_text 0x3B vs @ u @ replicate (Suc k) 0"
proof -
  have u: "u \<noteq> []" using assms(2) by (simp add: plain_var_def)
  have nz: "length (env_text 0 vs @ u) + Suc k \<noteq> 0" by simp
  note lu = last_used_text[OF assms(2), of _ k "[]", unfolded append_Nil2]
  show ?thesis unfolding transfer_config_def if_not_P[OF nz] Let_def lu take_drop_text[OF u, THEN conjunct1]
      take_drop_text[OF u, THEN conjunct2] map_sep_text[OF assms] by simp
qed

definition var_of :: "string \<Rightarrow> bytes list \<Rightarrow> bytes option" where
  "var_of sig vs = map_option (drop (length (c_bytes sig) + 1)) (find (\<lambda>v. take (length (c_bytes sig) + 1) v = c_bytes sig @ [0x3D]) vs)"

text \<open>The old environment in the first window: variables, the last of which is u, and zeros behind it.\<close>

definition first_window_text :: "'m hal_env \<Rightarrow> bytes list \<Rightarrow> bytes \<Rightarrow> 'm hal_state \<Rightarrow> bool" where
  "first_window_text E vs u h \<longleftrightarrow> hal_ok E h \<and> 0x80000 \<le> hal_cap E h \<and> (\<forall>v \<in> set vs. plain_var v) \<and> plain_var u
     \<and> (\<exists>k. map (hal_byte E h) [0x7C004..<0x7CA04] = env_text 0 vs @ u @ replicate (Suc k) 0)"

lemma find_config_window:
  assumes "first_window_text E vs u h" "length fip = 0xA00" "sig \<noteq> []"
  shows "\<exists>h1. first_window_text E vs u h1
     \<and> (var_of sig vs = None \<longrightarrow> find_config_loop 8 E (c_bytes sig) MTK_FIP_BASE MTK_FIP_READ_LEN fip h = Inl OutOfBounds)
     \<and> (\<forall>v. var_of sig vs = Some v \<and> v \<noteq> [] \<longrightarrow> find_config_loop 8 E (c_bytes sig) MTK_FIP_BASE MTK_FIP_READ_LEN fip h = Inr (Some v, h1))"
proof -
  obtain k where w: "map (hal_byte E h) [0x7C004..<0x7CA04] = env_text 0 vs @ u @ replicate (Suc k) 0" and ok: "hal_ok E h" "0x80000 \<le> hal_cap E h"
    and pl: "\<forall>v \<in> set vs. plain_var v" "plain_var u" using assms(1) unfolding first_window_text_def by blast
  let ?w = "env_text 0 vs @ u @ replicate (Suc k) 0" and ?n = "c_bytes sig"
  have c: "MTK_FIP_BASE \<le> MTK_FIP_END" "\<not> MTK_FIP_BASE + MTK_FIP_READ_LEN > MTK_FIP_END" "unat MTK_FIP_BASE = 0x7C004" "unat MTK_FIP_READ_LEN = 0xA00"
    by (simp_all add: MTK_FIP_BASE_def MTK_FIP_END_def MTK_FIP_READ_LEN_def)
  have "length (map (hal_byte E h) [0x7C004..<0x7CA04]) = 0xA00" by (simp only: length_map length_upt)
  then have lw: "length ?w = 0xA00" unfolding w .
  have rr: "unat MTK_FIP_BASE + unat MTK_FIP_READ_LEN \<le> hal_cap E h" "unat MTK_FIP_READ_LEN \<le> length fip" using ok(2) c(3,4) assms(2) by simp_all
  have sum: "(0x7C004 :: nat) + 0xA00 = 0x7CA04" by simp
  obtain h1 where r: "bl2_flash_read E MTK_FIP_BASE MTK_FIP_READ_LEN fip h = (True, memcpy fip 0 ?w, h1)"
    and h1: "hal_ok E h1" "hal_byte E h1 = hal_byte E h" "hal_cap E h1 = hal_cap E h"
    using bl2_flash_read_ok[OF ok(1) rr] unfolding c(3,4) sum w by blast
  have m: "memcpy fip 0 ?w = ?w" using lw assms(2) by (simp only: memcpy_0_full)
  have "length (env_text 0 vs @ u) + Suc k = 0xA00" using lw by simp
  then have t: "transfer_config ?w 0xA00 = env_text 0x3B vs @ u @ replicate (Suc k) 0" using transfer_config_text[OF pl, of k] by simp
  have u1: "plain_var (u @ [1])" using pl(2) by (auto simp: plain_var_def)
  have "env_linear ?n (env_text 0x3B vs @ butlast (u @ [1]) @ replicate (Suc k) 0) = (case find (\<lambda>v. take (length ?n + 1) v = ?n @ [0x3D]) vs of
        Some v \<Rightarrow> Inr (if drop (length ?n + 1) v = [] then None else Some (drop (length ?n + 1) v))
      | None \<Rightarrow> if butlast (u @ [1]) = [] then Inr None else Inl OutOfBounds)"
    by (rule env_linear_text[OF pl(1) u1]) simp_all
  then have g: "env_get_from_linear (transfer_config ?w 0xA00) ?n = (case var_of sig vs of
        Some v \<Rightarrow> Inr (if v = [] then None else Some v) | None \<Rightarrow> Inl OutOfBounds)"
    using pl(2) assms(3) unfolding t by (simp add: env_get_from_linear_def var_of_def plain_var_def c_bytes_def del: replicate_Suc split: option.split)
  have fuel: "(8 :: nat) = Suc 7" by simp
  have run: "find_config_loop 8 E ?n MTK_FIP_BASE MTK_FIP_READ_LEN fip h = res_bind (env_get_from_linear (transfer_config ?w 0xA00) ?n) (\<lambda>found. case found of
         Some v \<Rightarrow> Inr (Some v, h1) | None \<Rightarrow> find_config_loop 7 E ?n (MTK_FIP_BASE + MTK_FIP_READ_LEN) MTK_FIP_READ_LEN (transfer_config ?w 0xA00) h1)"
    unfolding fuel find_config_loop.simps(2) if_P[OF c(1)] if_not_P[OF c(2)] Let_def r prod.case m c(4) by (simp del: replicate_Suc)
  have "first_window_text E vs u h1" using assms(1) h1 unfolding first_window_text_def by (simp del: upt_rec_numeral)
  then show ?thesis unfolding run g by (intro exI[of _ h1]) simp
qed

lemma length_list_bytes:
  assumes "\<forall>n \<in> set ns. n < 1000" "length ns \<le> 36" "ns \<noteq> []"
  shows "length (list_bytes ns) \<le> 143"
proof -
  obtain ms m where ns: "ns = ms @ [m]" using assms(3) by (cases ns rule: rev_cases) auto
  have "\<forall>n \<in> set ms. n < 1000" using assms(1) ns by simp
  then have "length (numbers ms) \<le> 4 * length ms"
    by (induction ms) (use length_dec_bytes in \<open>fastforce simp: numbers_def\<close>)+
  moreover have "length (dec_bytes m) < 4" using assms(1) ns by (intro length_dec_bytes) simp
  ultimately show ?thesis using assms(2) by (simp add: list_bytes_def ns)
qed

lemma set_from_config_list:
  assumes "first_window_text E vs u h" "length fip = 0xA00" "sig \<noteq> []" "var_of sig vs = Some (list_bytes ns)"
    and ns: "\<forall>n \<in> set ns. n < 1000" "ns \<noteq> []" "length ns \<le> 36"
  shows "\<exists>h' R'. set_from_config E fip sig mode (h, R) = Inr (h', R') \<and> first_window_text E vs u h'
     \<and> pins R' = drive ns (odd mode) (pins R) \<and> (\<forall>a. a \<notin> pin_registers \<longrightarrow> R' a = R a)"
proof -
  let ?b = "list_bytes ns"
  have "dec_bytes (last ns) \<noteq> []" using digits_dec_bytes by simp
  then have ne: "?b \<noteq> []" by (simp add: list_bytes_def)
  obtain h1 where h1: "first_window_text E vs u h1"
    "find_config_loop 8 E (c_bytes sig) MTK_FIP_BASE MTK_FIP_READ_LEN fip h = Inr (Some ?b, h1)"
    using find_config_window[OF assms(1-3)] assms(4) ne by blast
  have l: "length ?b \<le> 143" by (rule length_list_bytes[OF ns(1,3,2)])
  define z where "z = 158 - length ?b"
  have z: "160 - length ?b = Suc (Suc z)" using l by (simp add: z_def)
  then have m: "memcpy (replicate 160 0) 0 ?b = ?b @ 0 # 0 # replicate z 0" by (simp add: memcpy_def)
  have "an_gpio_find_config E fip (replicate MTK_GPIO_CONFIG_MAXSIZE 0) (c_bytes sig) h = Inr (Some (?b @ 0 # 0 # replicate z 0), h1)"
    using h1(2) l by (simp add: an_gpio_find_config_def MTK_GPIO_CONFIG_MAXSIZE_def m)
  then show ?thesis using set_list[OF ns, of "replicate z 0" mode R] h1(1) by (auto simp: set_from_config_def)
qed

lemma set_from_config_missing:
  assumes "first_window_text E vs u h" "length fip = 0xA00" "sig \<noteq> []" "var_of sig vs = None"
  shows "set_from_config E fip sig mode (h, R) = Inl OutOfBounds"
  using find_config_window[OF assms(1-3)] assms(4) by (auto simp: set_from_config_def an_gpio_find_config_def)

section \<open>The theorems\<close>

text \<open>
  C9 The registers refine the table of pins: an\_gpio\_set\_value makes exactly the given pin a GPIO output that is driven to the lowest bit of the
  value, if the pin exists. The other 35 pins, which share the words of the registers, keep function, direction and level, a pin from 36 on changes nothing,
  and no other register is written.
\<close>

theorem set_value_refines_pin_table:
  "pins (an_gpio_set_value pin v R) = (if unat pin < 36 then (pins R)(unat pin \<mapsto> driven (odd v)) else pins R)
     \<and> {a. an_gpio_set_value pin v R a \<noteq> R a} \<subseteq> pin_registers"
  using set_value_pins set_value_registers by blast

text \<open>
  C5 init\_gpio drives exactly the configured pins. When the old environment fits into the first window and both variables, neither of them the last
  one, list at most 36 numbers of up to three digits, the first stage reads them from the NAND flash and afterwards every pin in MTK\_GPIO\_HIGH is an output at high level,
  every other pin in MTK\_GPIO\_LOW one at low level, and all other pins and registers are as before; numbers of pins that do not exist are ignored.
\<close>

theorem init_gpio_drives_configured_pins:
  assumes "first_window_text E vs u h" and "length fip1 = 0xA00" and "length fip2 = 0xA00"
    and "var_of MKT_GPIO_LOW_SIG vs = Some (list_bytes lows)" and "\<forall>n \<in> set lows. n < 1000" and "lows \<noteq> []" and "length lows \<le> 36"
    and "var_of MKT_GPIO_HIGH_SIG vs = Some (list_bytes highs)" and "\<forall>n \<in> set highs. n < 1000" and "highs \<noteq> []" and "length highs \<le> 36"
  shows "\<exists>h' R'. init_gpio E fip1 fip2 (h, R) = Inr (h', R') \<and> {a. R' a \<noteq> R a} \<subseteq> pin_registers
     \<and> (\<forall>p < 36. pins R' p = (if p \<in> set highs then Some (driven True) else if p \<in> set lows then Some (driven False) else pins R p))"
proof -
  have s: "MKT_GPIO_LOW_SIG \<noteq> []" "MKT_GPIO_HIGH_SIG \<noteq> []" by (simp_all add: MKT_GPIO_LOW_SIG_def MKT_GPIO_HIGH_SIG_def)
  obtain h1 R1 where 1: "set_from_config E fip1 MKT_GPIO_LOW_SIG LOW (h, R) = Inr (h1, R1)" "first_window_text E vs u h1"
    "pins R1 = drive lows False (pins R)" "\<And>a. a \<notin> pin_registers \<Longrightarrow> R1 a = R a"
    using set_from_config_list[OF assms(1,2) s(1) assms(4-7), of LOW R] by (auto simp: LOW_def)
  obtain h2 R2 where 2: "set_from_config E fip2 MKT_GPIO_HIGH_SIG HIGH (h1, R1) = Inr (h2, R2)"
    "pins R2 = drive highs True (pins R1)" "\<And>a. a \<notin> pin_registers \<Longrightarrow> R2 a = R1 a"
    using set_from_config_list[OF 1(2) assms(3) s(2) assms(8-11), of HIGH R1] by (auto simp: HIGH_def)
  have "init_gpio E fip1 fip2 (h, R) = Inr (h2, R2)" using 1(1) 2(1) by (simp add: init_gpio_def)
  then show ?thesis using 1(3,4) 2(2,3) by (intro exI[of _ h2] exI[of _ R2]) (auto simp: drive_def)
qed

text \<open>
  Without both variables the first stage reads beyond its array. When the old environment fits into the first window and one of the two variables is missing
  or is the last one, so that it is not among the others, init\_gpio does not come to an end within its arrays: the search for a semicolon runs from the last
  variable through the zeros over the end of the array on the stack.
\<close>

lemma init_gpio_overruns_without_variable:
  assumes "first_window_text E vs u h" and "length fip1 = 0xA00" and "length fip2 = 0xA00"
    and "var_of MKT_GPIO_LOW_SIG vs = None
       \<or> (\<exists>lows. var_of MKT_GPIO_LOW_SIG vs = Some (list_bytes lows) \<and> (\<forall>n \<in> set lows. n < 1000) \<and> lows \<noteq> [] \<and> length lows \<le> 36) \<and> var_of MKT_GPIO_HIGH_SIG vs = None"
  shows "init_gpio E fip1 fip2 (h, R) = Inl OutOfBounds"
proof -
  have s: "MKT_GPIO_LOW_SIG \<noteq> []" "MKT_GPIO_HIGH_SIG \<noteq> []" by (simp_all add: MKT_GPIO_LOW_SIG_def MKT_GPIO_HIGH_SIG_def)
  from assms(4) show ?thesis
  proof (elim disjE exE conjE)
    assume "var_of MKT_GPIO_LOW_SIG vs = None"
    then show ?thesis using set_from_config_missing[OF assms(1,2) s(1)] by (simp add: init_gpio_def)
  next
    fix lows assume n: "var_of MKT_GPIO_HIGH_SIG vs = None" and l: "var_of MKT_GPIO_LOW_SIG vs = Some (list_bytes lows)" "\<forall>n \<in> set lows. n < 1000" "lows \<noteq> []" "length lows \<le> 36"
    obtain h1 R1 where "set_from_config E fip1 MKT_GPIO_LOW_SIG LOW (h, R) = Inr (h1, R1)" "first_window_text E vs u h1"
      using set_from_config_list[OF assms(1,2) s(1) l, of LOW R] by auto
    then show ?thesis using set_from_config_missing[OF _ assms(3) s(2) n] by (simp add: init_gpio_def)
  qed
qed

section \<open>Applications\<close>

text \<open>A chip whose old environment is MTK\_GPIO\_LOW=3,17, MTK\_GPIO\_HIGH=35 and x=1, and one that has only x=1.\<close>

definition low_var :: bytes where "low_var = c_bytes MKT_GPIO_LOW_SIG @ 0x3D # list_bytes [3, 17]"
definition high_var :: bytes where "high_var = c_bytes MKT_GPIO_HIGH_SIG @ 0x3D # list_bytes [35]"

definition pin_content :: "bytes list \<Rightarrow> nat \<Rightarrow> u8" where
  "pin_content vs x = (if 0x7C004 \<le> x \<and> x < 0x80000 then (env_text 0 vs @ [0x78, 0x3D, 0x31] @ replicate 0x3FFC 0) ! (x - 0x7C004) else 0xFF)"

lemma pin_window:
  assumes "\<forall>v \<in> set vs. plain_var v" "length (env_text 0 vs) < 1000"
  shows "first_window_text chip_env vs [0x78, 0x3D, 0x31] (chip_hal (pin_content vs))"
proof -
  let ?t = "env_text 0 vs @ [0x78, 0x3D, 0x31]"
  define k where "k = 0xA00 - length ?t - 1"
  have k: "length ?t + Suc k = 0xA00" using assms(2) by (simp add: k_def)
  have "map (hal_byte chip_env (chip_hal (pin_content vs))) [0x7C004..<0x7CA04] = take 0xA00 (?t @ replicate 0x3FFC 0)"
    by (intro nth_equalityI) (simp_all add: chip_byte pin_content_def del: upt_rec_numeral take_append)
  also have "\<dots> = ?t @ take (Suc k) (replicate 0x3FFC 0)" using take_append[of "length ?t + Suc k" ?t "replicate 0x3FFC 0"]
    unfolding k[symmetric] add_diff_cancel_left' by (simp only: take_all le_add1)
  also have "\<dots> = ?t @ replicate (Suc k) 0" using k by (simp add: min_def del: replicate_Suc)
  finally show ?thesis using assms(1) chip_hal_ok[of "pin_content vs"] unfolding first_window_text_def
    by (auto simp: plain_var_def simp del: upt_rec_numeral)
qed

lemma list_bytes_demo: "list_bytes [3, 17] = [0x33, 0x2C, 0x31, 0x37]" "list_bytes [35] = [0x33, 0x35]"
  by (simp_all add: list_bytes_def numbers_def dec_bytes.simps)

lemmas demo_vars = low_var_def high_var_def list_bytes_demo c_bytes_def MKT_GPIO_LOW_SIG_def MKT_GPIO_HIGH_SIG_def

lemma demo_window:
  "first_window_text chip_env [low_var, high_var] [0x78, 0x3D, 0x31] (chip_hal (pin_content [low_var, high_var]))"
  "var_of MKT_GPIO_LOW_SIG [low_var, high_var] = Some (list_bytes [3, 17])" "var_of MKT_GPIO_HIGH_SIG [low_var, high_var] = Some (list_bytes [35])"
proof -
  show "first_window_text chip_env [low_var, high_var] [0x78, 0x3D, 0x31] (chip_hal (pin_content [low_var, high_var]))"
    by (rule pin_window) (simp_all add: plain_var_def env_text_def demo_vars)
qed (simp_all add: var_of_def demo_vars)

theorem init_gpio_drives_configured_pins_witness:
  "\<exists>h' R'. init_gpio chip_env (replicate 0xA00 0) (replicate 0xA00 0) (chip_hal (pin_content [low_var, high_var]), \<lambda>_. 0) = Inr (h', R')
     \<and> pins R' 17 = Some (driven False) \<and> pins R' 35 = Some (driven True) \<and> pins R' 0 = pins (\<lambda>_. 0) 0"
  using init_gpio_drives_configured_pins[OF demo_window(1) _ _ demo_window(2) _ _ _ demo_window(3), of "replicate 0xA00 0" "replicate 0xA00 0" "\<lambda>_. 0"]
  by fastforce

lemma init_gpio_overruns_without_variable_witness:
  "init_gpio chip_env (replicate 0xA00 0) (replicate 0xA00 0) (chip_hal (pin_content []), \<lambda>_. 0) = Inl OutOfBounds"
proof -
  have "first_window_text chip_env [] [0x78, 0x3D, 0x31] (chip_hal (pin_content []))" by (rule pin_window) (simp_all add: env_text_def)
  then show ?thesis by (rule init_gpio_overruns_without_variable) (simp_all add: var_of_def)
qed

end
