(* ===== verification/Plat_Pm.thy ===== *)
theory Plat_Pm
  imports Gpio_Pins
begin

text \<open>
  Turning cores on and off and restarting the system in the trusted firmware (plat/ecnt/en7523/plat\_pm.c, plat\_topology.c, and the call
  from lib/psci/psci\_main.c), with automatic power off.

  The power controller is a parameter hw: what it does to the registers in the microsecond that a poll waits. What is expected of it is
  power\_controller below. Registers of the processor are fields of the state; the functions of the interrupt controller are recorded in
  the order of their calls. A shift by a count outside the width of an int is the fault OutOfBounds.
\<close>

section \<open>State\<close>

datatype gic_call = plat_arm_gic_cpuif_disable | plat_arm_gic_redistif_off | plat_arm_gic_pcpu_init | plat_arm_gic_cpuif_enable

datatype aff_info_state = AFF_STATE_ON | AFF_STATE_OFF | AFF_STATE_ON_PENDING

record pm_state =
  mmio :: regs
  check_flag :: "u32 list"
  ecnt_sec_entrypoint :: u64
  cpuectlr :: "nat \<Rightarrow> u64"
  gic_calls :: "gic_call list"

definition SPM_BASE :: u32 where "SPM_BASE = 0x1EFBC000"
definition MCUCFG_BASE :: u32 where "MCUCFG_BASE = 0x1EFBE000"
definition POLLING_TIMES :: nat where "POLLING_TIMES = 10000"
definition PLATFORM_CORE_COUNT :: "bool \<Rightarrow> nat" where "PLATFORM_CORE_COUNT en7581 = (if en7581 then 4 else 2)"
definition PSCI_E_SUCCESS :: int where "PSCI_E_SUCCESS = 0"
definition PSCI_E_INVALID_PARAMS :: int where "PSCI_E_INVALID_PARAMS = -2"
definition PSCI_CPU_PWR_LVL :: u32 where "PSCI_CPU_PWR_LVL = 0"
definition MPIDR_CPU_MASK :: u64 where "MPIDR_CPU_MASK = 0xFF"
definition MPIDR_CLUSTER_MASK :: u64 where "MPIDR_CLUSTER_MASK = 0xFF00"
definition MPIDR_AFFINITY_MASK :: u64 where "MPIDR_AFFINITY_MASK = 0xFF00FFFFFF"

fun aff_code :: "aff_info_state \<Rightarrow> int" where
  "aff_code AFF_STATE_ON = 0"
| "aff_code AFF_STATE_OFF = 1"
| "aff_code AFF_STATE_ON_PENDING = 2"

definition mmio_clrbits_32 :: "u32 \<Rightarrow> u32 \<Rightarrow> regs \<Rightarrow> regs" where
  "mmio_clrbits_32 a clear R = R(a := R a AND NOT clear)"

definition mmio_setbits_32 :: "u32 \<Rightarrow> u32 \<Rightarrow> regs \<Rightarrow> regs" where
  "mmio_setbits_32 a sets R = R(a := R a OR sets)"

text \<open>1 << (t - n) for an unsigned long n; the difference wraps around when n is greater than t.\<close>

definition shl1 :: "nat \<Rightarrow> nat \<Rightarrow> fault + u32" where
  "shl1 t n = (if n \<le> t \<and> t - n < 32 then Inr (push_bit (t - n) 1) else Inl OutOfBounds)"

section \<open>Cores\<close>

fun wait_loop :: "(regs \<Rightarrow> regs) \<Rightarrow> u32 \<Rightarrow> u32 \<Rightarrow> bool \<Rightarrow> nat \<Rightarrow> regs \<Rightarrow> regs" where
  "wait_loop hw a v st 0 R = R"
| "wait_loop hw a v st (Suc n) R =
    (if st \<and> R a AND v \<noteq> 0 then R else if \<not> st \<and> R a AND v = 0 then R else wait_loop hw a v st n (hw R))"

definition plat_power_domain_wait_reg :: "(regs \<Rightarrow> regs) \<Rightarrow> u32 \<Rightarrow> u32 \<Rightarrow> bool \<Rightarrow> regs \<Rightarrow> regs" where
  "plat_power_domain_wait_reg hw a v st R = wait_loop hw a v st POLLING_TIMES R"

definition plat_power_domain_on :: "(regs \<Rightarrow> regs) \<Rightarrow> u64 \<Rightarrow> pm_state \<Rightarrow> fault + int \<times> pm_state" where
  "plat_power_domain_on hw mpidr s =
    (let cpu_id = unat (mpidr AND MPIDR_CPU_MASK);
         rv = MCUCFG_BASE + 0x38 + of_nat cpu_id * 8;
         R1 = (mmio s)(rv := ucast (ecnt_sec_entrypoint s))
     in res_bind (shl1 13 cpu_id) (\<lambda>rst.
        let R2 = mmio_clrbits_32 (SPM_BASE + 0x1C) rst R1
        in res_bind (shl1 25 (cpu_id * 2)) (\<lambda>on.
           let R3 = mmio_setbits_32 (SPM_BASE + 0x1C) on R2
           in res_bind (shl1 24 (cpu_id * 2)) (\<lambda>ack.
              Inr (PSCI_E_SUCCESS, s\<lparr>mmio := plat_power_domain_wait_reg hw (SPM_BASE + 0x1C) ack True R3\<rparr>)))))"

definition plat_power_domain_off_check :: "(regs \<Rightarrow> regs) \<Rightarrow> nat \<Rightarrow> pm_state \<Rightarrow> fault + pm_state" where
  "plat_power_domain_off_check hw cpu_id s =
    (if cpu_id \<ge> length (check_flag s) then Inl OutOfBounds
     else if check_flag s ! cpu_id = 1
     then res_bind (shl1 24 (cpu_id * 2)) (\<lambda>ack.
            Inr (s\<lparr>mmio := plat_power_domain_wait_reg hw (SPM_BASE + 0x1C) ack False (mmio s),
                   check_flag := (check_flag s)[cpu_id := 0]\<rparr>))
     else Inr s)"

text \<open>The core that runs is given by its mpidr. The result is the state in which it waits for its power to go.\<close>

definition plat_power_domain_down_wfi :: "u64 \<Rightarrow> pm_state \<Rightarrow> fault + pm_state" where
  "plat_power_domain_down_wfi mpidr s =
    (let cpu_id = unat (mpidr AND MPIDR_CPU_MASK)
     in res_bind (shl1 8 cpu_id) (\<lambda>cfg.
        let R1 = mmio_clrbits_32 (SPM_BASE + 0x1C) cfg (mmio s)
        in res_bind (shl1 25 (cpu_id * 2)) (\<lambda>on.
           let R2 = mmio_clrbits_32 (SPM_BASE + 0x1C) on R1
           in if cpu_id \<ge> length (check_flag s) then Inl OutOfBounds
              else Inr (s\<lparr>mmio := R2, check_flag := (check_flag s)[cpu_id := 1]\<rparr>))))"

definition plat_power_domain_off :: "u64 \<Rightarrow> pm_state \<Rightarrow> pm_state" where
  "plat_power_domain_off mpidr s =
    (let cpu_id = unat (mpidr AND MPIDR_CPU_MASK);
         R1 = mmio_clrbits_32 (MCUCFG_BASE + 0x1C30 + of_nat cpu_id * 4) (push_bit 1 1) (mmio s);
         ectlr = (cpuectlr s cpu_id AND NOT 7) OR 1
     in s\<lparr>mmio := R1, cpuectlr := (cpuectlr s)(cpu_id := ectlr),
          gic_calls := gic_calls s @ [plat_arm_gic_cpuif_disable, plat_arm_gic_redistif_off]\<rparr>)"

definition plat_power_domain_on_finish :: "pm_state \<Rightarrow> pm_state" where
  "plat_power_domain_on_finish s = s\<lparr>gic_calls := gic_calls s @ [plat_arm_gic_pcpu_init, plat_arm_gic_cpuif_enable]\<rparr>"

definition plat_setup_psci_ops :: "u64 \<Rightarrow> pm_state \<Rightarrow> pm_state" where
  "plat_setup_psci_ops sec_entrypoint s = s\<lparr>ecnt_sec_entrypoint := sec_entrypoint\<rparr>"

text \<open>The routing of interrupts while the core waits, and afterwards.\<close>

definition plat_cpu_standby :: "u64 \<Rightarrow> u64 \<times> u64" where
  "plat_cpu_standby scr_el3 = (let scr = ucast scr_el3 :: u32 in (ucast (scr OR push_bit 1 1), ucast scr))"

definition plat_core_pos_by_mpidr :: "bool \<Rightarrow> u64 \<Rightarrow> int" where
  "plat_core_pos_by_mpidr en7581 mpidr =
    (let mpidr = mpidr AND MPIDR_AFFINITY_MASK
     in if mpidr AND NOT (MPIDR_CLUSTER_MASK OR MPIDR_CPU_MASK) \<noteq> 0 then -1
        else let cluster_id = ucast (drop_bit 8 mpidr AND 0xFF) :: u32;
                 cpu_id = ucast (drop_bit 0 mpidr AND 0xFF) :: u32
             in if cluster_id \<ge> 1 then -1
                else if cpu_id \<ge> of_nat (PLATFORM_CORE_COUNT en7581) then -1
                else uint (cpu_id + cluster_id * of_nat (PLATFORM_CORE_COUNT en7581)))"

definition psci_affinity_info ::
  "bool \<Rightarrow> (regs \<Rightarrow> regs) \<Rightarrow> aff_info_state list \<Rightarrow> u64 \<Rightarrow> u32 \<Rightarrow> pm_state \<Rightarrow> fault + int \<times> pm_state" where
  "psci_affinity_info en7581 hw aff target_affinity lowest_affinity_level s =
    (if lowest_affinity_level > PSCI_CPU_PWR_LVL then Inr (PSCI_E_INVALID_PARAMS, s)
     else let ret = plat_core_pos_by_mpidr en7581 target_affinity
          in if ret = -1 then Inr (PSCI_E_INVALID_PARAMS, s)
             else let target_idx = nat ret
                  in if target_idx \<ge> length aff then Inl OutOfBounds
                     else res_bind (if aff ! target_idx = AFF_STATE_OFF then plat_power_domain_off_check hw target_idx s else Inr s)
                            (\<lambda>s'. Inr (aff_code (aff ! target_idx), s')))"

section \<open>Restart\<close>

definition SYS_HCLK :: u32 where "SYS_HCLK = 0xA0"
definition CR_TIMER_CTL :: u32 where "CR_TIMER_CTL = 0x1FBF0100"
definition CR_TIMER3_LDV :: u32 where "CR_TIMER3_LDV = 0x1FBF012C"
definition CR_WDOG_RLD :: u32 where "CR_WDOG_RLD = 0x1FBF0138"
definition TIMERTICKS_10MS :: u32 where "TIMERTICKS_10MS = 10"

definition timer_Configure :: "u8 \<Rightarrow> u8 \<Rightarrow> u8 \<Rightarrow> regs \<Rightarrow> regs" where
  "timer_Configure timer_no timer_enable timer_halt R =
    (if timer_no > 3 then R
     else let offset = (if timer_no = 3 then 5 else unat timer_no);
              w = R CR_TIMER_CTL;
              w = (if timer_enable \<noteq> 0 then w OR push_bit offset 1 else w AND NOT (push_bit offset 1));
              w = (if timer_halt \<noteq> 0 then w OR push_bit (offset + 16) 1 else w AND NOT (push_bit (offset + 16) 1))
          in R(CR_TIMER_CTL := w))"

definition timerLdvSet :: "u8 \<Rightarrow> u32 \<Rightarrow> regs \<Rightarrow> regs" where
  "timerLdvSet timer_no val R = R(CR_TIMER3_LDV := val)"

definition timerCtlSet :: "u8 \<Rightarrow> u8 \<Rightarrow> u8 \<Rightarrow> regs \<Rightarrow> regs" where
  "timerCtlSet timer_no timer_enable timer_halt R = timer_Configure timer_no timer_enable timer_halt R"

definition timer_WatchDogConfigure :: "u8 \<Rightarrow> u8 \<Rightarrow> regs \<Rightarrow> regs" where
  "timer_WatchDogConfigure tick_enable watchdog_enable R =
    R(CR_TIMER_CTL := (R CR_TIMER_CTL AND 0xFDFFFFDF) OR (push_bit 5 (ucast tick_enable) OR push_bit 25 (ucast watchdog_enable)))"

definition timerSet :: "u32 \<Rightarrow> u32 \<Rightarrow> u32 \<Rightarrow> u8 \<Rightarrow> regs \<Rightarrow> regs" where
  "timerSet timer_no timerTime enable timer_halt R =
    (if timer_no > 3 then R
     else let offset = (if timer_no = 3 then 5 else unat timer_no)
          in if R CR_TIMER_CTL AND push_bit offset 1 = push_bit offset 1 \<and> timer_no \<noteq> 3 then R
             else timerCtlSet (ucast timer_no) (ucast enable) timer_halt
                    (timerLdvSet (ucast timer_no) (timerTime * SYS_HCLK * 500) R))"

text \<open>The registers when the processor waits to be restarted.\<close>

definition plat_system_reset :: "regs \<Rightarrow> regs" where
  "plat_system_reset R =
    timer_WatchDogConfigure 1 1 ((timerSet 3 (10 * TIMERTICKS_10MS) 1 0 R)(CR_WDOG_RLD := 1))"

section \<open>The cores as the registers show them\<close>

record core_view =
  entry :: u32
  in_reset :: bool
  powered :: bool
  auto_cfg :: bool

definition core_ack :: "regs \<Rightarrow> nat \<Rightarrow> bool" where
  "core_ack R i = bit (R (SPM_BASE + 0x1C)) (24 - 2 * i)"

definition view_core :: "regs \<Rightarrow> nat \<Rightarrow> core_view" where
  "view_core R i = \<lparr>entry = R (MCUCFG_BASE + 0x38 + of_nat i * 8), in_reset = bit (R (SPM_BASE + 0x1C)) (13 - i),
     powered = bit (R (SPM_BASE + 0x1C)) (25 - 2 * i), auto_cfg = bit (R (SPM_BASE + 0x1C)) (8 - i)\<rparr>"

text \<open>
  The power controller: it writes only the four acknowledge bits; the bit of a core follows its power bit in less than POLLING\_TIMES
  microseconds, and stays once it agrees.
\<close>

definition power_controller :: "(regs \<Rightarrow> regs) \<Rightarrow> bool" where
  "power_controller hw \<longleftrightarrow>
    (\<forall>R a. a \<noteq> SPM_BASE + 0x1C \<longrightarrow> hw R a = R a) \<and>
    (\<forall>R k. k \<notin> {18, 20, 22, 24} \<longrightarrow> bit (hw R (SPM_BASE + 0x1C)) k = bit (R (SPM_BASE + 0x1C)) k) \<and>
    (\<forall>R i. i < 4 \<and> core_ack R i = powered (view_core R i) \<longrightarrow> core_ack (hw R) i = core_ack R i) \<and>
    (\<forall>R i. i < 4 \<longrightarrow> (\<exists>d<POLLING_TIMES. core_ack ((hw ^^ d) R) i = powered (view_core R i)))"

end
