(* ===== verification/Led.thy ===== *)
theory Led
  imports Plat_Pm Cstring
begin

text \<open>
  The lamps of the boot loader (drivers/misc/ecnt/gpio.c, ecnt\_scu.c) and the timer interrupt that lets them blink after a multicast upgrade
  (drivers/misc/ecnt/time.c).

  The address of the timer and the checked shift are shared with Plat\_Pm. The environment is a map from names to values. multiupgrade\_led\_init converts an array of two characters that has no terminating
  zero; behind is what lies after that array on the stack. The counter Jiffies has 32 bits: the blinking reads one bit of it and getTime
  returns 32 bits.
\<close>

section \<open>Registers of the pins\<close>

definition CR_GPIO_CTRL :: u32 where "CR_GPIO_CTRL = 0x1FBF0200"
definition CR_GPIO_DATA :: u32 where "CR_GPIO_DATA = 0x1FBF0204"
definition CR_GPIO_ODRAIN :: u32 where "CR_GPIO_ODRAIN = 0x1FBF0214"
definition CR_GPIO_CTRL1 :: u32 where "CR_GPIO_CTRL1 = 0x1FBF0220"
definition CR_GPIO_CTRL2 :: u32 where "CR_GPIO_CTRL2 = 0x1FBF0260"
definition CR_GPIO_CTRL3 :: u32 where "CR_GPIO_CTRL3 = 0x1FBF0264"
definition CR_GPIO_DATA1 :: u32 where "CR_GPIO_DATA1 = 0x1FBF0270"
definition CR_GPIO_ODRAIN1 :: u32 where "CR_GPIO_ODRAIN1 = 0x1FBF0278"
definition MAXMULTILEDNUM :: nat where "MAXMULTILEDNUM = 16"
definition SYS_BLK_TIME :: u32 where "SYS_BLK_TIME = 0x10"
definition MAX_GPIO_NUM :: nat where "MAX_GPIO_NUM = 64"

record led_state =
  lregs :: regs
  gpio_active_high :: "u8 list"
  multi_upgrade_gpio :: "u8 list"
  internet_gpio :: u8
  dsl_gpio :: u8
  MultiUpgradeTag :: int
  finishMultiUpgrade :: u8
  Jiffies :: u32

text \<open>regWrite32(a, regRead32(a) | (1 << n))\<close>

definition reg_or :: "u32 \<Rightarrow> nat \<Rightarrow> led_state \<Rightarrow> fault + led_state" where
  "reg_or a n s = res_bind (shl1 n 0) (\<lambda>b. Inr (s\<lparr>lregs := (lregs s)(a := lregs s a OR b)\<rparr>))"

definition reg_clr :: "u32 \<Rightarrow> nat \<Rightarrow> led_state \<Rightarrow> fault + led_state" where
  "reg_clr a n s = res_bind (shl1 n 0) (\<lambda>b. Inr (s\<lparr>lregs := (lregs s)(a := lregs s a AND NOT b)\<rparr>))"

definition LED_OEN :: "u8 \<Rightarrow> led_state \<Rightarrow> fault + led_state" where
  "LED_OEN x s =
    (let n = unat x
     in if n > 31
        then res_bind (if n > 47 then reg_or CR_GPIO_CTRL3 ((n - 48) * 2) s else reg_or CR_GPIO_CTRL2 ((n - 32) * 2) s)
               (reg_or CR_GPIO_ODRAIN1 (n - 32))
        else res_bind (if n > 15 then reg_or CR_GPIO_CTRL1 ((n - 16) * 2) s else reg_or CR_GPIO_CTRL (n * 2) s)
               (reg_or CR_GPIO_ODRAIN n))"

definition turn_high_gpio :: "u8 \<Rightarrow> led_state \<Rightarrow> fault + led_state" where
  "turn_high_gpio x s =
    (let n = unat x
     in if n > 31 \<and> n < 64 then reg_or CR_GPIO_DATA1 (n - 32) s else if n < 32 then reg_or CR_GPIO_DATA n s else Inr s)"

definition turn_low_gpio :: "u8 \<Rightarrow> led_state \<Rightarrow> fault + led_state" where
  "turn_low_gpio x s =
    (let n = unat x
     in if n > 31 \<and> n < 64 then reg_clr CR_GPIO_DATA1 (n - 32) s else if n < 32 then reg_clr CR_GPIO_DATA n s else Inr s)"

definition LED_OFF :: "u8 \<Rightarrow> led_state \<Rightarrow> fault + led_state" where
  "LED_OFF x s =
    (if unat x \<ge> length (gpio_active_high s) then Inl OutOfBounds
     else if gpio_active_high s ! unat x \<noteq> 0 then turn_low_gpio x s else turn_high_gpio x s)"

definition LED_ON :: "u8 \<Rightarrow> led_state \<Rightarrow> fault + led_state" where
  "LED_ON x s =
    (if unat x \<ge> length (gpio_active_high s) then Inl OutOfBounds
     else if gpio_active_high s ! unat x \<noteq> 0 then turn_high_gpio x s else turn_low_gpio x s)"

section \<open>Blinking\<close>

text \<open>The loop over the table of lamps; 0 means that an entry is not used.\<close>

fun lamps_loop :: "(u8 \<Rightarrow> led_state \<Rightarrow> fault + led_state) \<Rightarrow> u8 list \<Rightarrow> led_state \<Rightarrow> fault + led_state" where
  "lamps_loop f [] s = Inr s"
| "lamps_loop f (x # xs) s = res_bind (if x \<noteq> 0 then f x s else Inr s) (lamps_loop f xs)"

definition multiupgrade_blink :: "led_state \<Rightarrow> fault + led_state" where
  "multiupgrade_blink s =
    (if finishMultiUpgrade s \<noteq> 0
     then if Jiffies s AND SYS_BLK_TIME \<noteq> 0
          then if MultiUpgradeTag s = 0
               then res_bind (lamps_loop LED_ON (multi_upgrade_gpio s) s) (\<lambda>s. Inr (s\<lparr>MultiUpgradeTag := 1\<rparr>))
               else Inr s
          else if MultiUpgradeTag s = 1
               then res_bind (lamps_loop LED_OFF (multi_upgrade_gpio s) s) (\<lambda>s. Inr (s\<lparr>MultiUpgradeTag := 0\<rparr>))
               else Inr s
     else Inr s)"

definition timer_interrupt :: "led_state \<Rightarrow> fault + led_state" where
  "timer_interrupt s =
    (let w = (lregs s CR_TIMER_CTL AND 0xFFC0FFFF) OR 0x00040000
     in multiupgrade_blink (s\<lparr>lregs := (lregs s)(CR_TIMER_CTL := w), Jiffies := Jiffies s + 1\<rparr>))"

definition getTime :: "led_state \<Rightarrow> u32" where
  "getTime s = Jiffies s * 10"

text \<open>A number of interrupts one after the other.\<close>

fun ticks :: "nat \<Rightarrow> led_state \<Rightarrow> fault + led_state" where
  "ticks 0 s = Inr s"
| "ticks (Suc n) s = res_bind (ticks n s) timer_interrupt"

section \<open>Start\<close>

text \<open>simple\_strtoul on an array, with a base that is not 0; a conversion that does not stop inside the array is a fault.\<close>

definition strtoul_end :: "nat \<Rightarrow> string \<Rightarrow> fault + u64" where
  "strtoul_end base cp = (case strtoull_loop base 0 cp of (v, rest) \<Rightarrow> if rest = [] then Inl OutOfBounds else Inr v)"

fun strtoul_array :: "string \<Rightarrow> nat \<Rightarrow> fault + u64" where
  "strtoul_array [] base = Inl OutOfBounds"
| "strtoul_array (c # cs) base =
    (if c = CHR ''0''
     then case cs of [] \<Rightarrow> Inl OutOfBounds
          | d # ds \<Rightarrow>
              if d = CHR ''x''
              then case ds of [] \<Rightarrow> Inl OutOfBounds | e # _ \<Rightarrow> if isxdigit e then strtoul_end 16 ds else strtoul_end base cs
              else strtoul_end base cs
     else strtoul_end base (c # cs))"

definition char_at :: "string \<Rightarrow> nat \<Rightarrow> fault + char" where
  "char_at s i = (if i \<le> length s then Inr ((s @ [NUL]) ! i) else Inl OutOfBounds)"

fun multi_gpio_loop :: "string \<Rightarrow> string \<Rightarrow> nat \<Rightarrow> nat \<Rightarrow> u8 list \<Rightarrow> fault + u8 list" where
  "multi_gpio_loop behind multi_gpio 0 i tab = Inr tab"
| "multi_gpio_loop behind multi_gpio (Suc n) i tab =
    res_bind (char_at multi_gpio (2 * i)) (\<lambda>c0.
    res_bind (char_at multi_gpio (2 * i + 1)) (\<lambda>c1.
    res_bind (strtoul_array ([c0, c1] @ behind) 16) (\<lambda>v.
      multi_gpio_loop behind multi_gpio n (i + 1) (tab[i := ucast v]))))"

definition env_num :: "string option \<Rightarrow> fault + u8" where
  "env_num v = (case v of None \<Rightarrow> Inl NullPointer | Some t \<Rightarrow> res_bind (strtoul_array (t @ [NUL]) 16) (\<lambda>n. Inr (ucast n)))"

definition multiupgrade_led_init :: "string \<Rightarrow> (string \<rightharpoonup> string) \<Rightarrow> led_state \<Rightarrow> fault + led_state" where
  "multiupgrade_led_init behind env s =
    (case env ''multi_upgrade_gpio'' of
       None \<Rightarrow> Inl NullPointer
     | Some multi_gpio \<Rightarrow>
         res_bind (multi_gpio_loop behind multi_gpio MAXMULTILEDNUM 0 (multi_upgrade_gpio s)) (\<lambda>tab.
         res_bind (env_num (env ''internet_gpio'')) (\<lambda>inet.
         res_bind (env_num (env ''dsl_gpio'')) (\<lambda>dsl.
           Inr (s\<lparr>multi_upgrade_gpio := tab, internet_gpio := inet, dsl_gpio := dsl\<rparr>)))))"

text \<open>The register lies elsewhere on the EN7581 and the AN7552 (new\_soc).\<close>

definition IOMUX_1 :: "bool \<Rightarrow> u32" where "IOMUX_1 new_soc = (if new_soc then 0x1FA20214 else 0x1FA20210)"

definition LAN_LED_disable :: "bool \<Rightarrow> regs \<Rightarrow> regs" where
  "LAN_LED_disable new_soc R =
    (let R1 = R(IOMUX_1 new_soc := R (IOMUX_1 new_soc) AND NOT (push_bit 3 0xFF))
     in R1(CR_GPIO_CTRL := (R1 CR_GPIO_CTRL AND NOT (push_bit 16 0xFF)) OR push_bit 16 0x55))"

fun active_high_loop :: "string \<Rightarrow> nat \<Rightarrow> nat \<Rightarrow> u8 list \<Rightarrow> fault + u8 list" where
  "active_high_loop active_high 0 i tab = Inr tab"
| "active_high_loop active_high (Suc n) i tab =
    res_bind (char_at active_high i) (\<lambda>c.
    res_bind (strtoul_array [c, NUL] 2) (\<lambda>v.
      active_high_loop active_high n (i + 1) (tab[MAX_GPIO_NUM - i - 1 := ucast v])))"

text \<open>The test-bench build for the EN7581 (slt) keeps the lamps of the ports.\<close>

definition lan_led_init :: "bool \<Rightarrow> bool \<Rightarrow> (string \<rightharpoonup> string) \<Rightarrow> led_state \<Rightarrow> fault + led_state" where
  "lan_led_init slt new_soc env s =
    res_bind (case env ''gpio_active_high'' of
                None \<Rightarrow> Inr s
              | Some active_high \<Rightarrow>
                  res_bind (active_high_loop active_high MAX_GPIO_NUM 0 (gpio_active_high s)) (\<lambda>tab.
                    Inr (s\<lparr>gpio_active_high := tab\<rparr>)))
      (\<lambda>s. Inr (if slt then s else s\<lparr>lregs := LAN_LED_disable new_soc (lregs s)\<rparr>))"

definition power_led_init :: "(string \<rightharpoonup> string) \<Rightarrow> led_state \<Rightarrow> fault + led_state" where
  "power_led_init env s =
    (case env ''power_gpio'' of
       None \<Rightarrow> Inl NullPointer
     | Some t \<Rightarrow>
         if length t < 2 then Inl OutOfBounds
         else res_bind (env_num (Some (drop 2 t))) (\<lambda>power_gpio.
              res_bind (LED_OEN power_gpio s) (LED_ON power_gpio)))"

definition led_init :: "bool \<Rightarrow> bool \<Rightarrow> string \<Rightarrow> (string \<rightharpoonup> string) \<Rightarrow> led_state \<Rightarrow> fault + led_state" where
  "led_init slt new_soc behind env s =
    res_bind (power_led_init env s) (\<lambda>s.
    res_bind (lan_led_init slt new_soc env s) (multiupgrade_led_init behind env))"

end
