(* ===== verification/Pm_Theorems.thy ===== *)
theory Pm_Theorems
  imports Plat_Pm
begin

text \<open>
  Turning a core on and off reaches the power controller and leaves the other cores alone; the watchdog restarts the system; the index of a
  core is always inside the table of flags.
\<close>

section \<open>The power controller\<close>

named_theorems pm_defs \<open>registers of the power controller\<close>

declare core_ack_def [pm_defs] view_core_def [pm_defs] SPM_BASE_def [pm_defs] MCUCFG_BASE_def [pm_defs]

lemma controller_frame:
  assumes "power_controller hw"
  shows "i < 4 \<Longrightarrow> view_core ((hw ^^ n) R) i = view_core R i"
    and "a \<noteq> SPM_BASE + 0x1C \<Longrightarrow> (hw ^^ n) R a = R a"
proof -
  have far: "a \<noteq> SPM_BASE + 0x1C \<Longrightarrow> hw R a = R a" for R a using assms unfolding power_controller_def by blast
  then show "a \<noteq> SPM_BASE + 0x1C \<Longrightarrow> (hw ^^ n) R a = R a" by (induction n) auto
  have other: "k \<notin> {18, 20, 22, 24} \<Longrightarrow> bit (hw R (SPM_BASE + 0x1C)) k = bit (R (SPM_BASE + 0x1C)) k" for R k
    using assms unfolding power_controller_def by blast
  assume "i < 4"
  then have i: "i = 0 \<or> i = 1 \<or> i = 2 \<or> i = 3" by linarith
  then have rv: "MCUCFG_BASE + 0x38 + of_nat i * 8 \<noteq> SPM_BASE + 0x1C" by (auto simp: SPM_BASE_def MCUCFG_BASE_def)
  have bits: "13 - i \<notin> {18, 20, 22, 24}" "25 - 2 * i \<notin> {18, 20, 22, 24}" "8 - i \<notin> {18, 20, 22, 24}" using i by auto
  have "view_core (hw R) i = view_core R i" for R
    unfolding view_core_def far[OF rv] other[OF bits(1)] other[OF bits(2)] other[OF bits(3)] by (rule refl)
  then show "view_core ((hw ^^ n) R) i = view_core R i" by (induction n) auto
qed

lemma controller_stable:
  assumes "power_controller hw" "i < 4" "core_ack R i = powered (view_core R i)"
  shows "core_ack ((hw ^^ n) R) i = powered (view_core R i)"
proof (induction n)
  case (Suc n)
  have "view_core ((hw ^^ n) R) i = view_core R i" by (rule controller_frame(1)[OF assms(1,2)])
  then have "core_ack (hw ((hw ^^ n) R)) i = core_ack ((hw ^^ n) R) i"
    using assms(1,2) Suc unfolding power_controller_def by auto
  then show ?case using Suc by simp
qed (use assms in simp)

text \<open>The loop stops at a state of the controller; it sees the bit when the bit comes in time.\<close>

lemma wait_loop_run: "\<exists>d\<le>n. wait_loop hw a v st n R = (hw ^^ d) R"
proof (induction n arbitrary: R)
  case (Suc n)
  obtain d where "d \<le> n" "wait_loop hw a v st n (hw R) = (hw ^^ d) (hw R)" using Suc by blast
  then have "Suc d \<le> Suc n" "wait_loop hw a v st n (hw R) = (hw ^^ Suc d) R" by (simp_all add: funpow_swap1)
  then show ?case by (metis (no_types, lifting) funpow_0 le0 wait_loop.simps(2))
qed auto

lemma wait_loop_sees:
  "d < n \<Longrightarrow> ((hw ^^ d) R a AND v \<noteq> 0) = st \<Longrightarrow> (wait_loop hw a v st n R a AND v \<noteq> 0) = st"
proof (induction n arbitrary: d R)
  case (Suc n)
  show ?case
  proof (cases "(R a AND v \<noteq> 0) = st")
    case False
    then obtain e where "d = Suc e" using Suc.prems(2) by (cases d) auto
    then have "(wait_loop hw a v st n (hw R) a AND v \<noteq> 0) = st"
      using Suc.IH[of e "hw R"] Suc.prems by (simp add: funpow_swap1)
    then show ?thesis using False by auto
  qed auto
qed simp

lemma and_bit: "(w AND push_bit k 1 \<noteq> 0) = bit w k" if "k < 32" for w :: u32
  using that by (simp add: push_bit_eq_mult bit_iff_and_push_bit_not_eq_0)

lemma wait_reg_ack:
  assumes "power_controller hw" "i < 4" "powered (view_core R i) = st"
  shows "core_ack (plat_power_domain_wait_reg hw (SPM_BASE + 0x1C) (push_bit (24 - 2 * i) 1) st R) i = st"
proof -
  have k: "24 - 2 * i < 32" by simp
  obtain d where "d < POLLING_TIMES" "core_ack ((hw ^^ d) R) i = st"
    using assms unfolding power_controller_def by metis
  then show ?thesis using wait_loop_sees[of d POLLING_TIMES hw R "SPM_BASE + 0x1C" "push_bit (24 - 2 * i) 1" st]
    unfolding core_ack_def plat_power_domain_wait_reg_def and_bit[OF k] by simp
qed

lemma wait_reg_frame:
  assumes "power_controller hw"
  shows "i < 4 \<Longrightarrow> view_core (plat_power_domain_wait_reg hw a v st R) i = view_core R i"
    and "b \<noteq> SPM_BASE + 0x1C \<Longrightarrow> plat_power_domain_wait_reg hw a v st R b = R b"
    and "i < 4 \<Longrightarrow> core_ack R i = powered (view_core R i) \<Longrightarrow>
      core_ack (plat_power_domain_wait_reg hw a v st R) i = core_ack R i"
proof -
  obtain d where d: "plat_power_domain_wait_reg hw a v st R = (hw ^^ d) R"
    using wait_loop_run[of POLLING_TIMES hw a v st R] unfolding plat_power_domain_wait_reg_def by blast
  show "i < 4 \<Longrightarrow> view_core (plat_power_domain_wait_reg hw a v st R) i = view_core R i"
    "b \<noteq> SPM_BASE + 0x1C \<Longrightarrow> plat_power_domain_wait_reg hw a v st R b = R b"
    unfolding d using controller_frame[OF assms] by simp_all
  show "i < 4 \<Longrightarrow> core_ack R i = powered (view_core R i) \<Longrightarrow> core_ack (plat_power_domain_wait_reg hw a v st R) i = core_ack R i"
    unfolding d using controller_stable[OF assms] by metis
qed


section \<open>Turning a core on\<close>

lemma bit_clr: "bit (w AND NOT (2 ^ k)) m \<longleftrightarrow> bit w m \<and> m \<noteq> k" for w :: u32
  by (auto simp: bit_simps bit_exp_iff dest: bit_imp_le_length)

lemma bit_set: "m < 32 \<Longrightarrow> bit (w OR 2 ^ k) m \<longleftrightarrow> bit w m \<or> m = k" for w :: u32
  by (auto simp: bit_simps)

lemma core_cases: "i < 4 \<Longrightarrow> i = 0 \<or> i = 1 \<or> i = 2 \<or> i = (3 :: nat)"
  by linarith

lemma entry_reg_inj: "i < 4 \<Longrightarrow> j < 4 \<Longrightarrow> (MCUCFG_BASE + 0x38 + of_nat i * 8 = MCUCFG_BASE + 0x38 + of_nat j * 8) = (i = j)"
  by (drule core_cases, drule core_cases) (elim disjE; simp add: MCUCFG_BASE_def)

lemma entry_reg_spm: "i < 4 \<Longrightarrow> MCUCFG_BASE + 0x38 + of_nat i * 8 \<noteq> SPM_BASE + 0x1C"
  by (drule core_cases) (elim disjE; simp add: MCUCFG_BASE_def SPM_BASE_def)

text \<open>The fields of the cores in the register are disjoint.\<close>

lemma core_bits:
  fixes i j :: nat
  assumes "i < 4" "j < 4"
  shows "(13 - j = 13 - i) = (j = i)" "(25 - 2 * j = 25 - 2 * i) = (j = i)" "(8 - j = 8 - i) = (j = i)"
    "13 - j \<noteq> 25 - 2 * i" "13 - j \<noteq> 8 - i" "25 - 2 * j \<noteq> 13 - i" "25 - 2 * j \<noteq> 8 - i" "8 - j \<noteq> 13 - i" "8 - j \<noteq> 25 - 2 * i"
    "24 - 2 * j \<noteq> 13 - i" "24 - 2 * j \<noteq> 25 - 2 * i" "24 - 2 * j \<noteq> 8 - i"
    "13 - j < 32" "25 - 2 * j < 32" "8 - j < 32" "24 - 2 * j < 32"
  using assms by presburger+

definition on_regs :: "u32 \<Rightarrow> nat \<Rightarrow> regs \<Rightarrow> regs" where
  "on_regs e i R = mmio_setbits_32 (SPM_BASE + 0x1C) (push_bit (25 - 2 * i) 1)
     (mmio_clrbits_32 (SPM_BASE + 0x1C) (push_bit (13 - i) 1) (R(MCUCFG_BASE + 0x38 + of_nat i * 8 := e)))"

lemma on_regs_view:
  assumes "i < 4" "j < 4"
  shows "view_core (on_regs e i R) j =
      (if j = i then (view_core R i)\<lparr>entry := e, in_reset := False, powered := True\<rparr> else view_core R j)"
    and "core_ack (on_regs e i R) j = core_ack R j"
  using assms entry_reg_inj[OF assms] entry_reg_spm[OF assms(1)] entry_reg_spm[OF assms(2)]
  by (auto simp: on_regs_def mmio_setbits_32_def mmio_clrbits_32_def view_core_def core_ack_def bit_set bit_clr core_bits)



lemma shl1_core:
  assumes "i < 4"
  shows "shl1 13 i = Inr (push_bit (13 - i) 1)" "shl1 25 (i * 2) = Inr (push_bit (25 - 2 * i) 1)"
    "shl1 24 (i * 2) = Inr (push_bit (24 - 2 * i) 1)" "shl1 8 i = Inr (push_bit (8 - i) 1)"
  using assms by (simp_all add: shl1_def mult.commute)

lemma domain_on_eq:
  assumes "unat (mpidr AND MPIDR_CPU_MASK) = i" "i < 4"
  shows "plat_power_domain_on hw mpidr s = Inr (PSCI_E_SUCCESS, s\<lparr>mmio := plat_power_domain_wait_reg hw (SPM_BASE + 0x1C)
    (push_bit (24 - 2 * i) 1) True (on_regs (ucast (ecnt_sec_entrypoint s)) i (mmio s))\<rparr>)"
  unfolding plat_power_domain_on_def assms(1) Let_def shl1_core[OF assms(2)] res_bind_simps on_regs_def by (rule refl)


lemma on_regs_other: "a \<noteq> SPM_BASE + 0x1C \<Longrightarrow> a \<noteq> MCUCFG_BASE + 0x38 + of_nat i * 8 \<Longrightarrow> on_regs e i R a = R a"
  by (simp add: on_regs_def mmio_setbits_32_def mmio_clrbits_32_def)

text \<open>
  C11 Turning on one of up to four cores reports success, and with a power controller that acknowledges in time the core then has power, is
  not held in reset and starts at the registered entry point. Entry, power, reset and configuration of every other core, the acknowledgement
  of every core at rest, and all other registers are unchanged.
\<close>

theorem power_domain_on_starts_core:
  assumes "power_controller hw" "unat (mpidr AND MPIDR_CPU_MASK) = i" "i < 4"
  shows "\<exists>R. plat_power_domain_on hw mpidr s = Inr (PSCI_E_SUCCESS, s\<lparr>mmio := R\<rparr>) \<and>
    view_core R i = (view_core (mmio s) i)\<lparr>entry := ucast (ecnt_sec_entrypoint s), in_reset := False, powered := True\<rparr> \<and> core_ack R i \<and>
    (\<forall>j<4. j \<noteq> i \<longrightarrow> view_core R j = view_core (mmio s) j \<and>
       (core_ack (mmio s) j = powered (view_core (mmio s) j) \<longrightarrow> core_ack R j = core_ack (mmio s) j)) \<and>
    (\<forall>a. a \<noteq> SPM_BASE + 0x1C \<and> a \<noteq> MCUCFG_BASE + 0x38 + of_nat i * 8 \<longrightarrow> R a = mmio s a)"
proof (intro exI conjI)
  let ?R = "on_regs (ucast (ecnt_sec_entrypoint s)) i (mmio s)"
  let ?W = "plat_power_domain_wait_reg hw (SPM_BASE + 0x1C) (push_bit (24 - 2 * i) 1) True ?R"
  note frame = wait_reg_frame[OF assms(1)] and view = on_regs_view[OF assms(3)]
  show "plat_power_domain_on hw mpidr s = Inr (PSCI_E_SUCCESS, s\<lparr>mmio := ?W\<rparr>)" by (rule domain_on_eq[OF assms(2,3)])
  show "view_core ?W i = (view_core (mmio s) i)\<lparr>entry := ucast (ecnt_sec_entrypoint s), in_reset := False, powered := True\<rparr>"
    using frame(1)[OF assms(3)] view(1)[OF assms(3)] by simp
  show "core_ack ?W i" using wait_reg_ack[OF assms(1,3), of ?R True] view(1)[OF assms(3)] by simp
  show "\<forall>j<4. j \<noteq> i \<longrightarrow> view_core ?W j = view_core (mmio s) j \<and>
       (core_ack (mmio s) j = powered (view_core (mmio s) j) \<longrightarrow> core_ack ?W j = core_ack (mmio s) j)"
    using frame(1,3) view by simp
  show "\<forall>a. a \<noteq> SPM_BASE + 0x1C \<and> a \<noteq> MCUCFG_BASE + 0x38 + of_nat i * 8 \<longrightarrow> ?W a = mmio s a"
    using frame(2) on_regs_other by simp
qed

section \<open>The index of a core\<close>

lemma core_pos_range:
  assumes "plat_core_pos_by_mpidr en7581 mpidr = p" "p \<noteq> -1"
  shows "0 \<le> p" "nat p < PLATFORM_CORE_COUNT en7581" "unat (mpidr AND MPIDR_CPU_MASK) = nat p"
proof -
  define m where "m = mpidr AND MPIDR_AFFINITY_MASK"
  define c where "c = (ucast (drop_bit 8 m AND 0xFF) :: u32)"
  define u where "u = (ucast (m AND 0xFF) :: u32)"
  have c0: "c = 0" and u: "u < of_nat (PLATFORM_CORE_COUNT en7581)" and p: "p = uint u"
    using assms unfolding plat_core_pos_by_mpidr_def Let_def m_def[symmetric] c_def[symmetric] drop_bit_0 id_apply u_def[symmetric]
    by (auto split: if_splits simp: word_less_nat_alt not_le unat_eq_0 less_one)
  have n: "PLATFORM_CORE_COUNT en7581 < 2 ^ 32" by (simp add: PLATFORM_CORE_COUNT_def)
  show "0 \<le> p" unfolding p by simp
  show "nat p < PLATFORM_CORE_COUNT en7581"
    using u n unfolding p by (simp add: word_less_nat_alt unat_of_nat PLATFORM_CORE_COUNT_def split: if_splits)
  have "u = ucast (mpidr AND MPIDR_CPU_MASK)" unfolding u_def m_def MPIDR_AFFINITY_MASK_def MPIDR_CPU_MASK_def by (simp add: and.assoc)
  moreover have "unat (ucast (mpidr AND MPIDR_CPU_MASK) :: u32) = unat (mpidr AND MPIDR_CPU_MASK)"
  proof -
    have "mpidr AND MPIDR_CPU_MASK \<le> MPIDR_CPU_MASK" by (rule word_and_le1)
    then show ?thesis by (simp add: unsigned_ucast_eq take_bit_nat_eq_self word_le_nat_alt MPIDR_CPU_MASK_def)
  qed
  ultimately show "unat (mpidr AND MPIDR_CPU_MASK) = nat p" unfolding p by simp
qed


section \<open>Turning a core off\<close>



text \<open>A controller that acknowledges in its next step.\<close>

definition ack_mask :: u32 where "ack_mask = push_bit 18 1 OR push_bit 20 1 OR push_bit 22 1 OR push_bit 24 1"

definition prompt_ack :: "regs \<Rightarrow> regs" where
  "prompt_ack R = R(SPM_BASE + 0x1C := (R (SPM_BASE + 0x1C) AND NOT ack_mask) OR (drop_bit 1 (R (SPM_BASE + 0x1C)) AND ack_mask))"

lemma bit_ack_mask: "bit ack_mask k \<longleftrightarrow> k \<in> {18, 20, 22, 24}"
  unfolding ack_mask_def by (auto simp: bit_push_bit_iff bit_or_iff bit_1_iff simp del: push_bit_of_1 push_bit_numeral push_bit_Suc_numeral)

lemma prompt_ack_bits:
  "bit (prompt_ack R (SPM_BASE + 0x1C)) k = (if k \<in> {18, 20, 22, 24} then bit (R (SPM_BASE + 0x1C)) (Suc k) else bit (R (SPM_BASE + 0x1C)) k)"
  unfolding prompt_ack_def by (auto simp: bit_simps bit_ack_mask dest: bit_imp_le_length)

lemma prompt_ack_controller: "power_controller prompt_ack"
proof -
  have ack: "core_ack (prompt_ack R) i = powered (view_core R i)" if "i < 4" for R i
    using core_cases[OF that] by (elim disjE) (simp_all add: core_ack_def view_core_def prompt_ack_bits)
  have "\<exists>d<POLLING_TIMES. core_ack ((prompt_ack ^^ d) R) i = powered (view_core R i)" if "i < 4" for R i
    using ack[OF that] by (intro exI[of _ 1]) (simp add: POLLING_TIMES_def)
  then show ?thesis using ack prompt_ack_bits unfolding power_controller_def by (auto simp: prompt_ack_def)
qed

definition pm_sample :: pm_state where
  "pm_sample = \<lparr>mmio = (\<lambda>_. 0), check_flag = [0, 0, 0, 0], ecnt_sec_entrypoint = 0x80002000, cpuectlr = (\<lambda>_. 0), gic_calls = []\<rparr>"

theorem power_domain_on_starts_core_witness:
  "unat ((0x80000002 :: u64) AND MPIDR_CPU_MASK) = 2 \<and> power_controller prompt_ack \<and>
   (\<exists>R. plat_power_domain_on prompt_ack 0x80000002 pm_sample = Inr (PSCI_E_SUCCESS, pm_sample\<lparr>mmio := R\<rparr>) \<and> core_ack R 2)"
proof -
  have m: "unat ((0x80000002 :: u64) AND MPIDR_CPU_MASK) = 2" by (simp add: MPIDR_CPU_MASK_def)
  show ?thesis using power_domain_on_starts_core[OF prompt_ack_controller m, of pm_sample] prompt_ack_controller m by auto
qed



text \<open>
  Whatever the controller does, turning a core on ends after at most POLLING\_TIMES polls, and it reports success even when the
  acknowledgement never comes.
\<close>

lemma power_domain_on_reports_success:
  "\<exists>d\<le>POLLING_TIMES. plat_power_domain_on hw mpidr s = Inr (PSCI_E_SUCCESS, s\<lparr>mmio := (hw ^^ d) (on_regs (ucast (ecnt_sec_entrypoint s)) i (mmio s))\<rparr>)"
  if "unat (mpidr AND MPIDR_CPU_MASK) = i" "i < 4"
  unfolding domain_on_eq[OF that] plat_power_domain_wait_reg_def by (metis wait_loop_run)

text \<open>
  A query for the state of a core never leaves the tables, whatever identifier and level the caller passes: it answers the recorded state
  of a core or an error, and the error changes nothing.
\<close>

lemma affinity_info_in_bounds:
  assumes "length (check_flag s) = PLATFORM_CORE_COUNT en7581" "length aff = PLATFORM_CORE_COUNT en7581"
  shows "\<exists>r s'. psci_affinity_info en7581 hw aff mpidr level s = Inr (r, s') \<and> length (check_flag s') = PLATFORM_CORE_COUNT en7581 \<and>
    (r = PSCI_E_INVALID_PARAMS \<and> s' = s \<or>
     (\<exists>i<PLATFORM_CORE_COUNT en7581. plat_core_pos_by_mpidr en7581 mpidr = int i \<and> r = aff_code (aff ! i)))"
proof (cases "level > PSCI_CPU_PWR_LVL \<or> plat_core_pos_by_mpidr en7581 mpidr = -1")
  case True
  then show ?thesis using assms by (auto simp: psci_affinity_info_def)
next
  case False
  obtain i where i: "plat_core_pos_by_mpidr en7581 mpidr = int i" "i < PLATFORM_CORE_COUNT en7581"
    using False core_pos_range[OF refl] by (metis nat_0_le)
  have i4: "i < 4" using i(2) by (simp add: PLATFORM_CORE_COUNT_def split: if_splits)
  have "\<exists>s'. plat_power_domain_off_check hw i s = Inr s' \<and> length (check_flag s') = length (check_flag s)"
    using i(2) assms(1) by (simp add: plat_power_domain_off_check_def shl1_core[OF i4])
  then obtain s' where "plat_power_domain_off_check hw i s = Inr s'" "length (check_flag s') = length (check_flag s)" by blast
  then show ?thesis using False i assms by (auto simp: psci_affinity_info_def)
qed

lemma affinity_info_in_bounds_witness:
  "\<exists>r s'. psci_affinity_info True prompt_ack [AFF_STATE_ON, AFF_STATE_OFF, AFF_STATE_OFF, AFF_STATE_OFF] 0x101 0 pm_sample = Inr (r, s') \<and>
     length (check_flag s') = 4"
  using affinity_info_in_bounds[of pm_sample True "[AFF_STATE_ON, AFF_STATE_OFF, AFF_STATE_OFF, AFF_STATE_OFF]" prompt_ack "0x101" 0]
  by (auto simp: pm_sample_def PLATFORM_CORE_COUNT_def)

section \<open>Restart\<close>

lemma bit_wdog_mask: "k < 32 \<Longrightarrow> bit (0xFDFFFFDF :: u32) k \<longleftrightarrow> k \<noteq> 5 \<and> k \<noteq> 25"
proof -
  assume k: "k < 32"
  have "(0xFDFFFFDF :: u32) = NOT (push_bit 5 1 OR push_bit 25 1)" by simp
  then have "bit (0xFDFFFFDF :: u32) k = bit (NOT (push_bit 5 1 OR push_bit 25 1 :: u32)) k" by (rule arg_cong)
  also have "\<dots> = (k \<noteq> 5 \<and> k \<noteq> 25)"
    using k by (auto simp: bit_and_iff bit_not_iff bit_push_bit_iff bit_or_iff bit_1_iff simp del: push_bit_of_1 push_bit_numeral push_bit_Suc_numeral)
  finally show "bit (0xFDFFFFDF :: u32) k \<longleftrightarrow> k \<noteq> 5 \<and> k \<noteq> 25" .
qed

text \<open>
  C14 A restart programs the watchdog in every state of the timers: the counter gets 100 milliseconds at the speed of the bus, the watchdog is
  reloaded, timer 3 and the watchdog are enabled and the interrupt of timer 3 is off. The other timers and all other registers keep their
  values.
\<close>

theorem system_reset_arms_watchdog:
  "plat_system_reset R CR_TIMER3_LDV = 100 * SYS_HCLK * 500 \<and> plat_system_reset R CR_WDOG_RLD = 1 \<and>
   (\<forall>k<32. bit (plat_system_reset R CR_TIMER_CTL) k = (if k = 5 \<or> k = 25 then True else if k = 21 then False else bit (R CR_TIMER_CTL) k)) \<and>
   (\<forall>a. a \<notin> {CR_TIMER3_LDV, CR_WDOG_RLD, CR_TIMER_CTL} \<longrightarrow> plat_system_reset R a = R a)"
proof -
  note defs = plat_system_reset_def timerSet_def timerCtlSet_def timerLdvSet_def timer_Configure_def timer_WatchDogConfigure_def
    CR_TIMER3_LDV_def CR_WDOG_RLD_def CR_TIMER_CTL_def TIMERTICKS_10MS_def SYS_HCLK_def
  have ctl: "plat_system_reset R CR_TIMER_CTL =
      (((R CR_TIMER_CTL OR push_bit 5 1) AND NOT (push_bit 21 1)) AND 0xFDFFFFDF) OR (push_bit 5 1 OR push_bit 25 1)"
    by (simp add: defs del: push_bit_of_1 push_bit_numeral push_bit_Suc_numeral)
  have "bit (plat_system_reset R CR_TIMER_CTL) k = (if k = 5 \<or> k = 25 then True else if k = 21 then False else bit (R CR_TIMER_CTL) k)" if "k < 32" for k
    unfolding ctl bit_or_iff bit_and_iff bit_wdog_mask[OF that] using that by (auto simp: bit_and_iff bit_not_iff bit_push_bit_iff bit_or_iff bit_1_iff
      simp del: push_bit_of_1 push_bit_numeral push_bit_Suc_numeral)
  then show ?thesis by (simp add: defs)
qed

text \<open>The counter value wraps around for long times, and every timer number writes the counter of timer 3.\<close>

lemma timerSet_counter_wraps: "timerSet 3 53688 1 0 R CR_TIMER3_LDV = 72704"
  by (simp add: timerSet_def timerCtlSet_def timerLdvSet_def timer_Configure_def CR_TIMER3_LDV_def CR_TIMER_CTL_def SYS_HCLK_def)


theorem system_reset_arms_watchdog_witness:
  "bit (plat_system_reset (\<lambda>_. 0x200004) CR_TIMER_CTL) 25 \<and> bit (plat_system_reset (\<lambda>_. 0x200004) CR_TIMER_CTL) 2 \<and>
   \<not> bit (plat_system_reset (\<lambda>_. 0x200004) CR_TIMER_CTL) 21 \<and> plat_system_reset (\<lambda>_. 0x200004) 0x1FBF0104 = 0x200004"
proof -
  have "bit (0x200004 :: u32) 2" by (simp add: bit_iff_odd)
  moreover have "(0x1FBF0104 :: u32) \<notin> {CR_TIMER3_LDV, CR_WDOG_RLD, CR_TIMER_CTL}" by (simp add: CR_TIMER3_LDV_def CR_WDOG_RLD_def CR_TIMER_CTL_def)
  ultimately show ?thesis using system_reset_arms_watchdog[of "\<lambda>_. 0x200004"] by simp
qed

end
