(* ===== verification/Led_Theorems.thy ===== *)
theory Led_Theorems
  imports Led Pm_Theorems
begin

text \<open>
  What the lamps do: each lamp is one bit of a data register, the blinking follows the clock, and what the start of the lamps makes of the
  environment.
\<close>

section \<open>One lamp\<close>

definition lamp_reg :: "u8 \<Rightarrow> u32" where "lamp_reg x = (if unat x < 32 then CR_GPIO_DATA else CR_GPIO_DATA1)"
definition lamp_bit :: "u8 \<Rightarrow> nat" where "lamp_bit x = (if unat x < 32 then unat x else unat x - 32)"

text \<open>The level of a pin, and whether its lamp shines.\<close>

definition lamp_level :: "led_state \<Rightarrow> u8 \<Rightarrow> bool" where "lamp_level s x = bit (lregs s (lamp_reg x)) (lamp_bit x)"
definition lit :: "led_state \<Rightarrow> u8 \<Rightarrow> bool" where "lit s x = (lamp_level s x = (gpio_active_high s ! unat x \<noteq> 0))"

definition set_level :: "u8 \<Rightarrow> bool \<Rightarrow> led_state \<Rightarrow> led_state" where
  "set_level x b s = s\<lparr>lregs := (lregs s)(lamp_reg x := if b then lregs s (lamp_reg x) OR 2 ^ lamp_bit x
     else lregs s (lamp_reg x) AND NOT (2 ^ lamp_bit x))\<rparr>"

lemma shl1_0: "n < 32 \<Longrightarrow> shl1 n 0 = Inr (2 ^ n)"
  by (simp add: shl1_def)

lemma turn_gpio:
  assumes "unat x < 64"
  shows "turn_high_gpio x s = Inr (set_level x True s)" "turn_low_gpio x s = Inr (set_level x False s)"
  using assms by (auto simp: turn_high_gpio_def turn_low_gpio_def reg_or_def reg_clr_def shl1_0 set_level_def lamp_reg_def lamp_bit_def Let_def)

lemma lamp_id: "lamp_reg x = lamp_reg y \<Longrightarrow> unat x < 64 \<Longrightarrow> unat y < 64 \<Longrightarrow> (lamp_bit x = lamp_bit y) = (x = y)"
  by (auto simp: lamp_reg_def lamp_bit_def CR_GPIO_DATA_def CR_GPIO_DATA1_def word_unat_eq_iff split: if_splits)

lemma lamp_bit_lt: "unat x < 64 \<Longrightarrow> lamp_bit x < 32"
  by (auto simp: lamp_bit_def)

lemma set_level_level:
  "unat x < 64 \<Longrightarrow> unat y < 64 \<Longrightarrow> lamp_level (set_level x b s) y = (if y = x then b else lamp_level s y)"
  using lamp_id[of y x] lamp_bit_lt[of y] by (auto simp: lamp_level_def set_level_def bit_set bit_clr)

lemma set_level_frame [simp]:
  "gpio_active_high (set_level x b s) = gpio_active_high s" "multi_upgrade_gpio (set_level x b s) = multi_upgrade_gpio s"
  "MultiUpgradeTag (set_level x b s) = MultiUpgradeTag s" "finishMultiUpgrade (set_level x b s) = finishMultiUpgrade s"
  "Jiffies (set_level x b s) = Jiffies s"
  by (simp_all add: set_level_def)

lemma led_switch:
  assumes "length (gpio_active_high s) = MAX_GPIO_NUM" "unat x < MAX_GPIO_NUM"
  shows "LED_ON x s = Inr (set_level x (gpio_active_high s ! unat x \<noteq> 0) s)"
    "LED_OFF x s = Inr (set_level x (gpio_active_high s ! unat x = 0) s)"
  using assms turn_gpio by (simp_all add: LED_ON_def LED_OFF_def MAX_GPIO_NUM_def)

section \<open>Blinking\<close>

definition lamps :: "led_state \<Rightarrow> u8 set" where "lamps s = set (multi_upgrade_gpio s) - {0}"

text \<open>The tables are complete and name only existing pins, and the upgrade is finished.\<close>

definition blink_ready :: "led_state \<Rightarrow> bool" where
  "blink_ready s \<longleftrightarrow> length (gpio_active_high s) = MAX_GPIO_NUM \<and> (\<forall>x\<in>lamps s. unat x < MAX_GPIO_NUM) \<and>
     finishMultiUpgrade s \<noteq> 0 \<and> MultiUpgradeTag s \<in> {0, 1}"

text \<open>What is left alone while the lamps are switched.\<close>

definition same_tables :: "led_state \<Rightarrow> led_state \<Rightarrow> bool" where
  "same_tables s s' \<longleftrightarrow> gpio_active_high s' = gpio_active_high s \<and> multi_upgrade_gpio s' = multi_upgrade_gpio s \<and>
     finishMultiUpgrade s' = finishMultiUpgrade s \<and> Jiffies s' = Jiffies s \<and> MultiUpgradeTag s' = MultiUpgradeTag s"

lemma lamps_loop_sets:
  assumes "f = (\<lambda>x. if on then LED_ON x else LED_OFF x)" "length (gpio_active_high s) = MAX_GPIO_NUM"
    "\<forall>x\<in>set xs - {0}. unat x < MAX_GPIO_NUM"
  shows "\<exists>s'. lamps_loop f xs s = Inr s' \<and> same_tables s s' \<and> (\<forall>x\<in>set xs - {0}. lit s' x = on) \<and>
    (\<forall>y. unat y < MAX_GPIO_NUM \<and> y \<notin> set xs - {0} \<longrightarrow> lamp_level s' y = lamp_level s y)"
  using assms(2,3)
proof (induction xs arbitrary: s)
  case (Cons x xs)
  show ?case
  proof (cases "x = 0")
    case True
    then show ?thesis using Cons by simp
  next
    case False
    let ?t = "set_level x ((gpio_active_high s ! unat x \<noteq> 0) = on) s"
    have x: "unat x < MAX_GPIO_NUM" using Cons.prems False by simp
    have f: "f x s = Inr ?t" using led_switch[OF Cons.prems(1) x] assms(1) by simp
    obtain s' where s': "lamps_loop f xs ?t = Inr s'" "same_tables ?t s'" "\<forall>x\<in>set xs - {0}. lit s' x = on"
      "\<forall>y. unat y < MAX_GPIO_NUM \<and> y \<notin> set xs - {0} \<longrightarrow> lamp_level s' y = lamp_level ?t y"
      using Cons.IH[of ?t] Cons.prems by auto
    have lev: "lamp_level ?t y = (if y = x then (gpio_active_high s ! unat x \<noteq> 0) = on else lamp_level s y)" if "unat y < MAX_GPIO_NUM" for y
      using set_level_level[of x y] x that by (simp add: MAX_GPIO_NUM_def)
    have "lit s' x = on"
    proof (cases "x \<in> set xs")
      case False
      then have "lamp_level s' x = ((gpio_active_high s ! unat x \<noteq> 0) = on)" using s'(4) x lev[OF x] by simp
      then show ?thesis using s'(2) by (auto simp: lit_def same_tables_def)
    qed (use s'(3) \<open>x \<noteq> 0\<close> in simp)
    moreover have "lamp_level s' y = lamp_level s y" if "unat y < MAX_GPIO_NUM" "y \<notin> set (x # xs) - {0}" for y
      using that s'(4) lev[OF that(1)] False by auto
    ultimately show ?thesis using s'(1-3) f False by (auto simp: same_tables_def)
  qed
qed (simp add: same_tables_def)


text \<open>All lamps show the phase.\<close>

definition follows :: "led_state \<Rightarrow> bool" where
  "follows s \<longleftrightarrow> (\<forall>x\<in>lamps s. lit s x = (MultiUpgradeTag s = 1))"

lemma blk_bit: "(j AND SYS_BLK_TIME \<noteq> 0) = bit j 4"
  using and_bit[of 4 j] by (simp add: SYS_BLK_TIME_def)

lemma follows_cong:
  assumes "same_tables s s'" "\<And>y. lamp_level s' y = lamp_level s y"
  shows "follows s' = follows s"
  using assms by (simp add: follows_def lamps_def lit_def same_tables_def)

lemma blink_step:
  assumes "blink_ready s"
  shows "\<exists>s'. multiupgrade_blink s = Inr s' \<and> blink_ready s' \<and> multi_upgrade_gpio s' = multi_upgrade_gpio s \<and> Jiffies s' = Jiffies s \<and>
    (MultiUpgradeTag s' = 1) = bit (Jiffies s) 4 \<and> (follows s \<or> MultiUpgradeTag s' \<noteq> MultiUpgradeTag s \<longrightarrow> follows s')"
proof -
  define on where "on = bit (Jiffies s) 4"
  have tab: "length (gpio_active_high s) = MAX_GPIO_NUM" "\<forall>x\<in>set (multi_upgrade_gpio s) - {0}. unat x < MAX_GPIO_NUM"
    "finishMultiUpgrade s \<noteq> 0" "MultiUpgradeTag s = 0 \<or> MultiUpgradeTag s = 1"
    using assms unfolding blink_ready_def lamps_def by auto
  show ?thesis
  proof (cases "(MultiUpgradeTag s = 1) = on")
    case True
    then have "multiupgrade_blink s = Inr s" using tab(3,4) unfolding multiupgrade_blink_def blk_bit on_def by auto
    then show ?thesis using True assms on_def by auto
  next
    case False
    obtain s' where s': "lamps_loop (\<lambda>x. if on then LED_ON x else LED_OFF x) (multi_upgrade_gpio s) s = Inr s'" "same_tables s s'"
      "\<forall>x\<in>set (multi_upgrade_gpio s) - {0}. lit s' x = on"
      using lamps_loop_sets[OF refl tab(1,2), of on] by blast
    have sw: "(\<lambda>x. if on then LED_ON x else LED_OFF x) = (if on then LED_ON else LED_OFF)" by auto
    let ?s = "s'\<lparr>MultiUpgradeTag := if on then 1 else 0\<rparr>"
    have "multiupgrade_blink s = Inr ?s"
      using False tab(3,4) s'(1) unfolding multiupgrade_blink_def blk_bit on_def[symmetric] sw by auto
    moreover have "follows ?s" "blink_ready ?s"
      using s'(2,3) assms by (auto simp: follows_def lit_def lamp_level_def lamps_def same_tables_def blink_ready_def)
    ultimately show ?thesis using s'(2) on_def by (auto simp: same_tables_def)
  qed
qed

lemma tick_step:
  assumes "blink_ready s"
  shows "\<exists>s'. timer_interrupt s = Inr s' \<and> blink_ready s' \<and> multi_upgrade_gpio s' = multi_upgrade_gpio s \<and> Jiffies s' = Jiffies s + 1 \<and>
    (MultiUpgradeTag s' = 1) = bit (Jiffies s') 4 \<and> (follows s \<or> MultiUpgradeTag s' \<noteq> MultiUpgradeTag s \<longrightarrow> follows s')"
proof -
  let ?s = "s\<lparr>lregs := (lregs s)(CR_TIMER_CTL := (lregs s CR_TIMER_CTL AND 0xFFC0FFFF) OR 0x00040000), Jiffies := Jiffies s + 1\<rparr>"
  have "lamp_reg y \<noteq> CR_TIMER_CTL" for y by (simp add: lamp_reg_def CR_TIMER_CTL_def CR_GPIO_DATA_def CR_GPIO_DATA1_def)
  then have "lamp_level ?s y = lamp_level s y" for y by (simp add: lamp_level_def)
  then have "follows ?s = follows s" by (simp add: follows_def lamps_def lit_def)
  moreover have "blink_ready ?s" using assms by (simp add: blink_ready_def lamps_def)
  ultimately show ?thesis using blink_step[of ?s] unfolding timer_interrupt_def Let_def by auto
qed

lemma ticks_run:
  assumes "blink_ready s"
  shows "\<exists>s'. ticks n s = Inr s' \<and> blink_ready s' \<and> multi_upgrade_gpio s' = multi_upgrade_gpio s \<and> Jiffies s' = Jiffies s + of_nat n \<and>
    (n > 0 \<longrightarrow> (MultiUpgradeTag s' = 1) = bit (Jiffies s') 4)"
proof (induction n)
  case (Suc n)
  then obtain s' where "ticks n s = Inr s'" "blink_ready s'" "multi_upgrade_gpio s' = multi_upgrade_gpio s" "Jiffies s' = Jiffies s + of_nat n"
    by blast
  then show ?case using tick_step[of s'] by (auto simp: add.assoc add.commute)
qed (use assms in simp)

text \<open>Once the lamps show the phase, they keep showing it; a change of the phase makes them show it.\<close>

lemma ticks_follow:
  assumes "blink_ready s" "ticks n s = Inr s'" "ticks (Suc n) s = Inr s''" "follows s' \<or> MultiUpgradeTag s'' \<noteq> MultiUpgradeTag s'"
  shows "follows s''"
proof -
  have "blink_ready s'" "timer_interrupt s' = Inr s''" using ticks_run[OF assms(1), of n] assms(2,3) by auto
  then show ?thesis using tick_step[of s'] assms(4) by auto
qed

lemma ticks_keep_following:
  assumes "blink_ready s" "ticks m s = Inr t" "follows t" "m \<le> n" "ticks n s = Inr t'"
  shows "follows t'"
  using assms(4,5)
proof (induction n arbitrary: t' rule: dec_induct)
  case base
  then show ?case using assms by simp
next
  case (step n)
  obtain u where "ticks n s = Inr u" using ticks_run[OF assms(1), of n] by blast
  then show ?case using ticks_follow[OF assms(1)] step by blast
qed

lemma phase_flips: "bit (j + 16) 4 \<noteq> bit j 4" for j :: u32
proof -
  have b: "bit w 4 = odd (unat w div 16)" for w :: u32
    using bit_unsigned_iff[where ?'a = nat, of w 4] bit_imp_le_length[of w 4] by (auto simp: bit_iff_odd)
  have u: "unat (j + 16) = (unat j + 16) mod 2 ^ 32" by (simp add: unat_word_ariths)
  have lt: "unat j < 2 ^ 32" using unsigned_less[of j] by simp
  have "odd (unat (j + 16) div 16) \<noteq> odd (unat j div 16)"
  proof (cases "unat j + 16 < 2 ^ 32")
    case True
    then have "unat (j + 16) div 16 = unat j div 16 + 1" using u by simp
    then show ?thesis by simp
  next
    case False
    then have "unat j div 16 = 2 ^ 28 - 1" "unat (j + 16) div 16 = 0" using u lt by (auto simp: mod_if)
    then show ?thesis by simp
  qed
  then show ?thesis unfolding b .
qed

text \<open>Among the ticks 1 to 17 the phase changes.\<close>

lemma phase_change: "\<exists>k. 1 \<le> k \<and> k \<le> 16 \<and> bit (j + of_nat (Suc k)) 4 \<noteq> bit (j + of_nat k) 4" for j :: u32
proof (rule ccontr)
  assume "\<not> ?thesis"
  then have eq: "bit (j + of_nat (Suc k)) 4 = bit (j + of_nat k) 4" if "1 \<le> k" "k \<le> 16" for k using that by blast
  have "bit (j + of_nat (1 + k)) 4 = bit (j + of_nat 1) 4" if "k \<le> 16" for k
    using that
  proof (induction k)
    case (Suc k)
    then show ?case using eq[of "1 + k"] by simp
  qed simp
  from this[of 16] have "bit (j + 1 + 16) 4 = bit (j + 1) 4" by (simp add: add.assoc)
  then show False using phase_flips[of "j + 1"] by simp
qed

text \<open>
  C12 After a finished upgrade the lamps blink, whatever they showed before: no interrupt fails, and from the seventeenth on every configured
  lamp shines exactly while bit 4 of the clock is set, also when the clock wraps around.
\<close>

theorem blinking_follows_clock:
  assumes "blink_ready s" "n \<ge> 17"
  shows "\<exists>s'. ticks n s = Inr s' \<and> Jiffies s' = Jiffies s + of_nat n \<and> lamps s' = lamps s \<and>
    (\<forall>x\<in>lamps s'. lit s' x = bit (Jiffies s + of_nat n) 4)"
proof -
  obtain k where k: "1 \<le> k" "k \<le> 16" "bit (Jiffies s + of_nat (Suc k)) 4 \<noteq> bit (Jiffies s + of_nat k) 4"
    using phase_change by blast
  obtain t where t: "ticks k s = Inr t" "Jiffies t = Jiffies s + of_nat k" "(MultiUpgradeTag t = 1) = bit (Jiffies t) 4"
    using ticks_run[OF assms(1), of k] k(1) by auto
  obtain u where u: "ticks (Suc k) s = Inr u" "Jiffies u = Jiffies s + of_nat (Suc k)" "(MultiUpgradeTag u = 1) = bit (Jiffies u) 4"
    using ticks_run[OF assms(1), of "Suc k"] by blast
  have "MultiUpgradeTag u \<noteq> MultiUpgradeTag t" using k(3) t(2,3) u(2,3) by metis
  then have "follows u" using ticks_follow[OF assms(1) t(1) u(1)] by blast
  moreover obtain s' where s': "ticks n s = Inr s'" "multi_upgrade_gpio s' = multi_upgrade_gpio s" "Jiffies s' = Jiffies s + of_nat n"
      "(MultiUpgradeTag s' = 1) = bit (Jiffies s') 4"
    using ticks_run[OF assms(1), of n] assms(2) by auto
  ultimately have "follows s'" using ticks_keep_following[OF assms(1) u(1) _ _ s'(1)] k(2) assms(2) by linarith
  then show ?thesis using s' by (auto simp: follows_def lamps_def)
qed


definition led_sample :: led_state where
  "led_sample = \<lparr>lregs = (\<lambda>_. 0), gpio_active_high = replicate 64 0, multi_upgrade_gpio = [0x0B, 2, 4] @ replicate 13 0, internet_gpio = 2,
     dsl_gpio = 4, MultiUpgradeTag = 0, finishMultiUpgrade = 1, Jiffies = 0xFFFFFFF8\<rparr>"

theorem blinking_follows_clock_witness:
  "\<exists>s'. ticks 24 led_sample = Inr s' \<and> Jiffies s' = 16 \<and> lit s' 11 \<and> lit s' 2 \<and> lit s' 4"
proof -
  have r: "blink_ready led_sample" by (auto simp: blink_ready_def led_sample_def lamps_def MAX_GPIO_NUM_def)
  have j: "Jiffies led_sample + of_nat 24 = 16" and l: "lamps led_sample = {11, 2, 4}"
    by (auto simp: led_sample_def lamps_def)
  have b: "bit (16 :: u32) 4" by (simp add: bit_iff_odd)
  show ?thesis using blinking_follows_clock[OF r, of 24, unfolded j l] b by auto
qed

section \<open>Start\<close>

definition flag_of :: "char \<Rightarrow> u8" where "flag_of c = (if c = CHR ''1'' then 1 else 0)"
definition hexpair :: "char \<Rightarrow> char \<Rightarrow> u8" where "hexpair a b = of_nat (16 * digit_value a + digit_value b)"

lemma NUL_stop: "\<not> isxdigit NUL"
  by (simp add: isxdigit_def isdigit_def NUL_def)

lemma x_no_digit: "isxdigit c \<Longrightarrow> c \<noteq> CHR ''x''"
  by (auto simp: isxdigit_def isdigit_def)

lemma digit_0: "digit_value (CHR ''0'') = 0"
  by (simp add: digit_value_def isdigit_def)

lemma digit_lt_16: "isxdigit c \<Longrightarrow> digit_value c < 16"
  by (auto simp: isxdigit_def digit_value_def isdigit_def)

lemma binary_digit: "isxdigit c \<and> digit_value c < 2 \<longleftrightarrow> c = CHR ''0'' \<or> c = CHR ''1''"
proof
  assume "isxdigit c \<and> digit_value c < 2"
  then have "(of_char c :: nat) = of_char (CHR ''0'') \<or> (of_char c :: nat) = of_char (CHR ''1'')"
    by (auto simp: isxdigit_def isdigit_def digit_value_def split: if_splits)
  then show "c = CHR ''0'' \<or> c = CHR ''1''" unfolding of_char_eq_iff .
qed (auto simp: isxdigit_def isdigit_def digit_value_def)


lemma flag_parse: "strtoul_array [c, NUL] 2 = Inr (ucast (flag_of c))"
proof (cases "c = CHR ''0''")
  case True
  then show ?thesis using NUL_stop by (simp add: strtoul_end_def flag_of_def) (simp add: NUL_def)
next
  case False
  have "digit_value (CHR ''1'') = 1" by (simp add: digit_value_def isdigit_def)
  then show ?thesis using False binary_digit[of c] NUL_stop by (auto simp: strtoul_end_def flag_of_def)
qed

lemma pair_parse:
  assumes "isxdigit a" "isxdigit b" "\<not> isxdigit c"
  shows "strtoul_array (a # b # c # cs) 16 = Inr (of_nat (16 * digit_value a + digit_value b))"
  using assms digit_lt_16[OF assms(1)] digit_lt_16[OF assms(2)] digit_0 x_no_digit[OF assms(2)]
  by (auto simp: strtoul_end_def mult.commute)

lemma ucast_pair: "ucast (of_nat n :: u64) = (of_nat n :: u8)"
  by transfer (simp add: take_bit_take_bit)

lemma ucast_flag: "ucast (ucast (f :: u8) :: u64) = f"
  by transfer (simp add: take_bit_take_bit)

lemma active_high_loop_table:
  assumes "length h = 64" "length tab = 64" "i + n = 64"
  shows "\<exists>tab'. active_high_loop h n i tab = Inr tab' \<and> length tab' = 64 \<and>
    (\<forall>k<64. tab' ! k = (if k < n then flag_of (h ! (63 - k)) else tab ! k))"
  using assms(2,3)
proof (induction n arbitrary: i tab)
  case (Suc n)
  have c: "char_at h i = Inr (h ! i)" using Suc.prems assms(1) by (simp add: char_at_def nth_append)
  have idx: "MAX_GPIO_NUM - i - 1 = n" using Suc.prems by (simp add: MAX_GPIO_NUM_def)
  let ?tab = "tab[n := flag_of (h ! i)]"
  have step: "active_high_loop h (Suc n) i tab = active_high_loop h n (i + 1) ?tab"
    unfolding active_high_loop.simps c flag_parse res_bind_simps ucast_flag idx by (rule refl)
  obtain tab' where t: "active_high_loop h n (i + 1) ?tab = Inr tab'" "length tab' = 64"
    "\<forall>k<64. tab' ! k = (if k < n then flag_of (h ! (63 - k)) else ?tab ! k)"
    using Suc.IH[of ?tab "i + 1"] Suc.prems by auto
  have "i = 63 - n" using Suc.prems by simp
  then have "\<forall>k<64. tab' ! k = (if k < Suc n then flag_of (h ! (63 - k)) else tab ! k)"
    using t(3) Suc.prems by (auto simp: less_Suc_eq)
  then show ?case using t(1,2) step by simp
qed simp

lemma active_high_table:
  assumes "length h = 64" "length tab = 64"
  shows "active_high_loop h MAX_GPIO_NUM 0 tab = Inr (map flag_of (rev h))"
proof -
  obtain tab' where t: "active_high_loop h 64 0 tab = Inr tab'" "length tab' = 64" "\<forall>k<64. tab' ! k = flag_of (h ! (63 - k))"
    using active_high_loop_table[OF assms, of 0 64] by auto
  have "tab' = map flag_of (rev h)"
    using t(2,3) assms(1) by (intro nth_equalityI) (simp_all add: rev_nth)
  then show ?thesis using t(1) by (simp add: MAX_GPIO_NUM_def)
qed

lemma multi_gpio_loop_table:
  assumes "length m = 32" "\<forall>x\<in>set m. isxdigit x" "\<not> isxdigit c" "length tab = 16" "i + n = 16"
  shows "\<exists>tab'. multi_gpio_loop (c # cs) m n i tab = Inr tab' \<and> length tab' = 16 \<and>
    (\<forall>k<16. tab' ! k = (if i \<le> k then hexpair (m ! (2 * k)) (m ! (2 * k + 1)) else tab ! k))"
  using assms(4,5)
proof (induction n arbitrary: i tab)
  case (Suc n)
  have i: "i < 16" using Suc.prems by simp
  have c: "char_at m (2 * i) = Inr (m ! (2 * i))" "char_at m (2 * i + 1) = Inr (m ! (2 * i + 1))"
    using i assms(1) by (simp_all add: char_at_def nth_append)
  have x: "isxdigit (m ! (2 * i))" "isxdigit (m ! (2 * i + 1))" using i assms(1,2) by simp_all
  let ?tab = "tab[i := hexpair (m ! (2 * i)) (m ! (2 * i + 1))]"
  have step: "multi_gpio_loop (c # cs) m (Suc n) i tab = multi_gpio_loop (c # cs) m n (i + 1) ?tab"
    unfolding multi_gpio_loop.simps c res_bind_simps append_Cons append_Nil pair_parse[OF x assms(3)] ucast_pair hexpair_def by (rule refl)
  obtain tab' where t: "multi_gpio_loop (c # cs) m n (i + 1) ?tab = Inr tab'" "length tab' = 16"
    "\<forall>k<16. tab' ! k = (if i + 1 \<le> k then hexpair (m ! (2 * k)) (m ! (2 * k + 1)) else ?tab ! k)"
    using Suc.IH[of ?tab "i + 1"] Suc.prems by auto
  have "\<forall>k<16. tab' ! k = (if i \<le> k then hexpair (m ! (2 * k)) (m ! (2 * k + 1)) else tab ! k)"
    using t(3) Suc.prems i by (auto simp: nth_list_update not_le le_less Suc_le_eq)
  then show ?case using t(1,2) step by simp
qed simp

lemma multi_gpio_table:
  assumes "length m = 32" "\<forall>x\<in>set m. isxdigit x" "\<not> isxdigit c" "length tab = 16"
  shows "multi_gpio_loop (c # cs) m MAXMULTILEDNUM 0 tab = Inr (map (\<lambda>k. hexpair (m ! (2 * k)) (m ! (2 * k + 1))) [0..<16])"
proof -
  obtain tab' where t: "multi_gpio_loop (c # cs) m 16 0 tab = Inr tab'" "length tab' = 16"
    "\<forall>k<16. tab' ! k = hexpair (m ! (2 * k)) (m ! (2 * k + 1))"
    using multi_gpio_loop_table[OF assms, of 0 16] by auto
  have "tab' = map (\<lambda>k. hexpair (m ! (2 * k)) (m ! (2 * k + 1))) [0..<16]"
    using t(2,3) by (intro nth_equalityI) simp_all
  then show ?thesis using t(1) by (simp add: MAXMULTILEDNUM_def)
qed


lemma LED_OEN_frame:
  assumes "unat x < 64"
  shows "\<exists>R. LED_OEN x s = Inr (s\<lparr>lregs := R\<rparr>) \<and> R CR_GPIO_DATA = lregs s CR_GPIO_DATA \<and> R CR_GPIO_DATA1 = lregs s CR_GPIO_DATA1"
  using assms by (auto simp: LED_OEN_def Let_def reg_or_def shl1_0 CR_GPIO_DATA_def CR_GPIO_DATA1_def CR_GPIO_CTRL_def CR_GPIO_CTRL1_def
    CR_GPIO_CTRL2_def CR_GPIO_CTRL3_def CR_GPIO_ODRAIN_def CR_GPIO_ODRAIN1_def)

lemma LAN_LED_disable_levels: "lamp_level (s\<lparr>lregs := LAN_LED_disable new_soc (lregs s)\<rparr>) y = lamp_level s y"
  by (simp add: lamp_level_def lamp_reg_def LAN_LED_disable_def Let_def IOMUX_1_def CR_GPIO_CTRL_def CR_GPIO_DATA_def CR_GPIO_DATA1_def)

lemma power_led_init_drives:
  assumes "env ''power_gpio'' = Some t" "length t \<ge> 2" "env_num (Some (drop 2 t)) = Inr pin" "unat pin < 64" "length (gpio_active_high s) = 64"
  shows "\<exists>R. power_led_init env s = Inr (s\<lparr>lregs := R\<rparr>) \<and> lamp_level (s\<lparr>lregs := R\<rparr>) pin = (gpio_active_high s ! unat pin \<noteq> 0)"
proof -
  obtain R where R: "LED_OEN pin s = Inr (s\<lparr>lregs := R\<rparr>)" using LED_OEN_frame[OF assms(4)] by blast
  let ?s = "s\<lparr>lregs := R\<rparr>"
  have "LED_ON pin ?s = Inr (set_level pin (gpio_active_high s ! unat pin \<noteq> 0) ?s)"
    using led_switch(1)[of ?s pin] assms(4,5) by (simp add: MAX_GPIO_NUM_def)
  then have "power_led_init env s = Inr (set_level pin (gpio_active_high s ! unat pin \<noteq> 0) ?s)"
    using assms(1-3) R by (simp add: power_led_init_def)
  moreover have "set_level pin b ?s = s\<lparr>lregs := lregs (set_level pin b ?s)\<rparr>" for b by (simp add: set_level_def)
  ultimately show ?thesis using set_level_level[OF assms(4,4), of "gpio_active_high s ! unat pin \<noteq> 0" ?s] by metis
qed

text \<open>
  C13 With complete variables in the environment the start of the lamps succeeds and fills the tables: the polarity of pin p is the character at
  63 - p, the lamps of the upgrade are the pairs of digits, provided that the character behind the local array is not a hexadecimal digit. The
  power lamp, however, is switched with the polarity from before: after a reset the table is zero, so the lamp shines only when it is not
  configured as active high.
\<close>

theorem led_init_configures_lamps:
  assumes "env ''power_gpio'' = Some t" "length t \<ge> 2" "env_num (Some (drop 2 t)) = Inr pin" "unat pin < 64"
    "env ''gpio_active_high'' = Some h" "length h = 64" "env ''multi_upgrade_gpio'' = Some m" "length m = 32" "\<forall>x\<in>set m. isxdigit x"
    "env_num (env ''internet_gpio'') = Inr inet" "env_num (env ''dsl_gpio'') = Inr dsl" "\<not> isxdigit c"
    "gpio_active_high s = replicate 64 0" "length (multi_upgrade_gpio s) = 16"
  shows "\<exists>R. let s' = s\<lparr>lregs := R, gpio_active_high := map flag_of (rev h),
      multi_upgrade_gpio := map (\<lambda>k. hexpair (m ! (2 * k)) (m ! (2 * k + 1))) [0..<16], internet_gpio := inet, dsl_gpio := dsl\<rparr>
    in led_init slt new_soc (c # cs) env s = Inr s' \<and> lit s' pin = (h ! (63 - unat pin) \<noteq> CHR ''1'')"
proof -
  obtain R where R: "power_led_init env s = Inr (s\<lparr>lregs := R\<rparr>)" "\<not> lamp_level (s\<lparr>lregs := R\<rparr>) pin"
    using power_led_init_drives[of env t pin s] assms(1-4,13) by auto
  define R' where "R' = (if slt then R else LAN_LED_disable new_soc R)"
  have lan: "lan_led_init slt new_soc env (s\<lparr>lregs := R\<rparr>) = Inr (s\<lparr>lregs := R', gpio_active_high := map flag_of (rev h)\<rparr>)"
    using active_high_table[of h "gpio_active_high s"] assms(5,6,13) by (simp add: lan_led_init_def R'_def)
  let ?s = "s\<lparr>lregs := R', gpio_active_high := map flag_of (rev h),
    multi_upgrade_gpio := map (\<lambda>k. hexpair (m ! (2 * k)) (m ! (2 * k + 1))) [0..<16], internet_gpio := inet, dsl_gpio := dsl\<rparr>"
  have "led_init slt new_soc (c # cs) env s = Inr ?s"
    using R(1) lan multi_gpio_table[OF assms(8,9,12,14), of cs] assms(7,10,11) by (simp add: led_init_def multiupgrade_led_init_def)
  moreover have "lamp_level ?s pin = lamp_level (s\<lparr>lregs := R\<rparr>) pin"
    using LAN_LED_disable_levels[of new_soc "s\<lparr>lregs := R\<rparr>" pin] by (simp add: R'_def lamp_level_def)
  then have "lit ?s pin = (h ! (63 - unat pin) \<noteq> CHR ''1'')"
    using R(2) assms(4,6) by (simp add: lit_def rev_nth flag_of_def)
  ultimately show ?thesis unfolding Let_def by blast
qed

text \<open>When the byte behind the array is a digit, it replaces the first digit of every entry.\<close>

lemma pair_parse_overrun:
  assumes "isxdigit a" "isxdigit b" "isxdigit c" "\<not> isxdigit d"
  shows "strtoul_array (a # b # c # d # cs) 16 = Inr (of_nat (256 * digit_value a + 16 * digit_value b + digit_value c))"
  using assms digit_lt_16[OF assms(1)] digit_lt_16[OF assms(2)] digit_lt_16[OF assms(3)] digit_0 x_no_digit[OF assms(2)]
  by (auto simp: strtoul_end_def algebra_simps)


definition env_sample :: "string \<rightharpoonup> string" where
  "env_sample = [''power_gpio'' \<mapsto> ''1515'', ''gpio_active_high'' \<mapsto> replicate 64 (CHR ''1''),
     ''multi_upgrade_gpio'' \<mapsto> ''0b020400000000000000000000000000'', ''internet_gpio'' \<mapsto> ''02'', ''dsl_gpio'' \<mapsto> ''04'']"

theorem led_init_configures_lamps_witness:
  "\<exists>s'. led_init False True [NUL] env_sample led_sample = Inr s' \<and> \<not> lit s' 21 \<and> gpio_active_high s' = replicate 64 1"
proof -
  let ?m = "''0b020400000000000000000000000000''"
  have env: "env_sample ''power_gpio'' = Some ''1515''" "env_sample ''gpio_active_high'' = Some (replicate 64 (CHR ''1''))"
    "env_sample ''multi_upgrade_gpio'' = Some ?m" "env_sample ''internet_gpio'' = Some ''02''" "env_sample ''dsl_gpio'' = Some ''04''"
    by (simp_all add: env_sample_def)
  have dig: "isxdigit (CHR ''0'')" "isxdigit (CHR ''1'')" "isxdigit (CHR ''2'')" "isxdigit (CHR ''4'')" "isxdigit (CHR ''5'')" "isxdigit (CHR ''b'')"
    "digit_value (CHR ''1'') = 1" "digit_value (CHR ''2'') = 2" "digit_value (CHR ''4'') = 4" "digit_value (CHR ''5'') = 5"
    by (simp_all add: isxdigit_def isdigit_def digit_value_def)
  have num: "env_num (Some [a, b]) = Inr (hexpair a b)" if "isxdigit a" "isxdigit b" for a b
    unfolding env_num_def option.case append_Cons append_Nil pair_parse[OF that NUL_stop] res_bind_simps ucast_pair hexpair_def by (rule refl)
  have n: "env_num (Some (drop 2 ''1515'')) = Inr 21" "env_num (env_sample ''internet_gpio'') = Inr 2" "env_num (env_sample ''dsl_gpio'') = Inr 4"
    using num dig env(4,5) digit_0 by (simp_all add: hexpair_def)
  have m: "length ?m = 32" "\<forall>x\<in>set ?m. isxdigit x" using dig by simp_all
  have len: "2 \<le> length ''1515''" "unat (21 :: u8) < 64" "length (replicate 64 (CHR ''1'')) = 64"
    "gpio_active_high led_sample = replicate 64 0" "length (multi_upgrade_gpio led_sample) = 16" by (simp_all add: led_sample_def)
  show ?thesis
    using led_init_configures_lamps[OF env(1) len(1) n(1) len(2) env(2) len(3) env(3) m n(2,3) NUL_stop len(4,5), of False True "[]"]
    by (auto simp: Let_def flag_of_def)
qed

end
