(* ===== verification/Crc32.thy ===== *)
theory Crc32
  imports Prelude
begin

text \<open>
  The checksum CRC-32 without final complement: crc32buf of the image tool (tools/trx/trx.c), which runs over the bytes with a table, and
  crc32\_no\_comp of the boot loader (lib/crc32.c), which after aligning its pointer takes four bytes at a time. The generator of
  the table (make\_crc\_table, used by builds with DYNAMIC\_CRC\_TABLE) is the link between the tables and the polynomial. Processors
  are little-endian.

  Shown are the agreement of the two with the bitwise definition for every alignment and length, that a text followed by its checksum has the checksum 0,
  and that the checksum changes with any change inside four consecutive bytes.
\<close>

section \<open>Tables\<close>

definition crc_32_tab :: "u32 list" where
  "crc_32_tab =
    [0x00000000, 0x77073096, 0xee0e612c, 0x990951ba, 0x076dc419, 0x706af48f, 0xe963a535, 0x9e6495a3,
     0x0edb8832, 0x79dcb8a4, 0xe0d5e91e, 0x97d2d988, 0x09b64c2b, 0x7eb17cbd, 0xe7b82d07, 0x90bf1d91,
     0x1db71064, 0x6ab020f2, 0xf3b97148, 0x84be41de, 0x1adad47d, 0x6ddde4eb, 0xf4d4b551, 0x83d385c7,
     0x136c9856, 0x646ba8c0, 0xfd62f97a, 0x8a65c9ec, 0x14015c4f, 0x63066cd9, 0xfa0f3d63, 0x8d080df5,
     0x3b6e20c8, 0x4c69105e, 0xd56041e4, 0xa2677172, 0x3c03e4d1, 0x4b04d447, 0xd20d85fd, 0xa50ab56b,
     0x35b5a8fa, 0x42b2986c, 0xdbbbc9d6, 0xacbcf940, 0x32d86ce3, 0x45df5c75, 0xdcd60dcf, 0xabd13d59,
     0x26d930ac, 0x51de003a, 0xc8d75180, 0xbfd06116, 0x21b4f4b5, 0x56b3c423, 0xcfba9599, 0xb8bda50f,
     0x2802b89e, 0x5f058808, 0xc60cd9b2, 0xb10be924, 0x2f6f7c87, 0x58684c11, 0xc1611dab, 0xb6662d3d,
     0x76dc4190, 0x01db7106, 0x98d220bc, 0xefd5102a, 0x71b18589, 0x06b6b51f, 0x9fbfe4a5, 0xe8b8d433,
     0x7807c9a2, 0x0f00f934, 0x9609a88e, 0xe10e9818, 0x7f6a0dbb, 0x086d3d2d, 0x91646c97, 0xe6635c01,
     0x6b6b51f4, 0x1c6c6162, 0x856530d8, 0xf262004e, 0x6c0695ed, 0x1b01a57b, 0x8208f4c1, 0xf50fc457,
     0x65b0d9c6, 0x12b7e950, 0x8bbeb8ea, 0xfcb9887c, 0x62dd1ddf, 0x15da2d49, 0x8cd37cf3, 0xfbd44c65,
     0x4db26158, 0x3ab551ce, 0xa3bc0074, 0xd4bb30e2, 0x4adfa541, 0x3dd895d7, 0xa4d1c46d, 0xd3d6f4fb,
     0x4369e96a, 0x346ed9fc, 0xad678846, 0xda60b8d0, 0x44042d73, 0x33031de5, 0xaa0a4c5f, 0xdd0d7cc9,
     0x5005713c, 0x270241aa, 0xbe0b1010, 0xc90c2086, 0x5768b525, 0x206f85b3, 0xb966d409, 0xce61e49f,
     0x5edef90e, 0x29d9c998, 0xb0d09822, 0xc7d7a8b4, 0x59b33d17, 0x2eb40d81, 0xb7bd5c3b, 0xc0ba6cad,
     0xedb88320, 0x9abfb3b6, 0x03b6e20c, 0x74b1d29a, 0xead54739, 0x9dd277af, 0x04db2615, 0x73dc1683,
     0xe3630b12, 0x94643b84, 0x0d6d6a3e, 0x7a6a5aa8, 0xe40ecf0b, 0x9309ff9d, 0x0a00ae27, 0x7d079eb1,
     0xf00f9344, 0x8708a3d2, 0x1e01f268, 0x6906c2fe, 0xf762575d, 0x806567cb, 0x196c3671, 0x6e6b06e7,
     0xfed41b76, 0x89d32be0, 0x10da7a5a, 0x67dd4acc, 0xf9b9df6f, 0x8ebeeff9, 0x17b7be43, 0x60b08ed5,
     0xd6d6a3e8, 0xa1d1937e, 0x38d8c2c4, 0x4fdff252, 0xd1bb67f1, 0xa6bc5767, 0x3fb506dd, 0x48b2364b,
     0xd80d2bda, 0xaf0a1b4c, 0x36034af6, 0x41047a60, 0xdf60efc3, 0xa867df55, 0x316e8eef, 0x4669be79,
     0xcb61b38c, 0xbc66831a, 0x256fd2a0, 0x5268e236, 0xcc0c7795, 0xbb0b4703, 0x220216b9, 0x5505262f,
     0xc5ba3bbe, 0xb2bd0b28, 0x2bb45a92, 0x5cb36a04, 0xc2d7ffa7, 0xb5d0cf31, 0x2cd99e8b, 0x5bdeae1d,
     0x9b64c2b0, 0xec63f226, 0x756aa39c, 0x026d930a, 0x9c0906a9, 0xeb0e363f, 0x72076785, 0x05005713,
     0x95bf4a82, 0xe2b87a14, 0x7bb12bae, 0x0cb61b38, 0x92d28e9b, 0xe5d5be0d, 0x7cdcefb7, 0x0bdbdf21,
     0x86d3d2d4, 0xf1d4e242, 0x68ddb3f8, 0x1fda836e, 0x81be16cd, 0xf6b9265b, 0x6fb077e1, 0x18b74777,
     0x88085ae6, 0xff0f6a70, 0x66063bca, 0x11010b5c, 0x8f659eff, 0xf862ae69, 0x616bffd3, 0x166ccf45,
     0xa00ae278, 0xd70dd2ee, 0x4e048354, 0x3903b3c2, 0xa7672661, 0xd06016f7, 0x4969474d, 0x3e6e77db,
     0xaed16a4a, 0xd9d65adc, 0x40df0b66, 0x37d83bf0, 0xa9bcae53, 0xdebb9ec5, 0x47b2cf7f, 0x30b5ffe9,
     0xbdbdf21c, 0xcabac28a, 0x53b39330, 0x24b4a3a6, 0xbad03605, 0xcdd70693, 0x54de5729, 0x23d967bf,
     0xb3667a2e, 0xc4614ab8, 0x5d681b02, 0x2a6f2b94, 0xb40bbe37, 0xc30c8ea1, 0x5a05df1b, 0x2d02ef8d]"

text \<open>The table in lib/crc32.c has the same entries.\<close>

definition crc_table :: "u32 list" where "crc_table = crc_32_tab"

definition crc_poly :: u32 where
  "crc_poly = foldl (\<lambda>poly p. poly OR push_bit (31 - p) 1) 0 [0, 1, 2, 4, 5, 7, 8, 10, 11, 12, 16, 22, 23, 26]"

definition crc_step :: "u32 \<Rightarrow> u32" where
  "crc_step c = (if c AND 1 \<noteq> 0 then crc_poly XOR drop_bit 1 c else drop_bit 1 c)"

definition make_crc_table :: "u32 list" where
  "make_crc_table = map (\<lambda>n. (crc_step ^^ 8) (of_nat n)) [0..<256]"

section \<open>The image tool\<close>

definition UPDC32 :: "u8 \<Rightarrow> u32 \<Rightarrow> u32" where
  "UPDC32 octet crc = crc_32_tab ! unat ((crc XOR ucast octet) AND 0xFF) XOR drop_bit 8 crc"

definition crc32buf :: "bytes \<Rightarrow> u32" where
  "crc32buf buf = foldl (\<lambda>crc octet. UPDC32 octet crc) 0xFFFFFFFF buf"

section \<open>The boot loader\<close>

definition DO_CRC :: "u32 \<Rightarrow> u32 \<Rightarrow> u32" where
  "DO_CRC x crc = crc_table ! unat ((crc XOR x) AND 255) XOR drop_bit 8 crc"

text \<open>The bytes up to the next address that is a multiple of four; the rest of the buffer is returned with the checksum.\<close>

fun align_loop :: "u64 \<Rightarrow> u32 \<Rightarrow> bytes \<Rightarrow> u32 \<times> bytes" where
  "align_loop p crc [] = (crc, [])"
| "align_loop p crc (x # xs) =
    (let crc1 = DO_CRC (ucast x) crc
     in if xs \<noteq> [] \<and> (p + 1) AND 3 \<noteq> 0 then align_loop (p + 1) crc1 xs else (crc1, xs))"

fun word_loop :: "u32 \<Rightarrow> bytes \<Rightarrow> u32 \<times> bytes" where
  "word_loop crc (a # b # c # d # xs) = word_loop (DO_CRC 0 (DO_CRC 0 (DO_CRC 0 (DO_CRC 0 (crc XOR rd32 [a, b, c, d]))))) xs"
| "word_loop crc xs = (crc, xs)"

definition crc32_no_comp :: "u64 \<Rightarrow> u32 \<Rightarrow> bytes \<Rightarrow> u32" where
  "crc32_no_comp b crc buf =
    (let (crc1, buf1) = (if b AND 3 \<noteq> 0 \<and> buf \<noteq> [] then align_loop b crc buf else (crc, buf));
         (crc2, buf2) = word_loop crc1 buf1
     in foldl (\<lambda>crc x. DO_CRC (ucast x) crc) crc2 buf2)"

definition crc32_comp :: "u64 \<Rightarrow> u32 \<Rightarrow> bytes \<Rightarrow> u32" where
  "crc32_comp b crc buf = crc32_no_comp b (crc XOR 0xFFFFFFFF) buf XOR 0xFFFFFFFF"

section \<open>The bitwise definition\<close>

definition crc_byte :: "u32 \<Rightarrow> u8 \<Rightarrow> u32" where
  "crc_byte c x = (crc_step ^^ 8) (c XOR ucast x)"

definition crc_ref :: "u32 \<Rightarrow> bytes \<Rightarrow> u32" where
  "crc_ref = foldl crc_byte"

lemma crc_poly_value: "crc_poly = 0xEDB88320"
  by (simp add: crc_poly_def)

text \<open>One step of the register is linear, so the table is generated by its entries at the powers of two.\<close>

lemma crc_step_xor: "crc_step (a XOR b) = crc_step a XOR crc_step b"
proof -
  have "(a XOR b) AND 1 \<noteq> 0 \<longleftrightarrow> (a AND 1 \<noteq> 0) \<noteq> (b AND 1 \<noteq> 0)"
    by (simp add: and_one_eq odd_iff_mod_2_eq_one[symmetric] bit_0[symmetric] bit_xor_iff)
  then show ?thesis
    by (auto simp: crc_step_def drop_bit_xor xor.assoc xor.left_commute)
qed

lemma crc_steps_xor: "(crc_step ^^ n) (a XOR b) = (crc_step ^^ n) a XOR (crc_step ^^ n) b"
  by (induction n) (simp_all add: crc_step_xor)

lemma crc_step_0 [simp]: "(crc_step ^^ n) 0 = 0"
  by (induction n) (simp_all add: crc_step_def)

abbreviation steps8 :: "u32 \<Rightarrow> u32" where "steps8 \<equiv> crc_step ^^ 8"

lemma of_nat_xor:
  assumes "n < 2 ^ k" "k < 32"
  shows "of_nat (2 ^ k + n) = (2 ^ k :: u32) XOR of_nat n"
proof -
  have "take_bit k n = n" using assms(1) by (rule take_bit_nat_eq_self)
  then have "bit n j \<Longrightarrow> j < k" for j by (metis bit_take_bit_iff)
  then have "(2 ^ k :: u32) AND of_nat n = 0" by (intro bit_word_eqI) (auto simp: bit_simps)
  then show ?thesis by (simp add: disjunctive_xor_eq_or disjunctive_add_eq_or)
qed

lemma table_double:
  assumes "k < 32"
  shows "map (\<lambda>n. steps8 (of_nat n)) [0..<2 ^ Suc k]
     = map (\<lambda>n. steps8 (of_nat n)) [0..<2 ^ k] @ map ((XOR) (steps8 (2 ^ k))) (map (\<lambda>n. steps8 (of_nat n)) [0..<2 ^ k])"
proof -
  have "[0..<2 ^ Suc k] = [0..<2 ^ k] @ map (\<lambda>n. 2 ^ k + n) [0..<2 ^ k]"
    using upt_add_eq_append[of 0 "2 ^ k" "2 ^ k"] map_add_upt[of "2 ^ k" "2 ^ k"] by (simp add: mult_2 add.commute)
  then show ?thesis using assms by (simp add: of_nat_xor crc_steps_xor del: power_Suc of_nat_add of_nat_power)
qed

lemma steps8_unfold: "steps8 c = crc_step (crc_step (crc_step (crc_step (crc_step (crc_step (crc_step (crc_step c)))))))"
  by (simp add: numeral_eq_Suc)

lemma table_basis:
  "steps8 1 = 0x77073096" "steps8 2 = 0xee0e612c" "steps8 4 = 0x076dc419" "steps8 8 = 0x0edb8832"
  "steps8 16 = 0x1db71064" "steps8 32 = 0x3b6e20c8" "steps8 64 = 0x76dc4190" "steps8 128 = 0xedb88320"
  unfolding steps8_unfold by (simp_all add: crc_step_def crc_poly_value)

lemma table_correct: "make_crc_table = crc_32_tab"
proof -
  have 0: "map (\<lambda>n. steps8 (of_nat n)) [0..<2 ^ 0] = [0]" by simp
  note d = table_double[of 0, unfolded 0] table_double[of 1] table_double[of 2] table_double[of 3]
    table_double[of 4] table_double[of 5] table_double[of 6] table_double[of 7]
  have e: "Suc 0 = 1" "Suc 1 = 2" "Suc 2 = 3" "Suc 3 = 4" "Suc 4 = 5" "Suc 5 = 6" "Suc 6 = 7" "Suc 7 = 8" "(256 :: nat) = 2 ^ 8" by simp_all
  have p: "(2 ^ 0 :: u32) = 1" "(2 ^ 1 :: u32) = 2" "(2 ^ 2 :: u32) = 4" "(2 ^ 3 :: u32) = 8" "(2 ^ 4 :: u32) = 16" "(2 ^ 5 :: u32) = 32" "(2 ^ 6 :: u32) = 64" "(2 ^ 7 :: u32) = 128" by simp_all
  have l: "(0 :: nat) < 32" "(1 :: nat) < 32" "(2 :: nat) < 32" "(3 :: nat) < 32" "(4 :: nat) < 32" "(5 :: nat) < 32" "(6 :: nat) < 32" "(7 :: nat) < 32" by simp_all
  note t1 = d(1)[OF l(1), unfolded e p table_basis] and t2 = d(2)[OF l(2), unfolded e p table_basis] and t3 = d(3)[OF l(3), unfolded e p table_basis]
    and t4 = d(4)[OF l(4), unfolded e p table_basis] and t5 = d(5)[OF l(5), unfolded e p table_basis] and t6 = d(6)[OF l(6), unfolded e p table_basis]
    and t7 = d(7)[OF l(7), unfolded e p table_basis] and t8 = d(8)[OF l(8), unfolded e p table_basis]
  show ?thesis unfolding make_crc_table_def e(9) t8 t7 t6 t5 t4 t3 t2 t1 crc_32_tab_def by simp
qed

lemma steps_even: "take_bit n c = 0 \<Longrightarrow> (crc_step ^^ n) c = drop_bit n c"
proof (induction n arbitrary: c)
  case (Suc n)
  have z: "\<not> bit c j" if "j < Suc n" for j using Suc.prems that by (metis bit_take_bit_iff bit_0_eq bot_apply bot_bool_def)
  have "c AND 1 = 0" using z[of 0] by (simp add: and_one_eq bit_0 odd_iff_mod_2_eq_one)
  then have "crc_step c = drop_bit 1 c" by (simp add: crc_step_def)
  moreover have "take_bit n (drop_bit 1 c) = 0" using z by (intro bit_word_eqI) (auto simp: bit_simps)
  ultimately show ?case using Suc.IH[of "drop_bit 1 c"] by (simp add: funpow_swap1[symmetric] funpow_Suc_right del: funpow.simps)
qed simp

lemma table_entry:
  assumes "unat w < 256"
  shows "crc_32_tab ! unat w = steps8 w"
proof -
  have "crc_32_tab ! unat w = steps8 (of_nat (unat w))"
    unfolding table_correct[symmetric] make_crc_table_def using assms by (simp del: upt_rec_numeral)
  then show ?thesis by simp
qed

lemma steps8_table: "steps8 c = crc_32_tab ! unat (c AND 0xFF) XOR drop_bit 8 c"
proof -
  have m: "(0xFF :: u32) = mask 8" by (simp add: mask_eq_exp_minus_1)
  have "c = (c AND mask 8) XOR (c AND NOT (mask 8))" by (intro bit_word_eqI) (auto simp: bit_simps)
  then have "steps8 c = steps8 (c AND mask 8) XOR steps8 (c AND NOT (mask 8))" by (metis crc_steps_xor)
  moreover have "take_bit 8 (c AND NOT (mask 8)) = 0" by (intro bit_word_eqI) (auto simp: bit_simps)
  then have "steps8 (c AND NOT (mask 8)) = drop_bit 8 (c AND NOT (mask 8))" by (rule steps_even)
  moreover have "drop_bit 8 (c AND NOT (mask 8)) = drop_bit 8 c" by (intro bit_word_eqI) (auto simp: bit_simps dest: bit_imp_le_length)
  moreover have "unat (c AND mask 8) < 256" unfolding take_bit_eq_mask[symmetric] using take_bit_nat_less_exp[of 8 "unat c"] by (simp add: unsigned_take_bit_eq)
  ultimately show ?thesis unfolding m by (simp only: table_entry)
qed

lemma drop_byte: "drop_bit 8 (c XOR ucast (x :: u8)) = drop_bit 8 (c :: u32)"
  by (intro bit_word_eqI) (auto simp: bit_simps dest: bit_imp_le_length)

lemma UPDC32_eq: "UPDC32 x c = crc_byte c x"
  unfolding UPDC32_def crc_byte_def steps8_table[of "c XOR ucast x"] drop_byte ..

lemma DO_CRC_eq: "DO_CRC (ucast (x :: u8)) c = crc_byte c x" "DO_CRC 0 c = steps8 c"
  using UPDC32_eq[of x c] steps8_table[of c] by (simp_all add: DO_CRC_def UPDC32_def crc_table_def)

lemma rd32_xor: "rd32 [a, b, c, d] = ucast a XOR (push_bit 8 (ucast b) XOR (push_bit 16 (ucast c) XOR push_bit 24 (ucast d)))"
  by (intro bit_word_eqI) (auto simp: rd32_def bit_simps dest: bit_imp_le_length)

lemma steps8_push: "steps8 (push_bit (8 + n) (ucast (x :: u8))) = push_bit n (ucast x)" if "n \<le> 16"
proof -
  have "take_bit 8 (push_bit (8 + n) (ucast x) :: u32) = 0" by (intro bit_word_eqI) (auto simp: bit_simps)
  then have "steps8 (push_bit (8 + n) (ucast x)) = drop_bit 8 (push_bit (8 + n) (ucast x))" by (rule steps_even)
  also have "\<dots> = push_bit n (ucast x)" using that by (intro bit_word_eqI) (auto simp: bit_simps dest: bit_imp_le_length)
  finally show ?thesis .
qed

text \<open>Four bytes at a time.\<close>

lemma four_bytes: "crc_byte (crc_byte (crc_byte (crc_byte r a) b) c) d = steps8 (steps8 (steps8 (steps8 (r XOR rd32 [a, b, c, d]))))"
proof -
  have "steps8 (r XOR rd32 [a, b, c, d]) = crc_byte r a XOR (ucast b XOR (push_bit 8 (ucast c) XOR push_bit 16 (ucast d)))"
    using steps8_push[of 0 b] steps8_push[of 8 c] steps8_push[of 16 d] by (simp add: rd32_xor crc_steps_xor crc_byte_def xor.assoc)
  then have "steps8 (steps8 (r XOR rd32 [a, b, c, d])) = crc_byte (crc_byte r a) b XOR (ucast c XOR push_bit 8 (ucast d))"
    using steps8_push[of 0 c] steps8_push[of 8 d] by (simp add: crc_steps_xor crc_byte_def xor.assoc)
  then have "steps8 (steps8 (steps8 (r XOR rd32 [a, b, c, d]))) = crc_byte (crc_byte (crc_byte r a) b) c XOR ucast d"
    using steps8_push[of 0 d] by (simp add: crc_steps_xor crc_byte_def xor.assoc)
  then show ?thesis by (simp add: crc_byte_def)
qed

lemma crc_ref_simps [simp]: "crc_ref c [] = c" "crc_ref c (x # xs) = crc_ref (crc_byte c x) xs" "crc_ref c (xs @ ys) = crc_ref (crc_ref c xs) ys"
  by (simp_all add: crc_ref_def)

lemma align_loop_ref: "align_loop p crc buf = (crc1, buf1) \<Longrightarrow> crc_ref crc buf = crc_ref crc1 buf1"
  by (induction p crc buf rule: align_loop.induct) (auto simp: DO_CRC_eq Let_def split: if_splits)

lemma word_loop_ref: "word_loop crc buf = (crc1, buf1) \<Longrightarrow> crc_ref crc buf = crc_ref crc1 buf1"
  by (induction crc buf rule: word_loop.induct) (auto simp: DO_CRC_eq four_bytes)

lemma fold_UPDC32: "foldl (\<lambda>crc octet. UPDC32 octet crc) c xs = crc_ref c xs"
  by (simp add: UPDC32_eq crc_ref_def)

lemma no_comp_ref: "crc32_no_comp b crc buf = crc_ref crc buf"
proof -
  obtain crc1 buf1 where 1: "(if b AND 3 \<noteq> 0 \<and> buf \<noteq> [] then align_loop b crc buf else (crc, buf)) = (crc1, buf1)" by force
  obtain crc2 buf2 where 2: "word_loop crc1 buf1 = (crc2, buf2)" by force
  have "crc_ref crc buf = crc_ref crc1 buf1" using 1 align_loop_ref[of b crc buf] by (auto split: if_splits)
  also have "\<dots> = crc_ref crc2 buf2" using 2 by (rule word_loop_ref)
  also have "\<dots> = foldl (\<lambda>crc x. DO_CRC (ucast x) crc) crc2 buf2" by (simp add: DO_CRC_eq crc_ref_def)
  finally show ?thesis unfolding crc32_no_comp_def 1 2 Let_def by (simp add: 2)
qed

lemma crc32buf_ref: "crc32buf buf = crc_ref 0xFFFFFFFF buf"
  by (simp add: crc32buf_def fold_UPDC32)

section \<open>What the checksum detects\<close>

text \<open>A text followed by its checksum has the checksum 0.\<close>

lemma crc_ref_le32: "crc_ref c (le32 c) = 0"
proof -
  obtain w x y z where b: "le32 c = [w, x, y, z]" by (simp add: le32_def)
  then have "rd32 [w, x, y, z] = c" by (metis rd32_le32)
  then show ?thesis unfolding b by (simp add: four_bytes)
qed

lemma crc_residue: "crc_ref c (xs @ le32 (crc_ref c xs)) = 0"
  by (simp add: crc_ref_le32)

text \<open>A step loses nothing: the bit that is shifted out is the highest bit of the result.\<close>

lemma crc_step_msb: "bit (crc_step c) 31 = bit c 0"
proof -
  have "bit (0xEDB88320 :: u32) 31" by simp
  moreover have "\<not> bit (drop_bit 1 c) 31" by (auto simp: bit_drop_bit_eq dest: bit_imp_le_length)
  moreover have "c AND 1 \<noteq> 0 \<longleftrightarrow> bit c 0" by (simp add: and_one_eq bit_0 odd_iff_mod_2_eq_one)
  ultimately show ?thesis unfolding crc_step_def crc_poly_value by (simp add: bit_xor_iff)
qed

lemma crc_step_eq_0: "crc_step c = 0 \<Longrightarrow> c = 0"
proof (rule bit_word_eqI)
  fix n assume z: "crc_step c = 0" and n: "n < LENGTH(32)"
  have b0: "\<not> bit c 0" using crc_step_msb[of c] z by simp
  then have "c AND 1 = 0" by (simp add: and_one_eq bit_0 odd_iff_mod_2_eq_one)
  then have "drop_bit 1 c = 0" using z by (simp add: crc_step_def)
  moreover have "bit c (Suc m) = bit (drop_bit 1 c) m" for m by (simp add: bit_drop_bit_eq)
  ultimately have "\<not> bit c (Suc m)" for m by simp
  then show "bit c n = bit 0 n" using b0 by (cases n) auto
qed

lemma crc_steps_inj: "(crc_step ^^ n) a = (crc_step ^^ n) b \<Longrightarrow> a = b"
proof -
  have z: "(crc_step ^^ n) c = 0 \<Longrightarrow> c = 0" for c by (induction n) (auto dest: crc_step_eq_0)
  assume "(crc_step ^^ n) a = (crc_step ^^ n) b"
  then have "(crc_step ^^ n) (a XOR b) = 0" by (simp add: crc_steps_xor)
  then have "a XOR b = 0" by (rule z)
  then have "a XOR b = b XOR b" by (simp only: xor_self_eq)
  then show "a = b" by (rule xor_cancel(2))
qed

lemma crc_ref_inj: "crc_ref a xs = crc_ref b xs \<Longrightarrow> a = b"
proof (induction xs arbitrary: a b)
  case (Cons x xs)
  have "crc_byte a x = crc_byte b x" using Cons.prems by (intro Cons.IH[of "crc_byte a x" "crc_byte b x"]) simp
  then have "(crc_step ^^ 8) (a XOR ucast x) = (crc_step ^^ 8) (b XOR ucast x)" by (simp only: crc_byte_def)
  then have "a XOR ucast x = b XOR ucast x" by (rule crc_steps_inj)
  then show ?case by (rule xor_cancel(2))
qed simp

lemma crc_burst:
  assumes "length m = 4" "length m' = 4" "crc_ref c (xs @ m @ ys) = crc_ref c (xs @ m' @ ys)"
  shows "m = m'"
proof -
  obtain a1 a2 a3 a4 where m: "m = [a1, a2, a3, a4]" using assms(1) by (auto simp: numeral_eq_Suc length_Suc_conv)
  obtain b1 b2 b3 b4 where m': "m' = [b1, b2, b3, b4]" using assms(2) by (auto simp: numeral_eq_Suc length_Suc_conv)
  let ?r = "crc_ref c xs"
  have "crc_ref (crc_ref ?r m) ys = crc_ref (crc_ref ?r m') ys" using assms(3) by simp
  then have "crc_ref ?r m = crc_ref ?r m'" by (rule crc_ref_inj)
  then have "steps8 (steps8 (steps8 (steps8 (?r XOR rd32 m)))) = steps8 (steps8 (steps8 (steps8 (?r XOR rd32 m'))))" by (simp add: m m' four_bytes)
  then have "?r XOR rd32 m = ?r XOR rd32 m'" by (blast dest: crc_steps_inj)
  then have "rd32 m = rd32 m'" by (rule xor_cancel(1))
  moreover have "le32 (rd32 [w, x, y, z]) = [w, x, y, z]" for w x y z
    unfolding le32_def rd32_def by (auto intro!: bit_word_eqI simp: bit_simps) (drule bit_imp_le_length; simp)+
  ultimately show ?thesis unfolding m m' by (metis (no_types))
qed

section \<open>The theorem\<close>

text \<open>
  C7 The optimised checksum routines compute the same function: crc32\_no\_comp of the boot loader, for every alignment of its pointer, every start value and every length,
  equals the bitwise shift register of the polynomial, although it takes four bytes at a time and uses a table; crc32buf of the image tool is the same
  function started with all ones; and the table that both contain is the one make\_crc\_table generates.
\<close>

theorem crc32_implementations_agree:
  "crc32_no_comp b crc buf = crc_ref crc buf \<and> crc32buf buf = crc32_no_comp b 0xFFFFFFFF buf \<and> make_crc_table = crc_32_tab"
  by (simp add: no_comp_ref crc32buf_ref table_correct)

end
