(* ===== verification/Trx.thy ===== *)
theory Trx
  imports Crc32 Cstring
begin

text \<open>
  The image tool trx (tools/trx/trx.c), which puts a header with length and checksum in front of a kernel image, and the checksum into a boot image.

  The options and their arguments are what getopt delivers; the argument of a numeric option is the result of strtoul, None for an illegal numeric string,
  or that of atoi. Files are lists of bytes. The block from malloc is not initialised, so its contents are a parameter, as are those of
  the array config\_file and of the variable is\_pad. The host is little-endian with 64-bit sizes. After the block was moved by realloc the pointer to the header
  refers to the old block; a write through it is the fault OutOfBounds, as is every access outside a block. The builds with TCSUPPORT\_BB\_256KB,
  with TCSUPPORT\_BL2\_OPTIMIZATION and with a secure header inside the header are not modelled. The first malloc and the writes to opened
  files succeed. Messages have no counterpart.
\<close>

section \<open>State\<close>

record trx_env =
  files :: "string \<Rightarrow> bytes option"
  can_write :: "string \<Rightarrow> bool"
  TCSUPPORT_LITTLE_ENDIAN :: bool
  malloc_block :: bytes
  realloc_block :: "nat \<Rightarrow> bytes \<Rightarrow> bytes option"
  realloc_moves :: "nat \<Rightarrow> bytes \<Rightarrow> bool"
  config_garbage :: string
  is_pad_garbage :: u64
  reserved_garbage :: bytes
  TCBOOT_SIZE :: nat

record trx_state =
  tbuf :: bytes
  t_maxlen :: u64
  cur_len :: u32
  need_padding :: bool
  t_in :: bool
  t_out :: "string option"
  config_file :: string
  p_dangling :: bool

datatype trx_exit = EXIT_SUCCESS | EXIT_FAILURE

text \<open>A step continues, or ends the program with the files it has written; None is the standard output.\<close>

datatype trx_step = Run trx_state | Quit trx_exit "(string option \<times> bytes) list"

abbreviation (input) usage :: "fault + trx_step" where "usage \<equiv> Inr (Quit EXIT_FAILURE [])"

definition TRX_MAX_LEN :: nat where "TRX_MAX_LEN = 0x8000000"
definition TRX_MAGIC :: u32 where "TRX_MAGIC = 0x30524448"
definition TRX_MAGIC1 :: u32 where "TRX_MAGIC1 = 0x31524448"
definition TRX_MAGIC2 :: u32 where "TRX_MAGIC2 = 0x32524448"
definition TRX_MAGIC3 :: u32 where "TRX_MAGIC3 = 0x33524448"

text \<open>The header has 256 bytes; the offsets of its fields.\<close>

definition sizeof_trx_header :: nat where "sizeof_trx_header = 256"

definition bswap_32 :: "u32 \<Rightarrow> u32" where "bswap_32 x = rd32 (rev (le32 x))"

definition STORE32_LE :: "trx_env \<Rightarrow> u32 \<Rightarrow> u32" where
  "STORE32_LE E x = (if TCSUPPORT_LITTLE_ENDIAN E then x else bswap_32 x)"

definition put_bytes :: "nat \<Rightarrow> bytes \<Rightarrow> trx_state \<Rightarrow> fault + trx_state" where
  "put_bytes off dat s =
    (if p_dangling s \<or> length (tbuf s) < off + length dat then Inl OutOfBounds
     else Inr (s\<lparr>tbuf := memcpy (tbuf s) off dat\<rparr>))"

definition put_field :: "trx_env \<Rightarrow> nat \<Rightarrow> u32 \<Rightarrow> trx_state \<Rightarrow> fault + trx_state" where
  "put_field E off v = put_bytes off (le32 (STORE32_LE E v))"

text \<open>memset(buf + cur\_len, 0, n) and the new length.\<close>

definition append_zeros :: "nat \<Rightarrow> trx_state \<Rightarrow> fault + trx_state" where
  "append_zeros n s =
    (if length (tbuf s) < unat (cur_len s) + n then Inl OutOfBounds
     else Inr (s\<lparr>tbuf := memcpy (tbuf s) (unat (cur_len s)) (replicate n 0), cur_len := cur_len s + of_nat n\<rparr>))"

section \<open>Options that build the image\<close>

datatype trx_opt = Opt_k u32 | Opt_r u32 | Opt_d u32 | Opt_p | Opt_c string | Opt_f string | Opt_o string
  | Opt_m "u64 option" | Opt_a "u64 option" | Opt_b "u64 option" | Opt_u "u64 option" | Opt_s u32
  | Opt_t string "nat option" | Opt_x string string "u64 option" | Opt_g | Opt_h | Opt_y string string | Opt_z | Opt_other

definition file_magic :: "string \<Rightarrow> u32 option" where
  "file_magic name =
    (if strstr name ''linux.7z'' \<noteq> None then Some TRX_MAGIC
     else if strstr name ''rootfs'' \<noteq> None then Some TRX_MAGIC1
     else if strstr name ''tclinux'' \<noteq> None then Some TRX_MAGIC2
     else if strstr name ''romfile.cfg'' \<noteq> None \<or> strstr name ''romfile_f.cfg'' \<noteq> None \<or> strstr name ''romfile_epon.cfg'' \<noteq> None \<or> strstr name ''romfile_'' \<noteq> None
          then Some TRX_MAGIC3
     else None)"

text \<open>The bytes to the next multiple of round.\<close>

definition pad_len :: "nat \<Rightarrow> nat \<Rightarrow> nat" where
  "pad_len round n = (if n mod round \<noteq> 0 then round - n mod round else 0)"

text \<open>fread sets the end of file only when the file is shorter than the room.\<close>

definition opt_file :: "trx_env \<Rightarrow> string \<Rightarrow> trx_state \<Rightarrow> fault + trx_step" where
  "opt_file E name s =
    res_bind (case file_magic name of None \<Rightarrow> Inr s | Some v \<Rightarrow> put_field E 0 v s) (\<lambda>s1.
      case files E name of
        None \<Rightarrow> usage
      | Some dat \<Rightarrow>
          let room = unat (t_maxlen s1 - ucast (cur_len s1)); n = min (length dat) room
          in if length (tbuf s1) < unat (cur_len s1) + n then Inl OutOfBounds
             else if room \<le> length dat then Inr (Quit EXIT_FAILURE [])
             else let s2 = s1\<lparr>tbuf := memcpy (tbuf s1) (unat (cur_len s1)) dat, cur_len := cur_len s1 + of_nat n, t_in := True\<rparr>
                  in res_bind (append_zeros (pad_len (if need_padding s2 then 4 else 1) n) s2) (\<lambda>s3. Inr (Run s3)))"

definition opt_maxlen :: "trx_env \<Rightarrow> u64 option \<Rightarrow> trx_state \<Rightarrow> fault + trx_step" where
  "opt_maxlen E arg s =
    (case arg of
      None \<Rightarrow> usage
    | Some v \<Rightarrow>
        let maxlen = (if v AND 3 \<noteq> 0 then v + (4 - (v AND 3)) else v)
        in if maxlen < 4 then usage
           else case realloc_block E (unat maxlen) (tbuf s) of
                  None \<Rightarrow> Inr (Quit EXIT_FAILURE [])
                | Some blk \<Rightarrow> Inr (Run (s\<lparr>t_maxlen := maxlen, tbuf := blk, p_dangling := p_dangling s \<or> realloc_moves E (unat maxlen) (tbuf s)\<rparr>)))"

definition opt_align :: "u64 option \<Rightarrow> trx_state \<Rightarrow> fault + trx_step" where
  "opt_align arg s =
    (case arg of
      None \<Rightarrow> usage
    | Some n \<Rightarrow>
        let r = ucast (cur_len s) AND (n - 1)
        in if r = 0 then Inr (Run s)
           else if r > n then usage
           else res_bind (append_zeros (unat (n - r)) s) (\<lambda>s1. Inr (Run s1)))"

definition opt_offset :: "u64 option \<Rightarrow> trx_state \<Rightarrow> fault + trx_step" where
  "opt_offset arg s =
    (case arg of
      None \<Rightarrow> usage
    | Some n \<Rightarrow> if n < ucast (cur_len s) then Inr (Run s)
                else res_bind (append_zeros (unat (n - ucast (cur_len s))) s) (\<lambda>s1. Inr (Run s1)))"

definition set_field :: "trx_env \<Rightarrow> nat \<Rightarrow> u32 \<Rightarrow> trx_state \<Rightarrow> fault + trx_step" where
  "set_field E off v s = res_bind (put_field E off v s) (\<lambda>s1. Inr (Run s1))"

section \<open>The configuration file\<close>

text \<open>fgets: at most 255 characters up to the end of the line.\<close>

definition fgets_take :: "string \<Rightarrow> string" where
  "fgets_take t =
    (let l = take 255 t in if CHR 0x0A \<in> set l then takeWhile (\<lambda>c. c \<noteq> CHR 0x0A) l @ [CHR 0x0A] else l)"

lemma fgets_take_length [simp]: "t \<noteq> [] \<Longrightarrow> 0 < length (fgets_take t)"
  by (simp add: fgets_take_def Let_def)

function fgets_lines :: "string \<Rightarrow> string list" where
  "fgets_lines t = (if t = [] then [] else fgets_take t # fgets_lines (drop (length (fgets_take t)) t))"
  by pat_completeness auto
termination
  by (relation "measure length") (auto simp: fgets_take_def Let_def)

declare fgets_lines.simps [simp del]

text \<open>The first line that contains the key; its field, to which strncpy has written, is size bytes long.\<close>

fun config_value :: "string \<Rightarrow> string list \<Rightarrow> string option" where
  "config_value key [] = None"
| "config_value key (l # ls) =
    (case strstr (c_str l) (key @ ''='') of
      Some t \<Rightarrow> Some (drop (length key + 1) t)
    | None \<Rightarrow> config_value key ls)"

definition get_config :: "trx_env \<Rightarrow> string \<Rightarrow> nat \<Rightarrow> nat \<Rightarrow> trx_state \<Rightarrow> fault + trx_state" where
  "get_config E key off name_size s =
    (case files E (config_file s) of
      None \<Rightarrow> Inr s
    | Some dat \<Rightarrow>
        (case config_value key (fgets_lines (map (\<lambda>b. char_of (unat b)) dat)) of
          None \<Rightarrow> Inr s
        | Some v \<Rightarrow> put_bytes off (take name_size (map of_char v @ replicate name_size 0)) s))"

section \<open>Writing the image\<close>

definition trx_finish :: "trx_env \<Rightarrow> trx_state \<Rightarrow> fault + trx_step" where
  "trx_finish E s =
    (if \<not> t_in s then usage
     else res_bind (append_zeros (pad_len (if need_padding s then 0x1000 else 1) (unat (cur_len s))) s) (\<lambda>s1.
          if length (tbuf s1) < unat (cur_len s1) \<or> unat (cur_len s1) < sizeof_trx_header then Inl OutOfBounds
          else res_bind (put_field E 12 (crc32buf (slice sizeof_trx_header (unat (cur_len s1 - of_nat sizeof_trx_header)) (tbuf s1))) s1) (\<lambda>s2.
               res_bind (put_field E 4 (of_nat sizeof_trx_header) s2) (\<lambda>s3.
               res_bind (if files E (config_file s3) \<noteq> None
                         then res_bind (get_config E ''Model'' 92 32 s3) (\<lambda>s4.
                              res_bind (get_config E ''version'' 16 32 s4) (get_config E ''customerversion'' 48 32))
                         else Inr s3) (\<lambda>s5.
               res_bind (put_field E 8 (cur_len s5) s5) (\<lambda>s6.
               Inr (Quit EXIT_SUCCESS [(t_out s6, take (unat (cur_len s6)) (tbuf s6))])))))))"

section \<open>Options that end the program\<close>

text \<open>-t: the checksum of the first cal\_len - 4 bytes goes behind them; the file is written to tcboot.bin.\<close>

definition seal_boot :: "trx_env \<Rightarrow> string \<Rightarrow> nat option \<Rightarrow> trx_state \<Rightarrow> fault + trx_step" where
  "seal_boot E name arg s =
    (case files E name of
      None \<Rightarrow> usage
    | Some dat \<Rightarrow>
        if length dat > TRX_MAX_LEN then Inr (Quit EXIT_FAILURE [])
        else if \<not> can_write E ''tcboot.bin'' then usage
        else let cal_len = (case arg of Some n \<Rightarrow> n | None \<Rightarrow> TCBOOT_SIZE E)
             in if length (tbuf s) < length dat \<or> cal_len < 4 \<or> length (tbuf s) < cal_len then Inl OutOfBounds
                else let b1 = memcpy (tbuf s) 0 dat;
                         tcboot_crc32 = STORE32_LE E (crc32buf (take (cal_len - 4) b1));
                         b2 = memcpy b1 (cal_len - 4) (le32 tcboot_crc32)
                     in Inr (Quit EXIT_SUCCESS [(Some ''tcboot.bin'', take (length dat) b2)]))"

text \<open>-x: the checksum is appended, or with is\_pad = 1 replaces the last four bytes.\<close>

definition append_crc :: "trx_env \<Rightarrow> string \<Rightarrow> string \<Rightarrow> u64 option \<Rightarrow> trx_state \<Rightarrow> fault + trx_step" where
  "append_crc E name out arg s =
    (case files E name of
      None \<Rightarrow> usage
    | Some dat \<Rightarrow>
        if length dat > TRX_MAX_LEN then Inr (Quit EXIT_FAILURE [])
        else if length (tbuf s) < length dat + 4 then Inl OutOfBounds
        else if \<not> can_write E out then usage
        else let is_pad = (case arg of Some n \<Rightarrow> n | None \<Rightarrow> is_pad_garbage E);
                 b1 = memcpy (memset (tbuf s) 0 0 (length dat + 4)) 0 dat
             in if is_pad = 1 \<and> length dat < 4 then Inl OutOfBounds
                else let n = (if is_pad = 1 then length dat - 4 else length dat);
                         b2 = memcpy b1 n (le32 (STORE32_LE E (crc32buf (take n b1))))
                     in Inr (Quit EXIT_SUCCESS [(Some out, take (n + 4) b2)]))"

text \<open>-g and -h: the checksum is appended to a file of a fixed name, most significant byte first.\<close>

definition append_allinone :: "trx_env \<Rightarrow> string \<Rightarrow> trx_state \<Rightarrow> fault + trx_step" where
  "append_allinone E name s =
    (case files E name of
      None \<Rightarrow> usage
    | Some dat \<Rightarrow>
        if length (tbuf s) < length dat + 4 then Inl OutOfBounds
        else Inr (Quit EXIT_SUCCESS [(Some name, dat @ rev (le32 (STORE32_LE E (crc32buf dat))))]))"

text \<open>-y: eight copies of a second-stage loader, each behind a header of 28 bytes and its checksum. Four bytes of the header are not set.\<close>

definition multi_bl2_header :: "trx_env \<Rightarrow> bytes \<Rightarrow> bytes" where
  "multi_bl2_header E dat =
    le32 0xAA640001 @ le32 (STORE32_LE E (crc32buf (take (length dat - 32) dat))) @ le32 1 @ replicate 12 0 @ take 4 (reserved_garbage E @ replicate 4 0)"

fun bl2_copies :: "trx_env \<Rightarrow> bytes \<Rightarrow> nat list \<Rightarrow> bytes \<Rightarrow> bytes" where
  "bl2_copies E dat [] b = b"
| "bl2_copies E dat (i # js) b =
    (let base = 0x20000 * i; hdr = multi_bl2_header E dat;
         b1 = memset b base 0 0x800;
         b2 = memcpy b1 (0x800 + base) hdr;
         b3 = memcpy b2 (28 + 0x800 + base) (le32 (STORE32_LE E (crc32buf hdr)))
     in bl2_copies E dat js (memcpy b3 (28 + 4 + 0x800 + base) (take (length dat - 31) dat)))"

definition multi_boot :: "trx_env \<Rightarrow> string \<Rightarrow> string \<Rightarrow> trx_state \<Rightarrow> fault + trx_step" where
  "multi_boot E name out s =
    (case files E name of
      None \<Rightarrow> usage
    | Some dat \<Rightarrow>
        if \<not> can_write E out then usage
        else if length dat < 32 \<or> length (tbuf s) < 0x20000 * 7 + 0x820 + (length dat - 31) \<or> length (tbuf s) < 0x20000 * 8 then Inl OutOfBounds
        else Inr (Quit EXIT_SUCCESS [(Some out, take (0x20000 * 8) (bl2_copies E dat [0..<8] (memcpy (tbuf s) 0 (take (length dat - 31) dat))))]))"

section \<open>The program\<close>

definition trx_option :: "trx_env \<Rightarrow> trx_opt \<Rightarrow> trx_state \<Rightarrow> fault + trx_step" where
  "trx_option E opt s =
    (case opt of
      Opt_k v \<Rightarrow> set_field E 80 v s
    | Opt_r v \<Rightarrow> set_field E 84 v s
    | Opt_d v \<Rightarrow> set_field E 88 v s
    | Opt_p \<Rightarrow> Inr (Run (s\<lparr>need_padding := True\<rparr>))
    | Opt_c name \<Rightarrow> Inr (Run (s\<lparr>config_file := take 127 name\<rparr>))
    | Opt_f name \<Rightarrow> opt_file E name s
    | Opt_o name \<Rightarrow> if can_write E name then Inr (Run (s\<lparr>t_out := Some name\<rparr>)) else usage
    | Opt_m v \<Rightarrow> opt_maxlen E v s
    | Opt_a v \<Rightarrow> opt_align v s
    | Opt_b v \<Rightarrow> opt_offset v s
    | Opt_u v \<Rightarrow> (case v of None \<Rightarrow> usage | Some n \<Rightarrow> set_field E 124 (ucast n) s)
    | Opt_s v \<Rightarrow> res_bind (put_field E 132 v s) (set_field E 128 1)
    | Opt_t name arg \<Rightarrow> seal_boot E name arg s
    | Opt_x name out arg \<Rightarrow> append_crc E name out arg s
    | Opt_g \<Rightarrow> append_allinone E ''tclinux_allinone'' s
    | Opt_h \<Rightarrow> append_allinone E ''tclinux_allinone_nand'' s
    | Opt_y name out \<Rightarrow> multi_boot E name out s
    | Opt_z \<Rightarrow> Inr (Quit EXIT_SUCCESS [])
    | Opt_other \<Rightarrow> usage)"

fun trx_options :: "trx_env \<Rightarrow> trx_opt list \<Rightarrow> trx_state \<Rightarrow> fault + trx_step" where
  "trx_options E [] s = trx_finish E s"
| "trx_options E (opt # opts) s =
    res_bind (trx_option E opt s) (\<lambda>r. case r of Run s1 \<Rightarrow> trx_options E opts s1 | Quit e out \<Rightarrow> Inr (Quit e out))"

definition trx_start :: "trx_env \<Rightarrow> trx_state" where
  "trx_start E = \<lparr>tbuf = malloc_block E, t_maxlen = of_nat TRX_MAX_LEN, cur_len = of_nat sizeof_trx_header, need_padding = False, t_in = False,
     t_out = None, config_file = config_garbage E, p_dangling = False\<rparr>"

definition trx_main :: "trx_env \<Rightarrow> trx_opt list \<Rightarrow> fault + trx_step" where
  "trx_main E opts = trx_options E opts (trx_start E)"

end
