(* ===== verification/Trx_Theorems.thy ===== *)
theory Trx_Theorems
  imports Trx Upgrade_Theorems
begin

text \<open>
  What the image tool builds is what the boot loader accepts, and the boot loader notices damage: the header and the checksums written by trx
  against the checks of ecnt\_ImageUpgrade.
\<close>

section \<open>Fields of the header\<close>

lemma slice_memcpy_disjoint:
  "off + length dat \<le> length b \<Longrightarrow> i + n \<le> off \<or> off + length dat \<le> i \<Longrightarrow> slice i n (memcpy b off dat) = slice i n b"
  by (intro nth_equalityI) (auto simp: nth_slice nth_memcpy)

lemma put_bytes_frame:
  assumes "put_bytes off dat s = Inr s'"
  shows "length (tbuf s') = length (tbuf s)" "cur_len s' = cur_len s" "t_out s' = t_out s" "slice off (length dat) (tbuf s') = dat"
    and "\<And>i n. i + n \<le> off \<or> off + length dat \<le> i \<Longrightarrow> slice i n (tbuf s') = slice i n (tbuf s)"
  using assms by (auto simp: put_bytes_def slice_memcpy_disjoint split: if_splits)

lemma get_config_frame:
  assumes "get_config E key off k s = Inr s'"
  shows "length (tbuf s') = length (tbuf s)" "cur_len s' = cur_len s"
    and "\<And>i n. i + n \<le> off \<or> off + k \<le> i \<Longrightarrow> slice i n (tbuf s') = slice i n (tbuf s)"
proof -
  have "s' = s \<or> (\<exists>dat. length dat = k \<and> put_bytes off dat s = Inr s')"
    using assms by (fastforce simp: get_config_def split: option.splits)
  then show "length (tbuf s') = length (tbuf s)" "cur_len s' = cur_len s"
    "\<And>i n. i + n \<le> off \<or> off + k \<le> i \<Longrightarrow> slice i n (tbuf s') = slice i n (tbuf s)"
    by (auto dest: put_bytes_frame)
qed

lemma configs_frame:
  assumes "(if files E (config_file s) \<noteq> None then res_bind (get_config E ''Model'' 92 32 s) (\<lambda>s4.
      res_bind (get_config E ''version'' 16 32 s4) (get_config E ''customerversion'' 48 32)) else Inr s) = Inr s'"
  shows "length (tbuf s') = length (tbuf s)" "cur_len s' = cur_len s"
    and "\<And>i n. i + n \<le> 16 \<or> 124 \<le> i \<Longrightarrow> slice i n (tbuf s') = slice i n (tbuf s)"
proof -
  consider "s' = s" | a b where "get_config E ''Model'' 92 32 s = Inr a" "get_config E ''version'' 16 32 a = Inr b" "get_config E ''customerversion'' 48 32 b = Inr s'"
    using assms by (auto simp: res_bind_eq_Inr split: if_splits)
  then have "length (tbuf s') = length (tbuf s) \<and> cur_len s' = cur_len s \<and> (\<forall>i n. i + n \<le> 16 \<or> 124 \<le> i \<longrightarrow> slice i n (tbuf s') = slice i n (tbuf s))"
  proof cases
    case 2
    note g = get_config_frame[OF 2(1)] get_config_frame[OF 2(2)] get_config_frame[OF 2(3)]
    show ?thesis by (simp add: g)
  qed simp
  then show "length (tbuf s') = length (tbuf s)" "cur_len s' = cur_len s"
    "\<And>i n. i + n \<le> 16 \<or> 124 \<le> i \<Longrightarrow> slice i n (tbuf s') = slice i n (tbuf s)" by blast+
qed

definition image_of :: "bytes \<Rightarrow> bool" where
  "image_of img \<longleftrightarrow> 256 \<le> length img \<and> length img < 2 ^ 32 \<and> slice 4 4 img = le32 256 \<and> slice 8 4 img = le32 (of_nat (length img))
     \<and> slice 12 4 img = le32 (crc32buf (drop 256 img))"

lemma slice_take: "i + n \<le> k \<Longrightarrow> slice i n (take k xs) = slice i n xs"
  by (simp add: slice_def drop_take take_take min_def)

lemma finish_image:
  assumes "trx_finish E s = Inr (Quit EXIT_SUCCESS outs)" "TCSUPPORT_LITTLE_ENDIAN E"
  shows "\<exists>out img. outs = [(out, img)] \<and> image_of img"
proof -
  obtain s1 where c: "unat (cur_len s1) \<le> length (tbuf s1)" "256 \<le> unat (cur_len s1)"
    and r: "res_bind (put_field E 12 (crc32buf (slice sizeof_trx_header (unat (cur_len s1 - of_nat sizeof_trx_header)) (tbuf s1))) s1) (\<lambda>s2.
               res_bind (put_field E 4 (of_nat sizeof_trx_header) s2) (\<lambda>s3.
               res_bind (if files E (config_file s3) \<noteq> None
                         then res_bind (get_config E ''Model'' 92 32 s3) (\<lambda>s4.
                              res_bind (get_config E ''version'' 16 32 s4) (get_config E ''customerversion'' 48 32))
                         else Inr s3) (\<lambda>s5.
               res_bind (put_field E 8 (cur_len s5) s5) (\<lambda>s6.
               Inr (Quit EXIT_SUCCESS [(t_out s6, take (unat (cur_len s6)) (tbuf s6))]))))) = Inr (Quit EXIT_SUCCESS outs)"
    using assms(1) by (auto simp: trx_finish_def res_bind_eq_Inr not_less sizeof_trx_header_def split: if_splits)
  define n where "n = unat (cur_len s1)"
  have n: "unat (cur_len s1 - 256) = n - 256" using c(2) by (simp add: n_def unat_sub word_le_nat_alt)
  define p where "p = slice 256 (n - 256) (tbuf s1)"
  obtain s2 s3 s5 s6 where 2: "put_bytes 12 (le32 (crc32buf p)) s1 = Inr s2" and 3: "put_bytes 4 (le32 256) s2 = Inr s3"
    and 5: "(if files E (config_file s3) \<noteq> None then res_bind (get_config E ''Model'' 92 32 s3) (\<lambda>s4.
              res_bind (get_config E ''version'' 16 32 s4) (get_config E ''customerversion'' 48 32)) else Inr s3) = Inr s5"
    and 6: "put_bytes 8 (le32 (cur_len s5)) s5 = Inr s6" and o: "outs = [(t_out s6, take (unat (cur_len s6)) (tbuf s6))]"
    using r assms(2) unfolding put_field_def STORE32_LE_def sizeof_trx_header_def by (auto simp: res_bind_eq_Inr p_def n)
  have f5: "length (tbuf s5) = length (tbuf s3)" "cur_len s5 = cur_len s3"
    "\<And>i k. i + k \<le> 16 \<or> 124 \<le> i \<Longrightarrow> slice i k (tbuf s5) = slice i k (tbuf s3)"
    by (rule configs_frame[OF 5])+
  note f2 = put_bytes_frame[OF 2] and f3 = put_bytes_frame[OF 3] and f6 = put_bytes_frame[OF 6]
  have len: "cur_len s6 = cur_len s1" "length (tbuf s6) = length (tbuf s1)" using f2 f3 f5 f6 by simp_all
  let ?img = "take n (tbuf s6)"
  have l: "length ?img = n" using len c(1) by (simp add: n_def)
  have "slice 256 (n - 256) (tbuf s6) = p" using f2(5) f3(5) f5(3) f6(5) by (simp add: p_def)
  then have d: "drop 256 ?img = p" by (simp add: slice_def drop_take)
  have tk: "slice i 4 ?img = slice i 4 (tbuf s6)" if "i \<le> 12" for i using c(2) that by (intro slice_take) (simp add: n_def)
  have "slice 12 4 (tbuf s6) = slice 12 4 (tbuf s3)" by (rule trans[OF f6(5) f5(3)]) simp_all
  then have i12: "slice 12 4 (tbuf s6) = le32 (crc32buf p)" by (rule trans[OF _ trans[OF f3(5) f2(4)[unfolded length_le]]]) simp
  have "slice 4 4 (tbuf s6) = slice 4 4 (tbuf s3)" by (rule trans[OF f6(5) f5(3)]) simp_all
  then have i4: "slice 4 4 (tbuf s6) = le32 256" by (rule trans[OF _ f3(4)[unfolded length_le]])
  have "cur_len s5 = of_nat n" by (simp only: f5(2) f3(2) f2(2) n_def of_nat_unat_id)
  then have i8: "slice 8 4 (tbuf s6) = le32 (of_nat n)" using f6(4)[unfolded length_le] by (simp only:)
  have b: "256 \<le> n" "n < 2 ^ 32" using c(2) unsigned_less[of "cur_len s1"] by (simp_all add: n_def)
  have "image_of ?img" unfolding image_of_def d l using b i4 i8 i12 tk[of 4] tk[of 8] tk[of 12] by simp
  then show ?thesis using o len(1) by (simp add: n_def)
qed

text \<open>The options that only add to the image.\<close>

fun building :: "trx_opt \<Rightarrow> bool" where
  "building (Opt_t _ _) = False" | "building (Opt_x _ _ _) = False" | "building Opt_g = False" | "building Opt_h = False"
| "building (Opt_y _ _) = False" | "building Opt_z = False" | "building _ = True"

lemma building_option: "building opt \<Longrightarrow> trx_option E opt s \<noteq> Inr (Quit EXIT_SUCCESS outs)"
  by (cases opt) (auto simp: trx_option_def set_field_def opt_file_def opt_maxlen_def opt_align_def opt_offset_def res_bind_eq_Inr Let_def split: option.splits if_splits)

lemma building_options:
  "list_all building opts \<Longrightarrow> trx_options E opts s = Inr (Quit EXIT_SUCCESS outs) \<Longrightarrow> \<exists>s'. trx_finish E s' = Inr (Quit EXIT_SUCCESS outs)"
proof (induction opts arbitrary: s)
  case (Cons opt opts)
  then obtain r where r: "trx_option E opt s = Inr r" "(case r of Run s1 \<Rightarrow> trx_options E opts s1 | Quit e out \<Rightarrow> Inr (Quit e out)) = Inr (Quit EXIT_SUCCESS outs)"
    by (auto simp: res_bind_eq_Inr)
  then show ?case using Cons building_option[of opt E s outs] by (cases r) auto
qed auto

lemma built_image:
  assumes "list_all building opts" "trx_main E opts = Inr (Quit EXIT_SUCCESS outs)" "TCSUPPORT_LITTLE_ENDIAN E"
  shows "\<exists>out img. outs = [(out, img)] \<and> image_of img"
  using building_options[OF assms(1)] assms(2,3) finish_image unfolding trx_main_def by blast

section \<open>The checks of the boot loader\<close>

text \<open>The image lies in the memory of the boot loader at pos; the checksum routine of the boot loader is used at any alignment.\<close>

definition loaded_at :: "u32 \<Rightarrow> bytes \<Rightarrow> 'm vf_state \<Rightarrow> bool" where
  "loaded_at pos img st \<longleftrightarrow> unat pos + length img \<le> length (ibuf st) \<and> length (ibuf st) < 2 ^ 32 \<and> slice (unat pos) (length img) (ibuf st) = img"

definition checks_crc :: "'m up_env \<Rightarrow> bool" where
  "checks_crc U \<longleftrightarrow> (\<exists>b. crc32_of U = crc32_no_comp b)"

lemma loaded_slice:
  assumes "loaded_at pos img st" "i + n \<le> length img"
  shows "unat (pos + of_nat i) = unat pos + i" "unat pos + i + n \<le> length (ibuf st)" "slice (unat pos + i) n (ibuf st) = slice i n img"
proof -
  have l: "unat pos + length img < 2 ^ 32" using assms(1) by (simp add: loaded_at_def)
  then show "unat (pos + of_nat i) = unat pos + i" using assms(2) by (simp add: unat_word_ariths)
  show "unat pos + i + n \<le> length (ibuf st)" using assms by (simp add: loaded_at_def)
  have "slice i n (slice (unat pos) (length img) (ibuf st)) = slice (unat pos + i) n (ibuf st)"
    using assms(2) by (simp add: slice_def drop_take add.commute min_def)
  then show "slice (unat pos + i) n (ibuf st) = slice i n img" using assms(1) by (simp add: loaded_at_def)
qed

lemma loaded_header:
  assumes "loaded_at pos img st" "256 \<le> length img" "slice 4 4 img = le32 256" "slice 8 4 img = le32 (of_nat (length img))" "length img < 2 ^ 32"
  shows "trx_header_len pos st = Inr 256" "trx_len pos st = Inr (of_nat (length img))" "trx_crc32 pos st = Inr (rd32 (slice 12 4 img))"
    and "checks_crc U \<Longrightarrow> crc_of U (pos + 256) (of_nat (length img) - 256) st = Inr (crc32buf (drop 256 img))"
proof -
  note L = loaded_slice[OF assms(1)]
  show "trx_header_len pos st = Inr 256" using L[of 4 4] assms(2,3) by (simp add: trx_header_len_def rd_at_def)
  show "trx_len pos st = Inr (of_nat (length img))" using L[of 8 4] assms(2,4) by (simp add: trx_len_def rd_at_def)
  show "trx_crc32 pos st = Inr (rd32 (slice 12 4 img))" using L[of 12 4] assms(2) by (simp add: trx_crc32_def rd_at_def)
  have u: "unat (of_nat (length img) - 256 :: u32) = length img - 256" using assms(2,5) by (simp add: unat_sub word_le_nat_alt)
  have "slice 256 (length img - 256) img = drop 256 img" by (simp add: slice_def)
  then show "checks_crc U \<Longrightarrow> crc_of U (pos + 256) (of_nat (length img) - 256) st = Inr (crc32buf (drop 256 img))"
    using L[of 256 "length img - 256"] assms(2) u by (auto simp: crc_of_def rd_at_def checks_crc_def no_comp_ref crc32buf_ref CRC_START_def)
qed

lemma kernel_check_crc:
  assumes "loaded_at (ifip_offset st) img st" "checks_crc U" "256 \<le> length img" "slice 4 4 img = le32 256" "slice 8 4 img = le32 (of_nat (length img))" "length img < 2 ^ 32"
  shows "kernel_check U img_size stat st = Inr (if img_size < of_nat (length img) \<or> crc32buf (drop 256 img) \<noteq> rd32 (slice 12 4 img) then -1
     else if stat = 0 \<and> fit_verify U (ibuf st) (unat (ifip_offset st) + 256) \<noteq> 1 then -1 else 0)"
proof -
  note H = loaded_header[OF assms(1,3-6)]
  have p: "unat (ifip_offset st + 256) = unat (ifip_offset st) + 256" using loaded_slice(1)[OF assms(1), of 256 0] assms(3) by simp
  have "trx_crc_check U (ifip_offset st) st = Inr (if crc32buf (drop 256 img) \<noteq> rd32 (slice 12 4 img) then -1 else 0)"
    using H assms(2) by (simp add: trx_crc_check_def)
  moreover have "trx_hash_check U stat (ifip_offset st) st = Inr (if stat = 0 \<and> fit_verify U (ibuf st) (unat (ifip_offset st) + 256) \<noteq> 1 then -1 else 0)"
    using H(1) p by (simp add: trx_hash_check_def)
  ultimately show ?thesis using H(2) by (simp add: kernel_check_def Let_def)
qed

text \<open>
  C4 The boot loader accepts every image that the tool builds. Whatever files, alignments, offsets and header fields are given to trx, if it ends with success, the
  one file it writes, loaded anywhere in the memory of the boot loader, passes the check of a kernel file in
  ecnt\_ImageUpgrade, provided that the whole image arrived and, for an unencrypted image, the device tree in it verifies.
\<close>

theorem trx_image_accepted:
  assumes "list_all building opts" and "trx_main E opts = Inr (Quit EXIT_SUCCESS outs)" and "TCSUPPORT_LITTLE_ENDIAN E"
  shows "\<exists>out img. outs = [(out, img)] \<and> (\<forall>(U :: 'm up_env) st img_size stat. checks_crc U \<and> loaded_at (ifip_offset st) img st \<and> of_nat (length img) \<le> img_size
     \<and> (stat = 0 \<longrightarrow> fit_verify U (ibuf st) (unat (ifip_offset st) + 256) = 1) \<longrightarrow> kernel_check U img_size stat st = Inr 0)"
proof -
  obtain out img where o: "outs = [(out, img)]" and i: "image_of img" using built_image[OF assms] by blast
  have "kernel_check U img_size stat st = Inr 0"
    if "checks_crc U" "loaded_at (ifip_offset st) img st" "of_nat (length img) \<le> img_size" "stat = 0 \<longrightarrow> fit_verify U (ibuf st) (unat (ifip_offset st) + 256) = 1"
    for U :: "'m up_env" and st img_size stat
    using kernel_check_crc[OF that(2,1), of img_size stat] i that(3,4) by (simp add: image_of_def)
  then show ?thesis using o by blast
qed

text \<open>
  C6 The boot loader refuses a damaged image: when up to four consecutive bytes behind the header of an image that trx has built are changed, in transfer or in
  memory, the check of a kernel file in ecnt\_ImageUpgrade fails, whatever the length received and the outcome of the other checks.
\<close>

theorem damaged_image_refused:
  assumes "list_all building opts" and "trx_main E opts = Inr (Quit EXIT_SUCCESS [(out, img)])" and "TCSUPPORT_LITTLE_ENDIAN E"
    and "checks_crc U" and "256 \<le> k" and "k + 4 \<le> length img" and "length m = 4" and "m \<noteq> slice k 4 img" and "loaded_at (ifip_offset st) (memcpy img k m) st"
  shows "kernel_check U img_size stat st = Inr (-1)"
proof -
  let ?bad = "memcpy img k m"
  have i: "image_of img" using built_image[OF assms(1-3)] by auto
  have l: "length ?bad = length img" using assms(6,7) by simp
  have h: "slice j 4 ?bad = slice j 4 img" if "j \<le> 12" for j using that assms(5-7) by (intro slice_memcpy_disjoint) simp_all
  let ?a = "take (k - 256) (drop 256 img)" and ?z = "drop (k + 4) img"
  have good: "drop 256 img = ?a @ slice k 4 img @ ?z"
    using assms(5) append_take_drop_id[of "k - 256" "drop 256 img"] append_take_drop_id[of 4 "drop k img"] by (simp add: slice_def add.commute)
  have bad: "drop 256 ?bad = ?a @ m @ ?z" using assms(5-7) by (simp add: memcpy_def drop_take)
  have "crc32buf (drop 256 ?bad) \<noteq> crc32buf (drop 256 img)"
    using crc_burst[of m "slice k 4 img" "0xFFFFFFFF" ?a ?z] assms(6-8) unfolding crc32buf_ref good[symmetric] bad[symmetric] by auto
  then show ?thesis using kernel_check_crc[OF assms(9,4), of img_size stat] i h[of 4] h[of 8] h[of 12] l by (simp add: image_of_def)
qed

text \<open>
  C8 A boot image sealed by trx -t passes the check of a boot file: when the length given to trx is that of the file without the environment behind it, the checksum
  over the file in ecnt\_ImageUpgrade, which now includes the stored checksum, is 0, and the file is accepted for the start of the flash.
\<close>

theorem sealed_boot_accepted:
  assumes "trx_main E [Opt_t name (Some n)] = Inr (Quit EXIT_SUCCESS outs)" and "files E name = Some dat" and "length dat = n + 0x4000"
    and "TCSUPPORT_LITTLE_ENDIAN E" and "checks_crc U"
  shows "\<exists>boot. outs = [(Some ''tcboot.bin'', boot)] \<and> length boot = length dat
     \<and> (\<forall>st stat. take (length boot) (ibuf st) = boot \<longrightarrow> upgrade_target U (of_nat (length boot)) stat UBOOT_FILE st = Inr (CONFIG_TCBOOT_OFFSET, 0))"
proof -
  let ?b1 = "memcpy (malloc_block E) 0 dat"
  define crc where "crc = crc32buf (take (n - 4) ?b1)"
  define boot where "boot = take (length dat) (memcpy ?b1 (n - 4) (le32 crc))"
  have c: "length dat \<le> TRX_MAX_LEN" "length dat \<le> length (malloc_block E)" "4 \<le> n" and o: "outs = [(Some ''tcboot.bin'', boot)]"
    using assms(1,2,4) unfolding boot_def crc_def
    by (auto simp: trx_main_def trx_option_def seal_boot_def trx_start_def STORE32_LE_def Let_def split: if_splits)
  have lb: "length boot = length dat" using c(2,3) assms(3) by (simp add: boot_def)
  have "take n boot = take (n - 4) ?b1 @ le32 crc" using c(2,3) assms(3) by (simp add: boot_def memcpy_def)
  then have z: "crc_ref 0xFFFFFFFF (take n boot) = 0" unfolding crc_def crc32buf_ref by (simp add: crc_ref_le32)
  have u: "unat (of_nat (length boot) - CONFIG_ENV_SIZE) = n" using c(1) assms(3) lb
    by (simp add: CONFIG_ENV_SIZE_def TRX_MAX_LEN_def)
  have "upgrade_target U (of_nat (length boot)) stat UBOOT_FILE st = Inr (CONFIG_TCBOOT_OFFSET, 0)" if t: "take (length boot) (ibuf st) = boot" for st stat
  proof -
    have le: "length boot \<le> length (ibuf st)" using arg_cong[OF t, of length] by simp
    have "take n (take (length boot) (ibuf st)) = take n boot" using t by (rule arg_cong)
    then have "take n (ibuf st) = take n boot" using assms(3) lb by (simp add: take_take)
    then show ?thesis using u z assms(3,5) lb le by (auto simp: upgrade_target_def crc_of_def rd_at_def checks_crc_def no_comp_ref CRC_START_def)
  qed
  then show ?thesis using o lb by blast
qed

section \<open>Applications\<close>

text \<open>A kernel file of five bytes and a boot file, on a host whose fresh memory is zero.\<close>

definition demo_boot :: bytes where "demo_boot = replicate 0x8000 0xA5"

definition demo_host :: trx_env where
  "demo_host = \<lparr>files = [''tclinux.bin'' \<mapsto> [1, 2, 3, 4, 5], ''boot.img'' \<mapsto> demo_boot], can_write = (\<lambda>_. True), TCSUPPORT_LITTLE_ENDIAN = True,
     malloc_block = replicate TRX_MAX_LEN 0, realloc_block = (\<lambda>n b. Some (take n b @ replicate (n - length b) 0)), realloc_moves = (\<lambda>_ _. False),
     config_garbage = '''', is_pad_garbage = 0, reserved_garbage = [0, 0, 0, 0], TCBOOT_SIZE = 0x10000\<rparr>"

definition demo_opts :: "trx_opt list" where "demo_opts = [Opt_k 5, Opt_f ''tclinux.bin'', Opt_o ''tclinux'']"

definition demo_loader :: "unit up_env" where "demo_loader = demo_up\<lparr>crc32_of := crc32_no_comp 2\<rparr>"

definition demo_memory :: "bytes \<Rightarrow> unit vf_state" where "demo_memory b = demo_vf_state\<lparr>ibuf := b, ifip_offset := 0\<rparr>"

lemma demo_main: "\<exists>img. trx_main demo_host demo_opts = Inr (Quit EXIT_SUCCESS [(Some ''tclinux'', img)]) \<and> length img = 261"
  by (simp add: trx_main_def demo_opts_def trx_option_def set_field_def put_field_def put_bytes_def opt_file_def file_magic_def trx_finish_def append_zeros_def
      pad_len_def trx_start_def demo_host_def TRX_MAX_LEN_def sizeof_trx_header_def get_config_def Let_def)

lemma demo_building: "list_all building demo_opts" and demo_little: "TCSUPPORT_LITTLE_ENDIAN demo_host" and demo_checks: "checks_crc demo_loader"
  by (auto simp: demo_opts_def demo_host_def checks_crc_def demo_loader_def)

lemma demo_loaded: "length img < 2 ^ 32 \<Longrightarrow> loaded_at (ifip_offset (demo_memory img)) img (demo_memory img)"
  by (simp add: loaded_at_def demo_memory_def slice_def)

theorem trx_image_accepted_witness:
  "\<exists>img. trx_main demo_host demo_opts = Inr (Quit EXIT_SUCCESS [(Some ''tclinux'', img)]) \<and> kernel_check demo_loader 261 2 (demo_memory img) = Inr 0"
proof -
  obtain img where m: "trx_main demo_host demo_opts = Inr (Quit EXIT_SUCCESS [(Some ''tclinux'', img)])" "length img = 261" using demo_main by blast
  from trx_image_accepted[OF demo_building m(1) demo_little, where 'm = unit] have "kernel_check demo_loader 261 2 (demo_memory img) = Inr 0"
    using demo_checks demo_loaded[of img] m(2) by fastforce
  then show ?thesis using m(1) by blast
qed

theorem damaged_image_refused_witness:
  "\<exists>img m. trx_main demo_host demo_opts = Inr (Quit EXIT_SUCCESS [(Some ''tclinux'', img)]) \<and> length m = 4 \<and> m \<noteq> slice 256 4 img
     \<and> kernel_check demo_loader 261 2 (demo_memory (memcpy img 256 m)) = Inr (-1)"
proof -
  obtain img where m: "trx_main demo_host demo_opts = Inr (Quit EXIT_SUCCESS [(Some ''tclinux'', img)])" "length img = 261" using demo_main by blast
  define b where "b = map (\<lambda>x. x + 1) (slice 256 4 img)"
  have l: "length b = 4" using m(2) by (simp add: b_def)
  have "b ! 0 = slice 256 4 img ! 0 + 1" using m(2) by (simp add: b_def)
  then have n: "b \<noteq> slice 256 4 img" by auto
  have "length (memcpy img 256 b) = 261" using m(2) l by simp
  then have "loaded_at (ifip_offset (demo_memory (memcpy img 256 b))) (memcpy img 256 b) (demo_memory (memcpy img 256 b))" by (intro demo_loaded) simp
  then show ?thesis using damaged_image_refused[OF demo_building m(1) demo_little demo_checks _ _ l n] m l n by auto
qed

theorem sealed_boot_accepted_witness:
  "\<exists>boot. trx_main demo_host [Opt_t ''boot.img'' (Some 0x4000)] = Inr (Quit EXIT_SUCCESS [(Some ''tcboot.bin'', boot)])
     \<and> upgrade_target demo_loader (of_nat (length boot)) 2 UBOOT_FILE (demo_memory boot) = Inr (CONFIG_TCBOOT_OFFSET, 0)"
proof -
  have f: "files demo_host ''boot.img'' = Some demo_boot" "length demo_boot = 0x4000 + 0x4000" by (simp_all add: demo_host_def demo_boot_def)
  have d: "can_write demo_host x" "length (malloc_block demo_host) = TRX_MAX_LEN" for x by (simp_all add: demo_host_def)
  obtain outs where m: "trx_main demo_host [Opt_t ''boot.img'' (Some 0x4000)] = Inr (Quit EXIT_SUCCESS outs)"
    using f d by (simp add: trx_main_def trx_option_def seal_boot_def trx_start_def TRX_MAX_LEN_def Let_def)
  show ?thesis using sealed_boot_accepted[OF m f demo_little demo_checks] m by (auto simp: demo_memory_def)
qed

end
