(* ===== verification/Skbuff.thy ===== *)
theory Skbuff
  imports Prelude
begin

text \<open>
  The packet buffers of the network code (drivers/misc/ecnt/net/skbuff.c): a fixed array of 512 buffers, handed out
  in a round by alloc\_skb, which searches on from where it stopped.

  A buffer is addressed by its index. The pointer data is its distance from the start of buf; the two header
  pointers are null after initialisation and not used by this file. The search does not end when every buffer is
  in use: alloc\_scan is a partial function, and None says that it does not return.
\<close>

section \<open>State\<close>

definition SKBUFF_SIZE :: nat where "SKBUFF_SIZE = 512"

record skb_entry =
  skb_buf :: bytes
  truesize :: u32
  skb_data :: int
  ip_hdr :: "int option"
  udp_hdr :: "int option"
  used :: u32
  skb_len :: u32

record skb_pool =
  skbuff :: "skb_entry list"
  skb_cur :: nat

section \<open>Operations\<close>

definition skb_headerinit :: "u32 \<Rightarrow> skb_entry" where
  "skb_headerinit u = \<lparr>skb_buf = replicate 2000 0, truesize = 2000, skb_data = 0, ip_hdr = None, udp_hdr = None, used = u, skb_len = 0\<rparr>"

definition skb_init :: "skb_pool \<Rightarrow> skb_pool" where
  "skb_init p = p\<lparr>skbuff := replicate SKBUFF_SIZE (skb_headerinit 0)\<rparr>"

partial_function (option) alloc_scan :: "skb_entry list \<Rightarrow> nat \<Rightarrow> (nat \<times> nat) option" where
  "alloc_scan pool cur =
    (let cur' = (cur + 1) mod SKBUFF_SIZE
     in if used (pool ! cur) = 1 then alloc_scan pool cur' else Some (cur, cur'))"

definition alloc_skb :: "skb_pool \<Rightarrow> (nat \<times> skb_pool) option" where
  "alloc_skb p =
    (case alloc_scan (skbuff p) (skb_cur p) of
      None \<Rightarrow> None
    | Some (i, cur) \<Rightarrow> Some (i, p\<lparr>skbuff := (skbuff p)[i := skb_headerinit 1], skb_cur := cur\<rparr>))"

definition free_skb :: "nat \<Rightarrow> skb_pool \<Rightarrow> skb_pool" where
  "free_skb i p = p\<lparr>skbuff := (skbuff p)[i := skb_headerinit 0]\<rparr>"

definition skb_upd :: "nat \<Rightarrow> (skb_entry \<Rightarrow> skb_entry) \<Rightarrow> skb_pool \<Rightarrow> skb_pool" where
  "skb_upd i f p = p\<lparr>skbuff := (skbuff p)[i := f (skbuff p ! i)]\<rparr>"

definition skb_put :: "nat \<Rightarrow> u32 \<Rightarrow> skb_pool \<Rightarrow> int \<times> skb_pool" where
  "skb_put i len p = (skb_data (skbuff p ! i), skb_upd i (\<lambda>s. s\<lparr>skb_len := skb_len s + len\<rparr>) p)"

definition skb_pull :: "nat \<Rightarrow> u32 \<Rightarrow> skb_pool \<Rightarrow> int \<times> skb_pool" where
  "skb_pull i len p =
    (skb_data (skbuff p ! i) + uint len, skb_upd i (\<lambda>s. s\<lparr>skb_data := skb_data s + uint len, skb_len := skb_len s - len\<rparr>) p)"

definition skb_push :: "nat \<Rightarrow> u32 \<Rightarrow> skb_pool \<Rightarrow> int \<times> skb_pool" where
  "skb_push i len p =
    (skb_data (skbuff p ! i) - uint len, skb_upd i (\<lambda>s. s\<lparr>skb_data := skb_data s - uint len, skb_len := skb_len s + len\<rparr>) p)"

definition skb_reserve :: "nat \<Rightarrow> u32 \<Rightarrow> skb_pool \<Rightarrow> skb_pool" where
  "skb_reserve i len p = skb_upd i (\<lambda>s. s\<lparr>skb_data := skb_data s + uint len\<rparr>) p"

section \<open>The steps of the network code\<close>

definition pool_wf :: "skb_pool \<Rightarrow> bool" where
  "pool_wf p \<longleftrightarrow> length (skbuff p) = SKBUFF_SIZE \<and> skb_cur p < SKBUFF_SIZE \<and> (\<forall>s \<in> set (skbuff p). used s = 0 \<or> used s = 1)"

inductive skb_step :: "skb_pool \<Rightarrow> skb_pool \<Rightarrow> bool" where
  alloc: "alloc_skb p = Some (i, p') \<Longrightarrow> skb_step p p'"
| free: "i < SKBUFF_SIZE \<Longrightarrow> skb_step p (free_skb i p)"
| put: "i < SKBUFF_SIZE \<Longrightarrow> skb_step p (snd (skb_put i len p))"
| pull: "i < SKBUFF_SIZE \<Longrightarrow> skb_step p (snd (skb_pull i len p))"
| push: "i < SKBUFF_SIZE \<Longrightarrow> skb_step p (snd (skb_push i len p))"
| reserve: "i < SKBUFF_SIZE \<Longrightarrow> skb_step p (skb_reserve i len p)"

inductive skb_reach :: "skb_pool \<Rightarrow> skb_pool \<Rightarrow> bool" where
  start: "skb_reach p p"
| step: "skb_reach p p1 \<Longrightarrow> skb_step p1 p2 \<Longrightarrow> skb_reach p p2"

inductive_cases skb_stepE: "skb_step p p'"

section \<open>The search\<close>

lemma alloc_scan_first:
  assumes "used (pool ! ((cur + d) mod SKBUFF_SIZE)) \<noteq> 1" "\<And>e. e < d \<Longrightarrow> used (pool ! ((cur + e) mod SKBUFF_SIZE)) = 1" "cur < SKBUFF_SIZE"
  shows "alloc_scan pool cur = Some ((cur + d) mod SKBUFF_SIZE, (cur + d + 1) mod SKBUFF_SIZE)"
  using assms
proof (induction d arbitrary: cur)
  case 0
  then show ?case by (subst alloc_scan.simps) simp
next
  case (Suc d)
  let ?n = "(cur + 1) mod SKBUFF_SIZE"
  have m: "(?n + e) mod SKBUFF_SIZE = (cur + Suc e) mod SKBUFF_SIZE" for e by (simp add: mod_add_left_eq)
  have "used (pool ! cur) = 1" using Suc.prems(2)[of 0] Suc.prems(3) by simp
  then have "alloc_scan pool cur = alloc_scan pool ?n" by (subst alloc_scan.simps) simp
  also have "\<dots> = Some ((?n + d) mod SKBUFF_SIZE, (?n + d + 1) mod SKBUFF_SIZE)"
  proof (rule Suc.IH)
    show "used (pool ! ((?n + d) mod SKBUFF_SIZE)) \<noteq> 1" using Suc.prems(1) unfolding m .
    show "used (pool ! ((?n + e) mod SKBUFF_SIZE)) = 1" if "e < d" for e using Suc.prems(2)[of "Suc e"] that unfolding m by simp
  qed (simp add: SKBUFF_SIZE_def)
  also have "(?n + d + 1) mod SKBUFF_SIZE = (cur + Suc d + 1) mod SKBUFF_SIZE" using m[of "d + 1"] by simp
  finally show ?case unfolding m .
qed

lemma alloc_scan_found:
  assumes "alloc_scan pool cur = Some r"
  shows "cur < SKBUFF_SIZE \<longrightarrow> used (pool ! fst r) \<noteq> 1 \<and> fst r < SKBUFF_SIZE \<and> snd r < SKBUFF_SIZE"
  using assms
proof (rule alloc_scan.raw_induct[rotated])
  fix scan pool cur r
  assume IH: "\<And>pool cur r. scan pool cur = Some r \<Longrightarrow> cur < SKBUFF_SIZE \<longrightarrow> used (pool ! fst r) \<noteq> 1 \<and> fst r < SKBUFF_SIZE \<and> snd r < SKBUFF_SIZE"
    and run: "(let cur' = (cur + 1) mod SKBUFF_SIZE in if used (pool ! cur) = 1 then scan pool cur' else Some (cur, cur')) = Some r"
  have "(cur + 1) mod SKBUFF_SIZE < SKBUFF_SIZE" by (simp add: SKBUFF_SIZE_def)
  then show "cur < SKBUFF_SIZE \<longrightarrow> used (pool ! fst r) \<noteq> 1 \<and> fst r < SKBUFF_SIZE \<and> snd r < SKBUFF_SIZE"
    using run IH[of pool "(cur + 1) mod SKBUFF_SIZE" r] by (auto simp: Let_def split: if_splits)
qed

lemma free_distance:
  assumes "i < SKBUFF_SIZE" "used (pool ! i) \<noteq> 1" "cur < SKBUFF_SIZE"
  obtains d where "d < SKBUFF_SIZE" "used (pool ! ((cur + d) mod SKBUFF_SIZE)) \<noteq> 1" "\<And>e. e < d \<Longrightarrow> used (pool ! ((cur + e) mod SKBUFF_SIZE)) = 1"
proof -
  let ?P = "\<lambda>d. used (pool ! ((cur + d) mod SKBUFF_SIZE)) \<noteq> 1"
  let ?d = "(i + SKBUFF_SIZE - cur) mod SKBUFF_SIZE"
  have "(cur + ?d) mod SKBUFF_SIZE = i" using assms(1,3) by (simp add: mod_add_right_eq)
  then have P: "?P ?d" using assms(2) by simp
  then have "?P (LEAST d. ?P d)" "(LEAST d. ?P d) \<le> ?d" by (rule LeastI, rule Least_le)
  moreover have "?d < SKBUFF_SIZE" by (simp add: SKBUFF_SIZE_def)
  ultimately show ?thesis using that[of "LEAST d. ?P d"] not_less_Least[of _ ?P] by fastforce
qed

text \<open>
  C38 alloc\_skb returns exactly when some buffer is free, and otherwise never. It then returns the first free buffer in the
  round that begins behind the buffer handed out last, initialised and marked as used, and leaves every other
  buffer alone; so a buffer that is in use is never handed out again, and every free buffer's turn comes.
\<close>

theorem alloc_skb_returns_iff_free:
  assumes "pool_wf p"
  shows "(case alloc_skb p of
      None \<Rightarrow> \<forall>i < SKBUFF_SIZE. used (skbuff p ! i) = 1
    | Some (i, p') \<Rightarrow> \<exists>d < SKBUFF_SIZE. i = (skb_cur p + d) mod SKBUFF_SIZE \<and> used (skbuff p ! i) = 0
        \<and> (\<forall>e < d. used (skbuff p ! ((skb_cur p + e) mod SKBUFF_SIZE)) = 1)
        \<and> skb_cur p' = (i + 1) mod SKBUFF_SIZE \<and> skbuff p' = (skbuff p)[i := skb_headerinit 1])"
proof (cases "\<exists>i < SKBUFF_SIZE. used (skbuff p ! i) \<noteq> 1")
  case True
  have cur: "skb_cur p < SKBUFF_SIZE" using assms by (simp add: pool_wf_def)
  from True obtain d where d: "d < SKBUFF_SIZE" "used (skbuff p ! ((skb_cur p + d) mod SKBUFF_SIZE)) \<noteq> 1"
    "\<And>e. e < d \<Longrightarrow> used (skbuff p ! ((skb_cur p + e) mod SKBUFF_SIZE)) = 1"
    using free_distance[OF _ _ cur] by metis
  let ?i = "(skb_cur p + d) mod SKBUFF_SIZE"
  have "?i < SKBUFF_SIZE" by (simp add: SKBUFF_SIZE_def)
  then have "used (skbuff p ! ?i) = 0" using assms d(2) by (auto simp: pool_wf_def)
  moreover have "(skb_cur p + d + 1) mod SKBUFF_SIZE = (?i + 1) mod SKBUFF_SIZE" by (simp add: mod_Suc_eq)
  ultimately show ?thesis using alloc_scan_first[OF d(2,3) cur] d(1,3) by (auto simp: alloc_skb_def)
next
  case False
  have "alloc_scan (skbuff p) (skb_cur p) = None"
  proof (rule ccontr)
    assume "alloc_scan (skbuff p) (skb_cur p) \<noteq> None"
    then obtain r where "alloc_scan (skbuff p) (skb_cur p) = Some r" by blast
    from alloc_scan_found[OF this] show False using assms False by (auto simp: pool_wf_def)
  qed
  then show ?thesis using False by (auto simp: alloc_skb_def)
qed

definition demo_pool :: skb_pool where
  "demo_pool = \<lparr>skbuff = replicate 511 (skb_headerinit 1) @ [skb_headerinit 0], skb_cur = 0\<rparr>"

lemma demo_pool_wf: "pool_wf demo_pool" "used (skbuff demo_pool ! 511) = 0"
  by (simp_all add: pool_wf_def demo_pool_def SKBUFF_SIZE_def skb_headerinit_def nth_append)

text \<open>With one free buffer left it is found; then the search does not return until one is freed.\<close>

theorem alloc_skb_returns_iff_free_witness:
  "pool_wf demo_pool \<and> (\<exists>i p'. alloc_skb demo_pool = Some (i, p') \<and> used (skbuff demo_pool ! i) = 0)"
proof -
  have "alloc_skb demo_pool \<noteq> None"
    using alloc_skb_returns_iff_free[OF demo_pool_wf(1)] demo_pool_wf(2) by (auto simp: SKBUFF_SIZE_def split: option.splits)
  then show ?thesis using alloc_skb_returns_iff_free[OF demo_pool_wf(1)] demo_pool_wf(1) by (auto split: option.splits)
qed

section \<open>The shape of the pool\<close>

lemma pool_wf_upd:
  assumes "pool_wf p" "used s = 0 \<or> used s = 1"
  shows "pool_wf (p\<lparr>skbuff := (skbuff p)[i := s]\<rparr>)"
proof -
  have "used x = 0 \<or> used x = 1" if "x \<in> set ((skbuff p)[i := s])" for x
    using that assms set_update_subset_insert[of "skbuff p" i s] by (auto simp: pool_wf_def)
  then show ?thesis using assms(1) by (simp add: pool_wf_def)
qed

lemma pool_wf_skb_upd:
  assumes "pool_wf p" "i < SKBUFF_SIZE" "\<And>s. used (f s) = used s"
  shows "pool_wf (skb_upd i f p)"
proof -
  have "skbuff p ! i \<in> set (skbuff p)" using assms(1,2) by (simp add: pool_wf_def)
  then have "used (f (skbuff p ! i)) = 0 \<or> used (f (skbuff p ! i)) = 1" using assms(1,3) by (simp add: pool_wf_def)
  from pool_wf_upd[OF assms(1) this] show ?thesis by (simp add: skb_upd_def)
qed

lemma pool_wf_alloc:
  assumes "pool_wf p" "alloc_skb p = Some (i, p')"
  shows "pool_wf p'"
proof -
  have p': "\<exists>cur. alloc_scan (skbuff p) (skb_cur p) = Some (i, cur) \<and> p' = p\<lparr>skbuff := (skbuff p)[i := skb_headerinit 1], skb_cur := cur\<rparr>"
    using assms(2) by (auto simp: alloc_skb_def split: option.splits)
  moreover have "pool_wf (p\<lparr>skbuff := (skbuff p)[i := skb_headerinit 1]\<rparr>)"
    by (rule pool_wf_upd[OF assms(1)]) (simp add: skb_headerinit_def)
  ultimately show ?thesis using alloc_scan_found[of "skbuff p" "skb_cur p"] assms(1) by (fastforce simp: pool_wf_def)
qed

lemma pool_wf_step: "skb_step p p' \<Longrightarrow> pool_wf p \<Longrightarrow> pool_wf p'"
  by (erule skb_stepE)
    (auto simp: free_skb_def skb_put_def skb_pull_def skb_push_def skb_reserve_def skb_headerinit_def
      intro: pool_wf_alloc pool_wf_upd pool_wf_skb_upd)

text \<open>
  C39 Whatever sequence of operations the network code performs after skb\_init, the pool stays of its type: 512 buffers, the next
  index inside the array, and every mark of use 0 or 1. So alloc\_skb, whose loop tests for 1 exactly, never takes a buffer for
  free that is in use.
\<close>

theorem skb_pool_keeps_shape:
  assumes "skb_reach (skb_init p0) p" and "skb_cur p0 < SKBUFF_SIZE"
  shows "pool_wf p"
  using assms
proof (induction "skb_init p0" p rule: skb_reach.induct)
  case start
  then show ?case by (simp add: pool_wf_def skb_init_def skb_headerinit_def)
next
  case (step p1 p2)
  then show ?case using pool_wf_step by blast
qed

theorem skb_pool_keeps_shape_witness:
  "skb_reach (skb_init demo_pool) (free_skb 3 (skb_init demo_pool)) \<and> pool_wf (free_skb 3 (skb_init demo_pool))"
proof -
  have r: "skb_reach (skb_init demo_pool) (free_skb 3 (skb_init demo_pool))"
    by (rule skb_reach.step[OF skb_reach.start skb_step.free]) (simp add: SKBUFF_SIZE_def)
  have "skb_cur demo_pool < SKBUFF_SIZE" by (simp add: demo_pool_def SKBUFF_SIZE_def)
  from skb_pool_keeps_shape[OF r this] r show ?thesis by blast
qed

end
