(* ===== verification/Spec2Isabelle.thy ===== *)
theory Spec2Isabelle
  imports Bmt_Theorems Nand_Theorems Flashhal_Theorems Xmodem_Theorems Image_Theorems Layout_Theorems Multi_Theorems Secure_Boot Cmd_Theorems Gpio_Theorems Led_Theorems Trx_Theorems Skbuff
begin

text \<open>
  \<^bold>\<open>The boot loader of the Econet EN75xx router chips.\<close>

  A board with one of these chips starts in three stages. The first-stage loader of the trusted
  firmware (ATF 2.3, src/bootloader/ATF/arm-trusted-firmware-2.3) sets up memory and flash and can take an image over
  the serial console. The runtime firmware BL31 of the same tree stays resident as secure monitor. U-Boot
  (src/bootloader/Uboot/u-boot-2014.04-rc1) reads the partition table, checks and loads the kernel, or receives
  a new image by network and writes it to the flash. Below all of them lies a NAND flash with bad blocks, which a
  bad-block manager hides. The development follows this order from the bottom up. Paths below are
  relative to the two trees above.

  \<^bold>\<open>Conventions.\<close> C integers are words of their width and wrap around, unless a theory says
  otherwise. Arrays and memory are byte lists. A function that may index outside an array, dereference a null
  pointer, fail an assertion, run forever or halt returns a sum: Inl of a fault (Prelude) or Inr of the result.
  Global variables are fields of a record that is passed along. Hardware and vendored libraries are
  parameters: fields of a configuration record. The storage of the NAND chip is modelled, its failures are decided by
  oracles over which the theorems quantify.

  \<^bold>\<open>Theories.\<close>

  \<^item> Prelude, Cstring: words, memory, results, C strings and number parsing (lib/vsprintf.c), and
    the two interfaces of loops and block checks: the locale retry\_loop states when a loop of attempts
    returns, the locale block\_check what a scan over blocks relies on.
  \<^item> Nand\_Chip: the page driver of drivers/mtd/chips/spi\_nand\_flash.c with its read cache and the
    adaptors en7512\_nand\_*.
  \<^item> Bmt\_Tables, Bmt: drivers/misc/ecnt/flash/bmt.c: the table formats, loading, reconstructing, searching,
    migrating, writing and updating. Bmt\_Pool, Bmt\_Writers, Bmt\_Migrate, Bmt\_Update, Bmt\_Load prove, in this order, what
    the search for a free block, the writers of the tables, the copying of a block, the redirection of a block
    and the start-up do; Bmt\_Theorems states the properties.
  \<^item> Nand\_Rw, Nand\_Logical, Nand\_Theorems: the nandflash\_* functions and the start-up of spi\_nand\_flash.c. The
    byte view flash\_byte abstracts from blocks and tables; reading, writing and erasing refine it.
  \<^item> Flashhal, Flash\_Interface, Flashhal\_Nand, Flashhal\_Theorems: drivers/misc/ecnt/flash/flashhal.c. The locale
    byte\_flash is what the rest of the loader relies on; Flashhal\_Nand interprets it on the NAND.
  \<^item> Xmodem, Xmodem\_Theorems: plat/ecnt/common/drivers/xmodem/xmodem.c of the trusted firmware.
  \<^item> Fiptool, Ecnt\_Image, Image\_Theorems: drivers/misc/ecnt/image/fiptool.c and the readers of ecnt\_image.c.
  \<^item> Ecnt\_Mtd, Mtd\_Layout, Mtd\_Theorems, Layout\_Theorems: drivers/misc/ecnt/image/ecnt\_mtd.c: parser, layout, lookups.
  \<^item> Bootflag: the boot flag of drivers/misc/ecnt/bootargs/ecnt\_bootargs.c.
  \<^item> Multiupgrade, Multi\_Theorems: drivers/misc/ecnt/net/multiupgrade.c.
  \<^item> Ecnt\_Verify, Verify\_Theorems: drivers/misc/ecnt/image/ecnt\_verify.c.
  \<^item> Image\_Upgrade, Upgrade\_Theorems: ecnt\_ImageUpgrade of ecnt\_image.c.
  \<^item> Auth\_Load, Sip\_Svc, Monitor\_Theorems: the monitor side, common/bl\_common.c, drivers/auth/auth\_mod.c,
    plat/ecnt/common/ecnt\_sip\_svc.c and ecnt\_plat\_common.c of the trusted firmware.
  \<^item> Secure\_Boot: both sides of the monitor call together.
  \<^item> Bootargs, Bootargs\_Theorems: the rest of ecnt\_bootargs.c, which builds the kernel command line.
  \<^item> Cmd\_Flash, Cmd\_Theorems: common/ecnt/cmd\_flash.c and cmd\_bootflag.c, whose imgread starts the kernel.
  \<^item> Skbuff: drivers/misc/ecnt/net/skbuff.c, the packet buffers.
  \<^item> Env\_Flash, Env\_Theorems: common/ecnt/env\_flash.c and en7523\_evb\_mtk\_env\_parser.c, the environment in the flash.
  \<^item> Gpio\_Pins, Gpio\_Theorems: mtk\_an7563\_gpio.c, mtk\_an7563\_pinmux.c and mtk\_an7563\_gpioconfig\_parser.c of the trusted firmware, which
    set pins from two variables of the old environment.
  \<^item> Crc32: lib/crc32.c of U-Boot and the checksum of src/tools/trx/trx.c.
  \<^item> Trx, Trx\_Theorems: the program src/tools/trx/trx.c, which builds the images, against the checks of the file upgrade.
  \<^item> Plat\_Pm, Pm\_Theorems: plat/ecnt/en7523/plat\_pm.c and plat\_topology.c of the trusted firmware, which turn cores on and off and restart the
    system, and psci\_affinity\_info, which asks for the state of a core.
  \<^item> Led, Led\_Theorems: drivers/misc/ecnt/gpio.c, time.c and ecnt\_scu.c of U-Boot, the lamps and the timer interrupt.

  \<^bold>\<open>What is shown.\<close>

  \<^item> The bad-block manager keeps logical blocks on different good physical blocks; a block that goes bad is redirected
    with its data and no other block moves; the tables survive a restart; the writers return as long as marking a
    block takes, and a concrete chip shows that they need not return otherwise.
  \<^item> Through the tables the NAND is a byte array: reads return what is stored, writes and erases change exactly
    their range. The flash layer keeps this view for partial writes and unaligned erases, with the exceptions stated as
    theorems of their own (erasing from offset 0, a wrapped range, an unaligned page write).
  \<^item> The receivers (XMODEM, multicast) return for every input, stay inside their buffers and store a
    correct transfer byte for byte; for the multicast receiver this holds wherever in the cycle the round begins.
  \<^item> The partition parser builds the table of a reference definition; the layout gives every partition a piece of its own
    when they fit; the check for tables that do not fit is shown never to fail.
  \<^item> With secure boot a kernel is started, or a file written to the flash, only after the monitor accepted the
    digest of those very bytes; the monitor accepts only after it has verified the whole chain of trust, and is left
    idle by every call.
  \<^item> The boot command loads exactly the bytes that were verified; the command line contains the configured variables, and a second
    start can overflow its array.
  \<^item> A packet buffer is handed out exactly when one is free, and the pool keeps its shape.
  \<^item> A saved environment is what the next start loads; on the first start the old environment is moved without a loss, but the
    search for the variable that asks for it can run over the end of its array.
  \<^item> The registers of the pins refine a table of pins, and the first stage drives exactly the configured pins; without one of its variables it
    reads beyond its array.
  \<^item> The optimised checksums equal the bitwise definition; an image from the image tool is accepted by the boot loader, and a damaged one is refused.
  \<^item> Turning one core on or off leaves the others alone and ends with the acknowledgement of the power controller; a restart arms the watchdog.
  \<^item> The lamps blink with the clock after an upgrade; their start fills the tables, but the power lamp is switched with the wrong polarity.

  \<^bold>\<open>Bounds and fuel.\<close> Loops over blocks and bytes are recursions on lists and numbers. Four kinds of loops
  may run on. The writers of the bad-block manager call themselves again after a failure: they take fuel, and
  write\_bmt\_to\_flash, write\_bbt\_to\_flash and migrate\_from\_bad are shown to return within the number of available blocks plus
  two calls; upd\_fuel of the flash layer passes the fuel on, and is not needed on a chip that reports no fault (hal\_ok). nandflash\_erase
  steps with a 32-bit address: erase\_bound bounds its steps, and hal\_ok asks for as many as the chip has blocks; a
  wrapped range exceeds every bound. The XMODEM loop takes fuel, and the bound for which it returns is part of its theorem.
  The recursion over the chain of trust is bounded by its length.
  alloc\_skb is a partial function: that it returns, and when it does not, is its theorem.
  The bound of first\_boot\_loop is the number of windows; check\_first\_boot\_fuel shows that it is enough.
  find\_config\_loop has fuel for eight windows, one more than the area has.
  The bound of wait\_loop is that of the code, POLLING\_TIMES.

  \<^bold>\<open>Not modelled.\<close> The drivers of Ethernet, PHYs and switch (drivers/misc/ecnt/net apart from the files named here),
  of SPI NOR, of the controllers and ECC below the NAND page driver, and clocks: they consist of
  register accesses whose effect the sources do not describe. The OTP area and the blank-page fix-ups of the NAND driver.
  The test commands. U-Boot proper, the framework of the trusted firmware, libfdt, the hash functions and
  mbed TLS are vendored; where the modelled code calls them they are parameters. The lamps that show a running upgrade, rate limits, cache
  maintenance and console output have no counterpart.
\<close>

end
